(* ===== verification/Prelude.thy ===== *)
theory Prelude
  imports Main "HOL-Library.Word" "HOL-Library.Multiset" "HOL-Library.Numeral_Type"
begin

text \<open>
  Shared vocabulary of the development: bytes, the fixed-length byte arrays behind every id and
  key of the program, the keyed tables that stand for the SQL tables of both databases, and the
  locales for the contracts that more than one component relies on (codecs, cyclic selectors,
  keyed stores).  The lemma collections of the development are declared here.
\<close>

named_theorems table_simps
named_theorems wire_simps
named_theorems handler_defs
named_theorems doc_simps

type_synonym byte = "8 word"
type_synonym bytes = "byte list"

section \<open>Fixed-length byte arrays\<close>

text \<open>The Rust type \<open>[u8; N]\<close>, with the length in the type.\<close>

typedef (overloaded) ('n::len) fixed = "{bs :: bytes. length bs = LENGTH('n)}"
  morphisms as_slice Fixed
proof -
  have "replicate (LENGTH('n)) 0 \<in> {bs :: bytes. length bs = LENGTH('n)}" by simp
  then show ?thesis by blast
qed

setup_lifting type_definition_fixed

lemma length_as_slice [simp]: "length (as_slice (x :: ('n::len) fixed)) = LENGTH('n)"
  using as_slice [of x] by simp

lemma as_slice_eq_iff: "as_slice x = as_slice y \<longleftrightarrow> x = y"
  by (simp add: as_slice_inject)

text \<open>Copying a slice into a zeroed array, as \<open>copy_from_slice\<close> does on a slice of the right
  length, and the array \<open>[b; N]\<close>.\<close>

lift_definition fixed_of_slice :: "bytes \<Rightarrow> ('n::len) fixed"
  is "\<lambda>bs :: bytes. take (LENGTH('n)) (bs @ replicate (LENGTH('n)) (0 :: byte))" by simp

lift_definition fixed_repeat :: "byte \<Rightarrow> ('n::len) fixed"
  is "\<lambda>b :: byte. replicate (LENGTH('n)) b" by simp

lemma as_slice_fixed_of_slice [simp]:
  "length bs = LENGTH('n) \<Longrightarrow> as_slice (fixed_of_slice bs :: ('n::len) fixed) = bs"
  by transfer simp

lemma fixed_of_slice_as_slice [simp]: "fixed_of_slice (as_slice x) = x"
  by (simp add: as_slice_eq_iff [symmetric])

lemma as_slice_fixed_repeat [simp]:
  "as_slice (fixed_repeat b :: ('n::len) fixed) = replicate (LENGTH('n)) b"
  by transfer simp

lemma fixed_repeat_inject [simp]:
  "(fixed_repeat a :: ('n::len) fixed) = fixed_repeat b \<longleftrightarrow> a = b"
  by (simp add: as_slice_eq_iff [symmetric] replicate_eq_replicate)

instantiation fixed :: (len) equal
begin

definition equal_fixed :: "'a fixed \<Rightarrow> 'a fixed \<Rightarrow> bool" where
  "equal_fixed x y \<longleftrightarrow> as_slice x = as_slice y"

instance
  by standard (simp add: equal_fixed_def as_slice_eq_iff)

end

text \<open>The decimal text of a number.\<close>

fun decimal :: "nat \<Rightarrow> string" where
  "decimal n = (if n < 10 then [] else decimal (n div 10)) @ [char_of (48 + n mod 10)]"

declare decimal.simps [simp del]

section \<open>Results\<close>

text \<open>A fallible operation returns a sum, \<open>Inl\<close> for the error.\<close>

fun is_ok :: "'e + 'a \<Rightarrow> bool" where
  "is_ok (Inl _) = False"
| "is_ok (Inr _) = True"

fun map_err :: "('e \<Rightarrow> 'f) \<Rightarrow> 'e + 'a \<Rightarrow> 'f + 'a" where
  "map_err f (Inl e) = Inl (f e)"
| "map_err f (Inr x) = Inr x"

fun ok_or :: "'e \<Rightarrow> 'a option \<Rightarrow> 'e + 'a" where
  "ok_or e None = Inl e"
| "ok_or e (Some x) = Inr x"

lemma is_ok_iff: "is_ok r \<longleftrightarrow> (\<exists>x. r = Inr x)"
  by (cases r) auto

lemma map_err_eq_Inr [simp]: "map_err f r = Inr x \<longleftrightarrow> r = Inr x"
  by (cases r) auto

lemma map_err_eq_Inl [simp]: "map_err f r = Inl e \<longleftrightarrow> (\<exists>d. r = Inl d \<and> e = f d)"
  by (cases r) auto

lemma ok_or_eq_Inr [simp]: "ok_or e p = Inr x \<longleftrightarrow> p = Some x"
  by (cases p) auto

lemma ok_or_eq_Inl [simp]: "ok_or e p = Inl d \<longleftrightarrow> p = None \<and> d = e"
  by (cases p) auto

text \<open>A stateful fallible operation: what it did to the state before an error stays.\<close>

definition sbind :: "('s \<Rightarrow> ('e + 'a) \<times> 's) \<Rightarrow> ('a \<Rightarrow> 's \<Rightarrow> ('e + 'b) \<times> 's) \<Rightarrow> 's \<Rightarrow> ('e + 'b) \<times> 's" where
  "sbind m f s = (case m s of (Inl e, s') \<Rightarrow> (Inl e, s') | (Inr x, s') \<Rightarrow> f x s')"

definition sreturn :: "'a \<Rightarrow> 's \<Rightarrow> ('e + 'a) \<times> 's" where "sreturn x s = (Inr x, s)"

definition sfail :: "'e \<Rightarrow> 's \<Rightarrow> ('e + 'a) \<times> 's" where "sfail e s = (Inl e, s)"

fun for_each :: "('a \<Rightarrow> 's \<Rightarrow> ('e + unit) \<times> 's) \<Rightarrow> 'a list \<Rightarrow> 's \<Rightarrow> ('e + unit) \<times> 's" where
  "for_each f [] = sreturn ()"
| "for_each f (x # xs) = sbind (f x) (\<lambda>_. for_each f xs)"

lemma sbind_Inr: "sbind m f s = (Inr y, s'') \<longleftrightarrow> (\<exists>x s'. m s = (Inr x, s') \<and> f x s' = (Inr y, s''))"
  by (auto simp: sbind_def split: prod.splits sum.splits)

lemma sbind_Inl: "sbind m f s = (Inl e, s'') \<longleftrightarrow>
    m s = (Inl e, s'') \<or> (\<exists>x s'. m s = (Inr x, s') \<and> f x s' = (Inl e, s''))"
  by (auto simp: sbind_def split: prod.splits sum.splits)

lemma sreturn_Inr: "sreturn x s = (Inr y, s') \<longleftrightarrow> y = x \<and> s' = s"
  by (auto simp: sreturn_def)

text \<open>A predicate that an operation keeps, whatever its result.\<close>

definition keeps :: "('s \<Rightarrow> bool) \<Rightarrow> ('s \<Rightarrow> 'r \<times> 's) \<Rightarrow> bool" where
  "keeps I m \<longleftrightarrow> (\<forall>s. I s \<longrightarrow> I (snd (m s)))"

named_theorems keeps_intros

lemma keepsI: "(\<And>s. I s \<Longrightarrow> I (snd (m s))) \<Longrightarrow> keeps I m"
  by (simp add: keeps_def)

lemma keepsD: "keeps I m \<Longrightarrow> I s \<Longrightarrow> m s = (r, s') \<Longrightarrow> I s'"
  by (auto simp: keeps_def dest: spec [of _ s])

lemma keeps_sbind [keeps_intros]: "keeps I m \<Longrightarrow> (\<And>x. keeps I (f x)) \<Longrightarrow> keeps I (sbind m f)"
  by (auto simp: keeps_def sbind_def split: prod.splits sum.splits)

lemma keeps_sreturn [keeps_intros]: "keeps I (sreturn x)"
  by (simp add: keeps_def sreturn_def)

lemma keeps_sfail [keeps_intros]: "keeps I (sfail e)"
  by (simp add: keeps_def sfail_def)

lemma keeps_for_each [keeps_intros]: "(\<And>x. keeps I (f x)) \<Longrightarrow> keeps I (for_each f xs)"
  by (induction xs) (auto intro: keeps_intros)

section \<open>Strings\<close>

text \<open>\<open>str::trim\<close> on ASCII.\<close>

definition is_space :: "char \<Rightarrow> bool" where
  "is_space c \<longleftrightarrow> c \<in> {CHR '' '', CHR 0x09, CHR 0x0A, CHR 0x0B, CHR 0x0C, CHR 0x0D}"

definition trim :: "string \<Rightarrow> string" where
  "trim s = rev (dropWhile is_space (rev (dropWhile is_space s)))"

section \<open>Keyed tables\<close>

text \<open>A SQL table is the list of its rows in insertion order; its primary key is a function of
  the row.\<close>

fun row_get :: "('r \<Rightarrow> 'k) \<Rightarrow> 'k \<Rightarrow> 'r list \<Rightarrow> 'r option" where
  "row_get key k [] = None"
| "row_get key k (r # rs) = (if key r = k then Some r else row_get key k rs)"

text \<open>\<open>INSERT .. ON CONFLICT DO UPDATE\<close>: replace the row with this key, or append.\<close>

fun row_put :: "('r \<Rightarrow> 'k) \<Rightarrow> 'r \<Rightarrow> 'r list \<Rightarrow> 'r list" where
  "row_put key r [] = [r]"
| "row_put key r (s # rs) = (if key s = key r then r # rs else s # row_put key r rs)"

text \<open>\<open>INSERT .. ON CONFLICT DO NOTHING\<close>.\<close>

definition row_add :: "('r \<Rightarrow> 'k) \<Rightarrow> 'r \<Rightarrow> 'r list \<Rightarrow> 'r list" where
  "row_add key r rs = (if row_get key (key r) rs = None then rs @ [r] else rs)"

definition row_del :: "('r \<Rightarrow> 'k) \<Rightarrow> 'k \<Rightarrow> 'r list \<Rightarrow> 'r list" where
  "row_del key k rs = filter (\<lambda>r. key r \<noteq> k) rs"

text \<open>\<open>UPDATE .. SET .. WHERE\<close>.\<close>

definition row_update :: "('r \<Rightarrow> bool) \<Rightarrow> ('r \<Rightarrow> 'r) \<Rightarrow> 'r list \<Rightarrow> 'r list" where
  "row_update p f rs = map (\<lambda>r. if p r then f r else r) rs"

definition keyed :: "('r \<Rightarrow> 'k) \<Rightarrow> 'r list \<Rightarrow> bool" where
  "keyed key rs \<longleftrightarrow> distinct (map key rs)"

lemma row_get_None: "row_get key k rs = None \<longleftrightarrow> k \<notin> key ` set rs"
  by (induction rs) auto

lemma row_get_Some_key: "row_get key k rs = Some r \<Longrightarrow> key r = k \<and> r \<in> set rs"
  by (induction rs) (auto split: if_splits)

lemma row_get_keyed:
  "keyed key rs \<Longrightarrow> r \<in> set rs \<Longrightarrow> row_get key (key r) rs = Some r"
  by (induction rs) (auto simp: keyed_def rev_image_eqI)

lemma row_get_append:
  "row_get key k (rs @ ss) = (case row_get key k rs of None \<Rightarrow> row_get key k ss | Some r \<Rightarrow> Some r)"
  by (induction rs) auto

lemma row_get_put [table_simps]:
  "row_get key k (row_put key r rs) = (if k = key r then Some r else row_get key k rs)"
  by (induction rs) auto

lemma row_get_add [table_simps]:
  "row_get key k (row_add key r rs) =
     (if k = key r \<and> row_get key k rs = None then Some r else row_get key k rs)"
  by (auto simp: row_add_def row_get_append split: option.splits)

lemma row_get_del [table_simps]:
  "row_get key k (row_del key j rs) = (if k = j then None else row_get key k rs)"
  by (induction rs) (auto simp: row_del_def)

lemma row_get_update [table_simps]:
  assumes "\<And>r. key (f r) = key r"
  shows "row_get key k (row_update p f rs) =
           map_option (\<lambda>r. if p r then f r else r) (row_get key k rs)"
  using assms by (induction rs) (auto simp: row_update_def)

lemma row_get_filter:
  assumes "keyed key rs"
  shows "row_get key k (filter p rs) =
           (case row_get key k rs of None \<Rightarrow> None | Some r \<Rightarrow> if p r then Some r else None)"
  using assms
  by (induction rs) (auto simp: keyed_def row_get_None split: option.splits dest!: row_get_Some_key)

lemma key_row_put: "key ` set (row_put key r rs) = insert (key r) (key ` set rs)"
  by (induction rs) auto

lemma keyed_Nil [simp]: "keyed key []"
  by (simp add: keyed_def)

lemma keyed_put [simp]: "keyed key rs \<Longrightarrow> keyed key (row_put key r rs)"
  by (induction rs) (auto simp: keyed_def simp flip: set_map, auto simp: key_row_put)

lemma keyed_add [simp]: "keyed key rs \<Longrightarrow> keyed key (row_add key r rs)"
  by (auto simp: row_add_def keyed_def row_get_None)

lemma keyed_filter [simp]: "keyed key rs \<Longrightarrow> keyed key (filter p rs)"
  by (induction rs) (auto simp: keyed_def)

lemma keyed_del [simp]: "keyed key rs \<Longrightarrow> keyed key (row_del key k rs)"
  by (simp add: row_del_def)

lemma set_row_put_subset: "set (row_put key r rs) \<subseteq> insert r (set rs)"
  by (induction rs) auto

lemma map_key_update: "(\<And>r. key (f r) = key r) \<Longrightarrow> map key (row_update p f rs) = map key rs"
  by (simp add: row_update_def)

lemma key_row_update: "(\<And>r. key (f r) = key r) \<Longrightarrow> key ` set (row_update p f rs) = key ` set rs"
  using map_key_update [of key f p rs] by (metis set_map)

lemma keyed_update [simp]: "(\<And>r. key (f r) = key r) \<Longrightarrow> keyed key rs \<Longrightarrow> keyed key (row_update p f rs)"
  by (simp add: keyed_def map_key_update)

lemma in_row_update: "x \<in> set (row_update p f rs) \<Longrightarrow> x \<in> set rs \<or> (\<exists>r\<in>set rs. p r \<and> x = f r)"
  by (auto simp: row_update_def)

lemma in_row_put: "x \<in> set (row_put key r rs) \<Longrightarrow> x = r \<or> x \<in> set rs"
  using set_row_put_subset [of key r rs] by auto

lemma image_row_put: "f ` set (row_put key r rs) \<subseteq> insert (f r) (f ` set rs)"
  using set_row_put_subset [of key r rs] by auto

lemma image_row_put_subset: "f r \<in> A \<Longrightarrow> f ` set rs \<subseteq> A \<Longrightarrow> f ` set (row_put key r rs) \<subseteq> A"
  by (rule order_trans [OF image_row_put]) simp

lemma ball_row_put: "P r \<Longrightarrow> \<forall>x\<in>set rs. P x \<Longrightarrow> \<forall>x\<in>set (row_put key r rs). P x"
  using in_row_put [of _ key r rs] by blast

lemma row_put_fresh: "row_get key (key r) rs = None \<Longrightarrow> row_put key r rs = rs @ [r]"
  by (induction rs) (auto split: if_splits)

lemma set_row_del [table_simps]: "set (row_del key k rs) = {r \<in> set rs. key r \<noteq> k}"
  by (auto simp: row_del_def)

lemma set_row_add: "set (row_add key r rs) \<subseteq> insert r (set rs)"
  by (auto simp: row_add_def)

lemma row_put_get_same:
  "keyed key rs \<Longrightarrow> row_get key (key r) rs = Some s \<Longrightarrow>
     set (row_put key r rs) = insert r (set rs - {s})"
  by (induction rs) (auto simp: keyed_def image_iff split: if_splits dest: row_get_Some_key)

section \<open>Contracts shared by several components\<close>

text \<open>A codec: what every \<open>encode\<close>/\<open>decode\<close> pair of the program promises.\<close>

locale codec =
  fixes enc :: "'a \<Rightarrow> 'b"
    and dec :: "'b \<Rightarrow> 'a option"
  assumes dec_enc: "dec (enc x) = Some x"
    and enc_dec: "dec w = Some x \<Longrightarrow> enc x = w"
begin

lemma enc_inj: "enc x = enc y \<longleftrightarrow> x = y"
  by (metis dec_enc option.inject)

lemma dec_domain: "dec w \<noteq> None \<longleftrightarrow> w \<in> range enc"
  by (metis dec_enc enc_dec not_None_eq rangeE rangeI)

lemma dec_inj: "dec v = Some x \<Longrightarrow> dec w = Some x \<Longrightarrow> v = w"
  using enc_dec by blast

end

text \<open>A cyclic selector: \<open>fwd\<close> and \<open>bwd\<close> move one position around a ring of \<open>n\<close> positions,
  read by \<open>pos\<close>.\<close>

locale ring_selector =
  fixes pos :: "'s \<Rightarrow> nat" and n :: nat
    and fwd :: "'s \<Rightarrow> 's" and bwd :: "'s \<Rightarrow> 's"
    and valid :: "'s \<Rightarrow> bool"
  assumes pos_bound: "valid s \<Longrightarrow> pos s < n"
    and valid_fwd: "valid s \<Longrightarrow> valid (fwd s)"
    and valid_bwd: "valid s \<Longrightarrow> valid (bwd s)"
    and pos_fwd: "valid s \<Longrightarrow> pos (fwd s) = (pos s + 1) mod n"
    and pos_bwd: "valid s \<Longrightarrow> pos (bwd s) = (pos s + n - 1) mod n"
begin

lemma valid_steps: "valid s \<Longrightarrow> valid ((fwd ^^ k) s)"
  by (induction k) (auto intro: valid_fwd)

lemma pos_steps: "valid s \<Longrightarrow> pos ((fwd ^^ k) s) = (pos s + k) mod n"
  by (induction k) (auto simp: pos_bound pos_fwd valid_steps mod_simps)

lemma ring_returns: "valid s \<Longrightarrow> pos ((fwd ^^ n) s) = pos s"
  using pos_bound [of s] by (simp add: pos_steps)

lemma ring_reaches:
  assumes "valid s" and "j < n"
  shows "\<exists>k<n. pos ((fwd ^^ k) s) = j"
proof -
  let ?k = "(j + n - pos s) mod n"
  have "pos s < n" using assms(1) by (rule pos_bound)
  then have "(pos s + ?k) mod n = (j + n) mod n"
    by (simp add: mod_add_right_eq)
  then show ?thesis
    using assms \<open>pos s < n\<close> by (intro exI [of _ ?k]) (simp add: pos_steps)
qed

lemma bwd_fwd: "valid s \<Longrightarrow> pos (bwd (fwd s)) = pos s"
proof -
  assume v: "valid s"
  then have "pos s < n" by (rule pos_bound)
  then show ?thesis
    using v by (cases "pos s + 1 = n") (auto simp: pos_bwd pos_fwd valid_fwd)
qed

lemma fwd_bwd: "valid s \<Longrightarrow> pos (fwd (bwd s)) = pos s"
proof -
  assume v: "valid s"
  then have "pos s < n" by (rule pos_bound)
  then show ?thesis
    using v by (cases "pos s") (auto simp: pos_bwd pos_fwd valid_bwd)
qed

end

text \<open>A keyed store: what a lookup returns after each write.\<close>

locale keyed_store =
  fixes get :: "'k \<Rightarrow> 'm \<Rightarrow> 'v option"
    and put :: "'k \<Rightarrow> 'v \<Rightarrow> 'm \<Rightarrow> 'm"
    and del :: "'k \<Rightarrow> 'm \<Rightarrow> 'm"
  assumes get_put: "get k (put j v m) = (if k = j then Some v else get k m)"
    and get_del: "get k (del j m) = (if k = j then None else get k m)"
begin

lemma last_put_wins: "get k (put j v (put j u m)) = get k (put j v m)"
  by (simp add: get_put)

lemma puts_commute: "i \<noteq> j \<Longrightarrow> get k (put i u (put j v m)) = get k (put j v (put i u m))"
  by (simp add: get_put)

lemma put_after_del: "get k (put j v (del j m)) = get k (put j v m)"
  by (simp add: get_put get_del)

lemma del_idem: "get k (del j (del j m)) = get k (del j m)"
  by (simp add: get_del)

end

text \<open>SQL's \<open>LIMIT\<close>: a negative limit is no limit.\<close>

definition sql_limit :: "int \<Rightarrow> 'a list \<Rightarrow> 'a list" where
  "sql_limit n xs = (if n < 0 then xs else take (nat n) xs)"

lemma sql_limit_prefix: "sql_limit n xs = take (length (sql_limit n xs)) xs"
  by (simp add: sql_limit_def min_def)

lemma map_sql_limit: "map f (sql_limit n xs) = sql_limit n (map f xs)"
  by (simp add: sql_limit_def take_map)

lemma set_sql_limit: "set (sql_limit n xs) \<subseteq> set xs"
  by (auto simp: sql_limit_def dest: in_set_takeD)

text \<open>A work queue whose rows are claimed in order, then acknowledged or released.\<close>

locale claim_queue =
  fixes invar :: "'q \<Rightarrow> bool"
    and pending :: "'q \<Rightarrow> nat list"
    and claim :: "int \<Rightarrow> 'q \<Rightarrow> nat list \<times> 'q"
    and ack :: "nat \<Rightarrow> 'q \<Rightarrow> 'q"
  assumes pending_distinct: "invar q \<Longrightarrow> distinct (pending q)"
    and claim_rows: "invar q \<Longrightarrow> fst (claim n q) = sql_limit n (pending q)"
    and claim_rest: "invar q \<Longrightarrow> pending (snd (claim n q)) = drop (length (sql_limit n (pending q))) (pending q)"
    and claim_invar: "invar q \<Longrightarrow> invar (snd (claim n q))"
    and ack_pending: "invar q \<Longrightarrow> pending (ack i q) = removeAll i (pending q)"
    and ack_invar: "invar q \<Longrightarrow> invar (ack i q)"
begin

lemma claim_split: "invar q \<Longrightarrow> fst (claim n q) @ pending (snd (claim n q)) = pending q"
  by (metis append_take_drop_id claim_rest claim_rows sql_limit_prefix)

lemma no_double_claim:
  assumes "invar q"
  shows "set (fst (claim m (snd (claim n q)))) \<inter> set (fst (claim n q)) = {}"
proof -
  have "set (fst (claim m (snd (claim n q)))) \<subseteq> set (pending (snd (claim n q)))"
    using assms by (simp add: claim_rows claim_invar set_sql_limit)
  moreover have "distinct (fst (claim n q) @ pending (snd (claim n q)))"
    using assms by (simp add: claim_split pending_distinct)
  ultimately show ?thesis by auto
qed

lemma claim_all: "invar q \<Longrightarrow> n < 0 \<or> int (length (pending q)) \<le> n \<Longrightarrow> pending (snd (claim n q)) = []"
  by (auto simp: claim_rest sql_limit_def)

lemma ack_claimed:
  assumes "invar q" and "i \<in> set (fst (claim n q))"
  shows "pending (ack i (snd (claim n q))) = pending (snd (claim n q))"
proof -
  have "distinct (fst (claim n q) @ pending (snd (claim n q)))"
    using assms by (simp add: claim_split pending_distinct)
  then have "i \<notin> set (pending (snd (claim n q)))" using assms(2) by auto
  then show ?thesis using assms(1) by (simp add: ack_pending claim_invar)
qed

end

end
