(* ===== verification/Wire.thy ===== *)
theory Wire
  imports Prelude
begin

text \<open>
  The crate \<open>todoers-types\<close> (\<open>todoers-types/src/lib.rs\<close>): ids and keys as fixed-length byte
  arrays, the update envelope and the request/response bodies, roles, and the canonical byte views
  that clients sign and servers verify (\<open>aead_aad\<close>, \<open>signing_view\<close>, \<open>device_challenge_view\<close>).
  HMAC-SHA256 is a parameter.
\<close>

unbundle bit_operations_syntax

section \<open>Ids and keys\<close>

type_synonym list_id = "16 fixed"
type_synonym member_id = "16 fixed"
type_synonym device_id = "16 fixed"
type_synonym x25519_pub = "32 fixed"
type_synonym x25519_secret = "32 fixed"
type_synonym ed25519_pub = "32 fixed"
type_synonym ed25519_signing = "32 fixed"
type_synonym signature = "64 fixed"
type_synonym nonce = "24 fixed"
type_synonym dek = "32 fixed"
type_synonym epoch = "64 word"

datatype type_error = InvalidLength

text \<open>The conversions that the macro \<open>impls!\<close> writes for every id and key type: \<open>TryFrom\<close> from a
  vector or a slice, \<open>From\<close> into a vector, and the database decoder, which checks the length
  itself before copying into a zeroed array.\<close>

definition fixed_try_from :: "bytes \<Rightarrow> type_error + ('n::len) fixed" where
  "fixed_try_from bs =
     (if length bs = LENGTH('n) then Inr (fixed_of_slice bs) else Inl InvalidLength)"

definition fixed_to_vec :: "('n::len) fixed \<Rightarrow> bytes" where
  "fixed_to_vec x = as_slice x"

definition fixed_db_decode :: "bytes \<Rightarrow> type_error + ('n::len) fixed" where
  "fixed_db_decode bs =
     (if length bs \<noteq> LENGTH('n) then Inl InvalidLength
      else (let slice = (fixed_of_slice bs :: 'n fixed) in Inr slice))"

definition fixed_new_with :: "(unit \<Rightarrow> ('n::len) fixed) \<Rightarrow> 'n fixed" where
  "fixed_new_with f = f ()"

definition fixed_try_new_with :: "(unit \<Rightarrow> 'e + ('n::len) fixed) \<Rightarrow> 'e + 'n fixed" where
  "fixed_try_new_with f = (case f () of Inl e \<Rightarrow> Inl e | Inr k \<Rightarrow> Inr k)"

text \<open>\<open>generate\<close> fills a zeroed array from a random generator, which is a parameter here.\<close>

definition fixed_generate :: "('g \<Rightarrow> nat \<Rightarrow> bytes \<times> 'g) \<Rightarrow> 'g \<Rightarrow> ('n::len) fixed \<times> 'g" where
  "fixed_generate fill g = (let (bs, g') = fill g (LENGTH('n)) in (fixed_of_slice bs, g'))"

interpretation fixed_codec:
  codec fixed_to_vec "\<lambda>bs. case fixed_try_from bs of Inl _ \<Rightarrow> None | Inr x \<Rightarrow> Some x"
  by unfold_locales
     (auto simp: fixed_to_vec_def fixed_try_from_def split: if_splits)

lemma fixed_try_from_Inr [wire_simps]:
  "fixed_try_from bs = Inr (x :: ('n::len) fixed) \<longleftrightarrow> bs = as_slice x"
  by (auto simp: fixed_try_from_def)

lemma fixed_try_from_Inl [wire_simps]:
  "(fixed_try_from bs :: type_error + ('n::len) fixed) = Inl e \<longleftrightarrow> length bs \<noteq> LENGTH('n)"
  by (cases e) (auto simp: fixed_try_from_def)

lemma fixed_db_decode_eq: "fixed_db_decode bs = fixed_try_from bs"
  by (simp add: fixed_db_decode_def fixed_try_from_def)

text \<open>\<open>MemberId::from_identity_pub\<close> and \<open>DeviceId::from_identity_pub\<close>: the first 16 bytes of an
  HMAC under a fixed 32-byte label.\<close>

definition ascii :: "string \<Rightarrow> bytes" where
  "ascii s = map (\<lambda>c. of_nat (of_char c)) s"

lemma length_ascii [simp]: "length (ascii s) = length s"
  by (simp add: ascii_def)

definition member_id_from_identity_pub :: "(bytes \<Rightarrow> bytes \<Rightarrow> bytes) \<Rightarrow> x25519_pub \<Rightarrow> member_id" where
  "member_id_from_identity_pub hmac pk =
     (let mac = hmac (ascii ''todoers:member-id:identity:v0001'') (as_slice pk)
      in fixed_of_slice (take 16 mac))"

definition device_id_from_identity_pub :: "(bytes \<Rightarrow> bytes \<Rightarrow> bytes) \<Rightarrow> x25519_pub \<Rightarrow> device_id" where
  "device_id_from_identity_pub hmac pk =
     (let mac = hmac (ascii ''todoers:device-id:identity:v0001'') (as_slice pk)
      in fixed_of_slice (take 16 mac))"

section \<open>Little-endian epochs\<close>

definition to_le_bytes :: "64 word \<Rightarrow> bytes" where
  "to_le_bytes w = map (\<lambda>i. ucast (drop_bit (8 * i) w)) [0..<8]"

definition from_le_bytes :: "bytes \<Rightarrow> 64 word" where
  "from_le_bytes bs = foldr (\<lambda>b acc. push_bit 8 acc OR ucast b) bs 0"

lemma length_to_le_bytes [simp]: "length (to_le_bytes w) = 8"
  by (simp add: to_le_bytes_def)

lemma le_bytes_step:
  "push_bit 8 (take_bit (8 * k) (drop_bit 8 w)) OR take_bit 8 w = take_bit (8 * Suc k) (w :: 64 word)"
  by (rule bit_word_eqI) (auto simp: bit_simps)

lemma from_le_bytes_prefix:
  "from_le_bytes (map (\<lambda>i. ucast (drop_bit (8 * i) w)) [0..<k]) = take_bit (8 * k) (w :: 64 word)"
proof (induction k arbitrary: w)
  case 0
  then show ?case by (simp add: from_le_bytes_def)
next
  case (Suc k)
  have low: "(ucast (ucast w :: byte) :: 64 word) = take_bit 8 w"
    by (rule bit_word_eqI) (auto simp: bit_simps)
  have "map (\<lambda>i. ucast (drop_bit (8 * i) w) :: byte) [0..<Suc k] =
          ucast w # map (\<lambda>i. ucast (drop_bit (8 * i) (drop_bit 8 w))) [0..<k]"
    by (simp add: upt_conv_Cons map_Suc_upt [symmetric] add.commute del: upt_Suc)
  then have "from_le_bytes (map (\<lambda>i. ucast (drop_bit (8 * i) w)) [0..<Suc k]) =
          push_bit 8 (take_bit (8 * k) (drop_bit 8 w)) OR take_bit 8 w"
    using Suc.IH [of "drop_bit 8 w"] by (simp add: from_le_bytes_def low del: upt_Suc)
  then show ?case by (simp only: le_bytes_step)
qed

lemma from_le_bytes_to_le_bytes: "from_le_bytes (to_le_bytes w) = w"
  using from_le_bytes_prefix [of w 8]
  by (simp add: to_le_bytes_def take_bit_word_eq_self del: upt_Suc)

lemma to_le_bytes_inject [simp]: "to_le_bytes v = to_le_bytes w \<longleftrightarrow> v = w"
  by (metis from_le_bytes_to_le_bytes)

section \<open>The update envelope and list metadata\<close>

text \<open>The CHECK constraint both databases put on an epoch column.\<close>

definition epoch_check :: "epoch \<Rightarrow> bool" where
  "epoch_check e \<longleftrightarrow> 1 \<le> sint e"

record update_payload =
  up_version :: byte
  up_list_id :: list_id
  up_epoch :: epoch
  up_author :: member_id
  up_nonce :: nonce
  up_ciphertext :: bytes
  up_signature :: signature

record stored_update =
  su_seq :: int
  su_payload :: update_payload

datatype role = Owner | Member

definition role_from_string :: "string \<Rightarrow> role" where
  "role_from_string s = (if s = ''owner'' then Owner else Member)"

fun role_as_str :: "role \<Rightarrow> string" where
  "role_as_str Owner = ''owner''"
| "role_as_str Member = ''member''"

record member =
  mem_id :: member_id
  mem_identity_pub :: x25519_pub
  mem_signing_pub :: ed25519_pub
  mem_role :: role

record key_slot =
  ks_epoch :: epoch
  ks_member :: member_id
  ks_wrapped_dek :: bytes

record list_metadata =
  lm_version :: byte
  lm_list_id :: list_id
  lm_current_epoch :: epoch
  lm_snapshot_seq :: nat
  lm_members :: "member list"
  lm_key_slots :: "key_slot list"
  lm_encrypted_name :: "bytes option"

section \<open>Request and response bodies\<close>

record append_update =
  au_list_id :: list_id
  au_version :: byte
  au_epoch :: epoch
  au_author :: member_id
  au_nonce :: nonce
  au_ciphertext :: bytes
  au_signature :: signature

record stored_update_dto =
  sd_seq :: int
  sd_epoch :: epoch
  sd_author :: member_id
  sd_nonce :: nonce
  sd_ciphertext :: bytes
  sd_signature :: signature

record pull_params =
  pp_list_id :: list_id
  pp_after :: int
  pp_limit :: int

definition default_limit :: int where "default_limit = 500"

record snapshot_dto =
  sn_epoch :: epoch
  sn_covers_seq :: int
  sn_nonce :: nonce
  sn_ciphertext :: bytes
  sn_signature :: signature

record put_snapshot =
  ps_list_id :: list_id
  ps_epoch :: epoch
  ps_covers_seq :: int
  ps_nonce :: nonce
  ps_ciphertext :: bytes
  ps_signature :: signature

record create_list_request =
  cl_list_id :: list_id
  cl_wrapped_dek :: bytes

record key_slot_dto =
  kd_epoch :: epoch
  kd_wrapped_dek :: bytes

record metadata_response =
  md_list_id :: list_id
  md_current_epoch :: epoch
  md_snapshot :: "snapshot_dto option"
  md_members :: "member list"

record add_member_request =
  am_list_id :: list_id
  am_member_id :: member_id
  am_role :: role
  am_wrapped_dek :: bytes
  am_epoch :: epoch

record key_slot_entry =
  ke_member_id :: member_id
  ke_wrapped_dek :: bytes

record remove_member_request =
  rm_list_id :: list_id
  rm_remove_member_id :: member_id
  rm_epoch :: epoch
  rm_new_slots :: "key_slot_entry list"

record user_pubkeys =
  uk_member_id :: member_id
  uk_identity_pub :: x25519_pub
  uk_signing_pub :: ed25519_pub

record start_register_request =
  sr_identity_pub :: x25519_pub
  sr_registration_req :: bytes

record finish_register_request =
  fr_username :: string
  fr_identity_pub :: x25519_pub
  fr_signing_pub :: ed25519_pub
  fr_wrapped_secret_keys :: bytes
  fr_registration_up :: bytes

record login_finish_response =
  lf_token :: string
  lf_member_id :: member_id
  lf_identity_pub :: x25519_pub
  lf_signing_pub :: ed25519_pub
  lf_wrapped_secret_keys :: bytes

record device_login_response =
  df_token :: string
  df_member_id :: member_id
  df_identity_pub :: x25519_pub
  df_signing_pub :: ed25519_pub

section \<open>Canonical views\<close>

definition aead_aad :: "byte \<Rightarrow> list_id \<Rightarrow> epoch \<Rightarrow> member_id \<Rightarrow> nonce \<Rightarrow> bytes" where
  "aead_aad version list_id epoch author nonce =
     [version] @ as_slice list_id @ to_le_bytes epoch @ as_slice author @ as_slice nonce"

definition signing_view :: "byte \<Rightarrow> list_id \<Rightarrow> epoch \<Rightarrow> member_id \<Rightarrow> nonce \<Rightarrow> bytes \<Rightarrow> bytes" where
  "signing_view version list_id epoch author nonce ciphertext =
     aead_aad version list_id epoch author nonce @ ciphertext"

definition device_challenge_version :: byte where "device_challenge_version = 1"

definition device_challenge_domain :: bytes where
  "device_challenge_domain = ascii ''todoers:device-challenge:v1''"

definition device_challenge_view :: "byte \<Rightarrow> member_id \<Rightarrow> device_id \<Rightarrow> nonce \<Rightarrow> bytes" where
  "device_challenge_view version member_id device_id nonce =
     device_challenge_domain @ [version] @ as_slice member_id @ as_slice device_id @ as_slice nonce"

lemma length_aead_aad: "length (aead_aad v l e a n) = 65"
  by (simp add: aead_aad_def)

lemma length_device_challenge_view: "length (device_challenge_view v m d n) = 84"
  by (simp add: device_challenge_view_def device_challenge_domain_def)

lemma aead_aad_inject:
  "aead_aad v l e a n = aead_aad v' l' e' a' n' \<longleftrightarrow>
     v = v' \<and> l = l' \<and> e = e' \<and> a = a' \<and> n = n'"
  by (auto simp: aead_aad_def as_slice_eq_iff append_eq_append_conv)

text \<open>The bytes that an author signs determine every field of the update: two updates have the
  same signing view only if version, list, epoch, author, nonce and ciphertext all agree, so a
  signature cannot be moved to another list, epoch or author.\<close>

lemma signing_view_inject:
  "signing_view v l e a n c = signing_view v' l' e' a' n' c' \<longleftrightarrow>
     v = v' \<and> l = l' \<and> e = e' \<and> a = a' \<and> n = n' \<and> c = c'"
  by (auto simp: signing_view_def append_eq_append_conv length_aead_aad aead_aad_inject)

text \<open>An update signature is never a device-login signature: unless the update claims the
  version byte 0x74 (the letter t that opens the challenge domain) and carries a ciphertext of
  exactly 19 bytes, its signing view differs from every device challenge view.\<close>

lemma challenge_domain_separated:
  assumes "v \<noteq> 0x74 \<or> length c \<noteq> 19"
  shows "signing_view v l e a n c \<noteq> device_challenge_view w m d k"
proof
  assume eq: "signing_view v l e a n c = device_challenge_view w m d k"
  have "hd (signing_view v l e a n c) = v" by (simp add: signing_view_def aead_aad_def)
  moreover have "hd (device_challenge_view w m d k) = 0x74"
    by (simp add: device_challenge_view_def device_challenge_domain_def ascii_def)
  ultimately have "v = 0x74" using eq by simp
  moreover have "65 + length c = 84"
    using arg_cong [OF eq, of length]
    by (simp add: length_device_challenge_view signing_view_def length_aead_aad)
  ultimately show False using assms by simp
qed

end
