(* ===== verification/Model.thy ===== *)
theory Model
  imports Wire "HOL-Library.List_Lexorder" "HOL-Library.Char_ord" "HOL-Library.Product_Lexorder"
begin

text \<open>
  The client's domain types (\<open>todoers-client/src/model.rs\<close>) and the two sort routines of the store
  that order them (\<open>sort_summaries\<close>, \<open>sort_items\<close> of \<open>todoers-client/src/store.rs\<close>).  Strings are
  lists of ASCII characters.  The calendar of the \<open>time\<close> crate is a parameter; what the code relies
  on is \<open>calendar_ok\<close>.
\<close>

section \<open>Priority\<close>

datatype priority = PNone | Low | Med | High

fun priority_rank :: "priority \<Rightarrow> int" where
  "priority_rank PNone = 0"
| "priority_rank Low = 1"
| "priority_rank Med = 2"
| "priority_rank High = 3"

definition priority_from_rank :: "int \<Rightarrow> priority" where
  "priority_from_rank n =
     (if n = 1 then Low else if n = 2 then Med else if n = 3 then High else PNone)"

definition priority_next :: "priority \<Rightarrow> priority" where
  "priority_next p = priority_from_rank ((priority_rank p + 1) mod 4)"

definition priority_prev :: "priority \<Rightarrow> priority" where
  "priority_prev p = priority_from_rank ((priority_rank p + 3) mod 4)"

lemma priority_from_rank_rank [simp]: "priority_from_rank (priority_rank p) = p"
  by (cases p) (simp_all add: priority_from_rank_def)

lemma priority_rank_inject [simp]: "priority_rank p = priority_rank q \<longleftrightarrow> p = q"
  by (metis priority_from_rank_rank)

lemma priority_rank_range: "0 \<le> priority_rank p \<and> priority_rank p < 4"
  by (cases p) simp_all

lemma priority_rank_from_rank:
  "priority_rank (priority_from_rank n) = (if 0 \<le> n \<and> n < 4 then n else 0)"
  by (auto simp: priority_from_rank_def)

instantiation priority :: linorder
begin

definition less_eq_priority :: "priority \<Rightarrow> priority \<Rightarrow> bool" where
  "less_eq_priority p q \<longleftrightarrow> priority_rank p \<le> priority_rank q"

definition less_priority :: "priority \<Rightarrow> priority \<Rightarrow> bool" where
  "less_priority p q \<longleftrightarrow> priority_rank p < priority_rank q"

instance
  by standard (auto simp: less_eq_priority_def less_priority_def)

end

interpretation priority_ring:
  ring_selector "\<lambda>p. nat (priority_rank p)" 4 priority_next priority_prev "\<lambda>_. True"
  by unfold_locales
     (auto simp: priority_next_def priority_prev_def priority_from_rank_def
       split: priority.splits intro: priority.exhaust, (case_tac s; simp)+)

section \<open>Items\<close>

text \<open>An \<open>OffsetDateTime\<close>: local day number (0 is 1970-01-01), nanoseconds within the local day, and
  the UTC offset in seconds.  Comparison is by instant.\<close>

record odt =
  odt_day :: int
  odt_nanos :: int
  odt_off :: int

definition instant :: "odt \<Rightarrow> int" where
  "instant t = (odt_day t * 86400 - odt_off t) * 1000000000 + odt_nanos t"

definition odt_unix :: "odt \<Rightarrow> int" where
  "odt_unix t = instant t div 1000000000"

definition odt_of_unix :: "int \<Rightarrow> odt" where
  "odt_of_unix ts = \<lparr> odt_day = ts div 86400, odt_nanos = (ts mod 86400) * 1000000000, odt_off = 0 \<rparr>"

lemma odt_unix_of_unix [simp]: "odt_unix (odt_of_unix ts) = ts"
  by (simp add: odt_unix_def odt_of_unix_def instant_def)

record subtask =
  st_id :: string
  st_title :: string
  st_done :: bool

record subtask_row =
  sr_item_id :: string
  sr_id :: string
  sr_title :: string
  sr_done :: bool

definition subtask_of_row :: "subtask_row \<Rightarrow> subtask" where
  "subtask_of_row r = \<lparr> st_id = sr_id r, st_title = sr_title r, st_done = sr_done r \<rparr>"

record todo_item =
  ti_id :: string
  ti_title :: string
  ti_notes :: string
  ti_due :: "odt option"
  ti_priority :: priority
  ti_done :: bool
  ti_tags :: "string list"
  ti_subtasks :: "subtask list"
  ti_order_key :: string

record todo_item_row =
  tr_id :: string
  tr_title :: string
  tr_notes :: string
  tr_due_at :: "int option"
  tr_priority :: int
  tr_done :: bool
  tr_tags :: string
  tr_order_key :: string

text \<open>The read-model conversion.  Parsing the JSON tag array is a parameter (\<open>serde_json\<close>);
  \<open>unwrap_or_default\<close> turns a failure into no tags.\<close>

definition todo_item_of_row ::
    "(string \<Rightarrow> string list option) \<Rightarrow> todo_item_row \<times> subtask list \<Rightarrow> todo_item" where
  "todo_item_of_row parse_tags rs =
     (let (row, subtasks) = rs in
      \<lparr> ti_id = tr_id row,
        ti_title = tr_title row,
        ti_notes = tr_notes row,
        ti_due = map_option odt_of_unix (tr_due_at row),
        ti_priority = priority_from_rank (tr_priority row),
        ti_done = tr_done row,
        ti_tags = (case parse_tags (tr_tags row) of None \<Rightarrow> [] | Some ts \<Rightarrow> ts),
        ti_subtasks = subtasks,
        ti_order_key = tr_order_key row \<rparr>)"

record todo_item_input =
  in_title :: string
  in_notes :: string
  in_due :: "odt option"
  in_priority :: priority
  in_tags :: "string list"

section \<open>Meta-lists\<close>

datatype meta_list = AllTasks | DueToday | DueThisWeek | DueThisMonth

definition meta_list_all :: "meta_list list" where
  "meta_list_all = [AllTasks, DueToday, DueThisWeek, DueThisMonth]"

fun meta_list_label :: "meta_list \<Rightarrow> string" where
  "meta_list_label AllTasks = ''All Tasks''"
| "meta_list_label DueThisWeek = ''Due this week''"
| "meta_list_label DueToday = ''Due Today''"
| "meta_list_label DueThisMonth = ''Due this month''"

text \<open>The calendar functions of the \<open>time\<close> crate: weekday as days from Monday, year and month of a
  day, day of the month, and the length of a month.\<close>

record calendar =
  cal_from_monday :: "int \<Rightarrow> int"
  cal_year_month :: "int \<Rightarrow> int \<times> int"
  cal_mday :: "int \<Rightarrow> int"
  cal_days_in_month :: "int \<times> int \<Rightarrow> int"

definition calendar_ok :: "calendar \<Rightarrow> bool" where
  "calendar_ok cal \<longleftrightarrow>
     (\<forall>d. 0 \<le> cal_from_monday cal d \<and> cal_from_monday cal d \<le> 6 \<and>
          1 \<le> cal_mday cal d \<and> cal_mday cal d \<le> cal_days_in_month cal (cal_year_month cal d))"

definition end_of_day :: "odt \<Rightarrow> odt" where
  "end_of_day d = d\<lparr> odt_nanos := (23 * 3600 + 59 * 60 + 59) * 1000000000 \<rparr>"

text \<open>\<open>replace_day\<close> stays in the month, so it moves the day number by the difference of the days of
  the month.\<close>

definition replace_day :: "calendar \<Rightarrow> odt \<Rightarrow> int \<Rightarrow> odt" where
  "replace_day cal t k = t\<lparr> odt_day := odt_day t + (k - cal_mday cal (odt_day t)) \<rparr>"

fun due_before :: "calendar \<Rightarrow> meta_list \<Rightarrow> odt \<Rightarrow> odt option" where
  "due_before cal AllTasks now = None"
| "due_before cal DueToday now = Some (end_of_day now)"
| "due_before cal DueThisWeek now =
     (let from_monday = cal_from_monday cal (odt_day now)
      in Some (end_of_day (now\<lparr> odt_day := odt_day now + (6 - from_monday) \<rparr>)))"
| "due_before cal DueThisMonth now =
     (let last = cal_days_in_month cal (cal_year_month cal (odt_day now))
      in Some (end_of_day (replace_day cal now last)))"

definition meta_contains :: "calendar \<Rightarrow> meta_list \<Rightarrow> odt option \<Rightarrow> odt \<Rightarrow> bool" where
  "meta_contains cal m due now =
     (case due_before cal m now of
        None \<Rightarrow> True
      | Some bound \<Rightarrow> (case due of None \<Rightarrow> False | Some d \<Rightarrow> instant d \<le> instant bound))"

section \<open>Sort modes\<close>

datatype sort_mode = Alphabetical | DueDate | Priority

definition sort_mode_all :: "sort_mode list" where
  "sort_mode_all = [Alphabetical, DueDate, Priority]"

fun position :: "'a \<Rightarrow> 'a list \<Rightarrow> nat option" where
  "position x [] = None"
| "position x (y # ys) = (if y = x then Some 0 else map_option Suc (position x ys))"

definition sort_mode_next :: "sort_mode \<Rightarrow> sort_mode" where
  "sort_mode_next m =
     (let all = sort_mode_all;
          i = (case position m all of None \<Rightarrow> 0 | Some i \<Rightarrow> i)
      in all ! ((i + 1) mod length all))"

text \<open>The dash of the first label is U+2013, three UTF-8 bytes.\<close>

fun sort_mode_label :: "sort_mode \<Rightarrow> string" where
  "sort_mode_label Alphabetical = ''A'' @ [CHR 0xE2, CHR 0x80, CHR 0x93] @ ''Z''"
| "sort_mode_label DueDate = ''due date''"
| "sort_mode_label Priority = ''priority''"

interpretation sort_mode_ring:
  ring_selector "\<lambda>m. the (position m sort_mode_all)" 3 sort_mode_next
    "\<lambda>m. sort_mode_next (sort_mode_next m)" "\<lambda>_. True"
  by unfold_locales (case_tac s; simp add: sort_mode_next_def sort_mode_all_def)+

record list_summary =
  ls_id :: list_id
  ls_name :: string
  ls_role :: role
  ls_open_count :: nat
  ls_next_due :: "odt option"
  ls_top_priority :: priority

datatype sidebar_entry = EntryMeta meta_list | EntryList list_summary

datatype view_target = TargetMeta meta_list | TargetList list_id

section \<open>Stable sorting\<close>

datatype ordering = Less | Equal | Greater

definition cmp :: "'a::linorder \<Rightarrow> 'a \<Rightarrow> ordering" where
  "cmp x y = (if x < y then Less else if x = y then Equal else Greater)"

text \<open>Rust's \<open>sort_by\<close> is stable; an insertion sort that never moves an element over an equal one
  has the same result.\<close>

fun insert_by :: "('a \<Rightarrow> 'a \<Rightarrow> ordering) \<Rightarrow> 'a \<Rightarrow> 'a list \<Rightarrow> 'a list" where
  "insert_by c x [] = [x]"
| "insert_by c x (y # ys) = (if c x y = Greater then y # insert_by c x ys else x # y # ys)"

definition sort_by :: "('a \<Rightarrow> 'a \<Rightarrow> ordering) \<Rightarrow> 'a list \<Rightarrow> 'a list" where
  "sort_by c xs = foldr (insert_by c) xs []"

text \<open>A comparator that compares by a key: sorting by it is sorting by the key, hence a stable
  permutation.\<close>

locale keyed_comparator =
  fixes c :: "'a \<Rightarrow> 'a \<Rightarrow> ordering" and key :: "'a \<Rightarrow> 'k::linorder"
  assumes c_key: "c x y = Greater \<longleftrightarrow> key y < key x"
begin

lemma insert_by_key: "insert_by c x xs = insort_key key x xs"
  by (induction xs) (auto simp: c_key)

lemma sort_by_key: "sort_by c xs = sort_key key xs"
proof -
  have "insert_by c = insort_key key" by (intro ext insert_by_key)
  then show ?thesis by (simp add: sort_by_def sort_key_def)
qed

lemma sort_by_spec:
  "mset (sort_by c xs) = mset xs \<and> sorted (map key (sort_by c xs)) \<and>
   filter (\<lambda>x. key x = k) (sort_by c xs) = filter (\<lambda>x. key x = k) xs"
  by (simp add: sort_by_key sort_key_stable)

end

definition lower_char :: "char \<Rightarrow> char" where
  "lower_char ch =
     (if CHR ''A'' \<le> ch \<and> ch \<le> CHR ''Z'' then char_of (of_char ch + 32 :: nat) else ch)"

definition to_lowercase :: "string \<Rightarrow> string" where
  "to_lowercase s = map lower_char s"

definition due_cmp :: "ordering \<Rightarrow> odt option \<Rightarrow> odt option \<Rightarrow> ordering" where
  "due_cmp both_none a b =
     (case (a, b) of
        (Some x, Some y) \<Rightarrow> cmp (instant x) (instant y)
      | (Some _, None) \<Rightarrow> Less
      | (None, Some _) \<Rightarrow> Greater
      | (None, None) \<Rightarrow> both_none)"

definition summary_cmp :: "sort_mode \<Rightarrow> list_summary \<Rightarrow> list_summary \<Rightarrow> ordering" where
  "summary_cmp mode a b =
     (case mode of
        Alphabetical \<Rightarrow> cmp (to_lowercase (ls_name a)) (to_lowercase (ls_name b))
      | DueDate \<Rightarrow> due_cmp (cmp (to_lowercase (ls_name a)) (to_lowercase (ls_name b)))
                           (ls_next_due a) (ls_next_due b)
      | Priority \<Rightarrow> cmp (priority_rank (ls_top_priority b)) (priority_rank (ls_top_priority a)))"

definition sort_summaries :: "list_summary list \<Rightarrow> sort_mode \<Rightarrow> list_summary list" where
  "sort_summaries rows mode = sort_by (summary_cmp mode) rows"

definition item_cmp :: "sort_mode \<Rightarrow> list_id \<times> todo_item \<Rightarrow> list_id \<times> todo_item \<Rightarrow> ordering" where
  "item_cmp mode a b =
     (case mode of
        Alphabetical \<Rightarrow> cmp (to_lowercase (ti_title (snd a))) (to_lowercase (ti_title (snd b)))
      | DueDate \<Rightarrow> due_cmp Equal (ti_due (snd a)) (ti_due (snd b))
      | Priority \<Rightarrow> cmp (priority_rank (ti_priority (snd b))) (priority_rank (ti_priority (snd a))))"

definition sort_items :: "(list_id \<times> todo_item) list \<Rightarrow> sort_mode \<Rightarrow> (list_id \<times> todo_item) list" where
  "sort_items items mode = sort_by (item_cmp mode) items"

text \<open>The keys that the comparators compare by.\<close>

definition due_key :: "odt option \<Rightarrow> int \<times> int" where
  "due_key d = (case d of None \<Rightarrow> (1, 0) | Some t \<Rightarrow> (0, instant t))"

fun summary_key :: "sort_mode \<Rightarrow> list_summary \<Rightarrow> (int \<times> int) \<times> string" where
  "summary_key Alphabetical a = ((0, 0), to_lowercase (ls_name a))"
| "summary_key DueDate a =
     (due_key (ls_next_due a), if ls_next_due a = None then to_lowercase (ls_name a) else [])"
| "summary_key Priority a = ((0, - priority_rank (ls_top_priority a)), [])"

fun item_key :: "sort_mode \<Rightarrow> list_id \<times> todo_item \<Rightarrow> (int \<times> int) \<times> string" where
  "item_key Alphabetical a = ((0, 0), to_lowercase (ti_title (snd a)))"
| "item_key DueDate a = (due_key (ti_due (snd a)), [])"
| "item_key Priority a = ((0, - priority_rank (ti_priority (snd a))), [])"

lemma cmp_Greater [simp]: "cmp x y = Greater \<longleftrightarrow> y < x"
  by (auto simp: cmp_def)

interpretation summary_order: keyed_comparator "summary_cmp mode" "summary_key mode" for mode
  by unfold_locales
     (cases mode; auto simp: summary_cmp_def due_cmp_def due_key_def less_prod_def' split: option.splits)

interpretation item_order: keyed_comparator "item_cmp mode" "item_key mode" for mode
  by unfold_locales
     (cases mode; auto simp: item_cmp_def due_cmp_def due_key_def less_prod_def' split: option.splits)

section \<open>Properties\<close>

text \<open>Sorting a view never loses, duplicates or invents an item, orders the items by the key of
  the mode (title in lower case; dated before undated and by due instant; highest priority first),
  and keeps items with equal keys in their previous order.\<close>

lemma sort_items_spec:
  "mset (sort_items items mode) = mset items \<and>
   sorted (map (item_key mode) (sort_items items mode)) \<and>
   filter (\<lambda>x. item_key mode x = k) (sort_items items mode) = filter (\<lambda>x. item_key mode x = k) items"
  unfolding sort_items_def by (rule item_order.sort_by_spec)

lemma sort_summaries_spec:
  "mset (sort_summaries rows mode) = mset rows \<and>
   sorted (map (summary_key mode) (sort_summaries rows mode)) \<and>
   filter (\<lambda>x. summary_key mode x = k) (sort_summaries rows mode) =
     filter (\<lambda>x. summary_key mode x = k) rows"
  unfolding sort_summaries_def by (rule summary_order.sort_by_spec)

lemma instant_end_of_day_shift:
  "instant (end_of_day (t\<lparr> odt_day := d \<rparr>)) = instant (end_of_day t) + (d - odt_day t) * 86400 * 1000000000"
  by (simp add: instant_def end_of_day_def algebra_simps)

lemma instant_end_of_day_le:
  "instant (end_of_day (t\<lparr> odt_day := d \<rparr>)) \<le> instant (end_of_day (t\<lparr> odt_day := e \<rparr>)) \<longleftrightarrow> d \<le> e"
  by (simp add: instant_def end_of_day_def)

lemma instant_end_of_day_later:
  "odt_day t \<le> d \<Longrightarrow> instant (end_of_day t) \<le> instant (end_of_day (t\<lparr> odt_day := d \<rparr>))"
  by (simp add: instant_end_of_day_shift)

lemma due_bounds:
  "due_before cal DueThisWeek now =
     Some (end_of_day (now\<lparr> odt_day := odt_day now + (6 - cal_from_monday cal (odt_day now)) \<rparr>))"
  "due_before cal DueThisMonth now =
     Some (end_of_day (now\<lparr> odt_day := odt_day now +
       (cal_days_in_month cal (cal_year_month cal (odt_day now)) - cal_mday cal (odt_day now)) \<rparr>))"
  by (simp_all add: Let_def replace_day_def)

text \<open>What is due today shows in every other dated view, whatever the date: the end of the week
  and the end of the month are never before the end of the day.\<close>

lemma due_today_in_every_view:
  assumes "calendar_ok cal" and "meta_contains cal DueToday due now"
  shows "meta_contains cal m due now"
proof -
  let ?d = "odt_day now"
  have nonneg: "0 \<le> 6 - cal_from_monday cal ?d"
    "0 \<le> cal_days_in_month cal (cal_year_month cal ?d) - cal_mday cal ?d"
    using assms(1) by (simp_all add: calendar_ok_def)
  obtain t where t: "due = Some t" and le: "instant t \<le> instant (end_of_day now)"
    using assms(2) by (cases due) (auto simp: meta_contains_def)
  have bound: "instant t \<le> instant (end_of_day (now\<lparr> odt_day := odt_day now + k \<rparr>))" if "0 \<le> k" for k
    using le that by (intro order_trans [OF le instant_end_of_day_later]) simp
  show ?thesis
  proof (cases m)
    case DueThisWeek
    then show ?thesis
      using bound [OF nonneg(1)] by (simp add: meta_contains_def t due_bounds del: due_before.simps(3,4))
  next
    case DueThisMonth
    then show ?thesis
      using bound [OF nonneg(2)] by (simp add: meta_contains_def t due_bounds del: due_before.simps(3,4))
  qed (use le in \<open>simp_all add: meta_contains_def t\<close>)
qed

text \<open>A calendar of twelve 30-day months, for the witnesses.\<close>

definition month30 :: calendar where
  "month30 = \<lparr> cal_from_monday = (\<lambda>d. (d + 3) mod 7), cal_year_month = (\<lambda>d. (d div 360, d mod 360 div 30)),
     cal_mday = (\<lambda>d. d mod 30 + 1), cal_days_in_month = (\<lambda>_. 30) \<rparr>"

lemma month30_ok: "calendar_ok month30"
  by (auto simp: calendar_ok_def month30_def)

text \<open>The week view is contained in the month view exactly on the days whose remaining week does
  not run past the end of the month; in the last week of a month the code shows tasks under the
  week that the month view does not show.\<close>

lemma week_within_month_iff:
  assumes "calendar_ok cal"
  shows "(\<forall>due. meta_contains cal DueThisWeek due now \<longrightarrow> meta_contains cal DueThisMonth due now) \<longleftrightarrow>
         6 - cal_from_monday cal (odt_day now) \<le>
           cal_days_in_month cal (cal_year_month cal (odt_day now)) - cal_mday cal (odt_day now)"
    (is "?lhs \<longleftrightarrow> ?a \<le> ?b")
proof -
  let ?w = "end_of_day (now\<lparr> odt_day := odt_day now + ?a \<rparr>)"
  let ?m = "end_of_day (now\<lparr> odt_day := odt_day now + ?b \<rparr>)"
  have "?lhs \<longleftrightarrow> (\<forall>d. instant d \<le> instant ?w \<longrightarrow> instant d \<le> instant ?m)"
    by (auto simp: meta_contains_def due_bounds split: option.splits simp del: due_before.simps(3,4))
  also have "\<dots> \<longleftrightarrow> instant ?w \<le> instant ?m" by (meson order_refl order_trans)
  also have "\<dots> \<longleftrightarrow> ?a \<le> ?b" by (simp add: instant_end_of_day_le)
  finally show ?thesis .
qed

end
