(* ===== verification/ListDoc.thy ===== *)
theory ListDoc
  imports Model "HOL-Library.AList" "HOL-Library.Monad_Syntax"
begin

text \<open>
  The per-list document (\<open>todoers-client/src/list_doc.rs\<close>) and the client's error type.  A document
  is a tree of containers: maps keyed by strings, and lists; the local effect of a container
  operation on one replica is its sequential effect.  Fresh UUIDs are arguments.  The projection
  \<open>items\<close> goes through the typed records \<open>RawItem\<close>/\<open>RawSub\<close>, with the defaults of serde for absent
  fields and its failure on ill-typed ones.
\<close>

datatype client_error =
    Io | Ws | Header | Json | Postcard | Aead | DeviceVault string | Reqwest | OnlineLogin string
  | BadSignature | UnknownAuthor | UnknownEpoch | WrongList | Join | Opaque | Kdf | Sqlx | Migrate
  | Loro | LoroEncode | UnknownId | DeviceIdIo | TimeComponent | NoDevRecipient | BadXWingKey
  | KeyStore | ChaCha | Hkdf | Argon2 | NoPassword | InvalidKeyLength | UnknownList | NoDek
  | DocNotOpen | BadSize string

section \<open>Containers\<close>

datatype lval = VNull | VBool bool | VInt int | VStr string | VList "lval list"
  | VMap "(string \<times> lval) list"

type_synonym lmap = "(string \<times> lval) list"

definition map_insert :: "string \<Rightarrow> lval \<Rightarrow> lmap \<Rightarrow> lmap" where
  "map_insert k v m = AList.update k v m"

definition map_delete :: "string \<Rightarrow> lmap \<Rightarrow> lmap" where
  "map_delete k m = AList.delete k m"

lemma map_of_map_insert [doc_simps]: "map_of (map_insert k v m) j = (if j = k then Some v else map_of m j)"
  by (simp add: map_insert_def update_conv)

lemma map_of_map_delete [doc_simps]: "map_of (map_delete k m) j = (if j = k then None else map_of m j)"
  by (simp add: map_delete_def delete_conv)

definition get_or_create_list :: "string \<Rightarrow> lmap \<Rightarrow> lval list" where
  "get_or_create_list k m = (case map_of m k of Some (VList xs) \<Rightarrow> xs | _ \<Rightarrow> [])"

definition map_str :: "lmap \<Rightarrow> string \<Rightarrow> string option" where
  "map_str m k = (case map_of m k of Some (VStr s) \<Rightarrow> Some s | _ \<Rightarrow> None)"

definition map_bool :: "lmap \<Rightarrow> string \<Rightarrow> bool" where
  "map_bool m k = (case map_of m k of Some (VBool b) \<Rightarrow> b | _ \<Rightarrow> False)"

definition movable_map_at :: "lval list \<Rightarrow> nat \<Rightarrow> lmap option" where
  "movable_map_at xs i =
     (if i < length xs then (case xs ! i of VMap m \<Rightarrow> Some m | _ \<Rightarrow> None) else None)"

fun find_index :: "('a \<Rightarrow> bool) \<Rightarrow> 'a list \<Rightarrow> nat option" where
  "find_index p [] = None"
| "find_index p (x # xs) = (if p x then Some 0 else map_option Suc (find_index p xs))"

definition delete_at :: "nat \<Rightarrow> 'a list \<Rightarrow> 'a list" where
  "delete_at i xs = take i xs @ drop (Suc i) xs"

text \<open>Delete the first element that satisfies a test, as the search loops with \<open>break\<close> do.\<close>

definition delete_first :: "('a \<Rightarrow> bool) \<Rightarrow> 'a list \<Rightarrow> 'a list" where
  "delete_first p xs = (case find_index p xs of None \<Rightarrow> xs | Some i \<Rightarrow> delete_at i xs)"

definition has_id :: "string \<Rightarrow> lval \<Rightarrow> bool" where
  "has_id k v = (case v of VMap m \<Rightarrow> map_str m ''id'' = Some k | _ \<Rightarrow> False)"

section \<open>Document operations\<close>

record todo_doc =
  td_meta :: lmap
  td_items :: "lval list"

definition doc_new :: todo_doc where
  "doc_new = \<lparr> td_meta = [], td_items = [] \<rparr>"

definition doc_title :: "todo_doc \<Rightarrow> string" where
  "doc_title d = (case map_str (td_meta d) ''title'' of None \<Rightarrow> [] | Some s \<Rightarrow> s)"

definition set_title :: "string \<Rightarrow> todo_doc \<Rightarrow> client_error + todo_doc" where
  "set_title s d = Inr (d\<lparr> td_meta := map_insert ''title'' (VStr s) (td_meta d) \<rparr>)"

definition item_index :: "todo_doc \<Rightarrow> string \<Rightarrow> nat option" where
  "item_index d k = find_index (has_id k) (td_items d)"

definition item_map :: "todo_doc \<Rightarrow> string \<Rightarrow> (nat \<times> lmap) option" where
  "item_map d k =
     (case item_index d k of None \<Rightarrow> None
      | Some idx \<Rightarrow> map_option (Pair idx) (movable_map_at (td_items d) idx))"

text \<open>Every write that addresses an item resolves its map handle, edits the map, and commits.\<close>

definition edit_item :: "string \<Rightarrow> (lmap \<Rightarrow> lmap) \<Rightarrow> todo_doc \<Rightarrow> client_error + todo_doc" where
  "edit_item k f d =
     (case item_map d k of
        None \<Rightarrow> Inl UnknownId
      | Some (idx, m) \<Rightarrow> Inr (d\<lparr> td_items := (td_items d)[idx := VMap (f m)] \<rparr>))"

definition put_due :: "odt option \<Rightarrow> lmap \<Rightarrow> lmap" where
  "put_due due m =
     (case due of Some t \<Rightarrow> map_insert ''due'' (VInt (odt_unix t)) m
      | None \<Rightarrow> map_delete ''due'' m)"

definition new_item_map :: "string \<Rightarrow> todo_item_input \<Rightarrow> lmap" where
  "new_item_map uuid inp =
     (let m = map_insert ''id'' (VStr uuid) [];
          m = map_insert ''title'' (VStr (in_title inp)) m;
          m = map_insert ''notes'' (VStr (in_notes inp)) m;
          m = map_insert ''priority'' (VInt (priority_rank (in_priority inp))) m;
          m = map_insert ''done'' (VBool False) m;
          m = (case in_due inp of Some t \<Rightarrow> map_insert ''due'' (VInt (odt_unix t)) m | None \<Rightarrow> m);
          tags = get_or_create_list ''tags'' m
      in map_insert ''tags'' (VList (tags @ map VStr (in_tags inp))) m)"

definition add_item :: "string \<Rightarrow> todo_item_input \<Rightarrow> todo_doc \<Rightarrow> client_error + todo_doc" where
  "add_item uuid inp d = Inr (d\<lparr> td_items := td_items d @ [VMap (new_item_map uuid inp)] \<rparr>)"

definition update_item :: "string \<Rightarrow> todo_item_input \<Rightarrow> todo_doc \<Rightarrow> client_error + todo_doc" where
  "update_item k inp d =
     edit_item k
       (\<lambda>m. let m = map_insert ''title'' (VStr (in_title inp)) m;
                m = map_insert ''notes'' (VStr (in_notes inp)) m;
                m = map_insert ''priority'' (VInt (priority_rank (in_priority inp))) m;
                m = put_due (in_due inp) m
            in map_insert ''tags'' (VList (map VStr (in_tags inp))) m) d"

definition toggle_done :: "string \<Rightarrow> todo_doc \<Rightarrow> client_error + todo_doc" where
  "toggle_done k d =
     edit_item k (\<lambda>m. let now = map_bool m ''done'' in map_insert ''done'' (VBool (\<not> now)) m) d"

definition set_priority :: "string \<Rightarrow> priority \<Rightarrow> todo_doc \<Rightarrow> client_error + todo_doc" where
  "set_priority k p d = edit_item k (map_insert ''priority'' (VInt (priority_rank p))) d"

definition set_due :: "string \<Rightarrow> odt option \<Rightarrow> todo_doc \<Rightarrow> client_error + todo_doc" where
  "set_due k due d = edit_item k (put_due due) d"

text \<open>\<open>mov\<close> takes the element out and puts it back so that it ends at the target position; an index
  out of range is a Loro error.\<close>

definition move_item :: "nat \<Rightarrow> nat \<Rightarrow> todo_doc \<Rightarrow> client_error + todo_doc" where
  "move_item src dst d =
     (let xs = td_items d in
      if src < length xs \<and> dst < length xs
      then (let ys = delete_at src xs
            in Inr (d\<lparr> td_items := take dst ys @ [xs ! src] @ drop dst ys \<rparr>))
      else Inl Loro)"

definition remove_item :: "string \<Rightarrow> todo_doc \<Rightarrow> client_error + todo_doc" where
  "remove_item k d =
     (case item_index d k of
        None \<Rightarrow> Inl UnknownId
      | Some idx \<Rightarrow> Inr (d\<lparr> td_items := delete_at idx (td_items d) \<rparr>))"

definition add_tag :: "string \<Rightarrow> string \<Rightarrow> todo_doc \<Rightarrow> client_error + todo_doc" where
  "add_tag k tag d =
     edit_item k (\<lambda>m. let tags = get_or_create_list ''tags'' m
                      in map_insert ''tags'' (VList (tags @ [VStr tag])) m) d"

definition remove_tag :: "string \<Rightarrow> string \<Rightarrow> todo_doc \<Rightarrow> client_error + todo_doc" where
  "remove_tag k tag d =
     edit_item k (\<lambda>m. let tags = get_or_create_list ''tags'' m
                      in map_insert ''tags'' (VList (delete_first (\<lambda>v. v = VStr tag) tags)) m) d"

definition new_sub_map :: "string \<Rightarrow> string \<Rightarrow> lmap" where
  "new_sub_map sid title =
     map_insert ''done'' (VBool False) (map_insert ''title'' (VStr title) (map_insert ''id'' (VStr sid) []))"

definition add_subtask :: "string \<Rightarrow> string \<Rightarrow> string \<Rightarrow> todo_doc \<Rightarrow> client_error + todo_doc" where
  "add_subtask sid k title d =
     edit_item k (\<lambda>m. let subs = get_or_create_list ''subtasks'' m
                      in map_insert ''subtasks'' (VList (subs @ [VMap (new_sub_map sid title)])) m) d"

definition toggle_sub_map :: "lval \<Rightarrow> lval" where
  "toggle_sub_map v =
     (case v of VMap m \<Rightarrow> VMap (map_insert ''done'' (VBool (\<not> map_bool m ''done'')) m) | _ \<Rightarrow> v)"

definition toggle_subtask :: "string \<Rightarrow> string \<Rightarrow> todo_doc \<Rightarrow> client_error + todo_doc" where
  "toggle_subtask k sid d =
     edit_item k (\<lambda>m. let subs = get_or_create_list ''subtasks'' m
                      in map_insert ''subtasks''
                           (VList (case find_index (has_id sid) subs of
                                     None \<Rightarrow> subs
                                   | Some i \<Rightarrow> subs[i := toggle_sub_map (subs ! i)])) m) d"

definition remove_subtask :: "string \<Rightarrow> string \<Rightarrow> todo_doc \<Rightarrow> client_error + todo_doc" where
  "remove_subtask k sid d =
     edit_item k (\<lambda>m. let subs = get_or_create_list ''subtasks'' m
                      in map_insert ''subtasks'' (VList (delete_first (has_id sid) subs)) m) d"

section \<open>Projection\<close>

record raw_sub =
  rs_id :: string
  rs_title :: string
  rs_done :: bool

record raw_item =
  ri_id :: string
  ri_title :: string
  ri_notes :: string
  ri_due :: "int option"
  ri_priority :: int
  ri_done :: bool
  ri_tags :: "string list"
  ri_subtasks :: "raw_sub list"

definition de_str :: "string \<Rightarrow> lmap \<Rightarrow> string option" where
  "de_str k m = (case map_of m k of None \<Rightarrow> Some [] | Some (VStr s) \<Rightarrow> Some s | Some _ \<Rightarrow> None)"

definition de_bool :: "string \<Rightarrow> lmap \<Rightarrow> bool option" where
  "de_bool k m = (case map_of m k of None \<Rightarrow> Some False | Some (VBool b) \<Rightarrow> Some b | Some _ \<Rightarrow> None)"

definition de_int :: "string \<Rightarrow> lmap \<Rightarrow> int option" where
  "de_int k m = (case map_of m k of None \<Rightarrow> Some 0 | Some (VInt i) \<Rightarrow> Some i | Some _ \<Rightarrow> None)"

definition de_opt_int :: "string \<Rightarrow> lmap \<Rightarrow> int option option" where
  "de_opt_int k m =
     (case map_of m k of None \<Rightarrow> Some None | Some VNull \<Rightarrow> Some None
      | Some (VInt i) \<Rightarrow> Some (Some i) | Some _ \<Rightarrow> None)"

definition de_list :: "(lval \<Rightarrow> 'a option) \<Rightarrow> string \<Rightarrow> lmap \<Rightarrow> 'a list option" where
  "de_list f k m =
     (case map_of m k of None \<Rightarrow> Some [] | Some (VList xs) \<Rightarrow> those (map f xs) | Some _ \<Rightarrow> None)"

fun str_of_lval :: "lval \<Rightarrow> string option" where
  "str_of_lval (VStr s) = Some s"
| "str_of_lval _ = None"

fun raw_sub_of :: "lval \<Rightarrow> raw_sub option" where
  "raw_sub_of (VMap m) =
     do { i \<leftarrow> de_str ''id'' m; t \<leftarrow> de_str ''title'' m; b \<leftarrow> de_bool ''done'' m;
          Some \<lparr> rs_id = i, rs_title = t, rs_done = b \<rparr> }"
| "raw_sub_of _ = None"

fun raw_item_of :: "lval \<Rightarrow> raw_item option" where
  "raw_item_of (VMap m) =
     do { i \<leftarrow> de_str ''id'' m; t \<leftarrow> de_str ''title'' m; n \<leftarrow> de_str ''notes'' m;
          u \<leftarrow> de_opt_int ''due'' m; p \<leftarrow> de_int ''priority'' m; b \<leftarrow> de_bool ''done'' m;
          g \<leftarrow> de_list str_of_lval ''tags'' m; s \<leftarrow> de_list raw_sub_of ''subtasks'' m;
          Some \<lparr> ri_id = i, ri_title = t, ri_notes = n, ri_due = u, ri_priority = p, ri_done = b,
                 ri_tags = g, ri_subtasks = s \<rparr> }"
| "raw_item_of _ = None"

fun dec_str :: "nat \<Rightarrow> string" where
  "dec_str n = (if n < 10 then [char_of (48 + n)] else dec_str (n div 10) @ [char_of (48 + n mod 10)])"

declare dec_str.simps [simp del]

text \<open>\<open>format!("{position:08}")\<close>.\<close>

definition order_key :: "nat \<Rightarrow> string" where
  "order_key n = (let s = dec_str n in replicate (8 - length s) CHR ''0'' @ s)"

definition unix_in_range :: "int \<Rightarrow> bool" where
  "unix_in_range s \<longleftrightarrow> - 377705116800 \<le> s \<and> s \<le> 253402300799"

definition into_item :: "nat \<Rightarrow> raw_item \<Rightarrow> todo_item" where
  "into_item pos r =
     \<lparr> ti_id = ri_id r,
       ti_title = ri_title r,
       ti_notes = ri_notes r,
       ti_due = (case ri_due r of None \<Rightarrow> None
                 | Some s \<Rightarrow> if unix_in_range s then Some (odt_of_unix s) else None),
       ti_priority = priority_from_rank (ri_priority r),
       ti_done = ri_done r,
       ti_tags = ri_tags r,
       ti_subtasks = map (\<lambda>s. \<lparr> st_id = rs_id s, st_title = rs_title s, st_done = rs_done s \<rparr>) (ri_subtasks r),
       ti_order_key = order_key pos \<rparr>"

definition raw_items :: "todo_doc \<Rightarrow> raw_item list option" where
  "raw_items d = those (map raw_item_of (td_items d))"

definition items :: "todo_doc \<Rightarrow> todo_item list" where
  "items d =
     (let raw = (case raw_items d of None \<Rightarrow> [] | Some rs \<Rightarrow> rs)
      in map (\<lambda>(i, r). into_item i r) (enumerate 0 raw))"

section \<open>The abstract list\<close>

datatype doc_op =
    OpSetTitle string
  | OpAddItem string todo_item_input
  | OpUpdateItem string todo_item_input
  | OpToggleDone string
  | OpSetPriority string priority
  | OpSetDue string "odt option"
  | OpMoveItem nat nat
  | OpRemoveItem string
  | OpAddTag string string
  | OpRemoveTag string string
  | OpAddSubtask string string string
  | OpToggleSubtask string string
  | OpRemoveSubtask string string

fun doc_step :: "doc_op \<Rightarrow> todo_doc \<Rightarrow> client_error + todo_doc" where
  "doc_step (OpSetTitle s) d = set_title s d"
| "doc_step (OpAddItem uuid inp) d = add_item uuid inp d"
| "doc_step (OpUpdateItem k inp) d = update_item k inp d"
| "doc_step (OpToggleDone k) d = toggle_done k d"
| "doc_step (OpSetPriority k p) d = set_priority k p d"
| "doc_step (OpSetDue k due) d = set_due k due d"
| "doc_step (OpMoveItem a b) d = move_item a b d"
| "doc_step (OpRemoveItem k) d = remove_item k d"
| "doc_step (OpAddTag k t) d = add_tag k t d"
| "doc_step (OpRemoveTag k t) d = remove_tag k t d"
| "doc_step (OpAddSubtask sid k t) d = add_subtask sid k t d"
| "doc_step (OpToggleSubtask k sid) d = toggle_subtask k sid d"
| "doc_step (OpRemoveSubtask k sid) d = remove_subtask k sid d"

text \<open>What the operations mean on the list of typed items.\<close>

definition spec_edit :: "string \<Rightarrow> (raw_item \<Rightarrow> raw_item) \<Rightarrow> raw_item list \<Rightarrow> client_error + raw_item list" where
  "spec_edit k f rs =
     (if k \<in> ri_id ` set rs then Inr (map (\<lambda>r. if ri_id r = k then f r else r) rs) else Inl UnknownId)"

definition spec_input :: "todo_item_input \<Rightarrow> raw_item \<Rightarrow> raw_item" where
  "spec_input inp r =
     r\<lparr> ri_title := in_title inp, ri_notes := in_notes inp,
        ri_due := map_option odt_unix (in_due inp),
        ri_priority := priority_rank (in_priority inp), ri_tags := in_tags inp \<rparr>"

fun spec_step :: "doc_op \<Rightarrow> raw_item list \<Rightarrow> client_error + raw_item list" where
  "spec_step (OpSetTitle s) rs = Inr rs"
| "spec_step (OpAddItem uuid inp) rs =
     Inr (rs @ [spec_input inp \<lparr> ri_id = uuid, ri_title = [], ri_notes = [], ri_due = None,
            ri_priority = 0, ri_done = False, ri_tags = [], ri_subtasks = [] \<rparr>])"
| "spec_step (OpUpdateItem k inp) rs = spec_edit k (spec_input inp) rs"
| "spec_step (OpToggleDone k) rs = spec_edit k (\<lambda>r. r\<lparr> ri_done := \<not> ri_done r \<rparr>) rs"
| "spec_step (OpSetPriority k p) rs = spec_edit k (\<lambda>r. r\<lparr> ri_priority := priority_rank p \<rparr>) rs"
| "spec_step (OpSetDue k due) rs = spec_edit k (\<lambda>r. r\<lparr> ri_due := map_option odt_unix due \<rparr>) rs"
| "spec_step (OpMoveItem a b) rs =
     (if a < length rs \<and> b < length rs
      then Inr (take b (delete_at a rs) @ [rs ! a] @ drop b (delete_at a rs)) else Inl Loro)"
| "spec_step (OpRemoveItem k) rs =
     (if k \<in> ri_id ` set rs then Inr (filter (\<lambda>r. ri_id r \<noteq> k) rs) else Inl UnknownId)"
| "spec_step (OpAddTag k t) rs = spec_edit k (\<lambda>r. r\<lparr> ri_tags := ri_tags r @ [t] \<rparr>) rs"
| "spec_step (OpRemoveTag k t) rs = spec_edit k (\<lambda>r. r\<lparr> ri_tags := remove1 t (ri_tags r) \<rparr>) rs"
| "spec_step (OpAddSubtask sid k t) rs =
     spec_edit k (\<lambda>r. r\<lparr> ri_subtasks := ri_subtasks r @ [\<lparr> rs_id = sid, rs_title = t, rs_done = False \<rparr>] \<rparr>) rs"
| "spec_step (OpToggleSubtask k sid) rs =
     spec_edit k (\<lambda>r. r\<lparr> ri_subtasks :=
       (case find_index (\<lambda>s. rs_id s = sid) (ri_subtasks r) of
          None \<Rightarrow> ri_subtasks r
        | Some i \<Rightarrow> (ri_subtasks r)[i := (ri_subtasks r ! i)\<lparr> rs_done := \<not> rs_done (ri_subtasks r ! i) \<rparr>]) \<rparr>) rs"
| "spec_step (OpRemoveSubtask k sid) rs =
     spec_edit k (\<lambda>r. r\<lparr> ri_subtasks := delete_first (\<lambda>s. rs_id s = sid) (ri_subtasks r) \<rparr>) rs"

text \<open>A document is well formed when every item and subtask is a map with a string id and fields of
  the expected types, and no two items share an id.\<close>

definition sub_wf :: "lval \<Rightarrow> bool" where
  "sub_wf v = (case v of VMap m \<Rightarrow> map_str m ''id'' \<noteq> None \<and> raw_sub_of v \<noteq> None | _ \<Rightarrow> False)"

definition item_wf :: "lval \<Rightarrow> bool" where
  "item_wf v =
     (case v of
        VMap m \<Rightarrow> map_str m ''id'' \<noteq> None \<and> raw_item_of v \<noteq> None \<and>
                  list_all sub_wf (get_or_create_list ''subtasks'' m)
      | _ \<Rightarrow> False)"

definition doc_wf :: "todo_doc \<Rightarrow> bool" where
  "doc_wf d \<longleftrightarrow> list_all item_wf (td_items d) \<and>
     (case raw_items d of None \<Rightarrow> False | Some rs \<Rightarrow> distinct (map ri_id rs))"

definition doc_abs :: "todo_doc \<Rightarrow> raw_item list" where
  "doc_abs d = the (raw_items d)"

fun op_fresh :: "doc_op \<Rightarrow> todo_doc \<Rightarrow> bool" where
  "op_fresh (OpAddItem uuid _) d = (uuid \<notin> ri_id ` set (doc_abs d))"
| "op_fresh _ d = True"

section \<open>Simulation\<close>

lemma those_map_Some: "those (map f xs) = Some ys \<longleftrightarrow> list_all2 (\<lambda>x y. f x = Some y) xs ys"
proof (induction xs arbitrary: ys)
  case Nil
  show ?case by (cases ys) simp_all
next
  case (Cons x xs)
  then show ?case by (cases ys) (auto split: option.splits)
qed

definition sub_rel :: "lval \<Rightarrow> raw_sub \<Rightarrow> bool" where
  "sub_rel v s \<longleftrightarrow> sub_wf v \<and> raw_sub_of v = Some s"

definition item_rel :: "lval \<Rightarrow> raw_item \<Rightarrow> bool" where
  "item_rel v r \<longleftrightarrow> item_wf v \<and> raw_item_of v = Some r"

definition doc_rel :: "todo_doc \<Rightarrow> raw_item list \<Rightarrow> bool" where
  "doc_rel d rs \<longleftrightarrow> list_all2 item_rel (td_items d) rs \<and> distinct (map ri_id rs)"

lemma list_all2_conj_left:
  "list_all2 (\<lambda>x y. P x \<and> Q x y) xs ys \<longleftrightarrow> list_all P xs \<and> list_all2 Q xs ys"
  by (auto simp: list_all2_conv_all_nth list_all_length)

lemma doc_rel_iff: "doc_rel d rs \<longleftrightarrow> doc_wf d \<and> doc_abs d = rs"
  by (auto simp: doc_rel_def doc_wf_def doc_abs_def raw_items_def item_rel_def [abs_def]
      list_all2_conj_left those_map_Some [symmetric] split: option.splits)

lemma sub_rel_VMap:
  "sub_rel v s \<longleftrightarrow>
     (\<exists>m. v = VMap m \<and> map_str m ''id'' = Some (rs_id s) \<and> de_str ''title'' m = Some (rs_title s) \<and>
          de_bool ''done'' m = Some (rs_done s))"
  by (cases v; cases s)
     (auto simp: sub_rel_def sub_wf_def map_str_def de_str_def bind_eq_Some_conv
       split: option.splits lval.splits)

definition list_field :: "string \<Rightarrow> lmap \<Rightarrow> bool" where
  "list_field k m = (case map_of m k of None \<Rightarrow> True | Some (VList _) \<Rightarrow> True | Some _ \<Rightarrow> False)"

lemma de_list_Some:
  "de_list f k m = Some ys \<longleftrightarrow>
     list_field k m \<and> list_all2 (\<lambda>x y. f x = Some y) (get_or_create_list k m) ys"
  by (auto simp: de_list_def list_field_def get_or_create_list_def those_map_Some
      split: option.splits lval.splits)

lemma item_rel_VMap:
  "item_rel (VMap m) r \<longleftrightarrow>
     map_str m ''id'' = Some (ri_id r) \<and> de_str ''title'' m = Some (ri_title r) \<and>
     de_str ''notes'' m = Some (ri_notes r) \<and> de_opt_int ''due'' m = Some (ri_due r) \<and>
     de_int ''priority'' m = Some (ri_priority r) \<and> de_bool ''done'' m = Some (ri_done r) \<and>
     list_field ''tags'' m \<and> get_or_create_list ''tags'' m = map VStr (ri_tags r) \<and>
     list_field ''subtasks'' m \<and> list_all2 sub_rel (get_or_create_list ''subtasks'' m) (ri_subtasks r)"
proof -
  have tags: "list_all2 (\<lambda>x y. str_of_lval x = Some y) xs ys \<longleftrightarrow> xs = map VStr ys" for xs ys
  proof (induction xs arbitrary: ys)
    case Nil
    show ?case by (cases ys) simp_all
  next
    case (Cons x xs)
    then show ?case by (cases ys; cases x) auto
  qed
  have "item_rel (VMap m) r \<longleftrightarrow>
     map_str m ''id'' \<noteq> None \<and> list_all sub_wf (get_or_create_list ''subtasks'' m) \<and>
     raw_item_of (VMap m) = Some r"
    by (auto simp: item_rel_def item_wf_def)
  also have "\<dots> \<longleftrightarrow> map_str m ''id'' = Some (ri_id r) \<and>
     list_all sub_wf (get_or_create_list ''subtasks'' m) \<and> raw_item_of (VMap m) = Some r"
    by (cases r) (auto simp: map_str_def de_str_def bind_eq_Some_conv split: option.splits lval.splits)
  finally show ?thesis
    by (cases r)
       (auto simp: bind_eq_Some_conv de_list_Some tags sub_rel_def [abs_def] list_all2_conj_left
         map_str_def de_str_def split: option.splits lval.splits)
qed

lemma item_rel_cases: "item_rel v r \<Longrightarrow> \<exists>m. v = VMap m"
  by (cases v) (simp_all add: item_rel_def item_wf_def)

lemma item_rel_has_id: "item_rel v r \<Longrightarrow> has_id k v \<longleftrightarrow> ri_id r = k"
  using item_rel_cases [of v r] by (auto simp: has_id_def item_rel_VMap)

lemma sub_rel_has_id: "sub_rel v s \<Longrightarrow> has_id k v \<longleftrightarrow> rs_id s = k"
  by (auto simp: has_id_def sub_rel_VMap)

text \<open>Searching and deleting commute with any relation that agrees with the test.\<close>

lemma find_index_rel:
  assumes "list_all2 R xs ys" and "\<And>x y. R x y \<Longrightarrow> p x \<longleftrightarrow> q y"
  shows "find_index p xs = find_index q ys"
  using assms(1) by (induction rule: list_all2_induct) (simp_all add: assms(2))

lemma delete_at_rel: "list_all2 R xs ys \<Longrightarrow> list_all2 R (delete_at i xs) (delete_at i ys)"
  by (simp add: delete_at_def list_all2_appendI list_all2_takeI list_all2_dropI)

lemma delete_first_rel:
  assumes "list_all2 R xs ys" and "\<And>x y. R x y \<Longrightarrow> p x \<longleftrightarrow> q y"
  shows "list_all2 R (delete_first p xs) (delete_first q ys)"
  using assms by (simp add: delete_first_def find_index_rel [OF assms] delete_at_rel split: option.splits)

lemma find_index_Some: "find_index p xs = Some i \<Longrightarrow> i < length xs \<and> p (xs ! i)"
  by (induction xs arbitrary: i) (auto split: if_splits)

lemma find_index_None: "find_index p xs = None \<longleftrightarrow> (\<forall>x\<in>set xs. \<not> p x)"
  by (induction xs) auto

lemma find_index_id:
  "find_index (\<lambda>r. f r = k) rs = None \<longleftrightarrow> k \<notin> f ` set rs"
  by (auto simp: find_index_None)

lemma delete_first_eq: "delete_first (\<lambda>v. v = x) xs = remove1 x xs"
proof (induction xs)
  case (Cons y ys)
  then show ?case by (auto simp: delete_first_def delete_at_def split: option.splits)
qed (simp add: delete_first_def)

lemma remove1_map_VStr: "remove1 (VStr t) (map VStr ts) = map VStr (remove1 t ts)"
  by (induction ts) auto

lemma update_distinct:
  assumes "distinct (map f rs)" and "find_index (\<lambda>r. f r = k) rs = Some i"
  shows "map (\<lambda>r. if f r = k then g r else r) rs = rs[i := g (rs ! i)]"
proof (rule nth_equalityI)
  fix j assume "j < length (map (\<lambda>r. if f r = k then g r else r) rs)"
  moreover have "i < length rs" "f (rs ! i) = k" using find_index_Some [OF assms(2)] by auto
  moreover have "j = i" if "f (rs ! j) = k" "j < length rs"
    using assms(1) that \<open>i < length rs\<close> \<open>f (rs ! i) = k\<close> by (simp add: distinct_conv_nth) (metis length_map nth_map)
  ultimately show "map (\<lambda>r. if f r = k then g r else r) rs ! j = rs[i := g (rs ! i)] ! j"
    by (auto simp: nth_list_update)
qed simp

lemma delete_distinct:
  assumes "distinct (map f rs)" and "find_index (\<lambda>r. f r = k) rs = Some i"
  shows "filter (\<lambda>r. f r \<noteq> k) rs = delete_at i rs"
  using assms
proof (induction rs arbitrary: i)
  case (Cons r rs)
  show ?case
  proof (cases "f r = k")
    case True
    then have "filter (\<lambda>r. f r \<noteq> k) rs = rs" using Cons.prems(1) by (auto simp: filter_id_conv image_iff)
    then show ?thesis using True Cons.prems(2) by (simp add: delete_at_def)
  next
    case False
    then show ?thesis using Cons by (auto simp: delete_at_def)
  qed
qed simp

lemma item_index_rel: "doc_rel d rs \<Longrightarrow> item_index d k = find_index (\<lambda>r. ri_id r = k) rs"
  unfolding item_index_def doc_rel_def
  by (rule find_index_rel [where R = item_rel]) (simp_all add: item_rel_has_id)

text \<open>One simulation lemma for every operation that edits an item in place.\<close>

definition sim_result :: "client_error + todo_doc \<Rightarrow> client_error + raw_item list \<Rightarrow> bool" where
  "sim_result c a = (case (c, a) of (Inl e, Inl e') \<Rightarrow> e = e' | (Inr d, Inr rs) \<Rightarrow> doc_rel d rs | _ \<Rightarrow> False)"

lemma edit_item_sim:
  assumes rel: "doc_rel d rs"
    and fg: "\<And>m r. item_rel (VMap m) r \<Longrightarrow> item_rel (VMap (f m)) (g r) \<and> ri_id (g r) = ri_id r"
  shows "sim_result (edit_item k f d) (spec_edit k g rs)"
proof (cases "find_index (\<lambda>r. ri_id r = k) rs")
  case None
  then have "spec_edit k g rs = Inl UnknownId"
    by (simp add: spec_edit_def find_index_id [symmetric])
  with None show ?thesis
    by (simp add: sim_result_def edit_item_def item_map_def item_index_rel [OF rel] del: find_index.simps)
next
  case (Some i)
  then have i: "i < length rs" "ri_id (rs ! i) = k" by (auto dest: find_index_Some)
  then have len: "i < length (td_items d)" and rel_i: "item_rel (td_items d ! i) (rs ! i)"
    using rel by (auto simp: doc_rel_def list_all2_conv_all_nth)
  then obtain m where m: "td_items d ! i = VMap m" using item_rel_cases by blast
  have "k \<in> ri_id ` set rs" using i by auto
  then have spec: "spec_edit k g rs = Inr (rs[i := g (rs ! i)])"
    using rel Some by (simp add: spec_edit_def update_distinct doc_rel_def)
  have conc: "edit_item k f d = Inr (d\<lparr> td_items := (td_items d)[i := VMap (f m)] \<rparr>)"
    by (simp add: edit_item_def item_map_def item_index_rel [OF rel] Some movable_map_at_def len m)
  have "item_rel (VMap (f m)) (g (rs ! i))" "ri_id (g (rs ! i)) = ri_id (rs ! i)"
    using fg rel_i m by auto
  moreover from this(2) have "map ri_id (rs[i := g (rs ! i)]) = map ri_id rs"
    by (simp add: map_update) (metis i(1) list_update_id map_update nth_map length_map)
  ultimately show ?thesis
    using rel unfolding spec conc sim_result_def by (simp add: doc_rel_def list_all2_update_cong)
qed

lemma de_map_insert [doc_simps]:
  "map_str (map_insert j v m) k = (if k = j then (case v of VStr s \<Rightarrow> Some s | _ \<Rightarrow> None) else map_str m k)"
  "de_str k (map_insert j v m) = (if k = j then (case v of VStr s \<Rightarrow> Some s | _ \<Rightarrow> None) else de_str k m)"
  "de_bool k (map_insert j v m) = (if k = j then (case v of VBool b \<Rightarrow> Some b | _ \<Rightarrow> None) else de_bool k m)"
  "de_int k (map_insert j v m) = (if k = j then (case v of VInt i \<Rightarrow> Some i | _ \<Rightarrow> None) else de_int k m)"
  "de_opt_int k (map_insert j v m) =
     (if k = j then (case v of VInt i \<Rightarrow> Some (Some i) | VNull \<Rightarrow> Some None | _ \<Rightarrow> None) else de_opt_int k m)"
  "list_field k (map_insert j v m) = (if k = j then (case v of VList _ \<Rightarrow> True | _ \<Rightarrow> False) else list_field k m)"
  "get_or_create_list k (map_insert j v m) =
     (if k = j then (case v of VList xs \<Rightarrow> xs | _ \<Rightarrow> []) else get_or_create_list k m)"
  by (simp_all add: map_str_def de_str_def de_bool_def de_int_def de_opt_int_def list_field_def
      get_or_create_list_def map_of_map_insert split: lval.splits)

lemma de_map_delete [doc_simps]:
  "k \<noteq> j \<Longrightarrow> map_str (map_delete j m) k = map_str m k"
  "k \<noteq> j \<Longrightarrow> de_str k (map_delete j m) = de_str k m"
  "k \<noteq> j \<Longrightarrow> de_bool k (map_delete j m) = de_bool k m"
  "k \<noteq> j \<Longrightarrow> de_int k (map_delete j m) = de_int k m"
  "de_opt_int k (map_delete j m) = (if k = j then Some None else de_opt_int k m)"
  "k \<noteq> j \<Longrightarrow> list_field k (map_delete j m) = list_field k m"
  "k \<noteq> j \<Longrightarrow> get_or_create_list k (map_delete j m) = get_or_create_list k m"
  by (simp_all add: map_str_def de_str_def de_bool_def de_int_def de_opt_int_def list_field_def
      get_or_create_list_def map_of_map_delete)

lemma de_map_empty [doc_simps]:
  "de_str k [] = Some []" "de_opt_int k [] = Some None" "list_field k []" "get_or_create_list k [] = []"
  by (simp_all add: de_str_def de_opt_int_def list_field_def get_or_create_list_def)

lemma map_bool_de: "de_bool k m = Some b \<Longrightarrow> map_bool m k = b"
  by (auto simp: de_bool_def map_bool_def split: option.splits lval.splits)

lemmas item_sim_simps = item_rel_VMap doc_simps spec_input_def put_due_def

lemma due_map_sim:
  assumes "item_rel (VMap m) r"
  shows "item_rel (VMap (put_due due m)) (r\<lparr> ri_due := map_option odt_unix due \<rparr>)"
  using assms by (cases due) (simp_all add: item_sim_simps)

lemma new_item_sim:
  "item_rel (VMap (new_item_map uuid inp))
     (spec_input inp \<lparr> ri_id = uuid, ri_title = [], ri_notes = [], ri_due = None,
        ri_priority = 0, ri_done = False, ri_tags = [], ri_subtasks = [] \<rparr>)"
  by (cases "in_due inp") (simp_all add: new_item_map_def item_sim_simps Let_def)

lemma update_map_sim:
  assumes "item_rel (VMap m) r"
  shows "item_rel (VMap (map_insert ''tags'' (VList (map VStr (in_tags inp))) (put_due (in_due inp)
           (map_insert ''priority'' (VInt (priority_rank (in_priority inp)))
             (map_insert ''notes'' (VStr (in_notes inp)) (map_insert ''title'' (VStr (in_title inp)) m))))))
         (spec_input inp r)"
  using assms by (cases "in_due inp") (simp_all add: item_sim_simps)

lemma toggle_sub_sim:
  assumes "list_all2 sub_rel xs ss" and "i < length xs"
  shows "list_all2 sub_rel (xs[i := toggle_sub_map (xs ! i)])
           (ss[i := (ss ! i)\<lparr> rs_done := \<not> rs_done (ss ! i) \<rparr>])"
proof -
  have "sub_rel (xs ! i) (ss ! i)" using assms by (simp add: list_all2_conv_all_nth)
  then have "sub_rel (toggle_sub_map (xs ! i)) ((ss ! i)\<lparr> rs_done := \<not> rs_done (ss ! i) \<rparr>)"
    by (auto simp: sub_rel_VMap toggle_sub_map_def doc_simps map_bool_de)
  then show ?thesis using assms by (simp add: list_all2_update_cong)
qed

lemma list_sub_sims:
  assumes "list_all2 sub_rel xs ss"
  shows "list_all2 sub_rel (xs @ [VMap (new_sub_map sid t)]) (ss @ [\<lparr> rs_id = sid, rs_title = t, rs_done = False \<rparr>])"
    and "list_all2 sub_rel (delete_first (has_id sid) xs) (delete_first (\<lambda>s. rs_id s = sid) ss)"
    and "list_all2 sub_rel
          (case find_index (has_id sid) xs of None \<Rightarrow> xs | Some i \<Rightarrow> xs[i := toggle_sub_map (xs ! i)])
          (case find_index (\<lambda>s. rs_id s = sid) ss of None \<Rightarrow> ss
           | Some i \<Rightarrow> ss[i := (ss ! i)\<lparr> rs_done := \<not> rs_done (ss ! i) \<rparr>])"
proof -
  show "list_all2 sub_rel (xs @ [VMap (new_sub_map sid t)]) (ss @ [\<lparr> rs_id = sid, rs_title = t, rs_done = False \<rparr>])"
    using assms by (auto intro!: list_all2_appendI simp: sub_rel_VMap new_sub_map_def doc_simps)
  show "list_all2 sub_rel (delete_first (has_id sid) xs) (delete_first (\<lambda>s. rs_id s = sid) ss)"
    using assms by (rule delete_first_rel) (simp add: sub_rel_has_id)
  have "find_index (has_id sid) xs = find_index (\<lambda>s. rs_id s = sid) ss"
    using assms by (rule find_index_rel) (simp add: sub_rel_has_id)
  then show "list_all2 sub_rel
          (case find_index (has_id sid) xs of None \<Rightarrow> xs | Some i \<Rightarrow> xs[i := toggle_sub_map (xs ! i)])
          (case find_index (\<lambda>s. rs_id s = sid) ss of None \<Rightarrow> ss
           | Some i \<Rightarrow> ss[i := (ss ! i)\<lparr> rs_done := \<not> rs_done (ss ! i) \<rparr>])"
    using assms by (auto simp: toggle_sub_sim list_all2_lengthD dest: find_index_Some split: option.split)
qed

lemma move_sim:
  assumes "doc_rel d rs"
  shows "sim_result (move_item a b d) (spec_step (OpMoveItem a b) rs)"
proof -
  have len: "length (td_items d) = length rs" and rel: "list_all2 item_rel (td_items d) rs"
    using assms by (auto simp: doc_rel_def dest: list_all2_lengthD)
  have perm: "mset (take b (delete_at a rs) @ [rs ! a] @ drop b (delete_at a rs)) = mset rs" if "a < length rs"
  proof -
    have "mset (take b (delete_at a rs) @ [rs ! a] @ drop b (delete_at a rs)) =
            add_mset (rs ! a) (mset (delete_at a rs))"
      by (metis append_take_drop_id mset_append union_mset_add_mset_right append_Cons append_Nil
          mset.simps(2))
    also have "\<dots> = mset (take a rs @ rs ! a # drop (Suc a) rs)"
      by (simp add: delete_at_def)
    finally show ?thesis using that by (simp flip: id_take_nth_drop)
  qed
  have "list_all2 item_rel (take b (delete_at a (td_items d)) @ [td_items d ! a] @ drop b (delete_at a (td_items d)))
          (take b (delete_at a rs) @ [rs ! a] @ drop b (delete_at a rs))" if "a < length rs"
    using rel that len
    by (intro list_all2_appendI list_all2_takeI list_all2_dropI delete_at_rel)
       (auto simp: list_all2_conv_all_nth)
  moreover have "distinct (map ri_id (take b (delete_at a rs) @ [rs ! a] @ drop b (delete_at a rs)))" if "a < length rs"
    using assms perm [OF that] unfolding doc_rel_def by (metis mset_eq_imp_distinct_iff mset_map)
  ultimately show ?thesis
    by (auto simp: move_item_def sim_result_def len Let_def doc_rel_def)
qed

lemma remove_sim:
  assumes "doc_rel d rs"
  shows "sim_result (remove_item k d) (spec_step (OpRemoveItem k) rs)"
proof (cases "find_index (\<lambda>r. ri_id r = k) rs")
  case None
  then have "k \<notin> ri_id ` set rs" by (rule find_index_id [THEN iffD1])
  then have spec: "spec_step (OpRemoveItem k) rs = Inl UnknownId" by simp
  have conc: "remove_item k d = Inl UnknownId"
    unfolding remove_item_def item_index_rel [OF assms] None by simp
  show ?thesis unfolding spec conc by (simp add: sim_result_def)
next
  case (Some i)
  then have "k \<in> ri_id ` set rs" using find_index_Some [OF Some] by auto
  moreover have "filter (\<lambda>r. ri_id r \<noteq> k) rs = delete_at i rs"
    using assms Some by (simp add: delete_distinct doc_rel_def)
  moreover have "distinct (map ri_id (filter (\<lambda>r. ri_id r \<noteq> k) rs))"
    using assms by (auto simp: doc_rel_def intro: distinct_map_filter)
  ultimately show ?thesis
    using assms Some
    by (simp add: sim_result_def remove_item_def item_index_rel [OF assms] doc_rel_def delete_at_rel)
qed

lemma doc_step_sim:
  assumes rel: "doc_rel d rs" and fresh: "op_fresh op d"
  shows "sim_result (doc_step op d) (spec_step op rs)"
proof (cases op)
  case (OpSetTitle s)
  then show ?thesis using rel by (simp add: sim_result_def set_title_def doc_rel_def)
next
  case (OpAddItem uuid inp)
  moreover have "uuid \<notin> ri_id ` set rs" using fresh rel OpAddItem by (simp add: doc_rel_iff)
  ultimately show ?thesis
    using rel new_item_sim [of uuid inp]
    by (auto simp: sim_result_def add_item_def doc_rel_def spec_input_def intro!: list_all2_appendI)
next
  case (OpUpdateItem k inp)
  then show ?thesis
    unfolding OpUpdateItem doc_step.simps spec_step.simps update_item_def Let_def
    by (intro edit_item_sim [OF rel] conjI update_map_sim) (simp_all add: spec_input_def)
next
  case (OpToggleDone k)
  then show ?thesis
    unfolding OpToggleDone doc_step.simps spec_step.simps toggle_done_def Let_def
    by (intro edit_item_sim [OF rel]) (simp add: item_sim_simps map_bool_de)
next
  case (OpSetPriority k p)
  then show ?thesis
    unfolding OpSetPriority doc_step.simps spec_step.simps set_priority_def
    by (intro edit_item_sim [OF rel]) (simp add: item_sim_simps)
next
  case (OpSetDue k due)
  then show ?thesis
    unfolding OpSetDue doc_step.simps spec_step.simps set_due_def
    by (intro edit_item_sim [OF rel] conjI due_map_sim) simp_all
next
  case (OpAddTag k t)
  then show ?thesis
    unfolding OpAddTag doc_step.simps spec_step.simps add_tag_def Let_def
    by (intro edit_item_sim [OF rel]) (simp add: item_sim_simps)
next
  case (OpRemoveTag k t)
  then show ?thesis
    unfolding OpRemoveTag doc_step.simps spec_step.simps remove_tag_def Let_def
    by (intro edit_item_sim [OF rel]) (simp add: item_sim_simps delete_first_eq remove1_map_VStr)
next
  case (OpAddSubtask sid k t)
  then show ?thesis
    unfolding OpAddSubtask doc_step.simps spec_step.simps add_subtask_def Let_def
    by (intro edit_item_sim [OF rel]) (simp add: item_sim_simps list_sub_sims)
next
  case (OpToggleSubtask k sid)
  then show ?thesis
    unfolding OpToggleSubtask doc_step.simps spec_step.simps toggle_subtask_def Let_def
    by (intro edit_item_sim [OF rel]) (simp add: item_sim_simps list_sub_sims)
next
  case (OpRemoveSubtask k sid)
  then show ?thesis
    unfolding OpRemoveSubtask doc_step.simps spec_step.simps remove_subtask_def Let_def
    by (intro edit_item_sim [OF rel]) (simp add: item_sim_simps list_sub_sims)
qed (use move_sim [OF rel] remove_sim [OF rel] in simp_all)

section \<open>Properties\<close>

text \<open>C12: every operation of a list document refines its meaning on the list of typed items: on a
  well-formed document it fails exactly when the abstract operation fails, with the same error
  (an unknown item id, or a move out of range), and otherwise leaves a well-formed document whose
  items are those of the abstract operation.\<close>

theorem doc_step_refines:
  assumes "doc_wf d" and "op_fresh op d"
  shows "case doc_step op d of
           Inl e \<Rightarrow> spec_step op (doc_abs d) = Inl e
         | Inr d' \<Rightarrow> doc_wf d' \<and> spec_step op (doc_abs d) = Inr (doc_abs d')"
  using doc_step_sim [OF _ assms(2), of "doc_abs d"] assms(1)
  by (auto simp: doc_rel_iff sim_result_def split: sum.splits)

definition sample_input :: todo_item_input where
  "sample_input = \<lparr> in_title = ''milk'', in_notes = [], in_due = Some (odt_of_unix 86400),
     in_priority = High, in_tags = [''home'', ''shop''] \<rparr>"

definition sample_doc :: todo_doc where
  "sample_doc = \<lparr> td_meta = [], td_items = [VMap (new_item_map ''a'' sample_input), VMap (new_item_map ''b'' sample_input)] \<rparr>"

lemma sample_doc_rel: "doc_rel sample_doc
   [spec_input sample_input \<lparr> ri_id = ''a'', ri_title = [], ri_notes = [], ri_due = None,
        ri_priority = 0, ri_done = False, ri_tags = [], ri_subtasks = [] \<rparr>,
    spec_input sample_input \<lparr> ri_id = ''b'', ri_title = [], ri_notes = [], ri_due = None,
        ri_priority = 0, ri_done = False, ri_tags = [], ri_subtasks = [] \<rparr>]"
  by (simp add: doc_rel_def sample_doc_def new_item_sim) (simp add: spec_input_def)

theorem doc_step_refines_witness:
  "case doc_step (OpRemoveTag ''b'' ''home'') sample_doc of
     Inl e \<Rightarrow> False
   | Inr d' \<Rightarrow> doc_wf d' \<and> ri_tags (doc_abs d' ! 1) = [''shop'']"
proof -
  have wf: "doc_wf sample_doc" and abs: "doc_abs sample_doc =
     [spec_input sample_input \<lparr> ri_id = ''a'', ri_title = [], ri_notes = [], ri_due = None,
          ri_priority = 0, ri_done = False, ri_tags = [], ri_subtasks = [] \<rparr>,
      spec_input sample_input \<lparr> ri_id = ''b'', ri_title = [], ri_notes = [], ri_due = None,
          ri_priority = 0, ri_done = False, ri_tags = [], ri_subtasks = [] \<rparr>]"
    using sample_doc_rel by (simp_all add: doc_rel_iff)
  show ?thesis
    using doc_step_refines [OF wf, of "OpRemoveTag ''b'' ''home''"]
    by (auto simp: abs spec_edit_def spec_input_def sample_input_def split: sum.splits dest!: sym [of _ "doc_abs _"])
qed

text \<open>Decimal strings and their lexicographic order.\<close>

fun dval :: "string \<Rightarrow> nat" where
  "dval [] = 0"
| "dval (c # s) = (of_char c - 48) * 10 ^ length s + dval s"

definition digit_char :: "char \<Rightarrow> bool" where
  "digit_char c \<longleftrightarrow> 48 \<le> (of_char c :: nat) \<and> (of_char c :: nat) < 58"

lemma digit_charD: "digit_char c \<Longrightarrow> 48 \<le> (of_char c :: nat)" "digit_char c \<Longrightarrow> (of_char c :: nat) \<le> 57"
  by (simp_all add: digit_char_def)

lemma digit_char_eq:
  assumes "digit_char c" and "digit_char e"
  shows "c = e \<longleftrightarrow> (of_char c :: nat) - 48 = of_char e - 48"
proof
  assume "(of_char c :: nat) - 48 = of_char e - 48"
  then have "(of_char c :: nat) = of_char e" using digit_charD [OF assms(1)] digit_charD [OF assms(2)] by linarith
  then show "c = e" by simp
qed simp

lemma digit_char_less:
  assumes "digit_char c" and "digit_char e"
  shows "c < e \<longleftrightarrow> (of_char c :: nat) - 48 < of_char e - 48"
  using digit_charD [OF assms(1)] digit_charD [OF assms(2)] unfolding less_char_def by linarith

lemma dval_bound: "list_all digit_char s \<Longrightarrow> dval s < 10 ^ length s"
proof (induction s)
  case (Cons c s)
  then have "(of_char c - 48 :: nat) \<le> 9" using digit_charD(2) [of c] by simp
  then have "(of_char c - 48) * 10 ^ length s \<le> 9 * (10 :: nat) ^ length s" by (rule mult_right_mono) simp
  moreover have "dval s < 10 ^ length s" using Cons by simp
  ultimately have "dval (c # s) < 9 * 10 ^ length s + 10 ^ length s"
    unfolding dval.simps by (rule add_le_less_mono)
  then show ?case by simp
qed simp

lemma digits_less:
  assumes "length s = length t" and "list_all digit_char s" and "list_all digit_char t"
  shows "s < t \<longleftrightarrow> dval s < dval t"
  using assms
proof (induction rule: list_induct2)
  case (Cons c s e t)
  have bs: "dval s < 10 ^ length t" and bt: "dval t < 10 ^ length t"
    using Cons.prems Cons.hyps dval_bound [of s] dval_bound [of t] by simp_all
  define x where "x = (of_char c - 48 :: nat)"
  define y where "y = (of_char e - 48 :: nat)"
  have ce: "c = e \<longleftrightarrow> x = y" "c < e \<longleftrightarrow> x < y"
    using Cons.prems by (simp_all add: x_def y_def digit_char_eq digit_char_less)
  have far: "u * 10 ^ length t + p < v * 10 ^ length t + q" if "u < v" "p < 10 ^ length t" for u v p q :: nat
  proof -
    have "u * 10 ^ length t + p < Suc u * 10 ^ length t" using that(2) by simp
    also have "\<dots> \<le> v * 10 ^ length t" using that(1) by (intro mult_right_mono) auto
    finally show ?thesis by simp
  qed
  show ?case
    using Cons far [of x y "dval s" "dval t"] far [of y x "dval t" "dval s"] bs bt
    by (cases x y rule: linorder_cases) (auto simp: ce x_def [symmetric] y_def [symmetric])
qed simp

lemma dval_append: "dval (s @ [c]) = 10 * dval s + (of_char c - 48)"
  by (induction s) (simp_all add: algebra_simps)

lemma dec_str_digits: "list_all digit_char (dec_str n) \<and> dval (dec_str n) = n"
proof (induction n rule: dec_str.induct)
  case (1 n)
  have d: "digit_char (char_of (48 + k)) \<and> of_char (char_of (48 + k) :: char) = 48 + k" if "k < 10" for k :: nat
    using that by (simp add: digit_char_def)
  show ?case
    using 1 d [of n] d [of "n mod 10"] by (subst (1 2) dec_str.simps) (auto simp: dval_append)
qed

lemma dec_str_length: "0 < k \<Longrightarrow> n < 10 ^ k \<Longrightarrow> length (dec_str n) \<le> k"
proof (induction k arbitrary: n)
  case (Suc k)
  show ?case
  proof (cases "n < 10")
    case True
    then show ?thesis by (simp add: dec_str.simps)
  next
    case False
    with Suc.prems have "k \<noteq> 0" by (cases k) auto
    with False Suc show ?thesis by (subst dec_str.simps) auto
  qed
qed simp

lemma dval_zeros: "dval (replicate k CHR ''0'' @ s) = dval s"
  by (induction k) simp_all

lemma zeros_digits: "list_all digit_char (replicate k CHR ''0'')"
  by (induction k) (simp_all add: digit_char_def)

lemma order_key_facts:
  assumes "n < 10 ^ 8"
  shows "length (order_key n) = 8 \<and> list_all digit_char (order_key n) \<and> dval (order_key n) = n"
  using dec_str_length [of 8 n] dec_str_digits [of n] assms
  by (simp add: order_key_def Let_def dval_zeros zeros_digits)

text \<open>The order key that the projection writes for the read model sorts as the position does:
  for the first hundred million positions the keys have eight characters and compare as strings
  exactly as the positions compare as numbers, so a read ordered by the key is in document order.\<close>

lemma order_key_monotone:
  assumes "i < 10 ^ 8" and "j < 10 ^ 8"
  shows "order_key i < order_key j \<longleftrightarrow> i < j"
  using order_key_facts [OF assms(1)] order_key_facts [OF assms(2)] by (simp add: digits_less)

text \<open>One ill-typed item anywhere in a document empties its whole projection, however many
  well-typed items the document holds.\<close>

lemma malformed_item_hides_all:
  assumes "v \<in> set (td_items d)" and "raw_item_of v = None"
  shows "items d = []"
proof -
  have "raw_items d = None"
  proof (cases "raw_items d")
    case (Some rs)
    then have "list_all2 (\<lambda>x y. raw_item_of x = Some y) (td_items d) rs"
      by (simp add: raw_items_def those_map_Some)
    then have "\<exists>r. raw_item_of v = Some r"
      using assms(1) by (auto simp: list_all2_conv_all_nth in_set_conv_nth)
    then show ?thesis using assms(2) by simp
  qed
  then show ?thesis by (simp add: items_def)
qed

end
