(* ===== verification/ClientDb.thy ===== *)
theory ClientDb
  imports ListDoc "HOL-Library.Option_ord"
begin

text \<open>
  The client's local database (\<open>todoers-client/src/db.rs\<close> over
  \<open>todoers-client/db/migrations/0001_init.sql\<close>).  A table is the list of its rows; every operation
  is the effect of its SQL statement, with the primary keys, the CHECK constraints on epochs, the
  foreign keys and their \<open>ON DELETE CASCADE\<close>.  A violated constraint is \<open>Inl Sqlx\<close>.  Opening the
  file, the connection pool, migrations and the timestamp columns are not modelled.  JSON of the tag
  column is a parameter.
\<close>

section \<open>Rows\<close>

record new_account =
  na_member_id :: member_id
  na_username :: string
  na_identity_pub :: x25519_pub
  na_signing_pub :: ed25519_pub
  na_wrapped_secret_keys :: bytes
  na_kdf_salt :: "16 fixed"
  na_kdf_mem_kib :: int
  na_kdf_iters :: int
  na_kdf_parallelism :: int

record account_row =
  ac_account :: new_account
  ac_device_id :: "device_id option"
  ac_device_wrapped_keys :: "bytes option"

record list_row =
  lr_list_id :: list_id
  lr_role :: role
  lr_current_epoch :: epoch
  lr_name :: "string option"
  lr_server_snapshot_seq :: int
  lr_applied_through_seq :: int

record key_slot_row =
  kr_list_id :: list_id
  kr_epoch :: epoch
  kr_wrapped_dek :: bytes

datatype out_status = Pending | Inflight

record outbound_row =
  ob_local_id :: nat
  ob_list_id :: list_id
  ob_epoch :: epoch
  ob_payload :: bytes
  ob_signature :: signature
  ob_status :: out_status
  ob_attempts :: nat

record claimed_row =
  cr_local_id :: nat
  cr_list_id :: list_id
  cr_payload :: bytes

record client_db =
  cd_account :: "account_row option"
  cd_lists :: "list_row list"
  cd_members :: "(list_id \<times> member) list"
  cd_key_slots :: "key_slot_row list"
  cd_documents :: "(list_id \<times> bytes) list"
  cd_outbound :: "outbound_row list"
  cd_todo_items :: "(list_id \<times> todo_item_row) list"
  cd_subtasks :: "(list_id \<times> subtask_row) list"

definition db_empty :: client_db where
  "db_empty = \<lparr> cd_account = None, cd_lists = [], cd_members = [], cd_key_slots = [],
     cd_documents = [], cd_outbound = [], cd_todo_items = [], cd_subtasks = [] \<rparr>"

abbreviation "member_key \<equiv> \<lambda>r :: list_id \<times> member. (fst r, mem_id (snd r))"
abbreviation "slot_key \<equiv> \<lambda>r. (kr_list_id r, kr_epoch r)"
abbreviation "todo_key \<equiv> \<lambda>r :: list_id \<times> todo_item_row. (fst r, tr_id (snd r))"

definition has_list :: "list_id \<Rightarrow> client_db \<Rightarrow> bool" where
  "has_list l db \<longleftrightarrow> row_get lr_list_id l (cd_lists db) \<noteq> None"

section \<open>Account and device cache\<close>

definition save_account :: "new_account \<Rightarrow> client_db \<Rightarrow> client_db" where
  "save_account acct db =
     db\<lparr> cd_account := Some \<lparr> ac_account = acct, ac_device_id = None, ac_device_wrapped_keys = None \<rparr> \<rparr>"

definition load_account :: "client_db \<Rightarrow> new_account option" where
  "load_account db = map_option ac_account (cd_account db)"

definition save_device_cache :: "device_id \<Rightarrow> bytes \<Rightarrow> client_db \<Rightarrow> client_db" where
  "save_device_cache dev blob db =
     db\<lparr> cd_account := map_option
           (\<lambda>a. a\<lparr> ac_device_id := Some dev, ac_device_wrapped_keys := Some blob \<rparr>) (cd_account db) \<rparr>"

text \<open>The query asserts both columns NOT NULL, so a row with a NULL in them is a decode error.\<close>

definition load_device_cache :: "client_db \<Rightarrow> client_error + (device_id \<times> bytes) option" where
  "load_device_cache db =
     (case cd_account db of
        None \<Rightarrow> Inr None
      | Some a \<Rightarrow> (case (ac_device_id a, ac_device_wrapped_keys a) of
                     (Some dev, Some blob) \<Rightarrow> Inr (Some (dev, blob))
                   | _ \<Rightarrow> Inl Sqlx))"

definition clear_device_cache :: "client_db \<Rightarrow> client_db" where
  "clear_device_cache db =
     db\<lparr> cd_account := map_option
           (\<lambda>a. a\<lparr> ac_device_id := None, ac_device_wrapped_keys := None \<rparr>) (cd_account db) \<rparr>"

section \<open>Lists\<close>

definition upsert_list :: "list_id \<Rightarrow> role \<Rightarrow> epoch \<Rightarrow> string \<Rightarrow> client_db \<Rightarrow> client_error + client_db" where
  "upsert_list l r e name db =
     (let row = (case row_get lr_list_id l (cd_lists db) of
                   None \<Rightarrow> \<lparr> lr_list_id = l, lr_role = r, lr_current_epoch = e, lr_name = Some name,
                             lr_server_snapshot_seq = 0, lr_applied_through_seq = 0 \<rparr>
                 | Some old \<Rightarrow> old\<lparr> lr_role := r, lr_current_epoch := e, lr_name := Some name \<rparr>)
      in if epoch_check e then Inr (db\<lparr> cd_lists := row_put lr_list_id row (cd_lists db) \<rparr>) else Inl Sqlx)"

definition upsert_list_meta :: "list_id \<Rightarrow> role \<Rightarrow> epoch \<Rightarrow> client_db \<Rightarrow> client_error + client_db" where
  "upsert_list_meta l r e db =
     (let row = (case row_get lr_list_id l (cd_lists db) of
                   None \<Rightarrow> \<lparr> lr_list_id = l, lr_role = r, lr_current_epoch = e, lr_name = None,
                             lr_server_snapshot_seq = 0, lr_applied_through_seq = 0 \<rparr>
                 | Some old \<Rightarrow> old\<lparr> lr_role := r, lr_current_epoch := e \<rparr>)
      in if epoch_check e then Inr (db\<lparr> cd_lists := row_put lr_list_id row (cd_lists db) \<rparr>) else Inl Sqlx)"

definition list_lists :: "client_db \<Rightarrow> list_row list" where
  "list_lists db = sort_key lr_name (cd_lists db)"

definition list_epoch :: "list_id \<Rightarrow> client_db \<Rightarrow> epoch option" where
  "list_epoch l db = map_option lr_current_epoch (row_get lr_list_id l (cd_lists db))"

definition update_list :: "list_id \<Rightarrow> (list_row \<Rightarrow> list_row) \<Rightarrow> client_db \<Rightarrow> client_db" where
  "update_list l f db = db\<lparr> cd_lists := row_update (\<lambda>r. lr_list_id r = l) f (cd_lists db) \<rparr>"

definition set_epoch :: "list_id \<Rightarrow> epoch \<Rightarrow> client_db \<Rightarrow> client_error + client_db" where
  "set_epoch l e db =
     (if epoch_check e \<or> \<not> has_list l db
      then Inr (update_list l (lr_current_epoch_update (\<lambda>_. e)) db) else Inl Sqlx)"

definition rename_list :: "list_id \<Rightarrow> string \<Rightarrow> client_db \<Rightarrow> client_db" where
  "rename_list l name db = update_list l (lr_name_update (\<lambda>_. Some name)) db"

definition delete_list :: "list_id \<Rightarrow> client_db \<Rightarrow> client_db" where
  "delete_list l db =
     db\<lparr> cd_lists := row_del lr_list_id l (cd_lists db),
         cd_members := filter (\<lambda>r. fst r \<noteq> l) (cd_members db),
         cd_key_slots := filter (\<lambda>r. kr_list_id r \<noteq> l) (cd_key_slots db),
         cd_documents := filter (\<lambda>r. fst r \<noteq> l) (cd_documents db),
         cd_outbound := filter (\<lambda>r. ob_list_id r \<noteq> l) (cd_outbound db),
         cd_todo_items := filter (\<lambda>r. fst r \<noteq> l) (cd_todo_items db),
         cd_subtasks := filter (\<lambda>r. fst r \<noteq> l) (cd_subtasks db) \<rparr>"

section \<open>Documents and the read model\<close>

definition load_document :: "list_id \<Rightarrow> client_db \<Rightarrow> bytes option" where
  "load_document l db = map_option snd (row_get fst l (cd_documents db))"

definition save_document :: "list_id \<Rightarrow> bytes \<Rightarrow> client_db \<Rightarrow> client_error + client_db" where
  "save_document l snap db =
     (if has_list l db then Inr (db\<lparr> cd_documents := row_put fst (l, snap) (cd_documents db) \<rparr>)
      else Inl Sqlx)"

definition row_of_item :: "(string list \<Rightarrow> string) \<Rightarrow> todo_item \<Rightarrow> todo_item_row" where
  "row_of_item json_tags it =
     \<lparr> tr_id = ti_id it, tr_title = ti_title it, tr_notes = ti_notes it,
       tr_due_at = map_option odt_unix (ti_due it), tr_priority = priority_rank (ti_priority it),
       tr_done = ti_done it, tr_tags = json_tags (ti_tags it), tr_order_key = ti_order_key it \<rparr>"

text \<open>One \<open>INSERT\<close> per item inside the transaction; the primary key rejects a second item with the
  same id, and then nothing is committed.\<close>

fun insert_items :: "list_id \<Rightarrow> todo_item_row list \<Rightarrow> (list_id \<times> todo_item_row) list
    \<Rightarrow> client_error + (list_id \<times> todo_item_row) list" where
  "insert_items l [] rows = Inr rows"
| "insert_items l (r # rs) rows =
     (if row_get todo_key (l, tr_id r) rows = None then insert_items l rs (rows @ [(l, r)])
      else Inl Sqlx)"

definition replace_todo_items ::
    "(string list \<Rightarrow> string) \<Rightarrow> list_id \<Rightarrow> todo_item list \<Rightarrow> client_db \<Rightarrow> client_error + client_db" where
  "replace_todo_items json_tags l its db =
     (let cleared = filter (\<lambda>r. fst r \<noteq> l) (cd_todo_items db) in
      if its \<noteq> [] \<and> \<not> has_list l db then Inl Sqlx
      else (case insert_items l (map (row_of_item json_tags) its) cleared of
              Inl e \<Rightarrow> Inl e
            | Inr rows \<Rightarrow> Inr (db\<lparr> cd_todo_items := rows,
                                   cd_subtasks := filter (\<lambda>r. fst r \<noteq> l) (cd_subtasks db) \<rparr>)))"

fun items_of_rows :: "(string \<Rightarrow> string list option) \<Rightarrow> (string \<Rightarrow> subtask list) \<Rightarrow> todo_item_row list
    \<Rightarrow> client_error + todo_item list" where
  "items_of_rows parse subs [] = Inr []"
| "items_of_rows parse subs (r # rs) =
     (if (case tr_due_at r of None \<Rightarrow> False | Some s \<Rightarrow> \<not> unix_in_range s) then Inl TimeComponent
      else (case parse (tr_tags r) of
              None \<Rightarrow> Inl Json
            | Some tags \<Rightarrow>
                (case items_of_rows parse subs rs of
                   Inl e \<Rightarrow> Inl e
                 | Inr its \<Rightarrow> Inr (\<lparr> ti_id = tr_id r, ti_title = tr_title r, ti_notes = tr_notes r,
                      ti_due = map_option odt_of_unix (tr_due_at r),
                      ti_priority = priority_from_rank (tr_priority r), ti_done = tr_done r,
                      ti_tags = tags, ti_subtasks = subs (tr_id r), ti_order_key = tr_order_key r \<rparr> # its))))"

definition load_todo_items ::
    "(string \<Rightarrow> string list option) \<Rightarrow> list_id \<Rightarrow> client_db \<Rightarrow> client_error + todo_item list" where
  "load_todo_items parse l db =
     items_of_rows parse
       (\<lambda>k. map (subtask_of_row \<circ> snd)
               (filter (\<lambda>r. fst r = l \<and> sr_item_id (snd r) = k) (cd_subtasks db)))
       (sort_key tr_order_key (map snd (filter (\<lambda>r. fst r = l) (cd_todo_items db))))"

definition row_to_item :: "(string \<Rightarrow> string list option) \<Rightarrow> todo_item_row \<Rightarrow> todo_item" where
  "row_to_item parse r =
     \<lparr> ti_id = tr_id r, ti_title = tr_title r, ti_notes = tr_notes r,
       ti_due = (case tr_due_at r of None \<Rightarrow> None
                 | Some s \<Rightarrow> if unix_in_range s then Some (odt_of_unix s) else None),
       ti_priority = priority_from_rank (tr_priority r), ti_done = tr_done r,
       ti_tags = (case parse (tr_tags r) of None \<Rightarrow> [] | Some ts \<Rightarrow> ts),
       ti_subtasks = [], ti_order_key = tr_order_key r \<rparr>"

definition load_all_todo_items ::
    "(string \<Rightarrow> string list option) \<Rightarrow> client_db \<Rightarrow> (list_id \<times> todo_item) list" where
  "load_all_todo_items parse db =
     map (\<lambda>(l, r). (l, row_to_item parse r)) (sort_key (tr_due_at \<circ> snd) (cd_todo_items db))"

section \<open>Members and key slots\<close>

definition list_members :: "list_id \<Rightarrow> client_db \<Rightarrow> member list" where
  "list_members l db = map snd (filter (\<lambda>r. fst r = l) (cd_members db))"

definition add_member_row :: "list_id \<Rightarrow> member \<Rightarrow> client_db \<Rightarrow> client_error + client_db" where
  "add_member_row l m db =
     (if has_list l db then Inr (db\<lparr> cd_members := row_put member_key (l, m) (cd_members db) \<rparr>)
      else Inl Sqlx)"

definition remove_member_row :: "list_id \<Rightarrow> member_id \<Rightarrow> client_db \<Rightarrow> client_db" where
  "remove_member_row l m db = db\<lparr> cd_members := row_del member_key (l, m) (cd_members db) \<rparr>"

definition save_key_slot :: "list_id \<Rightarrow> epoch \<Rightarrow> bytes \<Rightarrow> client_db \<Rightarrow> client_error + client_db" where
  "save_key_slot l e w db =
     (if has_list l db \<and> epoch_check e
      then Inr (db\<lparr> cd_key_slots :=
             row_put slot_key \<lparr> kr_list_id = l, kr_epoch = e, kr_wrapped_dek = w \<rparr> (cd_key_slots db) \<rparr>)
      else Inl Sqlx)"

definition load_key_slots :: "client_db \<Rightarrow> key_slot_row list" where
  "load_key_slots db = cd_key_slots db"

section \<open>The outbound queue\<close>

text \<open>SQLite gives a new row the id one above the largest present.\<close>

definition next_local_id :: "outbound_row list \<Rightarrow> nat" where
  "next_local_id rs = foldr (max \<circ> ob_local_id) rs 0 + 1"

definition enqueue_outbound ::
    "list_id \<Rightarrow> epoch \<Rightarrow> bytes \<Rightarrow> signature \<Rightarrow> client_db \<Rightarrow> client_error + client_db" where
  "enqueue_outbound l e payload sig db =
     (if \<not> epoch_check e then Inl Sqlx
      else if row_get ob_signature sig (cd_outbound db) \<noteq> None then Inr db
      else if has_list l db
      then Inr (db\<lparr> cd_outbound := cd_outbound db @
             [\<lparr> ob_local_id = next_local_id (cd_outbound db), ob_list_id = l, ob_epoch = e,
                ob_payload = payload, ob_signature = sig, ob_status = Pending, ob_attempts = 0 \<rparr>] \<rparr>)
      else Inl Sqlx)"

definition outbound_count :: "list_id \<Rightarrow> client_db \<Rightarrow> nat" where
  "outbound_count l db = length (filter (\<lambda>r. ob_list_id r = l) (cd_outbound db))"

definition pending_rows :: "list_id \<Rightarrow> client_db \<Rightarrow> outbound_row list" where
  "pending_rows l db =
     sort_key ob_local_id (filter (\<lambda>r. ob_list_id r = l \<and> ob_status r = Pending) (cd_outbound db))"

definition take_outbound :: "list_id \<Rightarrow> int \<Rightarrow> client_db \<Rightarrow> claimed_row list \<times> client_db" where
  "take_outbound l n db =
     (let rows = sql_limit n (pending_rows l db);
          mark = foldl (\<lambda>rs c. row_update (\<lambda>r. ob_local_id r = ob_local_id c)
                    (\<lambda>r. r\<lparr> ob_status := Inflight, ob_attempts := ob_attempts r + 1 \<rparr>) rs)
                   (cd_outbound db) rows
      in (map (\<lambda>r. \<lparr> cr_local_id = ob_local_id r, cr_list_id = ob_list_id r, cr_payload = ob_payload r \<rparr>) rows,
          db\<lparr> cd_outbound := mark \<rparr>))"

definition ack_outbound :: "nat \<Rightarrow> client_db \<Rightarrow> client_db" where
  "ack_outbound i db = db\<lparr> cd_outbound := row_del ob_local_id i (cd_outbound db) \<rparr>"

definition release_outbound :: "nat \<Rightarrow> client_db \<Rightarrow> client_db" where
  "release_outbound i db =
     db\<lparr> cd_outbound := row_update (\<lambda>r. ob_local_id r = i) (ob_status_update (\<lambda>_. Pending)) (cd_outbound db) \<rparr>"

section \<open>Sync cursors\<close>

definition applied_through_seq :: "list_id \<Rightarrow> client_db \<Rightarrow> int" where
  "applied_through_seq l db =
     (case row_get lr_list_id l (cd_lists db) of None \<Rightarrow> 0 | Some r \<Rightarrow> lr_applied_through_seq r)"

definition set_applied_through_seq :: "list_id \<Rightarrow> int \<Rightarrow> client_db \<Rightarrow> client_db" where
  "set_applied_through_seq l seq db =
     update_list l (\<lambda>r. r\<lparr> lr_applied_through_seq := max (lr_applied_through_seq r) seq \<rparr>) db"

definition set_server_snapshot_seq :: "list_id \<Rightarrow> int \<Rightarrow> client_db \<Rightarrow> client_db" where
  "set_server_snapshot_seq l seq db = update_list l (lr_server_snapshot_seq_update (\<lambda>_. seq)) db"

section \<open>The step relation and the schema invariant\<close>

inductive db_step :: "client_db \<Rightarrow> client_db \<Rightarrow> bool" where
  save_account: "db_step db (save_account acct db)"
| save_device_cache: "db_step db (save_device_cache dev blob db)"
| clear_device_cache: "db_step db (clear_device_cache db)"
| upsert_list: "upsert_list l r e name db = Inr db' \<Longrightarrow> db_step db db'"
| upsert_list_meta: "upsert_list_meta l r e db = Inr db' \<Longrightarrow> db_step db db'"
| set_epoch: "set_epoch l e db = Inr db' \<Longrightarrow> db_step db db'"
| rename_list: "db_step db (rename_list l name db)"
| delete_list: "db_step db (delete_list l db)"
| save_document: "save_document l snap db = Inr db' \<Longrightarrow> db_step db db'"
| replace_todo_items: "replace_todo_items json_tags l its db = Inr db' \<Longrightarrow> db_step db db'"
| add_member_row: "add_member_row l m db = Inr db' \<Longrightarrow> db_step db db'"
| remove_member_row: "db_step db (remove_member_row l mid db)"
| save_key_slot: "save_key_slot l e w db = Inr db' \<Longrightarrow> db_step db db'"
| enqueue_outbound: "enqueue_outbound l e payload sig db = Inr db' \<Longrightarrow> db_step db db'"
| take_outbound: "db_step db (snd (take_outbound l n db))"
| ack_outbound: "db_step db (ack_outbound i db)"
| release_outbound: "db_step db (release_outbound i db)"
| set_applied_through_seq: "db_step db (set_applied_through_seq l seq db)"
| set_server_snapshot_seq: "db_step db (set_server_snapshot_seq l seq db)"

abbreviation list_ids :: "client_db \<Rightarrow> list_id set" where
  "list_ids db \<equiv> lr_list_id ` set (cd_lists db)"

text \<open>What the schema promises: primary keys, foreign keys, epoch checks, increasing local ids,
  unique signatures; and, as no statement writes it, an empty subtask table.\<close>

definition keys_wf :: "client_db \<Rightarrow> bool" where
  "keys_wf db \<longleftrightarrow> keyed lr_list_id (cd_lists db) \<and> keyed member_key (cd_members db) \<and>
     keyed slot_key (cd_key_slots db) \<and> keyed fst (cd_documents db) \<and> keyed todo_key (cd_todo_items db)"

definition refs_wf :: "client_db \<Rightarrow> bool" where
  "refs_wf db \<longleftrightarrow> fst ` set (cd_members db) \<subseteq> list_ids db \<and> kr_list_id ` set (cd_key_slots db) \<subseteq> list_ids db \<and>
     fst ` set (cd_documents db) \<subseteq> list_ids db \<and> ob_list_id ` set (cd_outbound db) \<subseteq> list_ids db \<and>
     fst ` set (cd_todo_items db) \<subseteq> list_ids db \<and> cd_subtasks db = []"

definition epochs_wf :: "client_db \<Rightarrow> bool" where
  "epochs_wf db \<longleftrightarrow> (\<forall>r\<in>set (cd_lists db). epoch_check (lr_current_epoch r)) \<and>
     (\<forall>r\<in>set (cd_key_slots db). epoch_check (kr_epoch r)) \<and>
     (\<forall>r\<in>set (cd_outbound db). epoch_check (ob_epoch r))"

definition queue_wf :: "outbound_row list \<Rightarrow> bool" where
  "queue_wf rs \<longleftrightarrow> sorted_wrt (<) (map ob_local_id rs) \<and> keyed ob_signature rs"

definition db_wf :: "client_db \<Rightarrow> bool" where
  "db_wf db \<longleftrightarrow> keys_wf db \<and> refs_wf db \<and> epochs_wf db \<and> queue_wf (cd_outbound db)"

lemmas db_wf_defs = db_wf_def keys_wf_def refs_wf_def epochs_wf_def

lemma has_list_iff: "has_list l db \<longleftrightarrow> l \<in> list_ids db"
  by (simp add: has_list_def row_get_None)

lemma list_ids_update:
  "(\<And>r. lr_list_id (f r) = lr_list_id r) \<Longrightarrow> list_ids (update_list l f db) = list_ids db"
  by (simp add: update_list_def key_row_update)

lemma update_list_wf:
  assumes "db_wf db" and "\<And>r. lr_list_id (f r) = lr_list_id r"
    and "\<And>r. lr_list_id r = l \<Longrightarrow> r \<in> set (cd_lists db) \<Longrightarrow> epoch_check (lr_current_epoch (f r))"
  shows "db_wf (update_list l f db)"
  using assms
  by (auto simp: db_wf_defs update_list_def key_row_update dest!: in_row_update)

lemma put_list_wf:
  assumes "db_wf db" and "epoch_check (lr_current_epoch r)"
  shows "db_wf (db\<lparr> cd_lists := row_put lr_list_id r (cd_lists db) \<rparr>)"
  using assms by (auto simp: db_wf_defs key_row_put dest!: in_row_put)

lemma upsert_list_as_put:
  assumes "upsert_list l r e name db = Inr db'"
  obtains row where "lr_list_id row = l" "lr_current_epoch row = e" "epoch_check e"
    "lr_applied_through_seq row = applied_through_seq l db"
    "db' = db\<lparr> cd_lists := row_put lr_list_id row (cd_lists db) \<rparr>"
  by (rule that [of "case row_get lr_list_id l (cd_lists db) of
        None \<Rightarrow> \<lparr> lr_list_id = l, lr_role = r, lr_current_epoch = e, lr_name = Some name,
                  lr_server_snapshot_seq = 0, lr_applied_through_seq = 0 \<rparr>
      | Some old \<Rightarrow> old\<lparr> lr_role := r, lr_current_epoch := e, lr_name := Some name \<rparr>"])
     (use assms in \<open>auto simp: upsert_list_def applied_through_seq_def Let_def
        split: if_splits option.splits dest: row_get_Some_key\<close>)

lemma upsert_list_meta_as_put:
  assumes "upsert_list_meta l r e db = Inr db'"
  obtains row where "lr_list_id row = l" "lr_current_epoch row = e" "epoch_check e"
    "lr_applied_through_seq row = applied_through_seq l db"
    "db' = db\<lparr> cd_lists := row_put lr_list_id row (cd_lists db) \<rparr>"
  by (rule that [of "case row_get lr_list_id l (cd_lists db) of
        None \<Rightarrow> \<lparr> lr_list_id = l, lr_role = r, lr_current_epoch = e, lr_name = None,
                  lr_server_snapshot_seq = 0, lr_applied_through_seq = 0 \<rparr>
      | Some old \<Rightarrow> old\<lparr> lr_role := r, lr_current_epoch := e \<rparr>"])
     (use assms in \<open>auto simp: upsert_list_meta_def applied_through_seq_def Let_def
        split: if_splits option.splits dest: row_get_Some_key\<close>)

lemma next_local_id_gt: "r \<in> set rs \<Longrightarrow> ob_local_id r < next_local_id rs"
  by (induction rs) (auto simp: next_local_id_def)

lemma queue_wf_snoc:
  assumes "queue_wf rs" and "ob_local_id r = next_local_id rs" and "row_get ob_signature (ob_signature r) rs = None"
  shows "queue_wf (rs @ [r])"
  using assms by (auto simp: queue_wf_def sorted_wrt_append next_local_id_gt keyed_def row_get_None)

lemma queue_wf_filter: "queue_wf rs \<Longrightarrow> queue_wf (filter p rs)"
  by (auto simp: queue_wf_def sorted_wrt_filter sorted_wrt_map)

lemma queue_wf_update:
  assumes "\<And>r. ob_local_id (f r) = ob_local_id r" "\<And>r. ob_signature (f r) = ob_signature r"
  shows "queue_wf (row_update p f rs) \<longleftrightarrow> queue_wf rs"
proof -
  have "map ob_local_id (row_update p f rs) = map ob_local_id rs"
    "map ob_signature (row_update p f rs) = map ob_signature rs"
    using assms by (auto simp: row_update_def)
  then show ?thesis by (simp add: queue_wf_def keyed_def)
qed

lemma filter_all: "(\<And>x. x \<in> set xs \<Longrightarrow> p x) \<Longrightarrow> filter p xs = xs"
  by (simp add: filter_id_conv)

lemma delete_list_wf: "db_wf db \<Longrightarrow> db_wf (delete_list l db)"
  by (auto simp: db_wf_defs delete_list_def table_simps queue_wf_filter)

lemma insert_items_spec:
  "insert_items l rs rows = Inr rows' \<Longrightarrow> keyed todo_key rows \<Longrightarrow>
     keyed todo_key rows' \<and> rows' = rows @ map (Pair l) rs"
proof (induction rs arbitrary: rows)
  case (Cons r rs)
  then have "keyed todo_key (rows @ [(l, r)])" by (auto simp: keyed_def row_get_None split: if_splits)
  with Cons.IH [OF _ this] Cons.prems show ?case by (auto split: if_splits)
qed simp

lemma replace_todo_items_wf:
  assumes "db_wf db" and "replace_todo_items json_tags l its db = Inr db'"
  shows "db_wf db'"
proof -
  let ?c = "filter (\<lambda>r. fst r \<noteq> l) (cd_todo_items db)"
  from assms(2) obtain rows where
    ins: "insert_items l (map (row_of_item json_tags) its) ?c = Inr rows"
    and db': "db' = db\<lparr> cd_todo_items := rows, cd_subtasks := filter (\<lambda>r. fst r \<noteq> l) (cd_subtasks db) \<rparr>"
    and has: "its = [] \<or> has_list l db"
    by (auto simp: replace_todo_items_def Let_def split: if_splits sum.splits)
  have "keyed todo_key ?c" using assms(1) by (simp add: db_wf_defs)
  from insert_items_spec [OF ins this] show ?thesis
    using assms(1) has unfolding db' by (auto simp: db_wf_defs has_list_iff)
qed

lemma enqueue_outbound_wf:
  assumes "db_wf db" and "enqueue_outbound l e payload sig db = Inr db'"
  shows "db_wf db'"
proof (cases "row_get ob_signature sig (cd_outbound db)")
  case None
  let ?row = "\<lparr> ob_local_id = next_local_id (cd_outbound db), ob_list_id = l, ob_epoch = e,
     ob_payload = payload, ob_signature = sig, ob_status = Pending, ob_attempts = 0 \<rparr>"
  have "l \<in> list_ids db" "epoch_check e" "db' = db\<lparr> cd_outbound := cd_outbound db @ [?row] \<rparr>"
    using assms(2) None by (auto simp: enqueue_outbound_def has_list_iff split: if_splits)
  moreover have "queue_wf (cd_outbound db @ [?row])"
    using assms(1) None by (intro queue_wf_snoc) (simp_all add: db_wf_def)
  ultimately show ?thesis using assms(1) by (simp add: db_wf_defs)
qed (use assms in \<open>simp add: enqueue_outbound_def split: if_splits\<close>)

definition mark_inflight :: "outbound_row list \<Rightarrow> outbound_row list \<Rightarrow> outbound_row list" where
  "mark_inflight rows rs =
     foldl (\<lambda>rs c. row_update (\<lambda>r. ob_local_id r = ob_local_id c)
              (\<lambda>r. r\<lparr> ob_status := Inflight, ob_attempts := ob_attempts r + 1 \<rparr>) rs) rs rows"

lemma take_outbound_db: "snd (take_outbound l n db) =
    db\<lparr> cd_outbound := mark_inflight (sql_limit n (pending_rows l db)) (cd_outbound db) \<rparr>"
  by (simp add: take_outbound_def mark_inflight_def Let_def)

lemma queue_wf_mark: "queue_wf (mark_inflight rows rs) \<longleftrightarrow> queue_wf rs"
  by (induction rows arbitrary: rs) (simp_all add: mark_inflight_def queue_wf_update)

lemma mark_inflight_fields:
  "map (\<lambda>r. (ob_local_id r, ob_list_id r, ob_epoch r, ob_payload r, ob_signature r)) (mark_inflight rows rs) =
   map (\<lambda>r. (ob_local_id r, ob_list_id r, ob_epoch r, ob_payload r, ob_signature r)) rs"
  by (induction rows arbitrary: rs) (auto simp: mark_inflight_def row_update_def)

lemma mark_inflight_images:
  "ob_list_id ` set (mark_inflight rows rs) = ob_list_id ` set rs"
  "ob_epoch ` set (mark_inflight rows rs) = ob_epoch ` set rs"
  using arg_cong [OF mark_inflight_fields [of rows rs], of "\<lambda>xs. set (map (fst \<circ> snd) xs)"]
    arg_cong [OF mark_inflight_fields [of rows rs], of "\<lambda>xs. set (map (fst \<circ> snd \<circ> snd) xs)"]
  by (simp_all add: comp_def image_image)

lemma ball_image: "(\<forall>r\<in>A. P (f r)) \<longleftrightarrow> (\<forall>x\<in>f ` A. P x)"
  by simp

lemma take_outbound_wf: "db_wf db \<Longrightarrow> db_wf (snd (take_outbound l n db))"
  unfolding take_outbound_db db_wf_defs ball_image [of "set (cd_outbound _)" epoch_check ob_epoch]
  by (simp add: queue_wf_mark mark_inflight_images)

lemma ack_release_wf:
  "db_wf db \<Longrightarrow> db_wf (ack_outbound i db)" "db_wf db \<Longrightarrow> db_wf (release_outbound i db)"
  by (auto simp: db_wf_defs ack_outbound_def release_outbound_def row_del_def queue_wf_filter queue_wf_update
      key_row_update dest!: in_row_update)

lemma account_wf:
  "db_wf db \<Longrightarrow> db_wf (save_account acct db)" "db_wf db \<Longrightarrow> db_wf (save_device_cache dev blob db)"
  "db_wf db \<Longrightarrow> db_wf (clear_device_cache db)"
  by (simp_all add: db_wf_defs save_account_def save_device_cache_def clear_device_cache_def)

lemma remove_member_row_wf: "db_wf db \<Longrightarrow> db_wf (remove_member_row l m db)"
  by (auto simp: db_wf_defs remove_member_row_def table_simps)

lemma db_wf_epoch: "db_wf db \<Longrightarrow> r \<in> set (cd_lists db) \<Longrightarrow> epoch_check (lr_current_epoch r)"
  by (simp add: db_wf_def epochs_wf_def)

lemma list_field_wf:
  assumes "db_wf db"
  shows "db_wf (rename_list l name db)" "db_wf (set_applied_through_seq l seq db)"
    "db_wf (set_server_snapshot_seq l seq db)"
  using assms unfolding rename_list_def set_applied_through_seq_def set_server_snapshot_seq_def
  by (simp_all add: update_list_wf db_wf_epoch)

lemmas step_wf_facts = account_wf remove_member_row_wf list_field_wf delete_list_wf take_outbound_wf
  ack_release_wf replace_todo_items_wf enqueue_outbound_wf

lemma db_step_wf: "db_step db db' \<Longrightarrow> db_wf db \<Longrightarrow> db_wf db'"
proof (induction rule: db_step.induct)
  case (upsert_list l r e name db db')
  then show ?case by (metis put_list_wf upsert_list_as_put)
next
  case (upsert_list_meta l r e db db')
  then show ?case by (metis put_list_wf upsert_list_meta_as_put)
next
  case (set_epoch l e db db')
  then have "epoch_check e \<or> \<not> has_list l db" "db' = update_list l (lr_current_epoch_update (\<lambda>_. e)) db"
    by (auto simp: set_epoch_def split: if_splits)
  then show ?case using set_epoch.prems by (auto intro!: update_list_wf simp: has_list_iff)
next
  case (save_document l snap db db')
  then have "l \<in> list_ids db" "db' = db\<lparr> cd_documents := row_put fst (l, snap) (cd_documents db) \<rparr>"
    by (auto simp: save_document_def has_list_iff split: if_splits)
  then show ?case using save_document.prems by (simp add: db_wf_defs key_row_put)
next
  case (add_member_row l m db db')
  then have "l \<in> list_ids db" "db' = db\<lparr> cd_members := row_put member_key (l, m) (cd_members db) \<rparr>"
    by (auto simp: add_member_row_def has_list_iff split: if_splits)
  then show ?case using add_member_row.prems by (simp add: db_wf_defs image_row_put_subset)
next
  case (save_key_slot l e w db db')
  let ?row = "\<lparr> kr_list_id = l, kr_epoch = e, kr_wrapped_dek = w \<rparr>"
  have "l \<in> list_ids db" "epoch_check e" "db' = db\<lparr> cd_key_slots := row_put slot_key ?row (cd_key_slots db) \<rparr>"
    using save_key_slot.hyps by (auto simp: save_key_slot_def has_list_iff split: if_splits)
  then show ?case using save_key_slot.prems
    unfolding db_wf_defs by (simp add: image_row_put_subset) (rule ball_row_put; simp)
qed (blast intro: step_wf_facts)+

inductive db_reachable :: "client_db \<Rightarrow> bool" where
  start: "db_reachable db_empty"
| step: "db_reachable db \<Longrightarrow> db_step db db' \<Longrightarrow> db_reachable db'"

section \<open>The outbound queue as a claim queue\<close>

definition pending_ids :: "list_id \<Rightarrow> client_db \<Rightarrow> nat list" where
  "pending_ids l db = map ob_local_id (pending_rows l db)"

abbreviation is_pending :: "list_id \<Rightarrow> outbound_row \<Rightarrow> bool" where
  "is_pending l r \<equiv> ob_list_id r = l \<and> ob_status r = Pending"

lemma queue_sorted: "queue_wf rs \<Longrightarrow> sorted (map ob_local_id (filter p rs)) \<and> distinct (map ob_local_id (filter p rs))"
  using queue_wf_filter [of rs p] by (simp add: queue_wf_def strict_sorted_iff)

lemma pending_rows_filter: "queue_wf (cd_outbound db) \<Longrightarrow> pending_rows l db = filter (is_pending l) (cd_outbound db)"
  by (simp add: pending_rows_def sort_key_id_if_sorted queue_sorted)

lemma filter_row_update:
  assumes "\<And>r. \<not> q (f r)"
  shows "filter q (row_update p f rs) = filter (\<lambda>r. q r \<and> \<not> p r) rs"
  using assms by (induction rs) (auto simp: row_update_def)

lemma filter_mark_inflight:
  "filter (is_pending l) (mark_inflight rows rs) =
   filter (\<lambda>r. is_pending l r \<and> ob_local_id r \<notin> ob_local_id ` set rows) rs"
proof (induction rows arbitrary: rs)
  case (Cons c rows)
  let ?upd = "row_update (\<lambda>r. ob_local_id r = ob_local_id c)
                (\<lambda>r. r\<lparr> ob_status := Inflight, ob_attempts := ob_attempts r + 1 \<rparr>) rs"
  have "filter (is_pending l) (mark_inflight (c # rows) rs) =
          filter (\<lambda>r. is_pending l r \<and> ob_local_id r \<notin> ob_local_id ` set rows) ?upd"
    using Cons.IH [of ?upd] by (simp add: mark_inflight_def)
  also have "\<dots> = filter (\<lambda>r. (is_pending l r \<and> ob_local_id r \<notin> ob_local_id ` set rows) \<and>
                            \<not> ob_local_id r = ob_local_id c) rs"
    by (rule filter_row_update) simp
  finally show ?case by (simp add: conj_ac cong: filter_cong)
qed (simp add: mark_inflight_def)

lemma filter_not_prefix:
  assumes "distinct (map f xs)"
  shows "filter (\<lambda>x. f x \<notin> f ` set (take k xs)) xs = drop k xs"
proof -
  have d: "distinct (map f (take k xs @ drop k xs))" using assms by simp
  have "filter (\<lambda>x. f x \<notin> f ` set (take k xs)) (take k xs @ drop k xs) = drop k xs"
    using d by (simp only: filter_append map_append distinct_append set_map)
               (auto simp: filter_empty_conv filter_id_conv)
  then show ?thesis by simp
qed

lemma pending_after_take:
  assumes "queue_wf (cd_outbound db)"
  shows "pending_rows l (snd (take_outbound l n db)) =
           drop (length (sql_limit n (pending_rows l db))) (pending_rows l db)"
proof -
  let ?ps = "pending_rows l db"
  let ?k = "length (sql_limit n ?ps)"
  have ps: "?ps = filter (is_pending l) (cd_outbound db)" using assms by (rule pending_rows_filter)
  have "pending_rows l (snd (take_outbound l n db)) =
          filter (is_pending l) (mark_inflight (sql_limit n ?ps) (cd_outbound db))"
    using assms by (simp add: take_outbound_db pending_rows_filter queue_wf_mark)
  also have "\<dots> = filter (\<lambda>r. ob_local_id r \<notin> ob_local_id ` set (take ?k ?ps)) ?ps"
    unfolding filter_mark_inflight sql_limit_prefix [symmetric] ps filter_filter
    by (rule filter_cong) auto
  also have "\<dots> = drop ?k ?ps"
    using queue_sorted [OF assms] by (intro filter_not_prefix) (simp add: ps)
  finally show ?thesis .
qed

interpretation outbox:
  claim_queue "\<lambda>db. queue_wf (cd_outbound db)" "pending_ids l"
    "\<lambda>n db. (map cr_local_id (fst (take_outbound l n db)), snd (take_outbound l n db))"
    ack_outbound for l
proof unfold_locales
  fix q :: client_db and n i assume wf: "queue_wf (cd_outbound q)"
  show "distinct (pending_ids l q)"
    using queue_sorted [OF wf] by (simp add: pending_ids_def pending_rows_filter [OF wf])
  show "fst (map cr_local_id (fst (take_outbound l n q)), snd (take_outbound l n q)) =
          sql_limit n (pending_ids l q)"
    by (simp add: take_outbound_def Let_def comp_def pending_ids_def map_sql_limit)
  show "pending_ids l (snd (map cr_local_id (fst (take_outbound l n q)), snd (take_outbound l n q))) =
          drop (length (sql_limit n (pending_ids l q))) (pending_ids l q)"
    by (simp add: pending_ids_def pending_after_take [OF wf] drop_map flip: map_sql_limit)
  show "queue_wf (cd_outbound (snd (map cr_local_id (fst (take_outbound l n q)), snd (take_outbound l n q))))"
    using wf by (simp add: take_outbound_db queue_wf_mark)
  show wf': "queue_wf (cd_outbound (ack_outbound i q))"
    using wf by (simp add: ack_outbound_def row_del_def queue_wf_filter)
  show "pending_ids l (ack_outbound i q) = removeAll i (pending_ids l q)"
    unfolding pending_ids_def pending_rows_filter [OF wf] pending_rows_filter [OF wf']
    by (simp add: ack_outbound_def row_del_def removeAll_filter_not_eq filter_map comp_def conj_ac eq_commute
        cong: filter_cong)
qed

section \<open>Properties\<close>

text \<open>C14: every database that the store can reach from an empty one keeps the promises of the
  schema: primary keys, foreign keys with their cascades, epochs at least 1, strictly increasing
  local ids and unique signatures in the outbound queue, and an empty subtask table.\<close>

theorem db_reachable_wf: "db_reachable db \<Longrightarrow> db_wf db"
proof (induction rule: db_reachable.induct)
  case start
  show ?case by (simp add: db_wf_defs db_empty_def queue_wf_def)
next
  case (step db db')
  then show ?case by (blast intro: db_step_wf)
qed

definition demo_list :: list_id where "demo_list = fixed_repeat 1"

definition demo_db :: client_db where
  "demo_db = projr (enqueue_outbound demo_list 1 [2] (fixed_repeat 9)
     (projr (enqueue_outbound demo_list 1 [1] (fixed_repeat 8)
       (projr (upsert_list demo_list Owner 1 ''home'' db_empty)))))"

lemmas demo_simps = upsert_list_def enqueue_outbound_def db_empty_def demo_list_def epoch_check_def
  has_list_def next_local_id_def

lemma demo_db_eq: "demo_db = db_empty\<lparr>
    cd_lists := [\<lparr> lr_list_id = demo_list, lr_role = Owner, lr_current_epoch = 1, lr_name = Some ''home'',
                  lr_server_snapshot_seq = 0, lr_applied_through_seq = 0 \<rparr>],
    cd_outbound :=
      [\<lparr> ob_local_id = 1, ob_list_id = demo_list, ob_epoch = 1, ob_payload = [1],
         ob_signature = fixed_repeat 8, ob_status = Pending, ob_attempts = 0 \<rparr>,
       \<lparr> ob_local_id = 2, ob_list_id = demo_list, ob_epoch = 1, ob_payload = [2],
         ob_signature = fixed_repeat 9, ob_status = Pending, ob_attempts = 0 \<rparr>] \<rparr>"
  by (simp add: demo_db_def demo_simps)

lemma demo_db_reachable: "db_reachable demo_db"
proof -
  let ?d1 = "projr (upsert_list demo_list Owner 1 ''home'' db_empty)"
  let ?d2 = "projr (enqueue_outbound demo_list 1 [1] (fixed_repeat 8) ?d1)"
  have "upsert_list demo_list Owner 1 ''home'' db_empty = Inr ?d1"
    "enqueue_outbound demo_list 1 [1] (fixed_repeat 8) ?d1 = Inr ?d2"
    "enqueue_outbound demo_list 1 [2] (fixed_repeat 9) ?d2 = Inr demo_db"
    by (simp_all add: demo_db_def demo_simps)
  then show ?thesis
    by (metis db_reachable.intros db_step.upsert_list db_step.enqueue_outbound)
qed

theorem db_reachable_wf_witness: "db_wf demo_db \<and> length (cd_outbound demo_db) = 2"
  using db_reachable_wf [OF demo_db_reachable] by (simp add: demo_db_eq)

lemma applied_update_mono:
  assumes "\<And>r. lr_list_id (f r) = lr_list_id r" "\<And>r. lr_applied_through_seq r \<le> lr_applied_through_seq (f r)"
  shows "applied_through_seq k db \<le> applied_through_seq k (update_list l f db)"
  using assms by (auto simp: applied_through_seq_def update_list_def row_get_update split: option.splits)

lemma applied_same_lists: "cd_lists db' = cd_lists db \<Longrightarrow> applied_through_seq k db \<le> applied_through_seq k db'"
  by (simp add: applied_through_seq_def)

lemma set_epoch_as_update: "set_epoch l e db = Inr db' \<Longrightarrow> db' = update_list l (lr_current_epoch_update (\<lambda>_. e)) db"
  by (simp add: set_epoch_def split: if_splits)

text \<open>The sync cursor of a list never moves backwards, whatever operation runs, as long as the
  list is still there afterwards; only deleting the list forgets it.\<close>

lemma cursor_monotone:
  assumes "db_step db db'" and "has_list l db'"
  shows "applied_through_seq l db \<le> applied_through_seq l db'"
  using assms
proof (induction rule: db_step.induct)
  case (upsert_list k r e name db db')
  then show ?case
    by (elim upsert_list_as_put) (auto simp: applied_through_seq_def row_get_put)
next
  case (upsert_list_meta k r e db db')
  then show ?case
    by (elim upsert_list_meta_as_put) (auto simp: applied_through_seq_def row_get_put)
next
  case (set_epoch k e db db')
  show ?case unfolding set_epoch_as_update [OF set_epoch.hyps] by (rule applied_update_mono) simp_all
next
  case (delete_list k db)
  then show ?case by (auto simp: applied_through_seq_def delete_list_def has_list_def row_get_del)
next
  case (rename_list k name db)
  show ?case unfolding rename_list_def by (rule applied_update_mono) simp_all
next
  case (set_applied_through_seq k seq db)
  show ?case unfolding set_applied_through_seq_def by (rule applied_update_mono) simp_all
next
  case (set_server_snapshot_seq k seq db)
  show ?case unfolding set_server_snapshot_seq_def by (rule applied_update_mono) simp_all
next
  case (replace_todo_items json_tags k its db db')
  then have "cd_lists db' = cd_lists db"
    by (auto simp: replace_todo_items_def Let_def split: if_splits sum.splits)
  then show ?case by (rule applied_same_lists)
next
  case (take_outbound db k n)
  show ?case by (intro applied_same_lists) (simp add: take_outbound_db)
qed (auto simp: save_account_def save_device_cache_def clear_device_cache_def save_document_def
       add_member_row_def remove_member_row_def save_key_slot_def enqueue_outbound_def
       ack_outbound_def release_outbound_def
     intro!: applied_same_lists split: if_splits)

text \<open>Draining the outbound queue claims the pending updates of a list in the order they were
  made and never the same row twice: what a claim returns followed by what stays pending is what
  was pending, a second claim is disjoint from the first, and a limit at least the number of
  pending rows leaves none.\<close>

lemma outbound_drain:
  assumes "queue_wf (cd_outbound db)" and "take_outbound l n db = (rows, db')"
  shows "map cr_local_id rows @ pending_ids l db' = pending_ids l db \<and>
         sorted (map cr_local_id rows) \<and>
         set (map cr_local_id (fst (take_outbound l m db'))) \<inter> set (map cr_local_id rows) = {} \<and>
         (int (length (pending_ids l db)) \<le> n \<longrightarrow> pending_ids l db' = [])"
proof -
  have ids: "map cr_local_id rows @ pending_ids l db' = pending_ids l db"
    using outbox.claim_split [OF assms(1), where n = n and l = l] assms(2) by simp
  moreover have "sorted (pending_ids l db)"
    by (simp add: pending_ids_def pending_rows_def)
  ultimately have "sorted (map cr_local_id rows)" by (metis sorted_append)
  then show ?thesis
    using ids outbox.no_double_claim [OF assms(1), where m = m and n = n and l = l]
      outbox.claim_all [OF assms(1), where n = n and l = l] assms(2)
    by simp
qed

lemma demo_take:
  "map cr_local_id (fst (take_outbound demo_list 1 demo_db)) = [1] \<and> pending_ids demo_list demo_db = [1, 2]"
  by (simp add: take_outbound_def pending_ids_def pending_rows_def sql_limit_def demo_db_eq Let_def)

end
