(* ===== verification/ClientCrypto.thy ===== *)
theory ClientCrypto
  imports ListDoc
begin

text \<open>
  The client's cryptographic layer (\<open>todoers-client/src/crypto.rs\<close>): the encrypt-then-sign update
  envelope, sealed DEKs, the wrapping of the private identity, the device vault, the signed device
  challenge and the membership operations on list metadata.  The primitives (XChaCha20-Poly1305,
  Ed25519, the sealed box, SHA-256, Argon2id, X-Wing, hex) are the fields of a record \<open>crypto\<close> that
  every operation takes; \<open>crypto_ok\<close> states the documented correctness of those libraries.  Random
  nonces are arguments.
\<close>

record crypto =
  c_aead_enc :: "32 fixed \<Rightarrow> nonce \<Rightarrow> bytes \<Rightarrow> bytes \<Rightarrow> bytes"
  c_aead_dec :: "32 fixed \<Rightarrow> nonce \<Rightarrow> bytes \<Rightarrow> bytes \<Rightarrow> bytes option"
  c_verifying_key :: "ed25519_signing \<Rightarrow> ed25519_pub"
  c_key_valid :: "ed25519_pub \<Rightarrow> bool"
  c_sign :: "ed25519_signing \<Rightarrow> bytes \<Rightarrow> signature"
  c_verify :: "ed25519_pub \<Rightarrow> bytes \<Rightarrow> signature \<Rightarrow> bool"
  c_x_public :: "x25519_secret \<Rightarrow> x25519_pub"
  c_seal :: "bytes \<Rightarrow> x25519_pub \<Rightarrow> bytes \<Rightarrow> bytes"
  c_unseal :: "x25519_pub \<Rightarrow> x25519_secret \<Rightarrow> bytes \<Rightarrow> bytes option"
  c_sha256 :: "bytes \<Rightarrow> 32 fixed"
  c_argon2 :: "bytes \<Rightarrow> bytes \<Rightarrow> nat \<Rightarrow> nat \<Rightarrow> nat \<Rightarrow> (32 fixed) option"
  c_hex_decode :: "string \<Rightarrow> bytes option"
  c_ek_valid :: "bytes \<Rightarrow> bool"
  c_encapsulate :: "bytes \<Rightarrow> bytes \<Rightarrow> bytes \<times> 32 fixed"
  c_kem_public :: "32 fixed \<Rightarrow> bytes"
  c_decapsulate :: "32 fixed \<Rightarrow> bytes \<Rightarrow> 32 fixed"

definition kem_ciphertext_size :: nat where "kem_ciphertext_size = 1120"

text \<open>Decryption inverts encryption and accepts nothing else (the tag of a fixed key, nonce and
  associated data is a function of the message); a signature verifies under the key of its seed;
  a sealed box opens with the secret of its recipient; decapsulation recovers the shared key.\<close>

definition aead_ok :: "crypto \<Rightarrow> bool" where
  "aead_ok C \<longleftrightarrow> (\<forall>k n m a c. c_aead_dec C k n c a = Some m \<longleftrightarrow> c = c_aead_enc C k n m a)"

definition sign_ok :: "crypto \<Rightarrow> bool" where
  "sign_ok C \<longleftrightarrow> (\<forall>s m. c_key_valid C (c_verifying_key C s) \<and> c_verify C (c_verifying_key C s) m (c_sign C s m))"

definition seal_ok :: "crypto \<Rightarrow> bool" where
  "seal_ok C \<longleftrightarrow> (\<forall>r s m. c_unseal C (c_x_public C s) s (c_seal C r (c_x_public C s) m) = Some m)"

definition kem_ok :: "crypto \<Rightarrow> bool" where
  "kem_ok C \<longleftrightarrow> (\<forall>sk r. c_ek_valid C (c_kem_public C sk) \<and>
     length (fst (c_encapsulate C (c_kem_public C sk) r)) = kem_ciphertext_size \<and>
     c_decapsulate C sk (fst (c_encapsulate C (c_kem_public C sk) r)) = snd (c_encapsulate C (c_kem_public C sk) r))"

definition crypto_ok :: "crypto \<Rightarrow> bool" where
  "crypto_ok C \<longleftrightarrow> aead_ok C \<and> sign_ok C \<and> seal_ok C \<and> kem_ok C"

section \<open>The update envelope\<close>

definition produce_update ::
    "crypto \<Rightarrow> nonce \<Rightarrow> byte \<Rightarrow> list_id \<Rightarrow> epoch \<Rightarrow> member_id \<Rightarrow> dek \<Rightarrow> ed25519_signing \<Rightarrow> bytes \<Rightarrow> update_payload" where
  "produce_update C nonce version list_id epoch author dek signing_key loro_update =
     (let ciphertext = c_aead_enc C dek nonce loro_update (aead_aad version list_id epoch author nonce);
          sig = c_sign C signing_key (signing_view version list_id epoch author nonce ciphertext)
      in \<lparr> up_version = version, up_list_id = list_id, up_epoch = epoch, up_author = author,
           up_nonce = nonce, up_ciphertext = ciphertext, up_signature = sig \<rparr>)"

definition payload_view :: "update_payload \<Rightarrow> bytes" where
  "payload_view p = signing_view (up_version p) (up_list_id p) (up_epoch p) (up_author p) (up_nonce p) (up_ciphertext p)"

definition payload_aad :: "update_payload \<Rightarrow> bytes" where
  "payload_aad p = aead_aad (up_version p) (up_list_id p) (up_epoch p) (up_author p) (up_nonce p)"

definition verify_and_decrypt ::
    "crypto \<Rightarrow> update_payload \<Rightarrow> list_id \<Rightarrow> ed25519_pub \<Rightarrow> dek \<Rightarrow> client_error + bytes" where
  "verify_and_decrypt C p expect_list author_signing_pub dek =
     (if up_list_id p \<noteq> expect_list then Inl WrongList
      else if \<not> c_key_valid C author_signing_pub then Inl BadSignature
      else if \<not> c_verify C author_signing_pub (payload_view p) (up_signature p) then Inl BadSignature
      else (case c_aead_dec C dek (up_nonce p) (up_ciphertext p) (payload_aad p) of
              None \<Rightarrow> Inl Aead
            | Some plain \<Rightarrow> Inr plain))"

section \<open>Sealed DEKs and the private identity\<close>

definition seal_to :: "crypto \<Rightarrow> bytes \<Rightarrow> dek \<Rightarrow> x25519_pub \<Rightarrow> bytes" where
  "seal_to C rnd dek recipient = c_seal C rnd recipient (as_slice dek)"

definition open_sealed :: "crypto \<Rightarrow> bytes \<Rightarrow> x25519_pub \<Rightarrow> x25519_secret \<Rightarrow> client_error + dek" where
  "open_sealed C wrapped my_pub my_secret =
     (case c_unseal C my_pub my_secret wrapped of
        None \<Rightarrow> Inl Aead
      | Some dek \<Rightarrow> map_err (\<lambda>_. Aead) (fixed_try_from dek))"

definition derive_escrow_key :: "crypto \<Rightarrow> bytes \<Rightarrow> 32 fixed" where
  "derive_escrow_key C export_key = c_sha256 C (ascii ''todoers:escrow-wrap:v1'' @ export_key)"

definition derive_local_master ::
    "crypto \<Rightarrow> bytes \<Rightarrow> bytes \<Rightarrow> nat \<Rightarrow> nat \<Rightarrow> nat \<Rightarrow> client_error + 32 fixed" where
  "derive_local_master C password salt mem_kib iters parallelism =
     ok_or Kdf (c_argon2 C password salt mem_kib iters parallelism)"

definition secret_keys_len :: nat where "secret_keys_len = 64"

definition wrap_secret_keys ::
    "crypto \<Rightarrow> nonce \<Rightarrow> 32 fixed \<Rightarrow> x25519_secret \<Rightarrow> ed25519_signing \<Rightarrow> bytes" where
  "wrap_secret_keys C nonce master identity_secret signing_seed =
     (let plaintext = as_slice identity_secret @ as_slice signing_seed;
          ciphertext = c_aead_enc C master nonce plaintext []
      in as_slice nonce @ ciphertext)"

definition unwrap_secret_keys ::
    "crypto \<Rightarrow> 32 fixed \<Rightarrow> bytes \<Rightarrow> client_error + (x25519_secret \<times> ed25519_signing)" where
  "unwrap_secret_keys C master blob =
     (if length blob < 24 then Inl Aead
      else (let nonce = fixed_of_slice (take 24 blob); ciphertext = drop 24 blob
            in case c_aead_dec C master nonce ciphertext [] of
                 None \<Rightarrow> Inl Aead
               | Some plaintext \<Rightarrow>
                   if length plaintext \<noteq> secret_keys_len then Inl Aead
                   else Inr (fixed_of_slice (take 32 plaintext), fixed_of_slice (drop 32 plaintext))))"

section \<open>The device vault\<close>

text \<open>\<open>str::lines\<close>: pieces between newlines; the text after a final newline is not a line.\<close>

fun lines_from :: "string \<Rightarrow> string \<Rightarrow> string list" where
  "lines_from cur [] = (if cur = [] then [] else [cur])"
| "lines_from cur (c # s) = (if c = CHR 0x0A then cur # lines_from [] s else lines_from (cur @ [c]) s)"

definition str_lines :: "string \<Rightarrow> string list" where
  "str_lines s = lines_from [] s"

definition key_line :: "string \<Rightarrow> string option" where
  "key_line contents =
     find (\<lambda>l. l \<noteq> [] \<and> hd l \<noteq> CHR ''#'') (map trim (str_lines contents))"

definition device_seal :: "crypto \<Rightarrow> bytes \<Rightarrow> nonce \<Rightarrow> string \<Rightarrow> bytes \<Rightarrow> client_error + bytes" where
  "device_seal C rnd nonce recipient plaintext =
     (case c_hex_decode C (trim recipient) of
        None \<Rightarrow> Inl (DeviceVault ''recipient is not valid hex'')
      | Some pk \<Rightarrow>
          if \<not> c_ek_valid C pk then Inl (DeviceVault ''invalid recipient key'')
          else (let (ct, ss) = c_encapsulate C pk rnd
                in Inr (ct @ as_slice nonce @ c_aead_enc C ss nonce plaintext [])))"

definition device_open :: "crypto \<Rightarrow> string \<Rightarrow> bytes \<Rightarrow> client_error + bytes" where
  "device_open C identity_contents blob =
     (case key_line identity_contents of
        None \<Rightarrow> Inl (DeviceVault ''no device key found in identity file'')
      | Some sk_hex \<Rightarrow>
          (case c_hex_decode C sk_hex of
             None \<Rightarrow> Inl (DeviceVault ''identity is not valid hex'')
           | Some sk_bytes \<Rightarrow>
               (case fixed_try_from sk_bytes of
                  Inl _ \<Rightarrow> Inl (DeviceVault ''device key must be 32 bytes'')
                | Inr sk \<Rightarrow>
                    if length blob < kem_ciphertext_size + 24
                    then Inl (DeviceVault ''device cache blob is too short'')
                    else (let ct = take kem_ciphertext_size blob;
                              rest = drop kem_ciphertext_size blob;
                              ss = c_decapsulate C sk ct
                          in ok_or Aead (c_aead_dec C ss (fixed_of_slice (take 24 rest)) (drop 24 rest) [])))))"

definition sign_device_challenge ::
    "crypto \<Rightarrow> ed25519_signing \<Rightarrow> member_id \<Rightarrow> device_id \<Rightarrow> nonce \<Rightarrow> signature" where
  "sign_device_challenge C seed member_id device_id nonce =
     c_sign C seed (device_challenge_view device_challenge_version member_id device_id nonce)"

section \<open>Membership operations on metadata\<close>

definition add_member :: "crypto \<Rightarrow> bytes \<Rightarrow> list_metadata \<Rightarrow> member \<Rightarrow> dek \<Rightarrow> list_metadata" where
  "add_member C rnd meta new current_dek =
     (let wrapped = seal_to C rnd current_dek (mem_identity_pub new)
      in meta\<lparr> lm_key_slots := lm_key_slots meta @
                 [\<lparr> ks_epoch = lm_current_epoch meta, ks_member = mem_id new, ks_wrapped_dek = wrapped \<rparr>],
               lm_members := lm_members meta @ [new] \<rparr>)"

definition remove_member :: "crypto \<Rightarrow> (member_id \<Rightarrow> bytes) \<Rightarrow> list_metadata \<Rightarrow> member_id \<Rightarrow> dek \<Rightarrow> list_metadata" where
  "remove_member C rnd meta remove new_dek =
     (let members = filter (\<lambda>m. mem_id m \<noteq> remove) (lm_members meta);
          epoch = lm_current_epoch meta + 1;
          slots = lm_key_slots meta @
            map (\<lambda>m. \<lparr> ks_epoch = epoch, ks_member = mem_id m,
                       ks_wrapped_dek = seal_to C (rnd (mem_id m)) new_dek (mem_identity_pub m) \<rparr>) members
      in meta\<lparr> lm_members := members, lm_current_epoch := epoch,
               lm_key_slots := filter (\<lambda>s. ks_member s \<noteq> remove) slots \<rparr>)"

section \<open>A concrete instance of the primitives\<close>

definition toy_crypto :: crypto where
  "toy_crypto = \<lparr>
     c_aead_enc = (\<lambda>k n m a. as_slice k @ as_slice n @ a @ m),
     c_aead_dec = (\<lambda>k n c a. let p = as_slice k @ as_slice n @ a
                             in if take (length p) c = p then Some (drop (length p) c) else None),
     c_verifying_key = (\<lambda>s. s),
     c_key_valid = (\<lambda>_. True),
     c_sign = (\<lambda>s m. fixed_of_slice (as_slice s @ take 32 (m @ replicate 32 0))),
     c_verify = (\<lambda>p m s. s = fixed_of_slice (as_slice p @ take 32 (m @ replicate 32 0))),
     c_x_public = (\<lambda>s. s),
     c_seal = (\<lambda>r pk m. as_slice pk @ m),
     c_unseal = (\<lambda>pk sk c. if take 32 c = as_slice pk \<and> sk = pk then Some (drop 32 c) else None),
     c_sha256 = (\<lambda>m. fixed_of_slice (take 32 (m @ replicate 32 0))),
     c_argon2 = (\<lambda>pw salt mem it par. if it = 0 then None else Some (fixed_of_slice (take 32 (pw @ salt @ replicate 32 0)))),
     c_hex_decode = (\<lambda>s. Some (ascii s)),
     c_ek_valid = (\<lambda>_. True),
     c_encapsulate = (\<lambda>ek r. (take 32 (ek @ replicate 32 0) @ replicate 1088 0, fixed_of_slice (take 32 (ek @ replicate 32 0)))),
     c_kem_public = as_slice,
     c_decapsulate = (\<lambda>sk ct. fixed_of_slice (take 32 (ct @ replicate 32 0))) \<rparr>"

lemma toy_crypto_ok: "crypto_ok toy_crypto"
proof -
  have "aead_ok toy_crypto"
    by (auto simp: aead_ok_def toy_crypto_def Let_def split: if_splits) (metis append.assoc append_take_drop_id)
  moreover have "sign_ok toy_crypto" "seal_ok toy_crypto" "kem_ok toy_crypto"
    by (simp_all add: sign_ok_def seal_ok_def kem_ok_def toy_crypto_def kem_ciphertext_size_def)
  ultimately show ?thesis by (simp add: crypto_ok_def)
qed

section \<open>Lemmas\<close>

lemma aead_okD: "crypto_ok C \<Longrightarrow> c_aead_dec C k n c a = Some m \<longleftrightarrow> c = c_aead_enc C k n m a"
  by (simp add: crypto_ok_def aead_ok_def)

lemma aead_dec_enc: "crypto_ok C \<Longrightarrow> c_aead_dec C k n (c_aead_enc C k n m a) a = Some m"
  by (simp add: aead_okD)

lemma sign_okD:
  "crypto_ok C \<Longrightarrow> c_key_valid C (c_verifying_key C s)"
  "crypto_ok C \<Longrightarrow> c_verify C (c_verifying_key C s) m (c_sign C s m)"
  by (simp_all add: crypto_ok_def sign_ok_def)

lemma seal_okD: "crypto_ok C \<Longrightarrow> c_unseal C (c_x_public C s) s (c_seal C r (c_x_public C s) m) = Some m"
  by (simp add: crypto_ok_def seal_ok_def)

lemma kem_okD:
  "crypto_ok C \<Longrightarrow> c_ek_valid C (c_kem_public C sk)"
  "crypto_ok C \<Longrightarrow> length (fst (c_encapsulate C (c_kem_public C sk) r)) = kem_ciphertext_size"
  "crypto_ok C \<Longrightarrow> c_decapsulate C sk (fst (c_encapsulate C (c_kem_public C sk) r)) =
     snd (c_encapsulate C (c_kem_public C sk) r)"
  by (simp_all add: crypto_ok_def kem_ok_def)

lemma open_sealed_seal_to:
  "crypto_ok C \<Longrightarrow> open_sealed C (seal_to C rnd dek (c_x_public C sk)) (c_x_public C sk) sk = Inr dek"
  by (simp add: open_sealed_def seal_to_def seal_okD wire_simps)

lemma verify_and_decrypt_Inr:
  assumes "crypto_ok C"
  shows "verify_and_decrypt C p l pk dek = Inr m \<longleftrightarrow>
     up_list_id p = l \<and> c_key_valid C pk \<and> c_verify C pk (payload_view p) (up_signature p) \<and>
     up_ciphertext p = c_aead_enc C dek (up_nonce p) m (payload_aad p)"
  by (auto simp: verify_and_decrypt_def aead_dec_enc [OF assms] split: option.splits
      dest: aead_okD [OF assms, THEN iffD1])

lemma wrap_unwrap_Inr:
  assumes "crypto_ok C"
  shows "unwrap_secret_keys C master blob = Inr (idk, seed) \<longleftrightarrow>
     (\<exists>nonce. blob = wrap_secret_keys C nonce master idk seed)" (is "?l \<longleftrightarrow> ?r")
proof
  assume l: ?l
  then obtain pt where len: "24 \<le> length blob" and lp: "length pt = 64"
    and dec: "c_aead_dec C master (fixed_of_slice (take 24 blob)) (drop 24 blob) [] = Some pt"
    and keys: "idk = fixed_of_slice (take 32 pt)" "seed = fixed_of_slice (drop 32 pt)"
    by (auto simp: unwrap_secret_keys_def secret_keys_len_def Let_def split: if_splits option.splits)
  let ?n = "fixed_of_slice (take 24 blob) :: nonce"
  have "as_slice idk @ as_slice seed = pt" "as_slice ?n = take 24 blob"
    using len lp keys by simp_all
  moreover have "drop 24 blob = c_aead_enc C master ?n pt []"
    using dec aead_okD [OF assms] by blast
  ultimately have "blob = wrap_secret_keys C ?n master idk seed"
    by (metis append_take_drop_id wrap_secret_keys_def)
  then show ?r by blast
next
  assume ?r
  then obtain nonce where blob: "blob = wrap_secret_keys C nonce master idk seed" by blast
  then show ?l
    by (simp add: unwrap_secret_keys_def wrap_secret_keys_def secret_keys_len_def Let_def
        aead_dec_enc [OF assms])
qed

section \<open>Properties\<close>



text \<open>Removing a member rotates the list: the epoch goes up by one, the removed member keeps no
  slot of any epoch, every other member keeps the slots they had and gains one under the new epoch
  that opens with their secret to the new DEK.\<close>

lemma remove_member_rotates:
  assumes "crypto_ok C" and "meta' = remove_member C rnd meta gone new_dek"
  shows "lm_current_epoch meta' = lm_current_epoch meta + 1 \<and>
     gone \<notin> mem_id ` set (lm_members meta') \<and> gone \<notin> ks_member ` set (lm_key_slots meta') \<and>
     (\<forall>s\<in>set (lm_key_slots meta). ks_member s \<noteq> gone \<longrightarrow> s \<in> set (lm_key_slots meta')) \<and>
     (\<forall>m\<in>set (lm_members meta). mem_id m \<noteq> gone \<longrightarrow> m \<in> set (lm_members meta') \<and>
        (\<exists>s\<in>set (lm_key_slots meta'). ks_epoch s = lm_current_epoch meta' \<and> ks_member s = mem_id m \<and>
          (\<forall>sk. mem_identity_pub m = c_x_public C sk \<longrightarrow>
             open_sealed C (ks_wrapped_dek s) (mem_identity_pub m) sk = Inr new_dek)))"
proof -
  have slot: "\<exists>s\<in>set (lm_key_slots meta'). ks_epoch s = lm_current_epoch meta' \<and> ks_member s = mem_id m \<and>
          (\<forall>sk. mem_identity_pub m = c_x_public C sk \<longrightarrow>
             open_sealed C (ks_wrapped_dek s) (mem_identity_pub m) sk = Inr new_dek)"
    if "m \<in> set (lm_members meta)" "mem_id m \<noteq> gone" for m
    unfolding assms(2)
    by (rule bexI [of _ "\<lparr> ks_epoch = lm_current_epoch meta + 1, ks_member = mem_id m,
          ks_wrapped_dek = seal_to C (rnd (mem_id m)) new_dek (mem_identity_pub m) \<rparr>"])
       (use that in \<open>auto simp: remove_member_def Let_def open_sealed_seal_to [OF assms(1)]\<close>)
  moreover have "m \<in> set (lm_members meta')" if "m \<in> set (lm_members meta)" "mem_id m \<noteq> gone" for m
    using that by (simp add: assms(2) remove_member_def Let_def)
  ultimately show ?thesis by (auto simp: assms(2) remove_member_def Let_def)
qed

definition demo_member :: "byte \<Rightarrow> member" where
  "demo_member b = \<lparr> mem_id = fixed_repeat b, mem_identity_pub = fixed_repeat b, mem_signing_pub = fixed_repeat b, mem_role = Member \<rparr>"

lemma add_member_opens:
  assumes "crypto_ok C" and "mem_identity_pub new = c_x_public C sk"
  shows "\<exists>s\<in>set (lm_key_slots (add_member C rnd meta new dek)). ks_member s = mem_id new \<and>
     ks_epoch s = lm_current_epoch meta \<and> open_sealed C (ks_wrapped_dek s) (mem_identity_pub new) sk = Inr dek"
  using assms by (simp add: add_member_def Let_def open_sealed_seal_to)

lemma device_vault_opens:
  assumes "crypto_ok C" and "c_hex_decode C (trim recipient) = Some (c_kem_public C sk)"
    and "key_line identity = Some sk_hex" and "c_hex_decode C sk_hex = Some (as_slice sk)"
  shows "\<exists>blob. device_seal C rnd nonce recipient plain = Inr blob \<and> device_open C identity blob = Inr plain \<and>
     (\<forall>k. k < kem_ciphertext_size + 24 \<longrightarrow>
        device_open C identity (take k blob) = Inl (DeviceVault ''device cache blob is too short''))"
proof -
  obtain ct ss where enc: "c_encapsulate C (c_kem_public C sk) rnd = (ct, ss)" by fastforce
  then have ct: "length ct = kem_ciphertext_size" "c_decapsulate C sk ct = ss"
    using kem_okD(2,3) [OF assms(1), of sk rnd] by simp_all
  let ?blob = "ct @ as_slice nonce @ c_aead_enc C ss nonce plain []"
  have seal: "device_seal C rnd nonce recipient plain = Inr ?blob"
    by (simp add: device_seal_def assms(2) kem_okD(1) [OF assms(1)] enc)
  have conv: "fixed_try_from (as_slice sk) = Inr sk" by (simp add: wire_simps)
  have dec: "c_aead_dec C ss nonce (c_aead_enc C ss nonce plain []) [] = Some plain"
    using aead_okD [OF assms(1)] by blast
  have "device_open C identity ?blob = Inr plain"
    by (simp add: device_open_def assms(3,4) conv ct [symmetric] Let_def dec)
       (simp add: ct dec)
  moreover have "device_open C identity (take k ?blob) = Inl (DeviceVault ''device cache blob is too short'')"
    if "k < kem_ciphertext_size + 24" for k
    using that by (simp add: device_open_def assms(3,4) conv)
  ultimately show ?thesis using seal by blast
qed

lemma device_seal_opens:
  assumes "crypto_ok C" and "c_hex_decode C (trim recipient) = Some (c_kem_public C sk)"
    and "key_line identity = Some sk_hex" and "c_hex_decode C sk_hex = Some (as_slice sk)"
    and "device_seal C rnd nonce recipient plain = Inr blob"
  shows "device_open C identity blob = Inr plain"
  using device_vault_opens [OF assms(1-4), of rnd nonce plain] assms(5) by auto

definition demo_hex :: string where "demo_hex = replicate 32 CHR ''k''"

end
