(* ===== verification/Store.thy ===== *)
theory Store
  imports ClientDb ClientCrypto
begin

text \<open>
  The client's session (\<open>todoers-client/src/session.rs\<close>) and store facade
  (\<open>todoers-client/src/store.rs\<close>): every operation with its calls to the database, the document, the
  crypto layer and the sync channel, in the order of the code.  An operation is a function of the
  store that returns a result and the new store, so the effects made before an error stay, as they
  do in the code.  The document library's snapshot, merge and delta, the tag JSON and the postcard
  codec are the fields of \<open>store_env\<close>; random values and UUIDs are arguments.
\<close>

section \<open>Session\<close>

record session =
  se_member_id :: member_id
  se_identity_secret :: x25519_secret
  se_identity_pub :: x25519_pub
  se_signing_seed :: ed25519_signing
  se_signing_pub :: ed25519_pub
  se_token :: string
  se_deks :: "list_id \<times> epoch \<rightharpoonup> dek"

record unlocked_keys =
  ul_member_id :: member_id
  ul_identity_secret :: x25519_secret
  ul_identity_pub :: x25519_pub
  ul_signing_seed :: ed25519_signing
  ul_signing_pub :: ed25519_pub
  ul_token :: string

definition session_new :: "unlocked_keys \<Rightarrow> session" where
  "session_new keys =
     \<lparr> se_member_id = ul_member_id keys, se_identity_secret = ul_identity_secret keys,
       se_identity_pub = ul_identity_pub keys, se_signing_seed = ul_signing_seed keys,
       se_signing_pub = ul_signing_pub keys, se_token = ul_token keys, se_deks = Map.empty \<rparr>"

definition session_dek :: "session \<Rightarrow> list_id \<Rightarrow> epoch \<Rightarrow> dek option" where
  "session_dek S l e = se_deks S (l, e)"

definition insert_dek :: "list_id \<Rightarrow> epoch \<Rightarrow> dek \<Rightarrow> session \<Rightarrow> session" where
  "insert_dek l e k S = S\<lparr> se_deks := (se_deks S)((l, e) \<mapsto> k) \<rparr>"

definition rehydrate_slot :: "crypto \<Rightarrow> key_slot_row \<Rightarrow> session \<Rightarrow> session" where
  "rehydrate_slot C slot S =
     (case open_sealed C (kr_wrapped_dek slot) (se_identity_pub S) (se_identity_secret S) of
        Inr dek \<Rightarrow> insert_dek (kr_list_id slot) (kr_epoch slot) dek S
      | Inl _ \<Rightarrow> S)"

definition rehydrate :: "crypto \<Rightarrow> client_db \<Rightarrow> session \<Rightarrow> session" where
  "rehydrate C db S = foldl (\<lambda>S slot. rehydrate_slot C slot S) S (load_key_slots db)"

interpretation dek_map:
  keyed_store "\<lambda>k S. session_dek S (fst k) (snd k)" "\<lambda>k v S. insert_dek (fst k) (snd k) v S"
    "\<lambda>k S. S\<lparr> se_deks := (se_deks S)(k := None) \<rparr>"
  by unfold_locales (auto simp: session_dek_def insert_dek_def prod_eq_iff)

section \<open>The store\<close>

datatype sync_command =
    SyncPush list_id
  | SyncCreateList list_id bytes
  | SyncDeleteList list_id
  | SyncAddMember list_id add_member_request
  | SyncRemoveMember list_id remove_member_request
  | InitialSync
  | SyncPull list_id
  | SyncSubscribe list_id

record store_env =
  ev_crypto :: crypto
  ev_export_snapshot :: "todo_doc \<Rightarrow> bytes"
  ev_from_snapshot :: "bytes \<Rightarrow> todo_doc option"
  ev_import :: "todo_doc \<Rightarrow> bytes \<Rightarrow> todo_doc option"
  ev_export_updates :: "todo_doc \<Rightarrow> todo_doc \<Rightarrow> bytes"
  ev_json_tags :: "string list \<Rightarrow> string"
  ev_parse_tags :: "string \<Rightarrow> string list option"
  ev_to_postcard :: "update_payload \<Rightarrow> bytes"
  ev_from_postcard :: "bytes \<Rightarrow> update_payload option"
  ev_calendar :: calendar

record store =
  st_db :: client_db
  st_session :: session
  st_docs :: "list_id \<rightharpoonup> todo_doc"
  st_sync_wired :: bool
  st_sync_sent :: "sync_command list"

type_synonym 'a action = "store \<Rightarrow> (client_error + 'a) \<times> store"

definition update_version :: byte where "update_version = 1"

definition lift_db :: "(client_db \<Rightarrow> client_error + client_db) \<Rightarrow> unit action" where
  "lift_db f s = (case f (st_db s) of Inl e \<Rightarrow> (Inl e, s) | Inr db \<Rightarrow> (Inr (), s\<lparr> st_db := db \<rparr>))"

definition modify_db :: "(client_db \<Rightarrow> client_db) \<Rightarrow> unit action" where
  "modify_db f s = (Inr (), s\<lparr> st_db := f (st_db s) \<rparr>)"

definition of_option :: "client_error \<Rightarrow> (store \<Rightarrow> 'a option) \<Rightarrow> 'a action" where
  "of_option e f s = (case f s of None \<Rightarrow> (Inl e, s) | Some x \<Rightarrow> (Inr x, s))"

text \<open>\<open>Store::sync\<close>: a command is dropped when no sync engine is attached.\<close>

definition sync :: "sync_command \<Rightarrow> unit action" where
  "sync cmd s = (Inr (), if st_sync_wired s then s\<lparr> st_sync_sent := st_sync_sent s @ [cmd] \<rparr> else s)"

definition store_new :: "client_db \<Rightarrow> session \<Rightarrow> store" where
  "store_new db S = \<lparr> st_db = db, st_session = S, st_docs = Map.empty, st_sync_wired = False, st_sync_sent = [] \<rparr>"

definition set_sync_tx :: "store \<Rightarrow> store" where
  "set_sync_tx s = s\<lparr> st_sync_wired := True \<rparr>"

section \<open>The persist pipeline\<close>

definition ensure_doc :: "store_env \<Rightarrow> list_id \<Rightarrow> unit action" where
  "ensure_doc E l s =
     (if st_docs s l \<noteq> None then (Inr (), s)
      else (case load_document l (st_db s) of
              None \<Rightarrow> (Inr (), s\<lparr> st_docs := (st_docs s)(l \<mapsto> doc_new) \<rparr>)
            | Some snap \<Rightarrow>
                (case ev_from_snapshot E snap of
                   None \<Rightarrow> (Inl Loro, s)
                 | Some doc \<Rightarrow> (Inr (), s\<lparr> st_docs := (st_docs s)(l \<mapsto> doc) \<rparr>))))"

definition enqueue_delta :: "store_env \<Rightarrow> nonce \<Rightarrow> list_id \<Rightarrow> epoch \<Rightarrow> dek \<Rightarrow> bytes \<Rightarrow> unit action" where
  "enqueue_delta E nonce l epoch dek update s =
     (if update = [] then (Inr (), s)
      else (let S = st_session s;
                payload = produce_update (ev_crypto E) nonce update_version l epoch (se_member_id S) dek
                            (se_signing_seed S) update;
                bs = ev_to_postcard E payload
            in sbind (lift_db (enqueue_outbound l epoch bs (up_signature payload)))
                 (\<lambda>_. sync (SyncPush l)) s))"

definition save_doc :: "store_env \<Rightarrow> list_id \<Rightarrow> todo_doc \<Rightarrow> unit action" where
  "save_doc E l doc =
     sbind (lift_db (save_document l (ev_export_snapshot E doc)))
       (\<lambda>_. lift_db (replace_todo_items (ev_json_tags E) l (items doc)))"

definition persist :: "store_env \<Rightarrow> nonce \<Rightarrow> list_id \<Rightarrow> todo_doc \<Rightarrow> todo_doc \<Rightarrow> unit action" where
  "persist E nonce l doc_before doc =
     sbind (of_option UnknownList (\<lambda>s. list_epoch l (st_db s))) (\<lambda>epoch.
     sbind (of_option NoDek (\<lambda>s. session_dek (st_session s) l epoch)) (\<lambda>dek.
     sbind (enqueue_delta E nonce l epoch dek (ev_export_updates E doc_before doc)) (\<lambda>_.
     save_doc E l doc)))"

definition edit_doc :: "store_env \<Rightarrow> nonce \<Rightarrow> list_id \<Rightarrow> (todo_doc \<Rightarrow> client_error + todo_doc) \<Rightarrow> unit action" where
  "edit_doc E nonce l f =
     sbind (ensure_doc E l) (\<lambda>_ s.
       (case st_docs s l of
          None \<Rightarrow> (Inl DocNotOpen, s)
        | Some doc \<Rightarrow>
            (case f doc of
               Inl e \<Rightarrow> (Inl e, s)
             | Inr doc' \<Rightarrow> persist E nonce l doc doc' (s\<lparr> st_docs := (st_docs s)(l \<mapsto> doc') \<rparr>))))"

definition rebuild_read_model :: "store_env \<Rightarrow> list_id \<Rightarrow> unit action" where
  "rebuild_read_model E l =
     sbind (of_option DocNotOpen (\<lambda>s. st_docs s l)) (\<lambda>doc. save_doc E l doc)"

section \<open>Lists\<close>

definition modify_session :: "(session \<Rightarrow> session) \<Rightarrow> unit action" where
  "modify_session f s = (Inr (), s\<lparr> st_session := f (st_session s) \<rparr>)"

definition self_member :: "session \<Rightarrow> member" where
  "self_member S = \<lparr> mem_id = se_member_id S, mem_identity_pub = se_identity_pub S,
     mem_signing_pub = se_signing_pub S, mem_role = Owner \<rparr>"

definition create_list :: "store_env \<Rightarrow> list_id \<Rightarrow> dek \<Rightarrow> bytes \<Rightarrow> nonce \<Rightarrow> string \<Rightarrow> list_id action" where
  "create_list E l dek rnd nonce name s =
     (let epoch = 1;
          wrapped_dek = seal_to (ev_crypto E) rnd dek (se_identity_pub (st_session s))
      in sbind (lift_db (upsert_list l Owner epoch name)) (\<lambda>_.
         sbind (lift_db (save_key_slot l epoch wrapped_dek)) (\<lambda>_.
         sbind (modify_session (insert_dek l epoch dek)) (\<lambda>_.
         sbind (sync (SyncCreateList l wrapped_dek)) (\<lambda>_.
         sbind (lift_db (add_member_row l (self_member (st_session s)))) (\<lambda>_ s.
           (case set_title name doc_new of
              Inl e \<Rightarrow> (Inl e, s)
            | Inr doc \<Rightarrow>
                sbind (persist E nonce l doc_new doc) (\<lambda>_. sreturn l)
                  (s\<lparr> st_docs := (st_docs s)(l \<mapsto> doc) \<rparr>))))))) s)"

definition rename_list_store :: "store_env \<Rightarrow> nonce \<Rightarrow> list_id \<Rightarrow> string \<Rightarrow> unit action" where
  "rename_list_store E nonce l name =
     sbind (modify_db (rename_list l name)) (\<lambda>_. edit_doc E nonce l (set_title name))"

definition delete_list_store :: "list_id \<Rightarrow> unit action" where
  "delete_list_store l =
     sbind (modify_db (delete_list l)) (\<lambda>_ s.
       sync (SyncDeleteList l) (s\<lparr> st_docs := (st_docs s)(l := None) \<rparr>))"

definition min_due :: "odt list \<Rightarrow> odt option" where
  "min_due ds = (case sort_key instant ds of [] \<Rightarrow> None | d # _ \<Rightarrow> Some d)"

definition list_summary_of :: "(list_id \<times> todo_item) list \<Rightarrow> list_row \<Rightarrow> list_summary" where
  "list_summary_of all l =
     (let open_items = map snd (filter (\<lambda>(lid, it). lid = lr_list_id l \<and> \<not> ti_done it) all)
      in \<lparr> ls_id = lr_list_id l,
           ls_name = (case lr_name l of None \<Rightarrow> [] | Some n \<Rightarrow> n),
           ls_role = lr_role l,
           ls_open_count = length open_items,
           ls_next_due = min_due (List.map_filter ti_due open_items),
           ls_top_priority = foldr max (map ti_priority open_items) PNone \<rparr>)"

definition list_summaries :: "store_env \<Rightarrow> client_db \<Rightarrow> list_summary list" where
  "list_summaries E db = map (list_summary_of (load_all_todo_items (ev_parse_tags E) db)) (list_lists db)"

section \<open>Views\<close>

definition in_meta :: "calendar \<Rightarrow> meta_list \<Rightarrow> todo_item \<Rightarrow> odt \<Rightarrow> bool" where
  "in_meta cal m it now = meta_contains cal m (ti_due it) now"

definition load_view :: "store_env \<Rightarrow> odt \<Rightarrow> view_target \<Rightarrow> sort_mode \<Rightarrow> client_db
    \<Rightarrow> client_error + (list_id \<times> todo_item) list" where
  "load_view E now target mode db =
     (case target of
        TargetList l \<Rightarrow>
          (case load_todo_items (ev_parse_tags E) l db of
             Inl e \<Rightarrow> Inl e
           | Inr its \<Rightarrow> Inr (sort_items (map (Pair l) its) mode))
      | TargetMeta m \<Rightarrow>
          Inr (sort_items (filter (\<lambda>(_, it). \<not> ti_done it \<and> in_meta (ev_calendar E) m it now)
                 (load_all_todo_items (ev_parse_tags E) db)) mode))"

record view_snapshot =
  vs_lists :: "list_summary list"
  vs_panes :: "(list_id \<times> todo_item) list list"

fun load_panes :: "store_env \<Rightarrow> odt \<Rightarrow> sort_mode \<Rightarrow> client_db \<Rightarrow> view_target option list
    \<Rightarrow> client_error + (list_id \<times> todo_item) list list" where
  "load_panes E now mode db [] = Inr []"
| "load_panes E now mode db (t # ts) =
     (case (case t of None \<Rightarrow> Inr [] | Some target \<Rightarrow> load_view E now target mode db) of
        Inl e \<Rightarrow> Inl e
      | Inr v \<Rightarrow> (case load_panes E now mode db ts of Inl e \<Rightarrow> Inl e | Inr vs \<Rightarrow> Inr (v # vs)))"

definition snapshot_for :: "store_env \<Rightarrow> odt \<Rightarrow> view_target option list \<Rightarrow> sort_mode \<Rightarrow> client_db
    \<Rightarrow> client_error + view_snapshot" where
  "snapshot_for E now targets mode db =
     (let summaries = sort_summaries (list_summaries E db) mode
      in case load_panes E now mode db targets of
           Inl e \<Rightarrow> Inl e
         | Inr panes \<Rightarrow> Inr \<lparr> vs_lists = summaries, vs_panes = panes \<rparr>)"

definition full_item :: "store_env \<Rightarrow> list_id \<Rightarrow> string \<Rightarrow> todo_item option action" where
  "full_item E l k =
     sbind (ensure_doc E l) (\<lambda>_.
     sbind (of_option DocNotOpen (\<lambda>s. st_docs s l)) (\<lambda>doc.
     sreturn (find (\<lambda>i. ti_id i = k) (items doc))))"

section \<open>Membership\<close>

definition add_member_local :: "store_env \<Rightarrow> bytes \<Rightarrow> list_id \<Rightarrow> member \<Rightarrow> unit action" where
  "add_member_local E rnd l m =
     sbind (of_option UnknownList (\<lambda>s. list_epoch l (st_db s))) (\<lambda>epoch.
     sbind (of_option NoDek (\<lambda>s. session_dek (st_session s) l epoch)) (\<lambda>dek.
     sbind (lift_db (add_member_row l m)) (\<lambda>_.
     sync (SyncAddMember l
       \<lparr> am_list_id = l, am_member_id = mem_id m, am_role = mem_role m,
         am_wrapped_dek = seal_to (ev_crypto E) rnd dek (mem_identity_pub m), am_epoch = epoch \<rparr>))))"

definition remaining_members :: "list_id \<Rightarrow> member_id \<Rightarrow> client_db \<Rightarrow> member list" where
  "remaining_members l gone db = filter (\<lambda>m. mem_id m \<noteq> gone) (list_members l db)"

definition new_slots :: "crypto \<Rightarrow> (member_id \<Rightarrow> bytes) \<Rightarrow> dek \<Rightarrow> member list \<Rightarrow> key_slot_entry list" where
  "new_slots C rnd new_dek ms =
     map (\<lambda>m. \<lparr> ke_member_id = mem_id m,
                ke_wrapped_dek = seal_to C (rnd (mem_id m)) new_dek (mem_identity_pub m) \<rparr>) ms"

definition remove_member_local ::
    "store_env \<Rightarrow> dek \<Rightarrow> (member_id \<Rightarrow> bytes) \<Rightarrow> bytes \<Rightarrow> list_id \<Rightarrow> member_id \<Rightarrow> unit action" where
  "remove_member_local E new_dek rnd my_rnd l gone =
     sbind (of_option UnknownList (\<lambda>s. list_epoch l (st_db s))) (\<lambda>current s.
       (let new_epoch = current + 1;
            slots = new_slots (ev_crypto E) rnd new_dek (remaining_members l gone (st_db s));
            my_wrapped = seal_to (ev_crypto E) my_rnd new_dek (se_identity_pub (st_session s))
        in sbind (lift_db (save_key_slot l new_epoch my_wrapped)) (\<lambda>_.
           sbind (modify_session (insert_dek l new_epoch new_dek)) (\<lambda>_.
           sbind (lift_db (set_epoch l new_epoch)) (\<lambda>_.
           sbind (modify_db (remove_member_row l gone)) (\<lambda>_.
           sync (SyncRemoveMember l
             \<lparr> rm_list_id = l, rm_remove_member_id = gone, rm_epoch = current, rm_new_slots = slots \<rparr>))))) s))"

section \<open>Inbound sync\<close>

definition remote_payload :: "list_id \<Rightarrow> stored_update_dto \<Rightarrow> update_payload" where
  "remote_payload l dto =
     \<lparr> up_version = update_version, up_list_id = l, up_epoch = sd_epoch dto, up_author = sd_author dto,
       up_nonce = sd_nonce dto, up_ciphertext = sd_ciphertext dto, up_signature = sd_signature dto \<rparr>"

definition apply_remote_update :: "store_env \<Rightarrow> list_id \<Rightarrow> stored_update_dto \<Rightarrow> bool action" where
  "apply_remote_update E l dto s =
     (if sd_author dto = se_member_id (st_session s)
      then sbind (modify_db (set_applied_through_seq l (sd_seq dto))) (\<lambda>_. sreturn False) s
      else (case session_dek (st_session s) l (sd_epoch dto) of
        None \<Rightarrow> (Inr False, s)
      | Some dek \<Rightarrow>
          (case find (\<lambda>m. mem_id m = sd_author dto) (list_members l (st_db s)) of
             None \<Rightarrow> (Inr False, s)
           | Some m \<Rightarrow>
               (case verify_and_decrypt (ev_crypto E) (remote_payload l dto) l (mem_signing_pub m) dek of
                  Inl _ \<Rightarrow> (Inr False, s)
                | Inr loro \<Rightarrow>
                    sbind (ensure_doc E l) (\<lambda>_.
                    sbind (of_option DocNotOpen (\<lambda>s. st_docs s l)) (\<lambda>doc.
                    sbind (\<lambda>s. case ev_import E doc loro of
                             None \<Rightarrow> (Inl Loro, s)
                           | Some doc' \<Rightarrow> (Inr (), s\<lparr> st_docs := (st_docs s)(l \<mapsto> doc') \<rparr>)) (\<lambda>_.
                    sbind (rebuild_read_model E l) (\<lambda>_.
                    sbind (modify_db (set_applied_through_seq l (sd_seq dto))) (\<lambda>_.
                    sreturn True))))) s))))"

definition ingest_remote_list :: "store_env \<Rightarrow> metadata_response \<Rightarrow> key_slot_dto list \<Rightarrow> unit action" where
  "ingest_remote_list E md keys s =
     (let l = md_list_id md;
          me = se_member_id (st_session s);
          my_role = (case find (\<lambda>m. mem_id m = me) (md_members md) of None \<Rightarrow> Member | Some m \<Rightarrow> mem_role m)
      in sbind (lift_db (upsert_list_meta l my_role (md_current_epoch md))) (\<lambda>_.
         sbind (for_each (\<lambda>m. lift_db (add_member_row l m)) (md_members md)) (\<lambda>_.
         sbind (for_each (\<lambda>k. lift_db (save_key_slot l (kd_epoch k) (kd_wrapped_dek k))) keys) (\<lambda>_ s.
         modify_session (rehydrate (ev_crypto E) (st_db s)) s))) s)"

section \<open>Todo operations\<close>

text \<open>\<open>add_todo\<close>, \<open>edit_todo\<close>, \<open>toggle_done\<close>, \<open>set_priority\<close>, \<open>set_due\<close>, \<open>move_todo\<close>, \<open>delete_todo\<close>,
  \<open>add_tag\<close>, \<open>remove_tag\<close>, \<open>add_subtask\<close>, \<open>toggle_subtask\<close> and \<open>remove_subtask\<close> of the store are each
  \<open>edit_doc\<close> over one document operation.\<close>

definition todo_op :: "store_env \<Rightarrow> nonce \<Rightarrow> list_id \<Rightarrow> doc_op \<Rightarrow> unit action" where
  "todo_op E nonce l op = edit_doc E nonce l (doc_step op)"

section \<open>Lemmas on the pipeline\<close>

lemma lift_db_Inr: "lift_db f s = (Inr u, s') \<longleftrightarrow> (\<exists>db. f (st_db s) = Inr db \<and> s' = s\<lparr> st_db := db \<rparr>)"
  by (auto simp: lift_db_def split: sum.splits)

lemma of_option_Inr: "of_option e f s = (Inr x, s') \<longleftrightarrow> f s = Some x \<and> s' = s"
  by (auto simp: of_option_def split: option.splits)

lemma modify_db_Inr: "modify_db f s = (Inr u, s') \<longleftrightarrow> s' = s\<lparr> st_db := f (st_db s) \<rparr>"
  by (auto simp: modify_db_def)

lemma modify_session_Inr: "modify_session f s = (Inr u, s') \<longleftrightarrow> s' = s\<lparr> st_session := f (st_session s) \<rparr>"
  by (auto simp: modify_session_def)

lemmas action_simps = sbind_Inr lift_db_Inr of_option_Inr modify_db_Inr modify_session_Inr sreturn_Inr

text \<open>The document that \<open>ensure_doc\<close> opens.\<close>

definition open_doc :: "store_env \<Rightarrow> list_id \<Rightarrow> store \<Rightarrow> todo_doc option" where
  "open_doc E l s =
     (case st_docs s l of
        Some d \<Rightarrow> Some d
      | None \<Rightarrow> (case load_document l (st_db s) of None \<Rightarrow> Some doc_new | Some snap \<Rightarrow> ev_from_snapshot E snap))"

lemma ensure_doc_eq:
  "ensure_doc E l s =
     (case open_doc E l s of
        None \<Rightarrow> (Inl Loro, s)
      | Some d \<Rightarrow> (Inr (), s\<lparr> st_docs := (st_docs s)(l \<mapsto> d) \<rparr>))"
proof -
  have "s\<lparr> st_docs := (st_docs s)(l \<mapsto> d) \<rparr> = s" if "st_docs s l = Some d" for d
  proof -
    have "(st_docs s)(l \<mapsto> d) = st_docs s" using that by (simp add: map_upd_triv)
    then show ?thesis by simp
  qed
  then show ?thesis by (auto simp: ensure_doc_def open_doc_def split: option.splits)
qed

lemma edit_doc_eq:
  "edit_doc E nonce l f s =
     (case open_doc E l s of
        None \<Rightarrow> (Inl Loro, s)
      | Some d \<Rightarrow>
          (case f d of
             Inl e \<Rightarrow> (Inl e, s\<lparr> st_docs := (st_docs s)(l \<mapsto> d) \<rparr>)
           | Inr d' \<Rightarrow> persist E nonce l d d' (s\<lparr> st_docs := (st_docs s)(l \<mapsto> d') \<rparr>)))"
  by (auto simp: edit_doc_def sbind_def ensure_doc_eq split: option.splits sum.splits)

definition read_model :: "list_id \<Rightarrow> client_db \<Rightarrow> todo_item_row list" where
  "read_model l db = map snd (filter (\<lambda>r. fst r = l) (cd_todo_items db))"

text \<open>The frame of the writes of the pipeline, as equations on the tables they do not touch.\<close>

lemma replace_todo_items_frame:
  assumes "replace_todo_items jt l its db = Inr db'"
  shows "read_model l db' = map (row_of_item jt) its" "cd_lists db' = cd_lists db"
    "cd_documents db' = cd_documents db" "cd_outbound db' = cd_outbound db"
    "cd_members db' = cd_members db" "cd_key_slots db' = cd_key_slots db"
    "k \<noteq> l \<Longrightarrow> read_model k db' = read_model k db"
proof -
  let ?c = "filter (\<lambda>r. fst r \<noteq> l) (cd_todo_items db)"
  have ins: "insert_items l rs rows = Inr rows' \<Longrightarrow> rows' = rows @ map (Pair l) rs" for rs rows rows'
    by (induction rs arbitrary: rows) (fastforce split: if_splits)+
  have db': "db' = db\<lparr> cd_todo_items := ?c @ map (Pair l) (map (row_of_item jt) its),
      cd_subtasks := filter (\<lambda>r. fst r \<noteq> l) (cd_subtasks db) \<rparr>"
    using assms by (auto simp: replace_todo_items_def Let_def split: if_splits sum.splits dest!: ins)
  show "read_model l db' = map (row_of_item jt) its"
    by (simp add: db' read_model_def filter_map comp_def)
  show "k \<noteq> l \<Longrightarrow> read_model k db' = read_model k db"
    by (auto simp: db' read_model_def filter_map comp_def intro!: arg_cong [of _ _ "map snd"] filter_cong)
qed (use assms in \<open>auto simp: replace_todo_items_def Let_def split: if_splits sum.splits\<close>)

definition save_doc_spec :: "store_env \<Rightarrow> list_id \<Rightarrow> todo_doc \<Rightarrow> client_db \<Rightarrow> client_db \<Rightarrow> bool" where
  "save_doc_spec E l doc db db' \<longleftrightarrow>
     load_document l db' = Some (ev_export_snapshot E doc) \<and>
     read_model l db' = map (row_of_item (ev_json_tags E)) (items doc) \<and>
     (\<forall>k. k \<noteq> l \<longrightarrow> load_document k db' = load_document k db \<and> read_model k db' = read_model k db) \<and>
     cd_lists db' = cd_lists db \<and> cd_outbound db' = cd_outbound db \<and>
     cd_members db' = cd_members db \<and> cd_key_slots db' = cd_key_slots db"

lemma save_doc_Inr:
  assumes "save_doc E l doc s = (Inr u, s')"
  obtains db' where "s' = s\<lparr> st_db := db' \<rparr>" "save_doc_spec E l doc (st_db s) db'"
    "db_wf (st_db s) \<longrightarrow> db_wf db'" "has_list l (st_db s)"
proof -
  obtain db1 db2 where 1: "save_document l (ev_export_snapshot E doc) (st_db s) = Inr db1"
    and 2: "replace_todo_items (ev_json_tags E) l (items doc) db1 = Inr db2"
    and s': "s' = s\<lparr> st_db := db2 \<rparr>"
    using assms by (auto simp: save_doc_def action_simps)
  have db1: "db1 = (st_db s)\<lparr> cd_documents := row_put fst (l, ev_export_snapshot E doc) (cd_documents (st_db s)) \<rparr>"
    and hl: "has_list l (st_db s)"
    using 1 by (auto simp: save_document_def split: if_splits)
  have "save_doc_spec E l doc (st_db s) db2"
    using replace_todo_items_frame [OF 2]
    by (simp add: save_doc_spec_def load_document_def db1 table_simps) (simp add: read_model_def)
  moreover have "db_wf (st_db s) \<longrightarrow> db_wf db2"
    using db_step_wf [OF db_step.save_document [OF 1]] db_step_wf [OF db_step.replace_todo_items [OF 2]] by blast
  ultimately show ?thesis using that s' hl by blast
qed

lemma enqueue_fresh:
  assumes "enqueue_outbound l e p sig db = Inr db'"
    and "row_get ob_signature sig (cd_outbound db) = None"
  shows "db' = db\<lparr> cd_outbound := cd_outbound db @
     [\<lparr> ob_local_id = next_local_id (cd_outbound db), ob_list_id = l, ob_epoch = e,
        ob_payload = p, ob_signature = sig, ob_status = Pending, ob_attempts = 0 \<rparr>] \<rparr>"
  using assms by (auto simp: enqueue_outbound_def split: if_splits)


lemma sync_Inr: "sync c s = (Inr u, s') \<longleftrightarrow>
    s' = (if st_sync_wired s then s\<lparr> st_sync_sent := st_sync_sent s @ [c] \<rparr> else s)"
  by (auto simp: sync_def)

definition delta_payload :: "store_env \<Rightarrow> nonce \<Rightarrow> list_id \<Rightarrow> epoch \<Rightarrow> dek \<Rightarrow> store \<Rightarrow> bytes \<Rightarrow> update_payload" where
  "delta_payload E nonce l epoch dek s delta =
     produce_update (ev_crypto E) nonce update_version l epoch (se_member_id (st_session s)) dek
       (se_signing_seed (st_session s)) delta"

text \<open>What the queue and the channel are after a delta: nothing for an empty one, otherwise one
  pending row with the signed ciphertext under the epoch, and a push command.\<close>

definition enqueued :: "store_env \<Rightarrow> nonce \<Rightarrow> list_id \<Rightarrow> epoch \<Rightarrow> dek \<Rightarrow> bytes \<Rightarrow> store \<Rightarrow> store \<Rightarrow> bool" where
  "enqueued E nonce l epoch dek delta s s' \<longleftrightarrow>
     (let p = delta_payload E nonce l epoch dek s delta; q = cd_outbound (st_db s) in
      if delta = [] then cd_outbound (st_db s') = q \<and> st_sync_sent s' = st_sync_sent s
      else st_sync_sent s' = st_sync_sent s @ (if st_sync_wired s then [SyncPush l] else []) \<and>
           (row_get ob_signature (up_signature p) q = None \<longrightarrow>
              cd_outbound (st_db s') = q @
                [\<lparr> ob_local_id = next_local_id q, ob_list_id = l, ob_epoch = epoch,
                   ob_payload = ev_to_postcard E p, ob_signature = up_signature p,
                   ob_status = Pending, ob_attempts = 0 \<rparr>]))"

lemma enqueued_docs [simp]:
  "enqueued E nonce l epoch dek delta (s\<lparr> st_docs := ds \<rparr>) s' = enqueued E nonce l epoch dek delta s s'"
  by (simp add: enqueued_def delta_payload_def Let_def)

lemma enqueue_delta_Inr:
  assumes "enqueue_delta E nonce l epoch dek delta s = (Inr u, s')"
  shows "enqueued E nonce l epoch dek delta s s' \<and> st_docs s' = st_docs s \<and> st_session s' = st_session s \<and>
    st_sync_wired s' = st_sync_wired s \<and> cd_lists (st_db s') = cd_lists (st_db s) \<and>
    (db_wf (st_db s) \<longrightarrow> db_wf (st_db s'))"
proof (cases "delta = []")
  case True
  then show ?thesis using assms by (simp add: enqueue_delta_def enqueued_def Let_def)
next
  case False
  let ?p = "delta_payload E nonce l epoch dek s delta"
  obtain db where db: "enqueue_outbound l epoch (ev_to_postcard E ?p) (up_signature ?p) (st_db s) = Inr db"
    and s': "s' = (if st_sync_wired s then s\<lparr> st_db := db, st_sync_sent := st_sync_sent s @ [SyncPush l] \<rparr> else s\<lparr> st_db := db \<rparr>)"
    using assms False by (auto simp: enqueue_delta_def Let_def action_simps sync_Inr delta_payload_def)
  have "cd_lists db = cd_lists (st_db s)"
    using db by (auto simp: enqueue_outbound_def split: if_splits)
  then show ?thesis
    using False enqueue_fresh [OF db] enqueue_outbound_wf [OF _ db]
    by (simp add: enqueued_def Let_def s')
qed

lemma persist_Inr:
  assumes "persist E nonce l d d' s = (Inr u, s')"
  obtains epoch dek where "list_epoch l (st_db s) = Some epoch" "session_dek (st_session s) l epoch = Some dek"
    "enqueued E nonce l epoch dek (ev_export_updates E d d') s s'"
    "load_document l (st_db s') = Some (ev_export_snapshot E d')"
    "read_model l (st_db s') = map (row_of_item (ev_json_tags E)) (items d')"
    "st_docs s' = st_docs s" "st_session s' = st_session s" "db_wf (st_db s) \<longrightarrow> db_wf (st_db s')"
    "cd_lists (st_db s') = cd_lists (st_db s)"
proof -
  obtain epoch dek s1 u1 where k: "list_epoch l (st_db s) = Some epoch" "session_dek (st_session s) l epoch = Some dek"
    and 1: "enqueue_delta E nonce l epoch dek (ev_export_updates E d d') s = (Inr u1, s1)"
    and 2: "save_doc E l d' s1 = (Inr u, s')"
    using assms by (auto simp: persist_def action_simps)
  obtain db where s': "s' = s1\<lparr> st_db := db \<rparr>" and sp: "save_doc_spec E l d' (st_db s1) db"
    and wf: "db_wf (st_db s1) \<longrightarrow> db_wf db"
    using save_doc_Inr [OF 2] .
  show ?thesis
    by (rule that [OF k])
       (use enqueue_delta_Inr [OF 1] sp wf in \<open>auto simp: s' save_doc_spec_def enqueued_def Let_def\<close>)
qed

lemma delta_payload_opens:
  "crypto_ok (ev_crypto E) \<Longrightarrow>
     verify_and_decrypt (ev_crypto E) (delta_payload E nonce l epoch dek s delta) l
       (c_verifying_key (ev_crypto E) (se_signing_seed (st_session s))) dek = Inr delta"
  using sign_okD [of "ev_crypto E"]
  by (simp add: verify_and_decrypt_Inr delta_payload_def produce_update_def Let_def payload_view_def payload_aad_def)

lemma todo_op_Inr:
  assumes "todo_op E nonce l op s = (Inr u, s')"
  obtains doc doc' where "open_doc E l s = Some doc" "doc_step op doc = Inr doc'"
    "persist E nonce l doc doc' (s\<lparr> st_docs := (st_docs s)(l \<mapsto> doc') \<rparr>) = (Inr u, s')"
  using assms by (auto simp: todo_op_def edit_doc_eq split: option.splits sum.splits)

text \<open>C1: a successful edit of any kind opens the document, applies the operation, and leaves document,
  stored snapshot and read model in step; unless the operation changed nothing to export, it
  appends exactly one pending row under the list's current epoch, whose payload verifies under our
  key and decrypts to the exported delta, and wakes the sync engine.\<close>

theorem edit_pipeline:
  assumes "crypto_ok (ev_crypto E)" and "todo_op E nonce l op s = (Inr (), s')"
  shows "\<exists>doc doc' epoch dek.
     open_doc E l s = Some doc \<and> doc_step op doc = Inr doc' \<and> st_docs s' l = Some doc' \<and>
     list_epoch l (st_db s) = Some epoch \<and> session_dek (st_session s) l epoch = Some dek \<and>
     load_document l (st_db s') = Some (ev_export_snapshot E doc') \<and>
     read_model l (st_db s') = map (row_of_item (ev_json_tags E)) (items doc') \<and>
     enqueued E nonce l epoch dek (ev_export_updates E doc doc') s s' \<and>
     verify_and_decrypt (ev_crypto E) (delta_payload E nonce l epoch dek s (ev_export_updates E doc doc')) l
       (c_verifying_key (ev_crypto E) (se_signing_seed (st_session s))) dek = Inr (ev_export_updates E doc doc')"
proof -
  obtain doc doc' where o: "open_doc E l s = Some doc" "doc_step op doc = Inr doc'"
    and p: "persist E nonce l doc doc' (s\<lparr> st_docs := (st_docs s)(l \<mapsto> doc') \<rparr>) = (Inr (), s')"
    by (rule todo_op_Inr [OF assms(2)])
  show ?thesis
    by (rule persist_Inr [OF p], rule exI [of _ doc], rule exI [of _ doc'])
       (use o delta_payload_opens [OF assms(1)] in
         \<open>auto simp: enqueued_def delta_payload_def Let_def\<close>)
qed


section \<open>A concrete store\<close>

definition demo_env :: store_env where
  "demo_env = \<lparr> ev_crypto = toy_crypto, ev_export_snapshot = (\<lambda>_. [1]), ev_from_snapshot = (\<lambda>_. Some doc_new),
     ev_import = (\<lambda>d b. if b = [] then None else Some d), ev_export_updates = (\<lambda>_ _. [5]),
     ev_json_tags = (\<lambda>_. []), ev_parse_tags = (\<lambda>_. Some []), ev_to_postcard = up_ciphertext,
     ev_from_postcard = (\<lambda>_. None), ev_calendar = month30 \<rparr>"

definition demo_session :: session where
  "demo_session = \<lparr> se_member_id = fixed_repeat 1, se_identity_secret = fixed_repeat 1, se_identity_pub = fixed_repeat 1,
     se_signing_seed = fixed_repeat 1, se_signing_pub = fixed_repeat 1, se_token = [],
     se_deks = [(demo_list, 1) \<mapsto> fixed_repeat 7] \<rparr>"

definition demo_store :: store where
  "demo_store = set_sync_tx (store_new
     (demo_db\<lparr> cd_outbound := [], cd_members := [(demo_list, demo_member 1), (demo_list, demo_member 2)] \<rparr>) demo_session)"

lemma demo_env_crypto: "crypto_ok (ev_crypto demo_env)"
  by (simp add: demo_env_def toy_crypto_ok)

lemmas demo_store_simps = demo_store_def set_sync_tx_def store_new_def demo_session_def demo_env_def demo_db_eq
  demo_list_def session_dek_def list_epoch_def db_empty_def

lemma demo_edit_ok: "fst (todo_op demo_env (fixed_repeat 4) demo_list (OpSetTitle ''x'') demo_store) = Inr ()"
  by (simp add: todo_op_def edit_doc_eq open_doc_def persist_def sbind_def of_option_def enqueue_delta_def
      lift_db_def sync_def save_doc_def save_document_def replace_todo_items_def load_document_def
      enqueue_outbound_def epoch_check_def has_list_def set_title_def doc_new_def items_def raw_items_def
      demo_store_simps Let_def)

theorem edit_pipeline_witness:
  "load_document demo_list (st_db (snd (todo_op demo_env (fixed_repeat 4) demo_list (OpSetTitle ''x'') demo_store))) = Some [1]"
proof -
  have "todo_op demo_env (fixed_repeat 4) demo_list (OpSetTitle ''x'') demo_store =
      (Inr (), snd (todo_op demo_env (fixed_repeat 4) demo_list (OpSetTitle ''x'') demo_store))"
    by (metis demo_edit_ok prod.collapse)
  from edit_pipeline [OF demo_env_crypto this] show ?thesis
    by (auto simp: demo_env_def)
qed

text \<open>An edit whose persist step fails for want of the DEK has already changed the cached document:
  the error leaves the database and the queue as they were, but the next successful edit exports
  only the changes after it, so the failed edit is in the stored snapshot and is never uploaded.\<close>

lemma failed_persist_lost:
  assumes "open_doc E l s = Some d" and "doc_step op d = Inr d'"
    and "list_epoch l (st_db s) = Some e" and "session_dek (st_session s) l e = None"
  shows "todo_op E n l op s = (Inl NoDek, s\<lparr> st_docs := (st_docs s)(l \<mapsto> d') \<rparr>) \<and>
    (\<forall>s2 op2 d2 n2 s3. st_docs s2 l = Some d' \<and> doc_step op2 d' = Inr d2 \<and> todo_op E n2 l op2 s2 = (Inr (), s3) \<longrightarrow>
       load_document l (st_db s3) = Some (ev_export_snapshot E d2) \<and>
       (\<exists>e2 dek. list_epoch l (st_db s2) = Some e2 \<and> session_dek (st_session s2) l e2 = Some dek \<and>
          enqueued E n2 l e2 dek (ev_export_updates E d' d2) s2 s3))"
proof (intro conjI allI impI)
  show "todo_op E n l op s = (Inl NoDek, s\<lparr> st_docs := (st_docs s)(l \<mapsto> d') \<rparr>)"
    using assms by (simp add: todo_op_def edit_doc_eq persist_def sbind_def of_option_def)
next
  fix s2 op2 d2 n2 s3
  assume a: "st_docs s2 l = Some d' \<and> doc_step op2 d' = Inr d2 \<and> todo_op E n2 l op2 s2 = (Inr (), s3)"
  then have "persist E n2 l d' d2 (s2\<lparr> st_docs := (st_docs s2)(l \<mapsto> d2) \<rparr>) = (Inr (), s3)"
    by (auto simp: todo_op_def edit_doc_eq open_doc_def)
  then show "load_document l (st_db s3) = Some (ev_export_snapshot E d2)"
    "\<exists>e2 dek. list_epoch l (st_db s2) = Some e2 \<and> session_dek (st_session s2) l e2 = Some dek \<and>
       enqueued E n2 l e2 dek (ev_export_updates E d' d2) s2 s3"
    by (rule persist_Inr; auto)+
qed

section \<open>Remote updates\<close>

lemma rebuild_Inr:
  assumes "rebuild_read_model E l s = (Inr u, s')" and "st_docs s l = Some d"
  obtains db' where "s' = s\<lparr> st_db := db' \<rparr>" "save_doc_spec E l d (st_db s) db'" "db_wf (st_db s) \<longrightarrow> db_wf db'"
  using assms by (auto simp: rebuild_read_model_def action_simps elim: save_doc_Inr)

definition accepts :: "store_env \<Rightarrow> list_id \<Rightarrow> stored_update_dto \<Rightarrow> store \<Rightarrow> bytes \<Rightarrow> bool" where
  "accepts E l dto s plain \<longleftrightarrow> sd_author dto \<noteq> se_member_id (st_session s) \<and>
     (\<exists>dek m. session_dek (st_session s) l (sd_epoch dto) = Some dek \<and>
        m \<in> set (list_members l (st_db s)) \<and> mem_id m = sd_author dto \<and>
        c_verify (ev_crypto E) (mem_signing_pub m)
          (signing_view update_version l (sd_epoch dto) (sd_author dto) (sd_nonce dto) (sd_ciphertext dto)) (sd_signature dto) \<and>
        sd_ciphertext dto = c_aead_enc (ev_crypto E) dek (sd_nonce dto) plain
          (aead_aad update_version l (sd_epoch dto) (sd_author dto) (sd_nonce dto)))"

lemma find_member: "find p xs = Some m \<Longrightarrow> m \<in> set xs \<and> p m"
  by (induction xs) (auto split: if_splits)

lemma apply_remote_cases:
  assumes "crypto_ok (ev_crypto E)" and "apply_remote_update E l dto s = (r, s')"
  obtains (own) "sd_author dto = se_member_id (st_session s)" "r = Inr False"
      "s' = s\<lparr> st_db := set_applied_through_seq l (sd_seq dto) (st_db s) \<rparr>"
  | (skipped) "sd_author dto \<noteq> se_member_id (st_session s)" "r = Inr False" "s' = s"
  | (merged) plain doc doc' db' where "accepts E l dto s plain" "r = Inr True"
      "open_doc E l s = Some doc" "ev_import E doc plain = Some doc'"
      "save_doc_spec E l doc' (st_db s) db'" "db_wf (st_db s) \<longrightarrow> db_wf db'"
      "s' = s\<lparr> st_docs := (st_docs s)(l \<mapsto> doc'), st_db := set_applied_through_seq l (sd_seq dto) db' \<rparr>"
  | (failed) plain e where "accepts E l dto s plain" "r = Inl e"
proof -
  consider (a) "sd_author dto = se_member_id (st_session s)"
    | (b) "sd_author dto \<noteq> se_member_id (st_session s)" "r = Inr False" "s' = s"
    | (c) dek m plain where "sd_author dto \<noteq> se_member_id (st_session s)"
       "session_dek (st_session s) l (sd_epoch dto) = Some dek"
       "find (\<lambda>m. mem_id m = sd_author dto) (list_members l (st_db s)) = Some m"
       "verify_and_decrypt (ev_crypto E) (remote_payload l dto) l (mem_signing_pub m) dek = Inr plain"
    using assms(2) by (auto simp: apply_remote_update_def split: if_splits option.splits sum.splits)
  then show ?thesis
  proof cases
    case a
    then show ?thesis using assms(2)
      by (intro own) (auto simp: apply_remote_update_def sbind_def modify_db_def sreturn_def)
  next
    case b
    then show ?thesis by (rule skipped)
  next
    case (c dek m plain)
    have acc: "accepts E l dto s plain"
      using c find_member [OF c(3)]
      by (auto simp: accepts_def verify_and_decrypt_Inr [OF assms(1)] remote_payload_def payload_view_def payload_aad_def)
    show ?thesis
    proof (cases r)
      case (Inl e)
      with acc show ?thesis by (rule failed)
    next
      case (Inr b)
      with c assms(2) obtain s1 u1 doc doc' u where en: "ensure_doc E l s = (Inr u1, s1)" "st_docs s1 l = Some doc"
        "ev_import E doc plain = Some doc'" and b: "b = True" and s2: "\<exists>s2. rebuild_read_model E l (s1\<lparr> st_docs := (st_docs s1)(l \<mapsto> doc') \<rparr>) = (Inr u, s2) \<and>
          s' = s2\<lparr> st_db := set_applied_through_seq l (sd_seq dto) (st_db s2) \<rparr>"
        by (auto simp: apply_remote_update_def action_simps split: option.splits)
      from s2 obtain s2 where rb: "rebuild_read_model E l (s1\<lparr> st_docs := (st_docs s1)(l \<mapsto> doc') \<rparr>) = (Inr u, s2)"
        and s': "s' = s2\<lparr> st_db := set_applied_through_seq l (sd_seq dto) (st_db s2) \<rparr>" by blast
      have o: "open_doc E l s = Some doc" and s1: "s1 = s\<lparr> st_docs := (st_docs s)(l \<mapsto> doc) \<rparr>"
        using en(1,2) by (auto simp: ensure_doc_eq split: option.splits)
      obtain db' where "s2 = s1\<lparr> st_docs := (st_docs s1)(l \<mapsto> doc'), st_db := db' \<rparr>"
        "save_doc_spec E l doc' (st_db s) db'" "db_wf (st_db s) \<longrightarrow> db_wf db'"
        by (rule rebuild_Inr [OF rb, of doc']) (auto simp: s1)
      then show ?thesis
        using acc Inr b o en(3) by (intro merged [OF acc _ o en(3)]) (auto simp: s1 s')
    qed
  qed
qed



text \<open>A two-member exchange: an update that member 2 signs and encrypts under the list's DEK.\<close>

definition demo_dto :: "bytes \<Rightarrow> epoch \<Rightarrow> int \<Rightarrow> stored_update_dto" where
  "demo_dto plain e q = (let p = produce_update toy_crypto (fixed_repeat 4) update_version demo_list e (fixed_repeat 2)
       (fixed_repeat 7) (fixed_repeat 2) plain
     in \<lparr> sd_seq = q, sd_epoch = e, sd_author = fixed_repeat 2, sd_nonce = fixed_repeat 4,
          sd_ciphertext = up_ciphertext p, sd_signature = up_signature p \<rparr>)"

lemma demo_remote_verifies:
  "verify_and_decrypt toy_crypto (remote_payload demo_list (demo_dto plain e q)) demo_list (fixed_repeat 2) (fixed_repeat 7) = Inr plain"
proof -
  have "c_verifying_key toy_crypto (fixed_repeat 2) = fixed_repeat 2" by (simp add: toy_crypto_def)
  moreover have "remote_payload demo_list (demo_dto plain e q) = produce_update toy_crypto (fixed_repeat 4) update_version
     demo_list e (fixed_repeat 2) (fixed_repeat 7) (fixed_repeat 2) plain"
    by (simp add: remote_payload_def demo_dto_def produce_update_def Let_def)
  ultimately show ?thesis
    using sign_okD [OF toy_crypto_ok, of "fixed_repeat 2"]
    by (simp add: verify_and_decrypt_Inr [OF toy_crypto_ok] produce_update_def Let_def payload_view_def payload_aad_def)
qed

lemma demo_dto_sel [simp]: "sd_seq (demo_dto plain e q) = q" "sd_epoch (demo_dto plain e q) = e"
  "sd_author (demo_dto plain e q) = fixed_repeat 2"
  by (simp_all add: demo_dto_def Let_def)

lemma demo_remote_ok: "fst (apply_remote_update demo_env demo_list (demo_dto [5] 1 3) demo_store) = Inr True"
  using demo_remote_verifies [of "[5]" 1 3]
  by (simp add: apply_remote_update_def ensure_doc_eq open_doc_def sbind_def of_option_def sreturn_def
      modify_db_def rebuild_read_model_def lift_db_def save_doc_def save_document_def replace_todo_items_def
      load_document_def has_list_def doc_new_def items_def raw_items_def list_members_def demo_member_def
      demo_store_simps Let_def)


section \<open>Lost updates\<close>

lemma has_list_cong: "cd_lists db' = cd_lists db \<Longrightarrow> has_list l db' = has_list l db"
  by (simp add: has_list_def)

lemma applied_set: "has_list l db \<Longrightarrow> applied_through_seq l (set_applied_through_seq l q db) =
    max (applied_through_seq l db) q"
  by (auto simp: has_list_def applied_through_seq_def set_applied_through_seq_def update_list_def row_get_update
      dest: row_get_Some_key)

lemma applied_after:
  assumes "crypto_ok (ev_crypto E)" and "apply_remote_update E l dto s = (Inr True, s')"
  shows "sd_seq dto \<le> applied_through_seq l (st_db s')"
  using assms
proof (cases rule: apply_remote_cases)
  case (merged plain doc doc' db')
  then have "has_list l (st_db s)"
    using assms by (auto simp: apply_remote_update_def action_simps rebuild_read_model_def split: option.splits if_splits sum.splits
        elim!: save_doc_Inr simp: ensure_doc_eq)
  then show ?thesis
    using merged by (simp add: applied_set has_list_cong [of db' "st_db s"] save_doc_spec_def)
qed auto

text \<open>An update that is skipped because its author or its epoch key is not known yet leaves the
  cursor where it was, but the next update of a higher sequence number that is merged moves the
  cursor past it; from then on a pull, which asks for what is after the cursor, never returns it.\<close>

lemma skipped_update_lost:
  assumes "crypto_ok (ev_crypto E)"
    and "sd_author dto \<noteq> se_member_id (st_session s)"
    and "session_dek (st_session s) l (sd_epoch dto) = None \<or> sd_author dto \<notin> mem_id ` set (list_members l (st_db s))"
    and "apply_remote_update E l dto s = (r, s1)"
    and "apply_remote_update E l dto2 s1 = (Inr True, s2)" and "sd_seq dto < sd_seq dto2"
  shows "r = Inr False \<and> s1 = s \<and> sd_seq dto < applied_through_seq l (st_db s2)"
proof -
  have "find (\<lambda>m. mem_id m = sd_author dto) (list_members l (st_db s)) = None"
    if "sd_author dto \<notin> mem_id ` set (list_members l (st_db s))"
    using that by (auto simp: find_None_iff image_iff)
  then have "(r, s1) = (Inr False, s)"
    using assms(2,3,4) by (auto simp: apply_remote_update_def split: option.splits)
  then show ?thesis using applied_after [OF assms(1,5)] assms(6) by auto
qed

section \<open>Key rotation\<close>

lemma list_members_remove:
  "list_members l (remove_member_row l gone db) = remaining_members l gone db"
  by (auto simp: list_members_def remaining_members_def remove_member_row_def row_del_def filter_map comp_def
      intro!: arg_cong [of _ _ "map snd"] filter_cong)

lemma list_epoch_update:
  assumes "has_list l db" and "\<And>r. lr_list_id (f r) = lr_list_id r" and "\<And>r. lr_current_epoch (f r) = e"
  shows "list_epoch l (update_list l f db) = Some e"
proof -
  obtain r where "row_get lr_list_id l (cd_lists db) = Some r" "lr_list_id r = l"
    using assms(1) by (auto simp: has_list_def dest: row_get_Some_key)
  then show ?thesis using assms(2,3) by (simp add: list_epoch_def update_list_def row_get_update)
qed

text \<open>Removing a member rotates the list locally: the epoch goes up by one with the new DEK in
  the session and the old ones kept, the member's row is gone, and the request to the server
  carries the old epoch and one slot per remaining member, each opening with that member's
  secret to the new DEK, and none for the removed one.\<close>

lemma remove_member_local_rotates:
  assumes "crypto_ok (ev_crypto E)" and "remove_member_local E new_dek rnd my_rnd l gone s = (Inr (), s')"
    and "st_sync_wired s"
  shows "\<exists>e slots. list_epoch l (st_db s) = Some e \<and> list_epoch l (st_db s') = Some (e + 1) \<and>
     session_dek (st_session s') l (e + 1) = Some new_dek \<and>
     (\<forall>k. k \<noteq> e + 1 \<longrightarrow> session_dek (st_session s') l k = session_dek (st_session s) l k) \<and>
     list_members l (st_db s') = remaining_members l gone (st_db s) \<and>
     st_sync_sent s' = st_sync_sent s @ [SyncRemoveMember l
        \<lparr> rm_list_id = l, rm_remove_member_id = gone, rm_epoch = e, rm_new_slots = slots \<rparr>] \<and>
     map ke_member_id slots = map mem_id (remaining_members l gone (st_db s)) \<and> gone \<notin> ke_member_id ` set slots \<and>
     (\<forall>m\<in>set (remaining_members l gone (st_db s)). \<exists>k\<in>set slots. ke_member_id k = mem_id m \<and>
        (\<forall>sk. mem_identity_pub m = c_x_public (ev_crypto E) sk \<longrightarrow>
           open_sealed (ev_crypto E) (ke_wrapped_dek k) (mem_identity_pub m) sk = Inr new_dek))"
proof -
  let ?C = "ev_crypto E"
  let ?ms = "remaining_members l gone (st_db s)"
  obtain e where e: "list_epoch l (st_db s) = Some e"
    and run: "remove_member_local E new_dek rnd my_rnd l gone s = (Inr (), s')"
    using assms(2) by (auto simp: remove_member_local_def action_simps)
  let ?slots = "new_slots ?C rnd new_dek ?ms"
  obtain db1 db2 where db1: "save_key_slot l (e + 1) (seal_to ?C my_rnd new_dek (se_identity_pub (st_session s))) (st_db s) = Inr db1"
    and db2: "set_epoch l (e + 1) db1 = Inr db2"
    and s': "s' = s\<lparr> st_session := insert_dek l (e + 1) new_dek (st_session s),
       st_db := remove_member_row l gone db2,
       st_sync_sent := st_sync_sent s @ [SyncRemoveMember l
          \<lparr> rm_list_id = l, rm_remove_member_id = gone, rm_epoch = e, rm_new_slots = ?slots \<rparr>] \<rparr>"
    using run e assms(3) by (auto simp: remove_member_local_def action_simps sync_Inr Let_def)
  have d1: "cd_lists db1 = cd_lists (st_db s)" "cd_members db1 = cd_members (st_db s)" "has_list l db1"
    using db1 by (auto simp: save_key_slot_def has_list_def split: if_splits)
  have d2: "db2 = update_list l (lr_current_epoch_update (\<lambda>_. e + 1)) db1"
    by (rule set_epoch_as_update [OF db2])
  have "list_epoch l db2 = Some (e + 1)"
    unfolding d2 by (rule list_epoch_update [OF d1(3)]) simp_all
  moreover have "list_members l (remove_member_row l gone db2) = ?ms"
    unfolding list_members_remove by (simp add: remaining_members_def list_members_def d2 update_list_def d1)
  moreover have "\<exists>k\<in>set ?slots. ke_member_id k = mem_id m \<and>
        (\<forall>sk. mem_identity_pub m = c_x_public ?C sk \<longrightarrow> open_sealed ?C (ke_wrapped_dek k) (mem_identity_pub m) sk = Inr new_dek)"
    if "m \<in> set ?ms" for m
    using that by (auto simp: new_slots_def open_sealed_seal_to [OF assms(1)] intro!: bexI [of _ m])
  moreover have "map ke_member_id ?slots = map mem_id ?ms" "gone \<notin> ke_member_id ` set ?slots"
    by (auto simp: new_slots_def remaining_members_def)
  ultimately show ?thesis
    using e by (intro exI [of _ e] exI [of _ ?slots])
      (auto simp: s' session_dek_def insert_dek_def list_epoch_def remove_member_row_def)
qed

section \<open>What the views show\<close>

definition due_canonical :: "todo_item \<Rightarrow> bool" where
  "due_canonical it \<longleftrightarrow> (\<forall>d. ti_due it = Some d \<longrightarrow> (\<exists>u. unix_in_range u \<and> d = odt_of_unix u))"

lemma items_canonical: "it \<in> set (items d) \<Longrightarrow> due_canonical it"
  by (auto simp: items_def into_item_def due_canonical_def Let_def split: option.splits if_splits)

lemma items_of_rows_row_of_item:
  assumes "\<forall>it\<in>set its. due_canonical it \<and> parse (jt (ti_tags it)) = Some (ti_tags it)"
  shows "items_of_rows parse subs (map (row_of_item jt) its) = Inr (map (\<lambda>it. it\<lparr> ti_subtasks := subs (ti_id it) \<rparr>) its)"
  using assms
proof (induction its)
  case (Cons it its)
  then show ?case
    by (cases "ti_due it") (auto simp: row_of_item_def due_canonical_def)
qed simp

lemma items_order_keys: "map ti_order_key (items d) = map order_key [0..<length (items d)]"
  by (rule nth_equalityI) (simp_all add: items_def Let_def nth_enumerate_eq into_item_def)

lemma items_sorted:
  assumes "length (items d) \<le> 10 ^ 8"
  shows "sorted (map ti_order_key (items d))"
  unfolding items_order_keys sorted_map
proof (rule sorted_wrt_mono_rel [OF _ sorted_upt])
  fix x y assume "x \<in> set [0..<length (items d)]" "y \<in> set [0..<length (items d)]" "x \<le> y"
  then have b: "x < 10 ^ 8" "y < 10 ^ 8" using assms by auto
  have "order_key x < order_key y \<longleftrightarrow> x < y"
    using order_key_facts [OF b(1)] order_key_facts [OF b(2)] by (simp add: digits_less)
  then show "order_key x \<le> order_key y" using \<open>x \<le> y\<close> by (cases "x = y") auto
qed

lemma load_todo_items_document:
  assumes "read_model l db = map (row_of_item jt) (items d)" and "cd_subtasks db = []"
    and "\<forall>it\<in>set (items d). parse (jt (ti_tags it)) = Some (ti_tags it)" and "length (items d) \<le> 10 ^ 8"
  shows "load_todo_items parse l db = Inr (map (ti_subtasks_update (\<lambda>_. [])) (items d))"
proof -
  have "sorted (map tr_order_key (read_model l db))"
    using items_sorted [OF assms(4)] by (simp add: assms(1) comp_def row_of_item_def)
  then have "sort_key tr_order_key (read_model l db) = map (row_of_item jt) (items d)"
    by (simp add: sort_key_id_if_sorted assms(1))
  then show ?thesis
    using assms(2,3) items_canonical
    by (simp add: load_todo_items_def read_model_def [symmetric] items_of_rows_row_of_item)
qed

text \<open>C27: after a successful edit the list view shows exactly the items of the document, in the sort
  order asked for and with all their fields but the subtasks, which the read model never stores.\<close>

theorem view_shows_document:
  assumes "todo_op E n l op s = (Inr (), s')" and "db_wf (st_db s)" and "st_docs s' l = Some d"
    and "\<forall>it\<in>set (items d). ev_parse_tags E (ev_json_tags E (ti_tags it)) = Some (ti_tags it)"
    and "length (items d) \<le> 10 ^ 8"
  shows "load_view E now (TargetList l) mode (st_db s') =
    Inr (sort_items (map (\<lambda>it. (l, it\<lparr> ti_subtasks := [] \<rparr>)) (items d)) mode)"
proof -
  obtain doc d0 where p: "persist E n l doc d0 (s\<lparr> st_docs := (st_docs s)(l \<mapsto> d0) \<rparr>) = (Inr (), s')"
    by (rule todo_op_Inr [OF assms(1)])
  from p have "read_model l (st_db s') = map (row_of_item (ev_json_tags E)) (items d0)"
    "db_wf (st_db s')" "st_docs s' l = Some d0"
    by (rule persist_Inr, use assms(2) in simp)+
  then have "load_todo_items (ev_parse_tags E) l (st_db s') = Inr (map (ti_subtasks_update (\<lambda>_. [])) (items d))"
    using assms(3,4,5) by (intro load_todo_items_document) (auto simp: db_wf_defs)
  then show ?thesis by (simp add: load_view_def comp_def)
qed

definition demo_input :: todo_item_input where
  "demo_input = \<lparr> in_title = ''milk'', in_notes = [], in_due = None, in_priority = Low, in_tags = [] \<rparr>"

definition demo_doc :: todo_doc where "demo_doc = projr (add_item ''a'' demo_input doc_new)"

lemma demo_items: "items demo_doc = [\<lparr> ti_id = ''a'', ti_title = ''milk'', ti_notes = [], ti_due = None,
    ti_priority = Low, ti_done = False, ti_tags = [], ti_subtasks = [], ti_order_key = order_key 0 \<rparr>]"
  by (simp add: demo_doc_def add_item_def new_item_map_def demo_input_def doc_new_def items_def raw_items_def
      into_item_def map_insert_def put_due_def de_str_def de_bool_def de_int_def de_opt_int_def de_list_def
      priority_from_rank_def get_or_create_list_def)

lemma demo_add_ok: "todo_op demo_env (fixed_repeat 4) demo_list (OpAddItem ''a'' demo_input) demo_store =
    (Inr (), snd (todo_op demo_env (fixed_repeat 4) demo_list (OpAddItem ''a'' demo_input) demo_store)) \<and>
  st_docs (snd (todo_op demo_env (fixed_repeat 4) demo_list (OpAddItem ''a'' demo_input) demo_store)) demo_list = Some demo_doc"
proof -
  have "doc_step (OpAddItem ''a'' demo_input) doc_new = Inr demo_doc" by (simp add: demo_doc_def add_item_def)
  then show ?thesis
    by (simp add: todo_op_def edit_doc_eq open_doc_def persist_def sbind_def of_option_def enqueue_delta_def
      lift_db_def sync_def save_doc_def save_document_def replace_todo_items_def load_document_def
      enqueue_outbound_def epoch_check_def has_list_def demo_items demo_store_simps Let_def)
qed

theorem view_shows_document_witness:
  "load_view demo_env (odt_of_unix 0) (TargetList demo_list) Alphabetical
     (st_db (snd (todo_op demo_env (fixed_repeat 4) demo_list (OpAddItem ''a'' demo_input) demo_store))) =
   Inr [(demo_list, hd (items demo_doc))]"
proof -
  have "db_wf (st_db demo_store)"
    by (simp add: db_wf_defs demo_store_def set_sync_tx_def store_new_def demo_db_eq db_empty_def keyed_def
        demo_member_def epoch_check_def queue_wf_def)
  from view_shows_document [OF demo_add_ok [THEN conjunct1] this demo_add_ok [THEN conjunct2]]
  show ?thesis by (simp add: demo_items demo_env_def sort_items_def sort_by_def)
qed

end
