(* ===== verification/Worker.thy ===== *)
theory Worker
  imports Store
begin

text \<open>
  The store actor (\<open>todoers-client/src/worker.rs\<close>): one step per received \<open>StoreCommand\<close>, with the
  messages it sends back to the interface.  The state is the store and the worker's notion of the
  view (one target per pane, and the sort mode).  Fresh random values and the clock reading of a
  step are its arguments.
\<close>

section \<open>Commands and messages\<close>

datatype store_command =
    SetView "view_target option list" sort_mode
  | CreateList string
  | RenameList list_id string
  | DeleteList list_id
  | AddTodo list_id todo_item_input
  | EditTodo list_id string todo_item_input
  | ToggleDone list_id string
  | DeleteTodo list_id string
  | AddMember list_id member
  | RemoveMember list_id member_id
  | FetchFullItem list_id string
  | FetchMembers list_id
  | ApplyRemote list_id "stored_update_dto list"
  | IngestRemoteList metadata_response "key_slot_dto list"

text \<open>The two formatted errors of the code, \<open>refresh failed: ..\<close> and the bare error, are kept apart.\<close>

datatype worker_msg =
    MsgSnapshot view_snapshot
  | MsgFullItem "(list_id \<times> todo_item) option"
  | MsgMembers list_id "member list"
  | MsgRefreshFailed client_error
  | MsgError client_error

record entropy =
  en_nonce :: nonce
  en_uuid :: string
  en_list_id :: list_id
  en_dek :: dek
  en_seal :: bytes
  en_seals :: "member_id \<Rightarrow> bytes"

record worker =
  wk_store :: store
  wk_targets :: "view_target option list"
  wk_sort :: sort_mode

definition worker_new :: "store \<Rightarrow> worker" where
  "worker_new s = \<lparr> wk_store = s, wk_targets = [None], wk_sort = Alphabetical \<rparr>"

section \<open>One command\<close>

type_synonym command_result = "(client_error + bool) \<times> worker \<times> worker_msg list"

text \<open>A store action that changes list or todo state: \<open>store.op(..).await?; Ok(true)\<close>.\<close>

definition mutate :: "'a action \<Rightarrow> worker \<Rightarrow> command_result" where
  "mutate act w =
     (case act (wk_store w) of
        (Inl e, s) \<Rightarrow> (Inl e, w\<lparr> wk_store := s \<rparr>, [])
      | (Inr _, s) \<Rightarrow> (Inr True, w\<lparr> wk_store := s \<rparr>, []))"

fun apply_remote_all :: "store_env \<Rightarrow> list_id \<Rightarrow> stored_update_dto list \<Rightarrow> bool \<Rightarrow> bool action" where
  "apply_remote_all E l [] changed = sreturn changed"
| "apply_remote_all E l (dto # dtos) changed =
     sbind (apply_remote_update E l dto) (\<lambda>c. apply_remote_all E l dtos (changed \<or> c))"

definition retarget :: "list_id \<Rightarrow> view_target option \<Rightarrow> view_target option" where
  "retarget l t = (if t = Some (TargetList l) then Some (TargetMeta AllTasks) else t)"

fun run_command :: "store_env \<Rightarrow> entropy \<Rightarrow> store_command \<Rightarrow> worker \<Rightarrow> command_result" where
  "run_command E en (SetView ts m) w = (Inr True, w\<lparr> wk_targets := ts, wk_sort := m \<rparr>, [])"
| "run_command E en (CreateList name) w =
     mutate (create_list E (en_list_id en) (en_dek en) (en_seal en) (en_nonce en) name) w"
| "run_command E en (RenameList l name) w = mutate (rename_list_store E (en_nonce en) l name) w"
| "run_command E en (DeleteList l) w =
     (case delete_list_store l (wk_store w) of
        (Inl e, s) \<Rightarrow> (Inl e, w\<lparr> wk_store := s \<rparr>, [])
      | (Inr _, s) \<Rightarrow> (Inr True, w\<lparr> wk_store := s, wk_targets := map (retarget l) (wk_targets w) \<rparr>, []))"
| "run_command E en (AddTodo l inp) w = mutate (todo_op E (en_nonce en) l (OpAddItem (en_uuid en) inp)) w"
| "run_command E en (EditTodo l k inp) w = mutate (todo_op E (en_nonce en) l (OpUpdateItem k inp)) w"
| "run_command E en (ToggleDone l k) w = mutate (todo_op E (en_nonce en) l (OpToggleDone k)) w"
| "run_command E en (DeleteTodo l k) w = mutate (todo_op E (en_nonce en) l (OpRemoveItem k)) w"
| "run_command E en (AddMember l m) w = mutate (add_member_local E (en_seal en) l m) w"
| "run_command E en (RemoveMember l mid) w =
     mutate (remove_member_local E (en_dek en) (en_seals en) (en_seal en) l mid) w"
| "run_command E en (FetchFullItem l k) w =
     (case full_item E l k (wk_store w) of
        (Inl e, s) \<Rightarrow> (Inl e, w\<lparr> wk_store := s \<rparr>, [])
      | (Inr it, s) \<Rightarrow> (Inr False, w\<lparr> wk_store := s \<rparr>, [MsgFullItem (map_option (Pair l) it)]))"
| "run_command E en (FetchMembers l) w =
     (Inr False, w, [MsgMembers l (list_members l (st_db (wk_store w)))])"
| "run_command E en (ApplyRemote l dtos) w =
     (case apply_remote_all E l dtos False (wk_store w) of
        (r, s) \<Rightarrow> (r, w\<lparr> wk_store := s \<rparr>, []))"
| "run_command E en (IngestRemoteList md keys) w = mutate (ingest_remote_list E md keys) w"

definition worker_step :: "store_env \<Rightarrow> entropy \<Rightarrow> odt \<Rightarrow> store_command \<Rightarrow> worker \<Rightarrow> worker \<times> worker_msg list" where
  "worker_step E en now cmd w =
     (case run_command E en cmd w of
        (Inl e, w', ms) \<Rightarrow> (w', ms @ [MsgError e])
      | (Inr False, w', ms) \<Rightarrow> (w', ms)
      | (Inr True, w', ms) \<Rightarrow>
          (case snapshot_for E now (wk_targets w') (wk_sort w') (st_db (wk_store w')) of
             Inl e \<Rightarrow> (w', ms @ [MsgRefreshFailed e])
           | Inr snap \<Rightarrow> (w', ms @ [MsgSnapshot snap])))"

fun run_store_worker :: "store_env \<Rightarrow> (entropy \<times> odt \<times> store_command) list \<Rightarrow> worker \<Rightarrow> worker \<times> worker_msg list" where
  "run_store_worker E [] w = (w, [])"
| "run_store_worker E ((en, now, cmd) # cmds) w =
     (let (w1, ms) = worker_step E en now cmd w; (w2, ms') = run_store_worker E cmds w1 in (w2, ms @ ms'))"

section \<open>Lemmas\<close>

text \<open>What a pane with a target shows.\<close>

definition pane_shows :: "store_env \<Rightarrow> odt \<Rightarrow> sort_mode \<Rightarrow> client_db \<Rightarrow> view_target option
    \<Rightarrow> (list_id \<times> todo_item) list \<Rightarrow> bool" where
  "pane_shows E now mode db t v =
     ((case t of None \<Rightarrow> Inr [] | Some target \<Rightarrow> load_view E now target mode db) = Inr v)"

lemma load_panes_Inr:
  "load_panes E now mode db ts = Inr vs \<longleftrightarrow> list_all2 (pane_shows E now mode db) ts vs"
proof (induction ts arbitrary: vs)
  case (Cons t ts)
  then show ?case
    by (cases "case t of None \<Rightarrow> Inr [] | Some target \<Rightarrow> load_view E now target mode db";
        cases "load_panes E now mode db ts")
       (auto simp: list_all2_Cons1 pane_shows_def)
qed auto

lemma snapshot_for_Inr:
  "snapshot_for E now ts m db = Inr snap \<Longrightarrow>
     vs_lists snap = sort_summaries (list_summaries E db) m \<and> list_all2 (pane_shows E now m db) ts (vs_panes snap)"
  by (auto simp: snapshot_for_def Let_def load_panes_Inr [symmetric] split: sum.splits)

lemma set_sort_items: "set (sort_items xs mode) = set xs"
  using item_order.sort_by_spec [of mode xs] unfolding sort_items_def by (metis set_mset_mset)

lemma set_sort_summaries: "set (sort_summaries xs mode) = set xs"
  using summary_order.sort_by_spec [of mode xs] unfolding sort_summaries_def by (metis set_mset_mset)

text \<open>A view shows items of the list it names, or of lists with rows in the read model.\<close>

lemma load_view_lists:
  assumes "load_view E now tg mode db = Inr v" and "x \<in> set v"
  shows "tg = TargetList (fst x) \<or> fst x \<in> fst ` set (cd_todo_items db)"
  using assms
  by (cases tg) (force simp: load_view_def set_sort_items load_all_todo_items_def split: sum.splits)+

lemma mutate_msgs: "mutate act w = (r, w', ms) \<Longrightarrow> ms = [] \<and> r \<noteq> Inr False"
  by (auto simp: mutate_def split: prod.splits sum.splits)

lemma run_command_msgs:
  assumes "run_command E en cmd w = (r, w', ms)"
  shows "(\<forall>snap. MsgSnapshot snap \<notin> set ms) \<and>
     (if r = Inr False then length ms \<le> 1 \<and> (ms = [] \<longrightarrow> (\<exists>l dtos. cmd = ApplyRemote l dtos)) else ms = [])"
  using assms by (cases cmd) (auto split: prod.splits sum.splits dest!: mutate_msgs)

text \<open>C37: the worker answers every command with at most one message, and leaves unanswered only a
  batch of remote updates that changed nothing; a snapshot it sends holds the sorted list
  summaries and, pane by pane in the order of the interface, the view of each target computed
  from the state after the command.\<close>

theorem worker_answers:
  assumes "worker_step E en now cmd w = (w', ms)"
  shows "length ms \<le> 1 \<and> (ms = [] \<longrightarrow> (\<exists>l dtos. cmd = ApplyRemote l dtos)) \<and>
     (\<forall>snap. MsgSnapshot snap \<in> set ms \<longrightarrow>
        vs_lists snap = sort_summaries (list_summaries E (st_db (wk_store w'))) (wk_sort w') \<and>
        list_all2 (pane_shows E now (wk_sort w') (st_db (wk_store w'))) (wk_targets w') (vs_panes snap))"
proof -
  obtain r w1 ms1 where run: "run_command E en cmd w = (r, w1, ms1)" by (cases "run_command E en cmd w")
  show ?thesis
    using assms run_command_msgs [OF run]
    by (auto simp: worker_step_def run split: sum.splits bool.splits if_splits dest!: snapshot_for_Inr)
qed

lemma delete_list_store_eq: "delete_list_store l s =
  (Inr (), let s' = s\<lparr> st_db := delete_list l (st_db s), st_docs := (st_docs s)(l := None) \<rparr>
           in if st_sync_wired s then s'\<lparr> st_sync_sent := st_sync_sent s @ [SyncDeleteList l] \<rparr> else s')"
  by (simp add: delete_list_store_def sbind_def modify_db_def sync_def Let_def)

text \<open>Deleting a list removes every trace of it: its rows, its open document and its pane targets
  (which fall back to All Tasks), and the snapshot that follows has neither a summary nor an item
  of it in any pane; the deletion is passed on to the server.\<close>

lemma deleted_list_gone:
  assumes "worker_step E en now (DeleteList l) w = (w', ms)"
  shows "Some (TargetList l) \<notin> set (wk_targets w') \<and> length (wk_targets w') = length (wk_targets w) \<and>
     \<not> has_list l (st_db (wk_store w')) \<and> st_docs (wk_store w') l = None \<and>
     (st_sync_wired (wk_store w) \<longrightarrow> SyncDeleteList l \<in> set (st_sync_sent (wk_store w'))) \<and>
     (\<forall>snap. MsgSnapshot snap \<in> set ms \<longrightarrow>
        l \<notin> ls_id ` set (vs_lists snap) \<and> (\<forall>pane\<in>set (vs_panes snap). l \<notin> fst ` set pane))"
proof -
  let ?db = "delete_list l (st_db (wk_store w))"
  let ?ts = "map (retarget l) (wk_targets w)"
  have w': "wk_targets w' = ?ts" "wk_store w' = snd (delete_list_store l (wk_store w))"
    and ms: "\<And>snap. MsgSnapshot snap \<in> set ms \<Longrightarrow> snapshot_for E now ?ts (wk_sort w) ?db = Inr snap"
    using assms by (auto simp: worker_step_def delete_list_store_eq Let_def split: sum.splits if_splits)
  have ts: "Some (TargetList l) \<notin> set ?ts" by (auto simp: retarget_def)
  have gone: "l \<notin> fst ` set (cd_todo_items ?db)" "l \<notin> list_ids ?db"
    by (auto simp: delete_list_def table_simps)
  have "l \<notin> ls_id ` set (vs_lists snap) \<and> (\<forall>pane\<in>set (vs_panes snap). l \<notin> fst ` set pane)"
    if "MsgSnapshot snap \<in> set ms" for snap
  proof
    have sn: "vs_lists snap = sort_summaries (list_summaries E ?db) (wk_sort w)"
      "list_all2 (pane_shows E now (wk_sort w) ?db) ?ts (vs_panes snap)"
      using snapshot_for_Inr [OF ms [OF that]] by auto
    show "l \<notin> ls_id ` set (vs_lists snap)"
      using gone(2) by (simp add: sn(1) set_sort_summaries list_summaries_def image_image list_summary_of_def
          list_lists_def Let_def)
    show "\<forall>pane\<in>set (vs_panes snap). l \<notin> fst ` set pane"
    proof (rule ballI, rule notI)
      fix pane assume "pane \<in> set (vs_panes snap)" and "l \<in> fst ` set pane"
      then obtain i x where i: "i < length (vs_panes snap)" "pane = vs_panes snap ! i" and x: "x \<in> set pane" "fst x = l"
        by (auto simp: in_set_conv_nth)
      have "?ts ! i \<noteq> Some (TargetList l)"
        using i(1) list_all2_lengthD [OF sn(2)] by (simp add: retarget_def)
      then show False
        using list_all2_nthD2 [OF sn(2) i(1)] i(2) x gone(1) load_view_lists [of E now _ "wk_sort w" ?db pane x]
        by (auto simp: pane_shows_def split: option.splits)
    qed
  qed
  then show ?thesis
    using ts gone by (auto simp: w' delete_list_store_eq Let_def has_list_iff)
qed

lemma apply_remote_all_append:
  "apply_remote_all E l (xs @ ys) b = sbind (apply_remote_all E l xs b) (apply_remote_all E l ys)"
  by (induction xs arbitrary: b) (auto simp: sbind_def sreturn_def fun_eq_iff split: prod.splits sum.splits)

text \<open>A remote update that ends in an error has not touched the list rows, so not the cursors.\<close>

lemma save_doc_frame:
  "save_doc E l d s = (r, s') \<Longrightarrow> cd_lists (st_db s') = cd_lists (st_db s) \<and> st_sync_sent s' = st_sync_sent s"
  by (auto simp: save_doc_def sbind_def lift_db_def save_document_def replace_todo_items_def Let_def
      split: prod.splits sum.splits if_splits)

lemma ensure_doc_frame:
  "ensure_doc E l s = (r, s') \<Longrightarrow> st_db s' = st_db s \<and> st_sync_sent s' = st_sync_sent s"
  by (auto simp: ensure_doc_eq split: option.splits)

lemma of_option_Inl: "of_option e f s = (Inl d, s') \<longleftrightarrow> f s = None \<and> d = e \<and> s' = s"
  by (auto simp: of_option_def split: option.splits)

lemma apply_remote_Inl:
  assumes "apply_remote_update E l dto s = (Inl e, s')"
  shows "cd_lists (st_db s') = cd_lists (st_db s) \<and> st_sync_sent s' = st_sync_sent s"
  using assms
  by (auto simp: apply_remote_update_def sbind_Inl sbind_Inr of_option_Inr of_option_Inl modify_db_def sreturn_def
      rebuild_read_model_def split: if_splits option.splits sum.splits dest!: save_doc_frame ensure_doc_frame)

text \<open>The first remote update of a batch that ends in an error ends the batch: the updates after
  it are not looked at, no snapshot is sent even if an earlier one changed the document, and the
  cursor stays before the failing one, so that every later pull starts with it again.\<close>

lemma batch_stops_at_error:
  assumes "apply_remote_all E l pre False (wk_store w) = (Inr b, s1)"
    and "apply_remote_update E l bad s1 = (Inl e, s2)"
    and "worker_step E en now (ApplyRemote l (pre @ bad # rest)) w = (w', ms)"
  shows "ms = [MsgError e] \<and> wk_store w' = s2 \<and>
    applied_through_seq l (st_db (wk_store w')) = applied_through_seq l (st_db s1)"
  using apply_remote_Inl [OF assms(2)] assms(3)
  by (auto simp: worker_step_def apply_remote_all_append sbind_def assms(1,2) applied_through_seq_def)

definition demo_worker :: worker where "demo_worker = worker_new demo_store"

definition demo_entropy :: entropy where
  "demo_entropy = \<lparr> en_nonce = fixed_repeat 4, en_uuid = ''a'', en_list_id = fixed_repeat 6, en_dek = fixed_repeat 8,
     en_seal = [], en_seals = (\<lambda>_. []) \<rparr>"

lemmas demo_worker_simps = demo_worker_def worker_new_def demo_store_simps

theorem worker_answers_witness:
  "length (snd (worker_step demo_env demo_entropy (odt_of_unix 0) (FetchMembers demo_list) demo_worker)) = 1"
proof -
  obtain w' ms where st: "worker_step demo_env demo_entropy (odt_of_unix 0) (FetchMembers demo_list) demo_worker = (w', ms)"
    by (cases "worker_step demo_env demo_entropy (odt_of_unix 0) (FetchMembers demo_list) demo_worker")
  from worker_answers [OF this] have "length ms \<le> 1" "ms \<noteq> []" by auto
  then show ?thesis by (cases ms) (auto simp: st)
qed

lemma demo_poison: "fst (apply_remote_update demo_env demo_list (demo_dto [] 1 3) demo_store) = Inl Loro"
  using demo_remote_verifies [of "[]" 1 3]
  by (simp add: apply_remote_update_def ensure_doc_eq open_doc_def sbind_def of_option_def
      load_document_def list_members_def demo_member_def demo_store_simps)

end
