(* ===== verification/SyncEngine.thy ===== *)
theory SyncEngine
  imports Worker
begin

text \<open>
  The sync engine (\<open>todoers-client/src/sync.rs\<close>): uploading the outbound queue, paging through the
  update log, discovering lists, and the live subscription, over the client database of
  \<open>ClientDb\<close> and the commands of \<open>Worker\<close>.  The HTTP transport (\<open>todoers-client/src/net/\<close>) is the
  record \<open>net\<close> of the calls the engine makes, functions of a world \<open>'w\<close>; a failed request is its
  \<open>Inl\<close>.  The channels to the worker and back to the engine are the lists of what was sent.
\<close>

section \<open>The engine\<close>

record 'w net =
  net_append :: "append_update \<Rightarrow> 'w \<Rightarrow> (client_error + int) \<times> 'w"
  net_pull :: "list_id \<Rightarrow> int \<Rightarrow> int \<Rightarrow> 'w \<Rightarrow> (client_error + stored_update_dto list) \<times> 'w"
  net_create_list :: "list_id \<Rightarrow> bytes \<Rightarrow> 'w \<Rightarrow> (client_error + list_id) \<times> 'w"
  net_delete_list :: "list_id \<Rightarrow> 'w \<Rightarrow> (client_error + unit) \<times> 'w"
  net_add_member :: "add_member_request \<Rightarrow> 'w \<Rightarrow> (client_error + unit) \<times> 'w"
  net_remove_member :: "remove_member_request \<Rightarrow> 'w \<Rightarrow> (client_error + unit) \<times> 'w"
  net_fetch_lists :: "'w \<Rightarrow> (client_error + list_id list) \<times> 'w"
  net_get_metadata :: "list_id \<Rightarrow> 'w \<Rightarrow> (client_error + metadata_response) \<times> 'w"
  net_get_my_keys :: "list_id \<Rightarrow> 'w \<Rightarrow> (client_error + key_slot_dto list) \<times> 'w"

record 'w engine =
  eg_db :: client_db
  eg_world :: 'w
  eg_store_tx :: "store_command list"
  eg_tx :: "sync_command list"
  eg_tasks :: "list_id list"

type_synonym ('w, 'a) sync_action = "'w engine \<Rightarrow> (client_error + 'a) \<times> 'w engine"

definition batch :: int where "batch = 500"

definition call :: "('w \<Rightarrow> (client_error + 'a) \<times> 'w) \<Rightarrow> ('w, 'a) sync_action" where
  "call f g = (case f (eg_world g) of (r, w) \<Rightarrow> (r, g\<lparr> eg_world := w \<rparr>))"

definition to_store :: "store_command \<Rightarrow> ('w, unit) sync_action" where
  "to_store cmd g = (Inr (), g\<lparr> eg_store_tx := eg_store_tx g @ [cmd] \<rparr>)"

definition to_self :: "sync_command \<Rightarrow> ('w, unit) sync_action" where
  "to_self cmd g = (Inr (), g\<lparr> eg_tx := eg_tx g @ [cmd] \<rparr>)"

section \<open>Push\<close>

definition append_body :: "list_id \<Rightarrow> update_payload \<Rightarrow> append_update" where
  "append_body l p =
     \<lparr> au_list_id = l, au_version = up_version p, au_epoch = up_epoch p, au_author = up_author p,
       au_nonce = up_nonce p, au_ciphertext = up_ciphertext p, au_signature = up_signature p \<rparr>"

fun push_rows :: "store_env \<Rightarrow> 'w net \<Rightarrow> list_id \<Rightarrow> claimed_row list \<Rightarrow> ('w, unit) sync_action" where
  "push_rows E N l [] g = (Inr (), g)"
| "push_rows E N l (row # rows) g =
     (case ev_from_postcard E (cr_payload row) of
        None \<Rightarrow> (Inl Postcard, g)
      | Some payload \<Rightarrow>
          (case net_append N (append_body l payload) (eg_world g) of
             (Inr _, w) \<Rightarrow>
               push_rows E N l rows (g\<lparr> eg_world := w, eg_db := ack_outbound (cr_local_id row) (eg_db g) \<rparr>)
           | (Inl e, w) \<Rightarrow>
               (Inl e, g\<lparr> eg_world := w, eg_db := release_outbound (cr_local_id row) (eg_db g) \<rparr>)))"

definition pending_count :: "list_id \<Rightarrow> client_db \<Rightarrow> nat" where
  "pending_count l db = length (filter (is_pending l) (cd_outbound db))"

lemma length_filter_twice: "length (filter p (filter q xs)) \<le> length (filter p xs)"
  by (induction xs) auto

lemma length_filter_conj_less:
  assumes "r \<in> set xs" "p r" "\<not> q r"
  shows "length (filter (\<lambda>x. p x \<and> q x) xs) < length (filter p xs)"
proof -
  have "length (filter (\<lambda>x. p x \<and> q x) xs) = length (filter q (filter p xs))" by (simp add: conj_commute)
  also have "\<dots> < length (filter p xs)" using assms by (intro length_filter_less [of r]) auto
  finally show ?thesis .
qed

lemma pending_count_ack: "pending_count l (ack_outbound i db) \<le> pending_count l db"
  unfolding pending_count_def ack_outbound_def row_del_def by (simp add: length_filter_twice del: filter_filter)

lemma push_rows_count:
  "push_rows E N l rows g = (Inr (), g') \<Longrightarrow> pending_count l (eg_db g') \<le> pending_count l (eg_db g)"
proof (induction rows arbitrary: g)
  case (Cons row rows)
  then obtain w where "push_rows E N l rows (g\<lparr> eg_world := w, eg_db := ack_outbound (cr_local_id row) (eg_db g) \<rparr>) = (Inr (), g')"
    by (auto split: option.splits prod.splits sum.splits)
  from Cons.IH [OF this] pending_count_ack [of l "cr_local_id row" "eg_db g"] show ?case by simp
qed simp

lemma take_outbound_count:
  assumes "take_outbound l n db = (rows, db')" and "rows \<noteq> []"
  shows "pending_count l db' < pending_count l db"
proof -
  let ?rs = "sql_limit n (pending_rows l db)"
  have db': "db' = db\<lparr> cd_outbound := mark_inflight ?rs (cd_outbound db) \<rparr>"
    using assms(1) take_outbound_db [of l n db] by simp
  have "?rs \<noteq> []" using assms by (auto simp: take_outbound_def Let_def)
  then obtain r where r: "r \<in> set ?rs" by (cases ?rs) auto
  then have "r \<in> set (pending_rows l db)" using set_sql_limit [of n "pending_rows l db"] by blast
  then have in_db: "r \<in> set (cd_outbound db)" "is_pending l r" by (auto simp: pending_rows_def)
  have "length (filter (\<lambda>x. is_pending l x \<and> ob_local_id x \<notin> ob_local_id ` set ?rs) (cd_outbound db))
        < length (filter (is_pending l) (cd_outbound db))"
    using in_db r by (intro length_filter_conj_less [of r]) auto
  then show ?thesis by (simp add: pending_count_def db' filter_mark_inflight)
qed

text \<open>Each round claims a batch, so the loop ends: nothing it does makes a row pending again.\<close>

function push :: "store_env \<Rightarrow> 'w net \<Rightarrow> list_id \<Rightarrow> ('w, unit) sync_action" where
  "push E N l g =
     (case take_outbound l batch (eg_db g) of (rows, db) \<Rightarrow>
        if rows = [] then (Inr (), g\<lparr> eg_db := db \<rparr>)
        else (case push_rows E N l rows (g\<lparr> eg_db := db \<rparr>) of
                (Inl e, g') \<Rightarrow> (Inl e, g')
              | (Inr _, g') \<Rightarrow> push E N l g'))"
  by pat_completeness auto

termination
  by (relation "measure (\<lambda>(E, N, l, g). pending_count l (eg_db g))")
     (auto dest!: take_outbound_count [OF sym] push_rows_count [OF sym])

declare push.simps [simp del]

section \<open>Pull, discovery and commands\<close>

text \<open>A page shorter than the batch ends the loop; a server may keep it going, so it has fuel, and
  \<open>None\<close> is running out of it.\<close>

fun pull_pages :: "nat \<Rightarrow> 'w net \<Rightarrow> list_id \<Rightarrow> int \<Rightarrow> 'w engine \<Rightarrow> ((client_error + unit) \<times> 'w engine) option" where
  "pull_pages 0 N l cursor g = None"
| "pull_pages (Suc k) N l cursor g =
     (case net_pull N l cursor batch (eg_world g) of
        (Inl e, w) \<Rightarrow> Some (Inl e, g\<lparr> eg_world := w \<rparr>)
      | (Inr rows, w) \<Rightarrow>
          (let cursor' = (if rows = [] then cursor else sd_seq (last rows));
               sent = (if rows = [] then [] else [ApplyRemote l rows]);
               g' = g\<lparr> eg_world := w, eg_store_tx := eg_store_tx g @ sent \<rparr>
           in if int (length rows) < batch then Some (Inr (), g') else pull_pages k N l cursor' g'))"

definition pull :: "nat \<Rightarrow> 'w net \<Rightarrow> list_id \<Rightarrow> 'w engine \<Rightarrow> ((client_error + unit) \<times> 'w engine) option" where
  "pull fuel N l g = pull_pages fuel N l (applied_through_seq l (eg_db g)) g"

definition discover :: "'w net \<Rightarrow> list_id \<Rightarrow> ('w, unit) sync_action" where
  "discover N l =
     sbind (call (net_get_metadata N l)) (\<lambda>md.
     sbind (call (net_get_my_keys N l)) (\<lambda>keys.
     sbind (to_store (IngestRemoteList md keys)) (\<lambda>_.
     sbind (to_self (SyncPull l)) (\<lambda>_. to_self (SyncSubscribe l)))))"

definition initial_sync :: "'w net \<Rightarrow> ('w, unit) sync_action" where
  "initial_sync N = sbind (call (net_fetch_lists N)) (for_each (discover N))"

text \<open>A subscription is a task of its own: it is recorded when it is spawned, and \<open>ws_task\<close> is what it
  does with the outcome of connecting and the frames of its socket.\<close>

definition subscribe :: "list_id \<Rightarrow> ('w, unit) sync_action" where
  "subscribe l g = (Inr (), g\<lparr> eg_tasks := eg_tasks g @ [l] \<rparr>)"

fun ws_frames :: "list_id \<Rightarrow> (client_error + stored_update_dto) list \<Rightarrow> store_command list" where
  "ws_frames l [] = []"
| "ws_frames l (Inr dto # fs) = ApplyRemote l [dto] # ws_frames l fs"
| "ws_frames l (Inl e # fs) = []"

definition ws_task :: "list_id \<Rightarrow> client_error + (client_error + stored_update_dto) list \<Rightarrow> 'w engine \<Rightarrow> 'w engine" where
  "ws_task l conn g =
     g\<lparr> eg_store_tx := eg_store_tx g @ (case conn of Inl _ \<Rightarrow> [] | Inr fs \<Rightarrow> ws_frames l fs),
        eg_tx := eg_tx g @ [SyncPull l, SyncSubscribe l],
        eg_tasks := remove1 l (eg_tasks g) \<rparr>"

fun handle :: "nat \<Rightarrow> store_env \<Rightarrow> 'w net \<Rightarrow> sync_command \<Rightarrow> 'w engine \<Rightarrow> ((client_error + unit) \<times> 'w engine) option" where
  "handle fuel E N (SyncPush l) g = Some (push E N l g)"
| "handle fuel E N (SyncCreateList l wrapped) g =
     Some (sbind (call (net_create_list N l wrapped)) (\<lambda>_. to_self (SyncSubscribe l)) g)"
| "handle fuel E N (SyncDeleteList l) g = Some (call (net_delete_list N l) g)"
| "handle fuel E N (SyncAddMember l body) g = Some (call (net_add_member N body) g)"
| "handle fuel E N (SyncRemoveMember l body) g = Some (call (net_remove_member N body) g)"
| "handle fuel E N InitialSync g = Some (initial_sync N g)"
| "handle fuel E N (SyncPull l) g = pull fuel N l g"
| "handle fuel E N (SyncSubscribe l) g = Some (subscribe l g)"

text \<open>The command loop logs an error and goes on.\<close>

fun run_sync :: "nat \<Rightarrow> store_env \<Rightarrow> 'w net \<Rightarrow> sync_command list \<Rightarrow> 'w engine \<Rightarrow> 'w engine option" where
  "run_sync fuel E N [] g = Some g"
| "run_sync fuel E N (cmd # cmds) g =
     (case handle fuel E N cmd g of None \<Rightarrow> None | Some (_, g') \<Rightarrow> run_sync fuel E N cmds g')"

definition start_sync :: "nat \<Rightarrow> store_env \<Rightarrow> 'w net \<Rightarrow> sync_command list \<Rightarrow> 'w engine \<Rightarrow> 'w engine option" where
  "start_sync fuel E N cmds = run_sync fuel E N (InitialSync # cmds)"

section \<open>Draining the queue\<close>

definition row_body :: "store_env \<Rightarrow> list_id \<Rightarrow> bytes \<Rightarrow> append_update" where
  "row_body E l bs = append_body l (the (ev_from_postcard E bs))"

definition uploadable :: "store_env \<Rightarrow> 'w net \<Rightarrow> list_id \<Rightarrow> bytes \<Rightarrow> bool" where
  "uploadable E N l bs \<longleftrightarrow> ev_from_postcard E bs \<noteq> None \<and> (\<forall>w. is_ok (fst (net_append N (row_body E l bs) w)))"

definition upload_all :: "'w net \<Rightarrow> append_update list \<Rightarrow> 'w \<Rightarrow> 'w" where
  "upload_all N bodies w = foldl (\<lambda>w b. snd (net_append N b w)) w bodies"

definition without_rows :: "nat set \<Rightarrow> client_db \<Rightarrow> client_db" where
  "without_rows ids db = db\<lparr> cd_outbound := filter (\<lambda>r. ob_local_id r \<notin> ids) (cd_outbound db) \<rparr>"

lemma ack_without: "without_rows ids (ack_outbound i db) = without_rows (insert i ids) db"
  by (simp add: without_rows_def ack_outbound_def row_del_def)

lemma without_none [simp]: "without_rows {} db = db"
  by (simp add: without_rows_def)

lemma push_rows_append:
  assumes "\<forall>row\<in>set pre. uploadable E N l (cr_payload row)"
  shows "push_rows E N l (pre @ rest) g =
    push_rows E N l rest (g\<lparr> eg_world := upload_all N (map (row_body E l \<circ> cr_payload) pre) (eg_world g),
        eg_db := without_rows (cr_local_id ` set pre) (eg_db g) \<rparr>)"
  using assms
proof (induction pre arbitrary: g)
  case (Cons row pre)
  then obtain p where p: "ev_from_postcard E (cr_payload row) = Some p" by (auto simp: uploadable_def)
  then have b: "row_body E l (cr_payload row) = append_body l p" by (simp add: row_body_def)
  have "is_ok (fst (net_append N (append_body l p) (eg_world g)))"
    using Cons.prems b by (auto simp: uploadable_def)
  then obtain q w where w: "net_append N (append_body l p) (eg_world g) = (Inr q, w)"
    by (metis is_ok_iff prod.collapse)
  show ?case
    using Cons.IH [of "g\<lparr> eg_world := w, eg_db := ack_outbound (cr_local_id row) (eg_db g) \<rparr>"] Cons.prems
    by (simp add: p w b upload_all_def ack_without)
qed (simp add: upload_all_def)

lemma mark_inflight_others:
  "filter (\<lambda>r. ob_local_id r \<notin> ob_local_id ` set rows) (mark_inflight rows rs) =
   filter (\<lambda>r. ob_local_id r \<notin> ob_local_id ` set rows) rs"
proof (induction rows arbitrary: rs)
  case (Cons c rows)
  let ?upd = "row_update (\<lambda>r. ob_local_id r = ob_local_id c)
                (\<lambda>r. r\<lparr> ob_status := Inflight, ob_attempts := ob_attempts r + 1 \<rparr>) rs"
  have "filter (\<lambda>r. ob_local_id r \<noteq> ob_local_id c) ?upd = filter (\<lambda>r. ob_local_id r \<noteq> ob_local_id c) rs"
    by (induction rs) (auto simp: row_update_def)
  then have "filter (\<lambda>r. ob_local_id r \<notin> ob_local_id ` set rows) (filter (\<lambda>r. ob_local_id r \<noteq> ob_local_id c) ?upd) =
      filter (\<lambda>r. ob_local_id r \<notin> ob_local_id ` set rows) (filter (\<lambda>r. ob_local_id r \<noteq> ob_local_id c) rs)"
    by simp
  moreover have "filter (\<lambda>r. ob_local_id r \<noteq> ob_local_id c) (filter (\<lambda>r. ob_local_id r \<notin> ob_local_id ` set rows) (mark_inflight rows ?upd)) =
     filter (\<lambda>r. ob_local_id r \<noteq> ob_local_id c) (filter (\<lambda>r. ob_local_id r \<notin> ob_local_id ` set rows) ?upd)"
    using Cons.IH [of ?upd] by (simp only:)
  ultimately show ?case by (simp add: mark_inflight_def conj_ac)
qed (simp add: mark_inflight_def)

abbreviation first_batch :: "list_id \<Rightarrow> client_db \<Rightarrow> outbound_row list" where
  "first_batch l db \<equiv> sql_limit batch (pending_rows l db)"

definition claimed :: "outbound_row \<Rightarrow> claimed_row" where
  "claimed r = \<lparr> cr_local_id = ob_local_id r, cr_list_id = ob_list_id r, cr_payload = ob_payload r \<rparr>"

lemma claimed_sel [simp]: "cr_local_id (claimed r) = ob_local_id r" "cr_payload (claimed r) = ob_payload r"
  by (simp_all add: claimed_def)

lemma take_outbound_claimed: "take_outbound l batch db =
    (map claimed (first_batch l db), db\<lparr> cd_outbound := mark_inflight (first_batch l db) (cd_outbound db) \<rparr>)"
  using take_outbound_db [of l batch db]
  by (simp add: prod_eq_iff) (simp add: take_outbound_def Let_def claimed_def)

text \<open>What a whole accepted batch leaves: the database without its rows.\<close>

lemma without_marked:
  "without_rows (ob_local_id ` set rows) (db\<lparr> cd_outbound := mark_inflight rows (cd_outbound db) \<rparr>) =
   without_rows (ob_local_id ` set rows) db"
  by (simp add: without_rows_def mark_inflight_others)

lemma ids_of_prefix:
  assumes "queue_wf (cd_outbound db)" and "r \<in> set (cd_outbound db)"
    and "ob_local_id r \<in> ob_local_id ` set (take k (pending_rows l db))"
  shows "is_pending l r"
proof -
  obtain q where q: "q \<in> set (pending_rows l db)" "ob_local_id q = ob_local_id r"
    using assms(3) by (auto dest: in_set_takeD)
  then have "q \<in> set (cd_outbound db)" "is_pending l q" by (auto simp: pending_rows_def)
  moreover have "inj_on ob_local_id (set (cd_outbound db))"
    using queue_sorted [OF assms(1), of "\<lambda>_. True"] by (simp add: distinct_map)
  ultimately show ?thesis using q(2) assms(2) by (auto dest: inj_onD)
qed

lemma pending_without_prefix:
  assumes "queue_wf (cd_outbound db)"
  shows "queue_wf (cd_outbound (without_rows (ob_local_id ` set (take k (pending_rows l db))) db)) \<and>
    pending_rows l (without_rows (ob_local_id ` set (take k (pending_rows l db))) db) = drop k (pending_rows l db) \<and>
    filter (\<lambda>r. \<not> is_pending l r) (cd_outbound (without_rows (ob_local_id ` set (take k (pending_rows l db))) db)) =
      filter (\<lambda>r. \<not> is_pending l r) (cd_outbound db)"
proof -
  let ?ids = "ob_local_id ` set (take k (pending_rows l db))"
  have wf: "queue_wf (cd_outbound (without_rows ?ids db))"
    using assms by (simp add: without_rows_def queue_wf_filter)
  have "pending_rows l (without_rows ?ids db) = filter (\<lambda>r. ob_local_id r \<notin> ?ids) (pending_rows l db)"
    by (simp add: pending_rows_filter [OF wf]) (simp add: without_rows_def pending_rows_filter [OF assms] conj_ac)
  also have "\<dots> = drop k (pending_rows l db)"
    using queue_sorted [OF assms] by (intro filter_not_prefix) (simp add: pending_rows_filter [OF assms])
  finally have "pending_rows l (without_rows ?ids db) = drop k (pending_rows l db)" .
  moreover have "filter (\<lambda>r. \<not> is_pending l r) (cd_outbound (without_rows ?ids db)) = filter (\<lambda>r. \<not> is_pending l r) (cd_outbound db)"
    using ids_of_prefix [OF assms] by (auto simp: without_rows_def intro!: filter_cong)
  ultimately show ?thesis using wf by blast
qed

lemma push_accepted:
  assumes "queue_wf (cd_outbound (eg_db g))"
    and "\<forall>r\<in>set (pending_rows l (eg_db g)). uploadable E N l (ob_payload r)"
  shows "push E N l g = (Inr (), g\<lparr>
     eg_world := upload_all N (map (row_body E l \<circ> ob_payload) (pending_rows l (eg_db g))) (eg_world g),
     eg_db := (eg_db g)\<lparr> cd_outbound := filter (\<lambda>r. \<not> is_pending l r) (cd_outbound (eg_db g)) \<rparr> \<rparr>)"
  using assms
proof (induction "pending_count l (eg_db g)" arbitrary: g rule: less_induct)
  case less
  let ?db = "eg_db g"
  let ?P = "pending_rows l ?db"
  let ?B = "first_batch l ?db"
  let ?k = "length ?B"
  have B: "?B = take ?k ?P" by (rule sql_limit_prefix)
  show ?case
  proof (cases "?B = []")
    case True
    then have "?P = []" by (auto simp: sql_limit_def batch_def)
    then have "filter (\<lambda>r. \<not> is_pending l r) (cd_outbound ?db) = cd_outbound ?db"
      using pending_rows_filter [OF less.prems(1), of l] by (auto simp: filter_id_conv filter_empty_conv)
    then show ?thesis
      using True by (simp add: push.simps [of E N l g] take_outbound_claimed mark_inflight_def \<open>?P = []\<close> upload_all_def)
  next
    case False
    define g1 where "g1 = g\<lparr> eg_world := upload_all N (map (row_body E l \<circ> ob_payload) ?B) (eg_world g),
        eg_db := without_rows (ob_local_id ` set ?B) ?db \<rparr>"
    have up: "\<forall>row\<in>set (map claimed ?B). uploadable E N l (cr_payload row)"
      using less.prems(2) set_sql_limit [of batch ?P] by auto
    have step: "push E N l g = push E N l g1"
      using push_rows_append [OF up, of "[]"] False
      by (simp add: push.simps [of E N l g] take_outbound_claimed g1_def image_image without_marked comp_def)
    note P1 = pending_without_prefix [OF less.prems(1), of ?k l, folded B]
    have count: "pending_count l db = length (pending_rows l db)" if "queue_wf (cd_outbound db)" for db
      using that by (simp add: pending_count_def pending_rows_filter)
    have g1: "eg_db g1 = without_rows (ob_local_id ` set ?B) ?db" by (simp add: g1_def)
    have "0 < ?k" "?k \<le> length ?P" using False arg_cong [OF B, of length] by simp_all
    then have "length ?P - ?k < length ?P" by (metis diff_less less_le_trans)
    then have "pending_count l (eg_db g1) < pending_count l ?db"
      using P1 less.prems(1) by (simp add: g1 count)
    moreover have "\<forall>r\<in>set (pending_rows l (eg_db g1)). uploadable E N l (ob_payload r)"
      using less.prems(2) P1 by (auto simp: g1 dest: in_set_dropD)
    moreover have "queue_wf (cd_outbound (eg_db g1))" using P1 by (simp add: g1)
    ultimately have rest: "push E N l g1 = (Inr (), g1\<lparr>
       eg_world := upload_all N (map (row_body E l \<circ> ob_payload) (pending_rows l (eg_db g1))) (eg_world g1),
       eg_db := (eg_db g1)\<lparr> cd_outbound := filter (\<lambda>r. \<not> is_pending l r) (cd_outbound (eg_db g1)) \<rparr> \<rparr>)"
      using less.hyps by blast
    have "map f ?P = map f ?B @ map f (drop ?k ?P)" for f :: "outbound_row \<Rightarrow> append_update"
      unfolding map_append [symmetric] by (subst B) simp
    then have "upload_all N (map (row_body E l \<circ> ob_payload) ?P) w =
        upload_all N (map (row_body E l \<circ> ob_payload) (drop ?k ?P)) (upload_all N (map (row_body E l \<circ> ob_payload) ?B) w)" for w
      by (simp add: upload_all_def)
    then show ?thesis
      using P1 unfolding step rest by (simp add: g1_def) (simp add: without_rows_def)
  qed
qed


text \<open>C11: when the server accepts every upload, a push uploads the pending updates of the list in the
  order they were made, each exactly once and in as many batches as it takes, and leaves in the
  queue exactly the rows that were not pending for that list.\<close>

theorem push_drains:
  assumes "queue_wf (cd_outbound (eg_db g))"
    and "\<forall>r\<in>set (pending_rows l (eg_db g)). uploadable E N l (ob_payload r)"
  shows "fst (push E N l g) = Inr () \<and>
     eg_world (snd (push E N l g)) = upload_all N (map (row_body E l \<circ> ob_payload) (pending_rows l (eg_db g))) (eg_world g) \<and>
     cd_outbound (eg_db (snd (push E N l g))) = filter (\<lambda>r. \<not> is_pending l r) (cd_outbound (eg_db g)) \<and>
     pending_ids l (eg_db (snd (push E N l g))) = []"
  unfolding push_accepted [OF assms] by (simp add: pending_ids_def pending_rows_def comp_def)

text \<open>A transport that records what it is given, and one that refuses a given payload.\<close>

definition log_net :: "(append_update \<Rightarrow> bool) \<Rightarrow> append_update list net" where
  "log_net refuse =
     \<lparr> net_append = (\<lambda>b w. if refuse b then (Inl Reqwest, w) else (Inr 0, w @ [b])),
       net_pull = (\<lambda>l a n w. (Inr [], w)), net_create_list = (\<lambda>l d w. (Inr l, w)),
       net_delete_list = (\<lambda>l w. (Inr (), w)), net_add_member = (\<lambda>b w. (Inr (), w)),
       net_remove_member = (\<lambda>b w. (Inr (), w)), net_fetch_lists = (\<lambda>w. (Inr [], w)),
       net_get_metadata = (\<lambda>l w. (Inl Reqwest, w)), net_get_my_keys = (\<lambda>l w. (Inr [], w)) \<rparr>"

definition demo_payload :: "bytes \<Rightarrow> update_payload" where
  "demo_payload bs = produce_update toy_crypto (fixed_repeat 4) 1 demo_list 1 (fixed_repeat 1) (fixed_repeat 7) (fixed_repeat 1) bs"

definition push_env :: store_env where
  "push_env = demo_env\<lparr> ev_from_postcard := (\<lambda>bs. Some (demo_payload bs)) \<rparr>"

definition demo_engine :: "append_update list engine" where
  "demo_engine = \<lparr> eg_db = demo_db, eg_world = [], eg_store_tx = [], eg_tx = [], eg_tasks = [] \<rparr>"

lemma demo_queue: "queue_wf (cd_outbound (eg_db demo_engine))"
  by (simp add: demo_engine_def demo_db_eq queue_wf_def keyed_def)

lemma demo_pending: "map ob_payload (pending_rows demo_list (eg_db demo_engine)) = [[1], [2]]"
  by (simp add: demo_engine_def demo_db_eq pending_rows_def)

theorem push_drains_witness:
  "eg_world (snd (push push_env (log_net (\<lambda>_. False)) demo_list demo_engine)) =
     [row_body push_env demo_list [1], row_body push_env demo_list [2]]"
proof -
  have "\<forall>r\<in>set (pending_rows demo_list (eg_db demo_engine)). uploadable push_env (log_net (\<lambda>_. False)) demo_list (ob_payload r)"
    by (simp add: uploadable_def push_env_def log_net_def)
  from push_drains [OF demo_queue this] demo_pending show ?thesis
    by (simp add: map_map [symmetric] del: map_map) (simp add: upload_all_def log_net_def demo_engine_def)
qed

section \<open>Rows left behind\<close>

lemma push_one_batch_fails:
  assumes wf: "queue_wf (cd_outbound (eg_db g))" and rows: "pending_rows l (eg_db g) = pre @ r # post"
    and short: "int (length (pre @ r # post)) \<le> batch"
    and pre: "\<forall>q\<in>set pre. uploadable E N l (ob_payload q)"
    and dec: "ev_from_postcard E (ob_payload r) \<noteq> None"
    and refused: "\<And>w. \<exists>e w'. net_append N (row_body E l (ob_payload r)) w = (Inl e, w')"
  shows "\<exists>e w. push E N l g = (Inl e, g\<lparr> eg_world := w, eg_db := release_outbound (ob_local_id r)
     (without_rows (ob_local_id ` set pre)
        ((eg_db g)\<lparr> cd_outbound := mark_inflight (pre @ r # post) (cd_outbound (eg_db g)) \<rparr>)) \<rparr>)"
proof -
  let ?w = "upload_all N (map (row_body E l \<circ> ob_payload) pre) (eg_world g)"
  have fb: "first_batch l (eg_db g) = pre @ r # post"
    using short by (simp add: sql_limit_def batch_def rows)
  obtain e w where w: "net_append N (row_body E l (ob_payload r)) ?w = (Inl e, w)" using refused by blast
  obtain p where p: "ev_from_postcard E (ob_payload r) = Some p" using dec by blast
  have b: "row_body E l (ob_payload r) = append_body l p" by (simp add: row_body_def p)
  let ?g1 = "g\<lparr> eg_db := (eg_db g)\<lparr> cd_outbound := mark_inflight (pre @ r # post) (cd_outbound (eg_db g)) \<rparr> \<rparr>"
  have "\<forall>row\<in>set (map claimed pre). uploadable E N l (cr_payload row)" using pre by simp
  note push_rows_append [OF this, where rest = "map claimed (r # post)" and g = ?g1]
  then have "push_rows E N l (map claimed (pre @ r # post)) ?g1 = (Inl e, ?g1\<lparr> eg_world := w,
      eg_db := release_outbound (ob_local_id r) (without_rows (ob_local_id ` set pre) (eg_db ?g1)) \<rparr>)"
    using w b p by (simp add: image_image comp_def)
  then show ?thesis
    by (intro exI [of _ e] exI [of _ w]) (simp add: push.simps [of E N l g] take_outbound_claimed fb)
qed

definition fields :: "outbound_row \<Rightarrow> nat \<times> list_id \<times> bytes \<times> out_status" where
  "fields r = (ob_local_id r, ob_list_id r, ob_payload r, ob_status r)"

definition set_status :: "(nat \<Rightarrow> out_status option) \<Rightarrow> outbound_row \<Rightarrow> outbound_row" where
  "set_status f r = r\<lparr> ob_status := (case f (ob_local_id r) of None \<Rightarrow> ob_status r | Some s \<Rightarrow> s) \<rparr>"

lemma mark_inflight_fields_eq:
  "map fields (mark_inflight rows rs) =
   map (fields \<circ> set_status (\<lambda>i. if i \<in> ob_local_id ` set rows then Some Inflight else None)) rs"
  by (induction rows arbitrary: rs)
     (auto simp: mark_inflight_def row_update_def set_status_def fields_def)

lemma filter_fields: "(\<And>r. p r = p' (fields r)) \<Longrightarrow> map fields (filter p rs) = filter p' (map fields rs)"
  by (induction rs) auto

lemma filter_key: "distinct (map f xs) \<Longrightarrow> r \<in> set xs \<Longrightarrow> filter (\<lambda>x. f x = f r) xs = [r]"
  by (induction xs) (auto simp: filter_empty_conv image_iff)

text \<open>The queue after a batch whose row \<open>r\<close> was refused.\<close>

definition after_refusal :: "outbound_row list \<Rightarrow> outbound_row \<Rightarrow> outbound_row list \<Rightarrow> outbound_row list \<Rightarrow> outbound_row list" where
  "after_refusal pre r post rs =
     row_update (\<lambda>x. ob_local_id x = ob_local_id r) (ob_status_update (\<lambda>_. Pending))
       (filter (\<lambda>x. ob_local_id x \<notin> ob_local_id ` set pre) (mark_inflight (pre @ r # post) rs))"

lemma after_refusal_fields:
  "map fields (after_refusal pre r post rs) =
   map (fields \<circ> set_status (\<lambda>i. if i = ob_local_id r then Some Pending
            else if i \<in> ob_local_id ` set (pre @ r # post) then Some Inflight else None))
     (filter (\<lambda>x. ob_local_id x \<notin> ob_local_id ` set pre) rs)" (is "_ = map (fields \<circ> ?h) (filter ?keep rs)")
proof -
  let ?m = "\<lambda>i. if i \<in> ob_local_id ` set (pre @ r # post) then Some Inflight else None"
  let ?p = "\<lambda>(i, k :: list_id, p :: bytes, s). (i, k, p, if i = ob_local_id r then Pending else s)"
  have "map fields (after_refusal pre r post rs) =
      map ?p (map fields (filter ?keep (mark_inflight (pre @ r # post) rs)))"
    by (simp add: after_refusal_def row_update_def fields_def)
  also have "map fields (filter ?keep (mark_inflight (pre @ r # post) rs)) =
      filter (\<lambda>f. fst f \<notin> ob_local_id ` set pre) (map fields (mark_inflight (pre @ r # post) rs))"
    by (rule filter_fields) (simp add: fields_def)
  also have "\<dots> = map (fields \<circ> set_status ?m) (filter ?keep rs)"
    unfolding mark_inflight_fields_eq filter_map by (simp add: comp_def fields_def set_status_def)
  finally have "map fields (after_refusal pre r post rs) = map ?p (map (fields \<circ> set_status ?m) (filter ?keep rs))" .
  then show ?thesis by (auto simp: fields_def set_status_def)
qed

lemma after_refusal_spec:
  assumes "distinct (map ob_local_id rs)" and "filter (is_pending l) rs = pre @ r # post"
  shows "map fields (filter (is_pending l) (after_refusal pre r post rs)) = [fields r]"
    and "q \<in> set post \<Longrightarrow> \<exists>q'\<in>set (after_refusal pre r post rs). ob_local_id q' = ob_local_id q \<and> ob_status q' = Inflight"
proof -
  let ?h = "set_status (\<lambda>i. if i = ob_local_id r then Some Pending
            else if i \<in> ob_local_id ` set (pre @ r # post) then Some Inflight else None)"
  let ?keep = "\<lambda>x. ob_local_id x \<notin> ob_local_id ` set pre"
  have mem: "x \<in> set (pre @ r # post) \<longleftrightarrow> x \<in> set rs \<and> is_pending l x" for x
    by (subst assms(2) [symmetric]) auto
  have inj: "x \<in> set rs \<Longrightarrow> y \<in> set rs \<Longrightarrow> ob_local_id x = ob_local_id y \<Longrightarrow> x = y" for x y
    using assms(1) by (auto simp: distinct_map dest: inj_onD)
  have "distinct (map ob_local_id (filter (is_pending l) rs))" using assms(1) by (rule distinct_map_filter)
  then have dis: "distinct (map ob_local_id (pre @ r # post))" by (simp only: assms(2))
  have "map fields (filter (is_pending l) (after_refusal pre r post rs)) =
      filter (\<lambda>f. fst (snd f) = l \<and> snd (snd (snd f)) = Pending) (map (fields \<circ> ?h) (filter ?keep rs))"
    unfolding after_refusal_fields [symmetric] by (rule filter_fields) (simp add: fields_def)
  also have "\<dots> = map (fields \<circ> ?h) (filter (\<lambda>x. ?keep x \<and> is_pending l (?h x)) rs)"
    by (simp add: filter_map comp_def fields_def conj_commute)
  also have "filter (\<lambda>x. ?keep x \<and> is_pending l (?h x)) rs = filter (\<lambda>x. ob_local_id x = ob_local_id r) rs"
  proof (rule filter_cong [OF refl])
    fix x assume x: "x \<in> set rs"
    have r: "r \<in> set rs" "is_pending l r" using mem [of r] by auto
    show "(?keep x \<and> is_pending l (?h x)) = (ob_local_id x = ob_local_id r)"
      using inj [OF x r(1)] r dis mem [of x] x by (auto simp: set_status_def)
  qed
  also have "\<dots> = [r]" using mem [of r] by (intro filter_key [OF assms(1)]) simp
  also have "map (fields \<circ> ?h) [r] = [fields r]"
    using mem [of r] by (simp add: fields_def set_status_def)
  finally show "map fields (filter (is_pending l) (after_refusal pre r post rs)) = [fields r]" .
  show "\<exists>q'\<in>set (after_refusal pre r post rs). ob_local_id q' = ob_local_id q \<and> ob_status q' = Inflight"
    if q: "q \<in> set post"
  proof -
    have "q \<in> set (filter ?keep rs)" using q dis mem [of q] by auto
    then have "fields (?h q) \<in> set (map fields (after_refusal pre r post rs))"
      unfolding after_refusal_fields by auto
    moreover have "ob_local_id q \<in> ob_local_id ` set post" using q by (rule imageI)
    then have "ob_local_id q \<noteq> ob_local_id r" using dis by auto
    then have "fields (?h q) = (ob_local_id q, ob_list_id q, ob_payload q, Inflight)"
      using q by (simp add: fields_def set_status_def)
    ultimately show ?thesis by (auto simp: fields_def)
  qed
qed




section \<open>Paging through an update log\<close>

text \<open>What the engine relies on in a server: in a state where its requests are authorised, pulling
  returns the first rows of the list's log after the cursor, the log is ordered by sequence number,
  and pulling leaves the log and the authorisation as they are.\<close>

locale update_log =
  fixes N :: "'w net" and log :: "list_id \<Rightarrow> 'w \<Rightarrow> stored_update_dto list" and ready :: "'w \<Rightarrow> bool"
  assumes log_sorted: "ready w \<Longrightarrow> sorted_wrt (<) (map sd_seq (log l w))"
    and pull_rows: "ready w \<Longrightarrow> \<exists>w'.
      net_pull N l after batch w = (Inr (take (nat batch) (filter (\<lambda>u. after < sd_seq u) (log l w))), w') \<and>
      ready w' \<and> log l w' = log l w"
begin

definition rest :: "list_id \<Rightarrow> int \<Rightarrow> 'w \<Rightarrow> stored_update_dto list" where
  "rest l after w = filter (\<lambda>u. after < sd_seq u) (log l w)"

lemma rest_after_page:
  assumes "ready w" and "rest l after w = page @ later" and "page \<noteq> []"
  shows "rest l (sd_seq (last page)) w = later"
proof -
  let ?c = "sd_seq (last page)"
  have sorted: "sorted_wrt (<) (map sd_seq (page @ later))"
    using log_sorted [OF assms(1), of l] by (simp add: assms(2) [symmetric] rest_def sorted_wrt_filter sorted_wrt_map)
  obtain ps where page: "page = ps @ [last page]" using assms(3) by (metis append_butlast_last_id)
  have "\<forall>u\<in>set page. sd_seq u \<le> ?c" "\<forall>u\<in>set later. ?c < sd_seq u"
    using sorted by (subst (asm) page, subst page; auto simp: sorted_wrt_append sorted_wrt_map)+
  then have "filter (\<lambda>u. ?c < sd_seq u) (rest l after w) = later"
    by (auto simp: assms(2) filter_empty_conv filter_id_conv)
  moreover have "after \<le> ?c"
  proof -
    have "last page \<in> set (rest l after w)" using assms(2,3) by simp
    then show ?thesis by (simp add: rest_def)
  qed
  then have "filter (\<lambda>u. ?c < sd_seq u) (rest l after w) = rest l ?c w"
    by (auto simp: rest_def intro!: filter_cong)
  ultimately show ?thesis by simp
qed

lemma pull_pages_delivers:
  assumes "ready (eg_world g)" and "length (rest l cursor (eg_world g)) < fuel * nat batch"
  shows "\<exists>pages w'. pull_pages fuel N l cursor g =
      Some (Inr (), g\<lparr> eg_world := w', eg_store_tx := eg_store_tx g @ map (ApplyRemote l) pages \<rparr>) \<and>
    concat pages = rest l cursor (eg_world g) \<and> (\<forall>p\<in>set pages. p \<noteq> [] \<and> length p \<le> nat batch)"
  using assms
proof (induction fuel arbitrary: cursor g)
  case (Suc k)
  let ?w = "eg_world g"
  let ?rest = "rest l cursor ?w"
  let ?page = "take (nat batch) ?rest"
  obtain w1 where net: "net_pull N l cursor batch ?w = (Inr ?page, w1)" and w1: "ready w1" "log l w1 = log l ?w"
    using pull_rows [OF Suc.prems(1), of l cursor] by (auto simp: rest_def)
  show ?case
  proof (cases "int (length ?page) < batch")
    case True
    then have "?page = ?rest" by (simp add: batch_def)
    then show ?thesis
      using True net by (intro exI [of _ "if ?rest = [] then [] else [?rest]"] exI [of _ w1]) auto
  next
    case False
    let ?g' = "g\<lparr> eg_world := w1, eg_store_tx := eg_store_tx g @ [ApplyRemote l ?page] \<rparr>"
    have len: "length ?page = nat batch" "?page \<noteq> []" using False by (auto simp: batch_def)
    have r': "rest l (sd_seq (last ?page)) w1 = drop (nat batch) ?rest"
      using w1(1) len(2) by (intro rest_after_page [where after = cursor]) (simp_all add: rest_def w1(2))
    have "length (rest l (sd_seq (last ?page)) (eg_world ?g')) < k * nat batch"
      using Suc.prems(2) len(1) by (simp add: r')
    then obtain pages w2 where "pull_pages k N l (sd_seq (last ?page)) ?g' =
        Some (Inr (), ?g'\<lparr> eg_world := w2, eg_store_tx := eg_store_tx ?g' @ map (ApplyRemote l) pages \<rparr>)"
      "concat pages = drop (nat batch) ?rest" "\<forall>p\<in>set pages. p \<noteq> [] \<and> length p \<le> nat batch"
      using Suc.IH [of ?g' "sd_seq (last ?page)"] w1(1) r' by auto
    then show ?thesis
      using net False len by (intro exI [of _ "?page # pages"] exI [of _ w2]) (simp add: Let_def)
  qed
qed simp

lemma pull_delivers:
  assumes "ready (eg_world g)" and "length (log l (eg_world g)) < fuel * nat batch"
  shows "\<exists>pages w'. pull fuel N l g =
      Some (Inr (), g\<lparr> eg_world := w', eg_store_tx := eg_store_tx g @ map (ApplyRemote l) pages \<rparr>) \<and>
    concat pages = filter (\<lambda>u. applied_through_seq l (eg_db g) < sd_seq u) (log l (eg_world g)) \<and>
    (\<forall>p\<in>set pages. p \<noteq> [] \<and> length p \<le> nat batch)"
proof -
  have "length (rest l (applied_through_seq l (eg_db g)) (eg_world g)) < fuel * nat batch"
    using assms(2) length_filter_le [of _ "log l (eg_world g)"] unfolding rest_def by (rule le_less_trans [rotated])
  from pull_pages_delivers [OF assms(1) this] show ?thesis by (simp add: pull_def rest_def)
qed

end

section \<open>Discovery\<close>

lemma discover_Inr:
  "discover N l g = (Inr u, g1) \<Longrightarrow> \<exists>md keys. eg_store_tx g1 = eg_store_tx g @ [IngestRemoteList md keys] \<and>
     eg_tx g1 = eg_tx g @ [SyncPull l, SyncSubscribe l]"
  by (auto simp: sbind_Inr discover_def call_def to_store_def to_self_def split: prod.splits)

lemma discovery_order:
  assumes "for_each (discover N) ids g = (Inr (), g')"
  shows "\<exists>metas. length metas = length ids \<and>
     eg_store_tx g' = eg_store_tx g @ map (\<lambda>(md, keys). IngestRemoteList md keys) metas \<and>
     eg_tx g' = eg_tx g @ concat (map (\<lambda>l. [SyncPull l, SyncSubscribe l]) ids)"
  using assms
proof (induction ids arbitrary: g)
  case Nil
  then show ?case by (auto simp: sreturn_def)
next
  case (Cons l ids)
  then obtain g1 where g1: "discover N l g = (Inr (), g1)" "for_each (discover N) ids g1 = (Inr (), g')"
    by (auto simp: sbind_Inr)
  from discover_Inr [OF g1(1)] obtain md keys where "eg_store_tx g1 = eg_store_tx g @ [IngestRemoteList md keys]"
    "eg_tx g1 = eg_tx g @ [SyncPull l, SyncSubscribe l]" by blast
  moreover from Cons.IH [OF g1(2)] obtain metas where "length metas = length ids"
     "eg_store_tx g' = eg_store_tx g1 @ map (\<lambda>(md, keys). IngestRemoteList md keys) metas"
     "eg_tx g' = eg_tx g1 @ concat (map (\<lambda>l. [SyncPull l, SyncSubscribe l]) ids)" by blast
  ultimately show ?case by (intro exI [of _ "(md, keys) # metas"]) simp
qed

end
