(* ===== verification/ClientAuth.thy ===== *)
theory ClientAuth
  imports Store
begin

text \<open>
  The client's authentication flows (\<open>todoers-client/src/auth.rs\<close>): OPAQUE registration and login
  around the wrapping of the private identity, the offline copy, and the device cache.  OPAQUE itself
  and the JSON of the cache are the fields of \<open>opaque_client\<close>; what the code draws from the random
  source is an argument.  A failed OPAQUE step is \<open>Inl Opaque\<close>.
\<close>

section \<open>Flows\<close>

record device_cache_payload =
  dc_keys :: unlocked_keys
  dc_device_id :: device_id
  dc_device_signing_seed :: ed25519_signing
  dc_device_signing_pub :: ed25519_pub

record opaque_client =
  oc_registration_start :: "bytes \<Rightarrow> bytes \<Rightarrow> (bytes \<times> bytes) option"
  oc_registration_response :: "bytes \<Rightarrow> bytes option"
  oc_registration_finish :: "bytes \<Rightarrow> bytes \<Rightarrow> bytes \<Rightarrow> bytes \<Rightarrow> (bytes \<times> bytes) option"
  oc_login_start :: "bytes \<Rightarrow> bytes \<Rightarrow> (bytes \<times> bytes) option"
  oc_credential_response :: "bytes \<Rightarrow> bytes option"
  oc_login_finish :: "bytes \<Rightarrow> bytes \<Rightarrow> bytes \<Rightarrow> bytes \<Rightarrow> (bytes \<times> bytes) option"
  oc_cache_to_json :: "device_cache_payload \<Rightarrow> bytes option"
  oc_cache_from_json :: "bytes \<Rightarrow> device_cache_payload option"
  oc_hmac :: "bytes \<Rightarrow> bytes \<Rightarrow> bytes"

record register_flow =
  rf_username :: string
  rf_password :: bytes
  rf_reg_state :: bytes
  rf_identity_secret :: x25519_secret
  rf_identity_pub :: x25519_pub
  rf_signing_seed :: ed25519_signing
  rf_signing_pub :: ed25519_pub

record login_flow =
  lg_password :: bytes
  lg_login_state :: bytes

section \<open>Parameters of the local master key\<close>

definition kdf_mem_kib :: nat where "kdf_mem_kib = 19456"
definition kdf_iters :: nat where "kdf_iters = 2"
definition kdf_parallelism :: nat where "kdf_parallelism = 1"

text \<open>A salt column of the wrong length is a decode error.\<close>

definition kdf_salt_try_from :: "bytes \<Rightarrow> client_error + 16 fixed" where
  "kdf_salt_try_from bs = map_err (\<lambda>_. BadSize ''kdf salt is not 16 bytes'') (fixed_try_from bs)"

text \<open>\<open>i64::try_into::<u32>().unwrap_or(d)\<close>.\<close>

definition u32_or :: "nat \<Rightarrow> int \<Rightarrow> nat" where
  "u32_or d n = (if 0 \<le> n \<and> n < 2 ^ 32 then nat n else d)"

section \<open>Registration\<close>

definition generate_identity :: "crypto \<Rightarrow> x25519_secret \<Rightarrow> x25519_secret \<times> x25519_pub" where
  "generate_identity C secret = (secret, c_x_public C secret)"

definition generate_signing :: "crypto \<Rightarrow> ed25519_signing \<Rightarrow> ed25519_signing \<times> ed25519_pub" where
  "generate_signing C seed = (seed, c_verifying_key C seed)"

definition register_begin ::
    "crypto \<Rightarrow> opaque_client \<Rightarrow> x25519_secret \<Rightarrow> ed25519_signing \<Rightarrow> bytes \<Rightarrow> string \<Rightarrow> bytes
      \<Rightarrow> client_error + (register_flow \<times> start_register_request)" where
  "register_begin C Q idk seed rnd username password =
     (let (identity_secret, identity_pub) = generate_identity C idk;
          (signing_seed, signing_pub) = generate_signing C seed
      in case oc_registration_start Q rnd password of
           None \<Rightarrow> Inl Opaque
         | Some (state, message) \<Rightarrow>
             Inr (\<lparr> rf_username = username, rf_password = password, rf_reg_state = state,
                    rf_identity_secret = identity_secret, rf_identity_pub = identity_pub,
                    rf_signing_seed = signing_seed, rf_signing_pub = signing_pub \<rparr>,
                  \<lparr> sr_identity_pub = identity_pub, sr_registration_req = message \<rparr>))"

definition local_copy ::
    "crypto \<Rightarrow> 16 fixed \<Rightarrow> nonce \<Rightarrow> bytes \<Rightarrow> x25519_secret \<Rightarrow> ed25519_signing \<Rightarrow> client_error + bytes" where
  "local_copy C salt nonce password idk seed =
     (case derive_local_master C password (as_slice salt) kdf_mem_kib kdf_iters kdf_parallelism of
        Inl e \<Rightarrow> Inl e
      | Inr master \<Rightarrow> Inr (wrap_secret_keys C nonce master idk seed))"

definition account_with :: "member_id \<Rightarrow> string \<Rightarrow> x25519_pub \<Rightarrow> ed25519_pub \<Rightarrow> bytes \<Rightarrow> 16 fixed \<Rightarrow> new_account" where
  "account_with m name idp sgp wrapped salt =
     \<lparr> na_member_id = m, na_username = name, na_identity_pub = idp, na_signing_pub = sgp,
       na_wrapped_secret_keys = wrapped, na_kdf_salt = salt, na_kdf_mem_kib = int kdf_mem_kib,
       na_kdf_iters = int kdf_iters, na_kdf_parallelism = int kdf_parallelism \<rparr>"

definition register_finish ::
    "crypto \<Rightarrow> opaque_client \<Rightarrow> bytes \<Rightarrow> nonce \<Rightarrow> 16 fixed \<Rightarrow> nonce \<Rightarrow> register_flow \<Rightarrow> bytes
      \<Rightarrow> client_error + (finish_register_request \<times> new_account)" where
  "register_finish C Q rnd escrow_nonce salt local_nonce flow response =
     (case oc_registration_response Q response of
        None \<Rightarrow> Inl Opaque
      | Some reg \<Rightarrow>
          (case oc_registration_finish Q rnd (rf_reg_state flow) (rf_password flow) reg of
             None \<Rightarrow> Inl Opaque
           | Some (message, export_key) \<Rightarrow>
               (let escrow_master = derive_escrow_key C export_key;
                    escrow_wrapped = wrap_secret_keys C escrow_nonce escrow_master
                      (rf_identity_secret flow) (rf_signing_seed flow)
                in case local_copy C salt local_nonce (rf_password flow) (rf_identity_secret flow) (rf_signing_seed flow) of
                     Inl e \<Rightarrow> Inl e
                   | Inr local_wrapped \<Rightarrow>
                       (let member_id = member_id_from_identity_pub (oc_hmac Q) (rf_identity_pub flow)
                        in Inr (\<lparr> fr_username = rf_username flow, fr_identity_pub = rf_identity_pub flow,
                                  fr_signing_pub = rf_signing_pub flow, fr_wrapped_secret_keys = escrow_wrapped,
                                  fr_registration_up = message \<rparr>,
                                account_with member_id (rf_username flow) (rf_identity_pub flow) (rf_signing_pub flow)
                                  local_wrapped salt)))))"

section \<open>Login\<close>

definition login_begin :: "opaque_client \<Rightarrow> bytes \<Rightarrow> string \<Rightarrow> bytes \<Rightarrow> client_error + (login_flow \<times> (string \<times> bytes))" where
  "login_begin Q rnd username password =
     (case oc_login_start Q rnd password of
        None \<Rightarrow> Inl Opaque
      | Some (state, message) \<Rightarrow>
          Inr (\<lparr> lg_password = password, lg_login_state = state \<rparr>, (username, message)))"

definition login_finish_step ::
    "opaque_client \<Rightarrow> bytes \<Rightarrow> login_flow \<Rightarrow> 'i \<times> bytes \<Rightarrow> client_error + (('i \<times> bytes) \<times> bytes)" where
  "login_finish_step Q rnd flow response =
     (case oc_credential_response Q (snd response) of
        None \<Rightarrow> Inl Opaque
      | Some cred \<Rightarrow>
          (case oc_login_finish Q rnd (lg_login_state flow) (lg_password flow) cred of
             None \<Rightarrow> Inl Opaque
           | Some (message, export_key) \<Rightarrow> Inr ((fst response, message), export_key)))"

definition unlock_from_escrow :: "crypto \<Rightarrow> bytes \<Rightarrow> login_finish_response \<Rightarrow> client_error + unlocked_keys" where
  "unlock_from_escrow C export_key r =
     (case unwrap_secret_keys C (derive_escrow_key C export_key) (lf_wrapped_secret_keys r) of
        Inl e \<Rightarrow> Inl e
      | Inr (identity_secret, signing_seed) \<Rightarrow>
          Inr \<lparr> ul_member_id = lf_member_id r, ul_identity_secret = identity_secret, ul_identity_pub = lf_identity_pub r,
                ul_signing_seed = signing_seed, ul_signing_pub = lf_signing_pub r, ul_token = lf_token r \<rparr>)"

definition unlock_offline :: "crypto \<Rightarrow> bytes \<Rightarrow> new_account \<Rightarrow> client_error + unlocked_keys" where
  "unlock_offline C password acct =
     (case derive_local_master C password (as_slice (na_kdf_salt acct)) (u32_or kdf_mem_kib (na_kdf_mem_kib acct))
             (u32_or kdf_iters (na_kdf_iters acct)) (u32_or kdf_parallelism (na_kdf_parallelism acct)) of
        Inl e \<Rightarrow> Inl e
      | Inr master \<Rightarrow>
          (case unwrap_secret_keys C master (na_wrapped_secret_keys acct) of
             Inl e \<Rightarrow> Inl e
           | Inr (identity_secret, signing_seed) \<Rightarrow>
               Inr \<lparr> ul_member_id = na_member_id acct, ul_identity_secret = identity_secret,
                     ul_identity_pub = na_identity_pub acct, ul_signing_seed = signing_seed,
                     ul_signing_pub = na_signing_pub acct, ul_token = [] \<rparr>))"

definition build_local_account ::
    "crypto \<Rightarrow> 16 fixed \<Rightarrow> nonce \<Rightarrow> string \<Rightarrow> bytes \<Rightarrow> unlocked_keys \<Rightarrow> client_error + new_account" where
  "build_local_account C salt nonce username password keys =
     (case local_copy C salt nonce password (ul_identity_secret keys) (ul_signing_seed keys) of
        Inl e \<Rightarrow> Inl e
      | Inr wrapped \<Rightarrow>
          Inr (account_with (ul_member_id keys) username (ul_identity_pub keys) (ul_signing_pub keys) wrapped salt))"

section \<open>The device cache\<close>

definition generate_device_identity :: "crypto \<Rightarrow> device_id \<Rightarrow> ed25519_signing \<Rightarrow> device_id \<times> ed25519_signing \<times> ed25519_pub" where
  "generate_device_identity C dev seed = (let (s, p) = generate_signing C seed in (dev, s, p))"

definition build_device_cache ::
    "crypto \<Rightarrow> opaque_client \<Rightarrow> bytes \<Rightarrow> nonce \<Rightarrow> string \<Rightarrow> unlocked_keys \<Rightarrow> device_id \<Rightarrow> ed25519_signing \<Rightarrow> ed25519_pub
      \<Rightarrow> client_error + bytes" where
  "build_device_cache C Q rnd nonce recipient keys dev seed pub =
     (let payload = \<lparr> dc_keys = keys\<lparr> ul_token := [] \<rparr>, dc_device_id = dev, dc_device_signing_seed = seed,
                      dc_device_signing_pub = pub \<rparr>
      in case oc_cache_to_json Q payload of
           None \<Rightarrow> Inl Aead
         | Some json \<Rightarrow> device_seal C rnd nonce recipient json)"

definition unlock_from_device_cache :: "crypto \<Rightarrow> opaque_client \<Rightarrow> string \<Rightarrow> bytes \<Rightarrow> client_error + device_cache_payload" where
  "unlock_from_device_cache C Q identity_contents blob =
     (case device_open C identity_contents blob of
        Inl e \<Rightarrow> Inl e
      | Inr json \<Rightarrow> ok_or Aead (oc_cache_from_json Q json))"

section \<open>Properties\<close>

lemma u32_or_kdf [simp]:
  "u32_or d (int kdf_mem_kib) = kdf_mem_kib" "u32_or d (int kdf_iters) = kdf_iters"
  "u32_or d (int kdf_parallelism) = kdf_parallelism"
  by (simp_all add: u32_or_def kdf_mem_kib_def kdf_iters_def kdf_parallelism_def)

lemma account_with_sel [simp]:
  "na_member_id (account_with m name idp sgp wrapped salt) = m" "na_username (account_with m name idp sgp wrapped salt) = name"
  by (simp_all add: account_with_def)

lemma local_copy_unlocks:
  assumes "crypto_ok C" and "local_copy C salt nonce password idk seed = Inr wrapped"
  shows "unlock_offline C password (account_with m name idp sgp wrapped salt) =
    Inr \<lparr> ul_member_id = m, ul_identity_secret = idk, ul_identity_pub = idp, ul_signing_seed = seed,
          ul_signing_pub = sgp, ul_token = [] \<rparr>"
proof -
  obtain master where m: "derive_local_master C password (as_slice salt) kdf_mem_kib kdf_iters kdf_parallelism = Inr master"
    and "wrapped = wrap_secret_keys C nonce master idk seed"
    using assms(2) by (auto simp: local_copy_def split: sum.splits)
  then have "unwrap_secret_keys C master wrapped = Inr (idk, seed)"
    using wrap_unwrap_Inr [OF assms(1)] by blast
  then show ?thesis by (simp add: unlock_offline_def account_with_def m)
qed

text \<open>C8: registration wraps one identity twice: the copy it uploads opens with the export key of its
  OPAQUE run and the copy it keeps opens offline with the password, both to the key pairs it
  generated, which differ only in the session token; the public keys it registers belong to
  those secrets and the member id is derived from the identity key.\<close>

theorem registration_wraps_twice:
  assumes "crypto_ok C"
    and "register_begin C Q idk seed rnd username password = Inr (flow, req)"
    and "register_finish C Q rnd' n1 salt n2 flow response = Inr (fin, acct)"
    and "oc_registration_response Q response = Some reg"
    and "oc_registration_finish Q rnd' (rf_reg_state flow) password reg = Some (msg, export_key)"
  shows "\<exists>keys. unlock_offline C password acct = Inr keys \<and> ul_token keys = [] \<and>
     unlock_from_escrow C export_key \<lparr> lf_token = token, lf_member_id = na_member_id acct, lf_identity_pub = fr_identity_pub fin,
         lf_signing_pub = fr_signing_pub fin, lf_wrapped_secret_keys = fr_wrapped_secret_keys fin \<rparr> =
       Inr (keys\<lparr> ul_token := token \<rparr>) \<and>
     ul_identity_secret keys = idk \<and> ul_signing_seed keys = seed \<and>
     ul_identity_pub keys = c_x_public C idk \<and> ul_signing_pub keys = c_verifying_key C seed \<and>
     ul_member_id keys = member_id_from_identity_pub (oc_hmac Q) (c_x_public C idk) \<and>
     fr_username fin = username \<and> na_username acct = username \<and> sr_identity_pub req = fr_identity_pub fin"
proof -
  have flow: "rf_username flow = username" "rf_password flow = password" "rf_identity_secret flow = idk"
    "rf_identity_pub flow = c_x_public C idk" "rf_signing_seed flow = seed" "rf_signing_pub flow = c_verifying_key C seed"
    "sr_identity_pub req = c_x_public C idk"
    using assms(2) by (auto simp: register_begin_def generate_identity_def generate_signing_def split: option.splits)
  let ?m = "member_id_from_identity_pub (oc_hmac Q) (c_x_public C idk)"
  obtain wrapped where loc: "local_copy C salt n2 password idk seed = Inr wrapped"
    and acct: "acct = account_with ?m username (c_x_public C idk) (c_verifying_key C seed) wrapped salt"
    and fin: "fin = \<lparr> fr_username = username, fr_identity_pub = c_x_public C idk, fr_signing_pub = c_verifying_key C seed,
       fr_wrapped_secret_keys = wrap_secret_keys C n1 (derive_escrow_key C export_key) idk seed, fr_registration_up = msg \<rparr>"
    using assms(3-5) by (auto simp: register_finish_def flow Let_def split: sum.splits)
  have "unwrap_secret_keys C (derive_escrow_key C export_key) (wrap_secret_keys C n1 (derive_escrow_key C export_key) idk seed) =
      Inr (idk, seed)"
    using wrap_unwrap_Inr [OF assms(1)] by blast
  then show ?thesis
    by (simp add: acct fin flow local_copy_unlocks [OF assms(1) loc] unlock_from_escrow_def)
qed

definition toy_opaque :: opaque_client where
  "toy_opaque = \<lparr> oc_registration_start = (\<lambda>rnd pw. Some (pw, pw)), oc_registration_response = Some,
     oc_registration_finish = (\<lambda>rnd st pw r. if st = pw then Some (r, pw @ r) else None),
     oc_login_start = (\<lambda>rnd pw. Some (pw, pw)), oc_credential_response = Some,
     oc_login_finish = (\<lambda>rnd st pw r. if st = pw then Some (r, pw @ r) else None),
     oc_cache_to_json = (\<lambda>p. Some (as_slice (ul_identity_secret (dc_keys p)) @ as_slice (dc_device_id p))),
     oc_cache_from_json = (\<lambda>bs. Some \<lparr> dc_keys = \<lparr> ul_member_id = fixed_repeat 1,
         ul_identity_secret = fixed_of_slice (take 32 bs), ul_identity_pub = fixed_repeat 1, ul_signing_seed = fixed_repeat 2,
         ul_signing_pub = fixed_repeat 2, ul_token = [] \<rparr>, dc_device_id = fixed_of_slice (drop 32 bs),
         dc_device_signing_seed = fixed_repeat 3, dc_device_signing_pub = fixed_repeat 3 \<rparr>),
     oc_hmac = (\<lambda>k m. m) \<rparr>"

lemma demo_registers:
  "\<exists>flow req fin acct. register_begin toy_crypto toy_opaque (fixed_repeat 1) (fixed_repeat 2) [] ''ann'' [7] = Inr (flow, req) \<and>
     register_finish toy_crypto toy_opaque [] (fixed_repeat 3) (fixed_repeat 4) (fixed_repeat 5) flow [8] = Inr (fin, acct) \<and>
     rf_reg_state flow = [7]"
  by (simp add: register_begin_def register_finish_def generate_identity_def generate_signing_def toy_opaque_def
      local_copy_def derive_local_master_def Let_def) (simp add: toy_crypto_def kdf_iters_def)

theorem registration_wraps_twice_witness:
  "\<exists>acct keys. unlock_offline toy_crypto [7] acct = Inr keys \<and> ul_identity_secret keys = fixed_repeat 1"
proof -
  obtain flow req fin acct where
    r: "register_begin toy_crypto toy_opaque (fixed_repeat 1) (fixed_repeat 2) [] ''ann'' [7] = Inr (flow, req)"
    "register_finish toy_crypto toy_opaque [] (fixed_repeat 3) (fixed_repeat 4) (fixed_repeat 5) flow [8] = Inr (fin, acct)"
    and st: "rf_reg_state flow = [7]"
    using demo_registers by blast
  have "oc_registration_response toy_opaque [8] = Some [8]"
    "oc_registration_finish toy_opaque [] (rf_reg_state flow) [7] [8] = Some ([8], [7, 8])"
    by (simp_all add: toy_opaque_def st)
  from registration_wraps_twice [OF toy_crypto_ok r this] show ?thesis by blast
qed

text \<open>Offline accounts built after a login on a fresh device open to the same keys.\<close>

lemma build_local_account_unlocks:
  assumes "crypto_ok C" and "build_local_account C salt nonce username password keys = Inr acct"
  shows "unlock_offline C password acct = Inr (keys\<lparr> ul_token := [] \<rparr>)"
  using assms(2) by (auto simp: build_local_account_def local_copy_unlocks [OF assms(1)] split: sum.splits)

lemma device_cache_opens:
  assumes "crypto_ok C" and "c_hex_decode C (trim recipient) = Some (c_kem_public C sk)"
    and "key_line identity = Some sk_hex" and "c_hex_decode C sk_hex = Some (as_slice sk)"
    and "build_device_cache C Q rnd nonce recipient keys dev seed pub = Inr blob"
    and "\<And>p json. oc_cache_to_json Q p = Some json \<Longrightarrow> oc_cache_from_json Q json = Some p"
  shows "unlock_from_device_cache C Q identity blob =
     Inr \<lparr> dc_keys = keys\<lparr> ul_token := [] \<rparr>, dc_device_id = dev, dc_device_signing_seed = seed, dc_device_signing_pub = pub \<rparr>"
proof -
  obtain json where j: "oc_cache_to_json Q \<lparr> dc_keys = keys\<lparr> ul_token := [] \<rparr>, dc_device_id = dev,
        dc_device_signing_seed = seed, dc_device_signing_pub = pub \<rparr> = Some json"
    and s: "device_seal C rnd nonce recipient json = Inr blob"
    using assms(5) by (auto simp: build_device_cache_def Let_def split: option.splits)
  have "device_open C identity blob = Inr json"
    using device_seal_opens [OF assms(1-4)] s by simp
  then show ?thesis by (simp add: unlock_from_device_cache_def assms(6) [OF j])
qed

end
