(* ===== verification/Http.thy ===== *)
theory Http
  imports Wire
begin

text \<open>
  The requests and responses that the client (\<open>todoers-client/src/net/\<close>) and the server
  (\<open>todoers-server/src/routes/mod.rs\<close>) exchange.  A postcard body is the value it encodes: it decodes
  at the type it was written at and at no other.  A response is its status code and its body.
\<close>

datatype http_method = GET | POST | PUT | DELETE

datatype request_body =
    BodyAppend append_update
  | BodyPull pull_params
  | BodyList list_id
  | BodyCreateList create_list_request
  | BodyAddMember add_member_request
  | BodyRemoveMember remove_member_request
  | BodyPutSnapshot put_snapshot
  | BodyName string
  | BodyEnroll device_id ed25519_pub string
  | BodyDevice device_id
  | BodyRegisterStart start_register_request
  | BodyRegisterFinish finish_register_request
  | BodyLoginStart string bytes
  | BodyLoginFinish "16 fixed" bytes
  | BodyDeviceLoginStart member_id device_id
  | BodyDeviceLoginFinish "16 fixed" signature

datatype response_body =
    RespEmpty
  | RespError string
  | RespText string
  | RespSeq int
  | RespUpdates "stored_update_dto list"
  | RespList list_id
  | RespLists "list_id list"
  | RespMetadata metadata_response
  | RespKeys "key_slot_dto list"
  | RespSnapshot snapshot_dto
  | RespPubkeys user_pubkeys
  | RespDevices "(device_id \<times> string \<times> int \<times> bool) list"
  | RespRegisterStart bytes
  | RespRegisterFinish member_id
  | RespLoginStart "16 fixed" bytes
  | RespLoginFinish login_finish_response
  | RespDeviceLoginStart "16 fixed" nonce
  | RespDeviceLoginFinish device_login_response

record http_request =
  rq_method :: http_method
  rq_url :: string
  rq_auth :: "string option"
  rq_body :: "request_body option"

type_synonym http_response = "nat \<times> response_body"

text \<open>A transport sends a request to a world and returns its response, or \<open>None\<close> when no response
  arrived.\<close>

type_synonym 'w transport = "http_request \<Rightarrow> 'w \<Rightarrow> http_response option \<times> 'w"

end
