(* ===== verification/ClientNet.thy ===== *)
theory ClientNet
  imports SyncEngine ClientAuth Http
begin

text \<open>
  The client's HTTP transport (\<open>todoers-client/src/net/\<close>): the URL, method, token and body of every call,
  how a response becomes a result, and the flows that chain several calls (registration, login with its
  offline fallback, password-less device login).  Sending is a \<open>transport\<close> parameter.
\<close>

section \<open>Requests\<close>

definition trim_start_slash :: "string \<Rightarrow> string" where
  "trim_start_slash = dropWhile (\<lambda>c. c = CHR ''/'')"

definition trim_end_slash :: "string \<Rightarrow> string" where
  "trim_end_slash s = rev (dropWhile (\<lambda>c. c = CHR ''/'') (rev s))"

text \<open>\<open>Net::new\<close> keeps the base URL without its trailing slashes.\<close>

definition net_new :: "string \<Rightarrow> string" where
  "net_new base_url = trim_end_slash base_url"

definition net_path :: "string \<Rightarrow> string \<Rightarrow> string" where
  "net_path base path = base @ ''/'' @ ''v1'' @ ''/'' @ trim_start_slash path"

definition req :: "string \<Rightarrow> http_method \<Rightarrow> string \<Rightarrow> string option \<Rightarrow> request_body option \<Rightarrow> http_request" where
  "req base m path token body =
     \<lparr> rq_method = m, rq_url = net_path base path, rq_auth = map_option (\<lambda>t. ''Bearer '' @ t) token, rq_body = body \<rparr>"

definition error_for_status :: "nat \<Rightarrow> bool" where
  "error_for_status st \<longleftrightarrow> 400 \<le> st \<and> st < 600"

definition decode :: "'w transport \<Rightarrow> (response_body \<Rightarrow> 'a option) \<Rightarrow> http_request \<Rightarrow> 'w \<Rightarrow> (client_error + 'a) \<times> 'w" where
  "decode T sel rq w =
     (case T rq w of
        (None, w') \<Rightarrow> (Inl Reqwest, w')
      | (Some (st, b), w') \<Rightarrow> (if error_for_status st then Inl Reqwest else ok_or Postcard (sel b), w'))"

definition net_unit :: "'w transport \<Rightarrow> http_request \<Rightarrow> 'w \<Rightarrow> (client_error + unit) \<times> 'w" where
  "net_unit T rq w =
     (case T rq w of
        (None, w') \<Rightarrow> (Inl Reqwest, w')
      | (Some (st, b), w') \<Rightarrow> (if error_for_status st then Inl Reqwest else Inr (), w'))"

section \<open>Lists, updates and snapshots\<close>

definition append_update_call :: "'w transport \<Rightarrow> string \<Rightarrow> string \<Rightarrow> append_update \<Rightarrow> 'w \<Rightarrow> (client_error + int) \<times> 'w" where
  "append_update_call T base token body =
     decode T (\<lambda>r. case r of RespSeq q \<Rightarrow> Some q | _ \<Rightarrow> None)
       (req base POST ''lists/updates'' (Some token) (Some (BodyAppend body)))"

definition pull_updates_call ::
    "'w transport \<Rightarrow> string \<Rightarrow> string \<Rightarrow> list_id \<Rightarrow> int \<Rightarrow> int \<Rightarrow> 'w \<Rightarrow> (client_error + stored_update_dto list) \<times> 'w" where
  "pull_updates_call T base token l after limit =
     decode T (\<lambda>r. case r of RespUpdates us \<Rightarrow> Some us | _ \<Rightarrow> None)
       (req base PUT ''lists/updates'' (Some token)
          (Some (BodyPull \<lparr> pp_list_id = l, pp_after = after, pp_limit = limit \<rparr>)))"

definition get_snapshot_call :: "'w transport \<Rightarrow> string \<Rightarrow> string \<Rightarrow> list_id \<Rightarrow> 'w \<Rightarrow> (client_error + snapshot_dto option) \<times> 'w" where
  "get_snapshot_call T base token l w =
     (case T (req base PUT ''lists/snapshot'' (Some token) (Some (BodyList l))) w of
        (None, w') \<Rightarrow> (Inl Reqwest, w')
      | (Some (st, b), w') \<Rightarrow>
          (if st = 404 then Inr None
           else if error_for_status st then Inl Reqwest
           else (case b of RespSnapshot s \<Rightarrow> Inr (Some s) | _ \<Rightarrow> Inl Postcard), w'))"

definition put_snapshot_call :: "'w transport \<Rightarrow> string \<Rightarrow> string \<Rightarrow> put_snapshot \<Rightarrow> 'w \<Rightarrow> (client_error + unit) \<times> 'w" where
  "put_snapshot_call T base token body =
     net_unit T (req base POST ''lists/snapshot'' (Some token) (Some (BodyPutSnapshot body)))"

definition create_list_call :: "'w transport \<Rightarrow> string \<Rightarrow> string \<Rightarrow> list_id \<Rightarrow> bytes \<Rightarrow> 'w \<Rightarrow> (client_error + list_id) \<times> 'w" where
  "create_list_call T base token l wrapped =
     decode T (\<lambda>r. case r of RespList i \<Rightarrow> Some i | _ \<Rightarrow> None)
       (req base POST ''lists'' (Some token) (Some (BodyCreateList \<lparr> cl_list_id = l, cl_wrapped_dek = wrapped \<rparr>)))"

definition delete_list_call :: "'w transport \<Rightarrow> string \<Rightarrow> string \<Rightarrow> list_id \<Rightarrow> 'w \<Rightarrow> (client_error + unit) \<times> 'w" where
  "delete_list_call T base token l = net_unit T (req base DELETE ''lists'' (Some token) (Some (BodyList l)))"

definition fetch_lists_call :: "'w transport \<Rightarrow> string \<Rightarrow> string \<Rightarrow> 'w \<Rightarrow> (client_error + list_id list) \<times> 'w" where
  "fetch_lists_call T base token =
     decode T (\<lambda>r. case r of RespLists ls \<Rightarrow> Some ls | _ \<Rightarrow> None) (req base GET ''lists'' (Some token) None)"

definition get_metadata_call :: "'w transport \<Rightarrow> string \<Rightarrow> string \<Rightarrow> list_id \<Rightarrow> 'w \<Rightarrow> (client_error + metadata_response) \<times> 'w" where
  "get_metadata_call T base token l =
     decode T (\<lambda>r. case r of RespMetadata md \<Rightarrow> Some md | _ \<Rightarrow> None)
       (req base PUT ''lists/metadata'' (Some token) (Some (BodyList l)))"

definition add_member_call :: "'w transport \<Rightarrow> string \<Rightarrow> string \<Rightarrow> add_member_request \<Rightarrow> 'w \<Rightarrow> (client_error + unit) \<times> 'w" where
  "add_member_call T base token body =
     net_unit T (req base POST ''lists/members'' (Some token) (Some (BodyAddMember body)))"

definition remove_member_call :: "'w transport \<Rightarrow> string \<Rightarrow> string \<Rightarrow> remove_member_request \<Rightarrow> 'w \<Rightarrow> (client_error + unit) \<times> 'w" where
  "remove_member_call T base token body =
     net_unit T (req base DELETE ''lists/members'' (Some token) (Some (BodyRemoveMember body)))"

definition get_my_keys_call :: "'w transport \<Rightarrow> string \<Rightarrow> string \<Rightarrow> list_id \<Rightarrow> 'w \<Rightarrow> (client_error + key_slot_dto list) \<times> 'w" where
  "get_my_keys_call T base token l =
     decode T (\<lambda>r. case r of RespKeys ks \<Rightarrow> Some ks | _ \<Rightarrow> None)
       (req base PUT ''lists/keys'' (Some token) (Some (BodyList l)))"

text \<open>The calls the sync engine makes, over one transport with one session token.\<close>

definition http_net :: "'w transport \<Rightarrow> string \<Rightarrow> string \<Rightarrow> 'w net" where
  "http_net T base token =
     \<lparr> net_append = append_update_call T base token, net_pull = pull_updates_call T base token,
       net_create_list = create_list_call T base token, net_delete_list = delete_list_call T base token,
       net_add_member = add_member_call T base token, net_remove_member = remove_member_call T base token,
       net_fetch_lists = fetch_lists_call T base token, net_get_metadata = get_metadata_call T base token,
       net_get_my_keys = get_my_keys_call T base token \<rparr>"

section \<open>The WebSocket\<close>

definition ws_base :: "string \<Rightarrow> string" where
  "ws_base base =
     (if take 8 base = ''https://'' then ''wss://'' @ drop 8 base
      else if take 7 base = ''http://'' then ''ws://'' @ drop 7 base
      else base)"

text \<open>\<open>ws_subscribe\<close>: the URL, the authorization header and the first frame it sends.\<close>

definition ws_subscribe :: "string \<Rightarrow> string \<Rightarrow> list_id \<Rightarrow> string \<times> string \<times> list_id" where
  "ws_subscribe base_url token l =
     (ws_base (trim_end_slash base_url) @ ''/v1/lists/ws'', ''Bearer '' @ token, l)"

text \<open>What the stream makes of a frame: a binary one is a decoded update or an error, a socket error
  an error, and every other frame nothing.\<close>

datatype ws_frame = Binary "stored_update_dto option" | OtherFrame | FrameError

fun ws_items :: "ws_frame list \<Rightarrow> (client_error + stored_update_dto) list" where
  "ws_items [] = []"
| "ws_items (Binary b # fs) = ok_or Postcard b # ws_items fs"
| "ws_items (OtherFrame # fs) = ws_items fs"
| "ws_items (FrameError # fs) = Inl Ws # ws_items fs"

end
