(* ===== verification/NetAuth.thy ===== *)
theory NetAuth
  imports ClientNet
begin

text \<open>
  The client's authentication over the network (\<open>todoers-client/src/net/auth.rs\<close>): registration, the
  password login that falls back to the offline copy, the password-less device login, and the unlock
  that chains the device cache with it.  Random values are arguments; \<open>dbg\<close> is the debug formatting of
  an error.
\<close>

section \<open>Calls\<close>

definition enroll_device ::
    "'w transport \<Rightarrow> string \<Rightarrow> string \<Rightarrow> device_id \<Rightarrow> ed25519_pub \<Rightarrow> string \<Rightarrow> 'w \<Rightarrow> (client_error + unit) \<times> 'w" where
  "enroll_device T base token dev pub label =
     net_unit T (req base POST ''auth/devices'' (Some token) (Some (BodyEnroll dev pub label)))"

definition logout_call :: "'w transport \<Rightarrow> string \<Rightarrow> string \<Rightarrow> 'w \<Rightarrow> (client_error + unit) \<times> 'w" where
  "logout_call T base token = net_unit T (req base POST ''auth/logout'' (Some token) None)"

definition list_devices_call ::
    "'w transport \<Rightarrow> string \<Rightarrow> string \<Rightarrow> 'w \<Rightarrow> (client_error + (device_id \<times> string \<times> int \<times> bool) list) \<times> 'w" where
  "list_devices_call T base token =
     decode T (\<lambda>r. case r of RespDevices ds \<Rightarrow> Some ds | _ \<Rightarrow> None) (req base GET ''auth/devices'' (Some token) None)"

definition lookup_pubkeys :: "'w transport \<Rightarrow> string \<Rightarrow> string \<Rightarrow> string \<Rightarrow> 'w \<Rightarrow> (client_error + user_pubkeys) \<times> 'w" where
  "lookup_pubkeys T base token username =
     decode T (\<lambda>r. case r of RespPubkeys k \<Rightarrow> Some k | _ \<Rightarrow> None)
       (req base PUT ''users/pubkeys'' (Some token) (Some (BodyName username)))"

definition revoke_device :: "'w transport \<Rightarrow> string \<Rightarrow> string \<Rightarrow> device_id \<Rightarrow> 'w \<Rightarrow> (client_error + unit) \<times> 'w" where
  "revoke_device T base token dev =
     net_unit T (req base DELETE ''auth/devices'' (Some token) (Some (BodyDevice dev)))"

section \<open>Registration\<close>

record register_rand =
  rr_identity :: x25519_secret
  rr_signing :: ed25519_signing
  rr_opaque :: bytes
  rr_opaque_finish :: bytes
  rr_escrow_nonce :: nonce
  rr_salt :: "16 fixed"
  rr_local_nonce :: nonce

definition pure :: "'e + 'a \<Rightarrow> 's \<Rightarrow> ('e + 'a) \<times> 's" where "pure r s = (r, s)"

definition register_call ::
    "'w transport \<Rightarrow> crypto \<Rightarrow> opaque_client \<Rightarrow> string \<Rightarrow> register_rand \<Rightarrow> string \<Rightarrow> bytes
      \<Rightarrow> 'w \<Rightarrow> (client_error + new_account) \<times> 'w" where
  "register_call T C Q base r username password =
     sbind (pure (register_begin C Q (rr_identity r) (rr_signing r) (rr_opaque r) username password)) (\<lambda>(flow, start_req).
     sbind (decode T (\<lambda>b. case b of RespRegisterStart x \<Rightarrow> Some x | _ \<Rightarrow> None)
              (req base POST ''auth/register/start'' None (Some (BodyRegisterStart start_req)))) (\<lambda>start_resp.
     sbind (pure (register_finish C Q (rr_opaque_finish r) (rr_escrow_nonce r) (rr_salt r) (rr_local_nonce r)
              flow start_resp)) (\<lambda>(finish_req, account).
     sbind (decode T (\<lambda>b. case b of RespRegisterFinish m \<Rightarrow> Some m | _ \<Rightarrow> None)
              (req base POST ''auth/register/finish'' None (Some (BodyRegisterFinish finish_req)))) (\<lambda>_.
     sreturn account))))"

section \<open>Login with the offline fallback\<close>

definition local_unlock ::
    "crypto \<Rightarrow> (client_error \<Rightarrow> string) \<Rightarrow> client_error option \<Rightarrow> new_account option \<Rightarrow> bytes \<Rightarrow> client_error + unlocked_keys" where
  "local_unlock C dbg e account password =
     (let e = (case e of Some e \<Rightarrow> OnlineLogin (dbg e) | None \<Rightarrow> OnlineLogin ''unknown reason'')
      in case account of
           None \<Rightarrow> Inl e
         | Some acct \<Rightarrow> unlock_offline C password acct)"

definition start_login ::
    "'w transport \<Rightarrow> string \<Rightarrow> string \<times> bytes \<Rightarrow> 'w \<Rightarrow> (client_error + (16 fixed \<times> bytes)) \<times> 'w" where
  "start_login T base = (\<lambda>(username, cred).
     decode T (\<lambda>b. case b of RespLoginStart i m \<Rightarrow> Some (i, m) | _ \<Rightarrow> None)
       (req base POST ''auth/login/start'' None (Some (BodyLoginStart username cred))))"

definition finish_login ::
    "'w transport \<Rightarrow> string \<Rightarrow> 16 fixed \<times> bytes \<Rightarrow> 'w \<Rightarrow> (client_error + login_finish_response) \<times> 'w" where
  "finish_login T base = (\<lambda>(i, fin).
     decode T (\<lambda>b. case b of RespLoginFinish x \<Rightarrow> Some x | _ \<Rightarrow> None)
       (req base POST ''auth/login/finish'' None (Some (BodyLoginFinish i fin))))"

definition login_call ::
    "'w transport \<Rightarrow> crypto \<Rightarrow> opaque_client \<Rightarrow> (client_error \<Rightarrow> string) \<Rightarrow> string \<Rightarrow> bytes \<Rightarrow> bytes \<Rightarrow> string \<Rightarrow> bytes
      \<Rightarrow> new_account option \<Rightarrow> 'w \<Rightarrow> (client_error + unlocked_keys) \<times> 'w" where
  "login_call T C Q dbg base rnd1 rnd2 username password account w =
     (let fallback = (\<lambda>e. local_unlock C dbg (Some e) account password) in
      case login_begin Q rnd1 username password of
        Inl e \<Rightarrow> (fallback e, w)
      | Inr (flow, start_req) \<Rightarrow>
          (case start_login T base start_req w of
             (Inl e, w) \<Rightarrow> (fallback e, w)
           | (Inr start_resp, w) \<Rightarrow>
               (case login_finish_step Q rnd2 flow start_resp of
                  Inl e \<Rightarrow> (fallback e, w)
                | Inr (finish_req, export_key) \<Rightarrow>
                    (case finish_login T base finish_req w of
                       (Inl e, w) \<Rightarrow> (fallback e, w)
                     | (Inr finish_resp, w) \<Rightarrow>
                         (case unlock_from_escrow C export_key finish_resp of
                            Inr keys \<Rightarrow> (Inr keys, w)
                          | Inl e \<Rightarrow> (fallback e, w))))))"

section \<open>Device login\<close>

definition device_login ::
    "'w transport \<Rightarrow> crypto \<Rightarrow> string \<Rightarrow> member_id \<Rightarrow> device_id \<Rightarrow> ed25519_signing
      \<Rightarrow> 'w \<Rightarrow> (client_error + device_login_response) \<times> 'w" where
  "device_login T C base m dev seed =
     sbind (decode T (\<lambda>b. case b of RespDeviceLoginStart i n \<Rightarrow> Some (i, n) | _ \<Rightarrow> None)
              (req base POST ''auth/device-login/start'' None (Some (BodyDeviceLoginStart m dev)))) (\<lambda>(i, challenge).
     decode T (\<lambda>b. case b of RespDeviceLoginFinish x \<Rightarrow> Some x | _ \<Rightarrow> None)
       (req base POST ''auth/device-login/finish'' None
          (Some (BodyDeviceLoginFinish i (sign_device_challenge C seed m dev challenge)))))"

text \<open>The identity file is read first: \<open>None\<close> when that fails.\<close>

definition unlock_via_device ::
    "'w transport \<Rightarrow> crypto \<Rightarrow> opaque_client \<Rightarrow> string \<Rightarrow> string option \<Rightarrow> device_id \<Rightarrow> bytes
      \<Rightarrow> 'w \<Rightarrow> (client_error + unlocked_keys) \<times> 'w" where
  "unlock_via_device T C Q base identity_file dev blob w =
     (case identity_file of
        None \<Rightarrow> (Inl DeviceIdIo, w)
      | Some contents \<Rightarrow>
          (case unlock_from_device_cache C Q contents blob of
             Inl e \<Rightarrow> (Inl e, w)
           | Inr payload \<Rightarrow>
               (let keys = dc_keys payload in
                case device_login T C base (ul_member_id keys) dev (dc_device_signing_seed payload) w of
                  (Inr resp, w) \<Rightarrow> (Inr (keys\<lparr> ul_token := df_token resp \<rparr>), w)
                | (Inl _, w) \<Rightarrow> (Inr (keys\<lparr> ul_token := [] \<rparr>), w))))"

definition enroll_this_device ::
    "'w transport \<Rightarrow> crypto \<Rightarrow> opaque_client \<Rightarrow> string \<Rightarrow> device_id \<Rightarrow> ed25519_signing \<Rightarrow> bytes \<Rightarrow> nonce \<Rightarrow> string \<Rightarrow> string
      \<Rightarrow> unlocked_keys \<Rightarrow> string \<Rightarrow> 'w \<Rightarrow> (client_error + (device_id \<times> bytes)) \<times> 'w" where
  "enroll_this_device T C Q base dev_rnd seed_rnd rnd nonce token recipient keys label =
     (let (dev, seed, pub) = generate_device_identity C dev_rnd seed_rnd in
      sbind (pure (build_device_cache C Q rnd nonce recipient keys dev seed pub)) (\<lambda>blob.
      sbind (enroll_device T base token dev pub label) (\<lambda>_.
      sreturn (dev, blob))))"

section \<open>The fallback\<close>

text \<open>The login without any fallback: the chain of its steps.\<close>

definition online_login ::
    "'w transport \<Rightarrow> crypto \<Rightarrow> opaque_client \<Rightarrow> string \<Rightarrow> bytes \<Rightarrow> bytes \<Rightarrow> string \<Rightarrow> bytes
      \<Rightarrow> 'w \<Rightarrow> (client_error + unlocked_keys) \<times> 'w" where
  "online_login T C Q base rnd1 rnd2 username password =
     sbind (pure (login_begin Q rnd1 username password)) (\<lambda>(flow, start_req).
     sbind (start_login T base start_req) (\<lambda>start_resp.
     sbind (pure (login_finish_step Q rnd2 flow start_resp)) (\<lambda>(finish_req, export_key).
     sbind (finish_login T base finish_req) (\<lambda>finish_resp.
     pure (unlock_from_escrow C export_key finish_resp)))))"

lemma login_call_online:
  "login_call T C Q dbg base r1 r2 u pw account w =
     (case online_login T C Q base r1 r2 u pw w of
        (Inr keys, w') \<Rightarrow> (Inr keys, w') | (Inl e, w') \<Rightarrow> (local_unlock C dbg (Some e) account pw, w'))"
  by (auto simp: login_call_def online_login_def sbind_def pure_def split: sum.splits prod.splits)

text \<open>The password login is the plain online chain with one fallback behind every step: it returns
  the online keys when the whole chain succeeds, and otherwise the offline unlock of the local
  account, or the online error when there is none.  So once this device holds a local account made
  with this password, whatever the server answers, a login ends with an identity: the one of the
  online chain, or the local one with no session token.\<close>

lemma login_falls_back:
  assumes "crypto_ok C" and "build_local_account C salt nonce name password keys = Inr acct"
  shows "login_call T C Q dbg base r1 r2 u pw account w =
     (case online_login T C Q base r1 r2 u pw w of
        (Inr online, w') \<Rightarrow> (Inr online, w') | (Inl e, w') \<Rightarrow> (local_unlock C dbg (Some e) account pw, w')) \<and>
   (fst (online_login T C Q base r1 r2 u password w) = Inr online \<longrightarrow>
      fst (login_call T C Q dbg base r1 r2 u password (Some acct) w) = Inr online) \<and>
   (fst (online_login T C Q base r1 r2 u password w) = Inl e \<longrightarrow>
      fst (login_call T C Q dbg base r1 r2 u password (Some acct) w) = Inr (keys\<lparr> ul_token := [] \<rparr>) \<and>
      fst (login_call T C Q dbg base r1 r2 u password None w) = Inl (OnlineLogin (dbg e)))"
  using build_local_account_unlocks [OF assms]
  by (auto simp: login_call_online local_unlock_def split: prod.splits)

definition demo_keys :: unlocked_keys where
  "demo_keys = \<lparr> ul_member_id = fixed_repeat 1, ul_identity_secret = fixed_repeat 2, ul_identity_pub = fixed_repeat 2,
     ul_signing_seed = fixed_repeat 3, ul_signing_pub = fixed_repeat 3, ul_token = ''t'' \<rparr>"

end
