(* ===== verification/ServerDb.thy ===== *)
theory ServerDb
  imports Wire
begin

text \<open>
  The server's database layer (\<open>todoers-server/src/db.rs\<close> over
  \<open>todoers-server/db/migrations/0001_init.sql\<close>).  A table is the list of its rows, in insertion
  order; an operation is the effect of its statements with the constraints of the schema, a violated
  one being \<open>Inl DbError\<close>.  An operation run in \<open>safe_transaction\<close> leaves the tables as they were
  when it fails.  Instants are integers (seconds); the clock reading is an argument, as are the
  random login ids.  Connecting, pooling and migrations are not modelled.
\<close>

section \<open>Errors\<close>

datatype app_error =
    NotFound
  | BadRequest string
  | Unauthorized
  | Forbidden string
  | StepUpRequired
  | InvalidSignature
  | DbError
  | TokioTaskJoin
  | OpaqueError
  | Base64Error
  | BadLength
  | BytesError

fun status_code :: "app_error \<Rightarrow> nat" where
  "status_code NotFound = 404"
| "status_code (BadRequest _) = 400"
| "status_code Unauthorized = 401"
| "status_code (Forbidden _) = 403"
| "status_code StepUpRequired = 403"
| "status_code InvalidSignature = 400"
| "status_code OpaqueError = 400"
| "status_code DbError = 500"
| "status_code TokioTaskJoin = 500"
| "status_code Base64Error = 400"
| "status_code BadLength = 400"
| "status_code BytesError = 400"

text \<open>The message of the response body: the error's own text, or a fixed one that hides the cause.\<close>

fun error_message :: "app_error \<Rightarrow> string" where
  "error_message NotFound = ''not found''"
| "error_message (BadRequest m) = ''bad request: '' @ m"
| "error_message Unauthorized = ''unauthorized''"
| "error_message (Forbidden m) = ''forbidden: '' @ m"
| "error_message StepUpRequired = ''recent password authentication required''"
| "error_message InvalidSignature = ''invalid signature''"
| "error_message OpaqueError = ''bad cryptographic material''"
| "error_message DbError = ''internal error''"
| "error_message TokioTaskJoin = ''internal error''"
| "error_message Base64Error = ''bad encoding''"
| "error_message BadLength = ''bad length''"
| "error_message BytesError = ''bad request''"

section \<open>Rows\<close>

type_synonym uuid = "16 fixed"
type_synonym token_hash = "64 fixed"

record user_row =
  us_member_id :: member_id
  us_username :: string
  us_identity_pub :: x25519_pub
  us_signing_pub :: ed25519_pub
  us_wrapped_secret_keys :: bytes
  us_opaque_record :: bytes

record server_list =
  sl_list_id :: list_id
  sl_current_epoch :: epoch

record server_member =
  sm_list_id :: list_id
  sm_member_id :: member_id
  sm_role :: role

record server_slot =
  sk_list_id :: list_id
  sk_epoch :: epoch
  sk_member_id :: member_id
  sk_wrapped_dek :: bytes

record server_update =
  su_seq :: int
  su_list_id :: list_id
  su_epoch :: epoch
  su_author :: member_id
  su_nonce :: nonce
  su_ciphertext :: bytes
  su_signature :: signature

record session_row =
  sx_token_hash :: token_hash
  sx_member_id :: member_id
  sx_device_id :: "device_id option"
  sx_expires_at :: int
  sx_created_at :: int

record login_row =
  lc_login_id :: uuid
  lc_member_id :: "member_id option"
  lc_state :: bytes
  lc_expires_at :: int

record device_row =
  dv_member_id :: member_id
  dv_device_id :: device_id
  dv_signing_pub :: ed25519_pub
  dv_label :: string
  dv_created_at :: int
  dv_revoked_at :: "int option"

record server_db =
  sv_users :: "user_row list"
  sv_lists :: "server_list list"
  sv_members :: "server_member list"
  sv_slots :: "server_slot list"
  sv_updates :: "server_update list"
  sv_snapshots :: "(list_id \<times> snapshot_dto) list"
  sv_sessions :: "session_row list"
  sv_logins :: "login_row list"
  sv_devices :: "device_row list"
  sv_next_seq :: int

definition server_empty :: server_db where
  "server_empty = \<lparr> sv_users = [], sv_lists = [], sv_members = [], sv_slots = [], sv_updates = [],
     sv_snapshots = [], sv_sessions = [], sv_logins = [], sv_devices = [], sv_next_seq = 1 \<rparr>"

type_synonym 'a sv_action = "server_db \<Rightarrow> (app_error + 'a) \<times> server_db"

abbreviation "sv_member_key \<equiv> \<lambda>r. (sm_list_id r, sm_member_id r)"
abbreviation "sv_slot_key \<equiv> \<lambda>r. (sk_list_id r, sk_epoch r, sk_member_id r)"
abbreviation "device_key \<equiv> \<lambda>r. (dv_member_id r, dv_device_id r)"

definition sv_has_list :: "list_id \<Rightarrow> server_db \<Rightarrow> bool" where
  "sv_has_list l db \<longleftrightarrow> row_get sl_list_id l (sv_lists db) \<noteq> None"

definition sv_has_user :: "member_id \<Rightarrow> server_db \<Rightarrow> bool" where
  "sv_has_user m db \<longleftrightarrow> row_get us_member_id m (sv_users db) \<noteq> None"

definition safe_transaction :: "'a sv_action \<Rightarrow> 'a sv_action" where
  "safe_transaction f db = (case f db of (Inl e, _) \<Rightarrow> (Inl e, db) | (Inr x, db') \<Rightarrow> (Inr x, db'))"

text \<open>A statement whose constraints are \<open>ok\<close>.\<close>

definition statement :: "(server_db \<Rightarrow> bool) \<Rightarrow> (server_db \<Rightarrow> server_db) \<Rightarrow> unit sv_action" where
  "statement ok f db = (if ok db then (Inr (), f db) else (Inl DbError, db))"

definition query :: "(server_db \<Rightarrow> 'a) \<Rightarrow> 'a sv_action" where
  "query f db = (Inr (f db), db)"

definition require :: "app_error \<Rightarrow> 'a option \<Rightarrow> 'a sv_action" where
  "require e p db = (case p of None \<Rightarrow> (Inl e, db) | Some x \<Rightarrow> (Inr x, db))"

section \<open>Updates and snapshots\<close>

text \<open>The identity column hands out the next number to every attempted row, also to one that then
  conflicts or violates a constraint.\<close>

definition insert_update ::
    "list_id \<Rightarrow> epoch \<Rightarrow> member_id \<Rightarrow> nonce \<Rightarrow> bytes \<Rightarrow> signature \<Rightarrow> int sv_action" where
  "insert_update l epoch author nonce ciphertext signature db =
     (let seq = sv_next_seq db; db' = db\<lparr> sv_next_seq := seq + 1 \<rparr> in
      if \<not> epoch_check epoch then (Inl DbError, db')
      else (case row_get su_signature signature (sv_updates db) of
              Some row \<Rightarrow> (Inr (su_seq row), db')
            | None \<Rightarrow>
                if sv_has_list l db \<and> sv_has_user author db
                then (Inr seq, db'\<lparr> sv_updates := sv_updates db @
                   [\<lparr> su_seq = seq, su_list_id = l, su_epoch = epoch, su_author = author, su_nonce = nonce,
                      su_ciphertext = ciphertext, su_signature = signature \<rparr>] \<rparr>)
                else (Inl DbError, db')))"

definition dto_of_update :: "server_update \<Rightarrow> stored_update_dto" where
  "dto_of_update r = \<lparr> sd_seq = su_seq r, sd_epoch = su_epoch r, sd_author = su_author r, sd_nonce = su_nonce r,
     sd_ciphertext = su_ciphertext r, sd_signature = su_signature r \<rparr>"

definition clamp :: "int \<Rightarrow> int \<Rightarrow> int \<Rightarrow> int" where
  "clamp lo hi n = (if n < lo then lo else if hi < n then hi else n)"

definition fetch_updates_after :: "list_id \<Rightarrow> int \<Rightarrow> int \<Rightarrow> server_db \<Rightarrow> stored_update_dto list" where
  "fetch_updates_after l after limit db =
     map dto_of_update (sql_limit (clamp 1 1000 limit)
       (sort_key su_seq (filter (\<lambda>r. su_list_id r = l \<and> after < su_seq r) (sv_updates db))))"

definition fetch_snapshot :: "list_id \<Rightarrow> server_db \<Rightarrow> snapshot_dto option" where
  "fetch_snapshot l db = map_option snd (row_get fst l (sv_snapshots db))"

definition upsert_snapshot :: "list_id \<Rightarrow> snapshot_dto \<Rightarrow> unit sv_action" where
  "upsert_snapshot l snap =
     safe_transaction (
       sbind (statement (\<lambda>db. epoch_check (sn_epoch snap) \<and> sv_has_list l db)
                (\<lambda>db. db\<lparr> sv_snapshots := row_put fst (l, snap) (sv_snapshots db) \<rparr>)) (\<lambda>_.
       statement (\<lambda>_. True)
         (\<lambda>db. db\<lparr> sv_updates := filter (\<lambda>r. \<not> (su_list_id r = l \<and> su_seq r \<le> sn_covers_seq snap)) (sv_updates db) \<rparr>)))"

section \<open>Lists, members and key slots\<close>

definition list_current_epoch :: "list_id \<Rightarrow> epoch sv_action" where
  "list_current_epoch l db = require NotFound (map_option sl_current_epoch (row_get sl_list_id l (sv_lists db))) db"

definition member_role :: "list_id \<Rightarrow> member_id \<Rightarrow> server_db \<Rightarrow> role option" where
  "member_role l m db = map_option sm_role (row_get sv_member_key (l, m) (sv_members db))"

definition member_dto :: "server_db \<Rightarrow> server_member \<Rightarrow> member option" where
  "member_dto db r =
     map_option (\<lambda>u. \<lparr> mem_id = us_member_id u, mem_identity_pub = us_identity_pub u,
                       mem_signing_pub = us_signing_pub u, mem_role = sm_role r \<rparr>)
       (row_get us_member_id (sm_member_id r) (sv_users db))"

definition fetch_members :: "list_id \<Rightarrow> server_db \<Rightarrow> member list" where
  "fetch_members l db = List.map_filter (member_dto db) (filter (\<lambda>r. sm_list_id r = l) (sv_members db))"

definition fetch_my_key_slots :: "list_id \<Rightarrow> member_id \<Rightarrow> server_db \<Rightarrow> key_slot_dto list" where
  "fetch_my_key_slots l m db =
     map (\<lambda>r. \<lparr> kd_epoch = sk_epoch r, kd_wrapped_dek = sk_wrapped_dek r \<rparr>)
       (sort_key (sint \<circ> sk_epoch) (filter (\<lambda>r. sk_list_id r = l \<and> sk_member_id r = m) (sv_slots db)))"

definition fetch_author_signing_pub :: "list_id \<Rightarrow> member_id \<Rightarrow> server_db \<Rightarrow> ed25519_pub option" where
  "fetch_author_signing_pub l author db =
     (case row_get sv_member_key (l, author) (sv_members db) of
        None \<Rightarrow> None
      | Some _ \<Rightarrow> map_option us_signing_pub (row_get us_member_id author (sv_users db)))"

definition fetch_user_pubkeys :: "string \<Rightarrow> server_db \<Rightarrow> user_pubkeys option" where
  "fetch_user_pubkeys name db =
     map_option (\<lambda>u. \<lparr> uk_member_id = us_member_id u, uk_identity_pub = us_identity_pub u, uk_signing_pub = us_signing_pub u \<rparr>)
       (row_get us_username name (sv_users db))"

definition insert_member :: "server_member \<Rightarrow> unit sv_action" where
  "insert_member m =
     statement (\<lambda>db. row_get sv_member_key (sv_member_key m) (sv_members db) = None \<and>
                     sv_has_list (sm_list_id m) db \<and> sv_has_user (sm_member_id m) db)
       (\<lambda>db. db\<lparr> sv_members := sv_members db @ [m] \<rparr>)"

definition create_list_sv :: "list_id \<Rightarrow> member_id \<Rightarrow> bytes \<Rightarrow> unit sv_action" where
  "create_list_sv l creator wrapped =
     safe_transaction (
       sbind (statement (\<lambda>db. \<not> sv_has_list l db)
                (\<lambda>db. db\<lparr> sv_lists := sv_lists db @ [\<lparr> sl_list_id = l, sl_current_epoch = 1 \<rparr>] \<rparr>)) (\<lambda>_.
       sbind (insert_member \<lparr> sm_list_id = l, sm_member_id = creator, sm_role = Owner \<rparr>) (\<lambda>_.
       statement (\<lambda>db. row_get sv_slot_key (l, 1, creator) (sv_slots db) = None \<and> sv_has_list l db \<and> sv_has_user creator db)
         (\<lambda>db. db\<lparr> sv_slots := sv_slots db @
            [\<lparr> sk_list_id = l, sk_epoch = 1, sk_member_id = creator, sk_wrapped_dek = wrapped \<rparr>] \<rparr>))))"

definition delete_list_sv :: "list_id \<Rightarrow> unit sv_action" where
  "delete_list_sv l =
     statement (\<lambda>_. True) (\<lambda>db. db\<lparr>
       sv_lists := row_del sl_list_id l (sv_lists db),
       sv_members := filter (\<lambda>r. sm_list_id r \<noteq> l) (sv_members db),
       sv_slots := filter (\<lambda>r. sk_list_id r \<noteq> l) (sv_slots db),
       sv_updates := filter (\<lambda>r. su_list_id r \<noteq> l) (sv_updates db),
       sv_snapshots := filter (\<lambda>r. fst r \<noteq> l) (sv_snapshots db) \<rparr>)"

definition fetch_user_lists :: "member_id \<Rightarrow> server_db \<Rightarrow> list_id list" where
  "fetch_user_lists m db = map sm_list_id (filter (\<lambda>r. sm_member_id r = m) (sv_members db))"

text \<open>\<open>INSERT INTO key_slots .. ON CONFLICT DO NOTHING\<close>.\<close>

definition add_slot :: "server_slot \<Rightarrow> unit sv_action" where
  "add_slot k =
     statement (\<lambda>db. epoch_check (sk_epoch k) \<and>
                 (row_get sv_slot_key (sv_slot_key k) (sv_slots db) = None \<longrightarrow>
                    sv_has_list (sk_list_id k) db \<and> sv_has_user (sk_member_id k) db))
       (\<lambda>db. db\<lparr> sv_slots := row_add sv_slot_key k (sv_slots db) \<rparr>)"

definition upsert_member :: "server_member \<Rightarrow> unit sv_action" where
  "upsert_member m =
     statement (\<lambda>db. sv_has_list (sm_list_id m) db \<and> sv_has_user (sm_member_id m) db)
       (\<lambda>db. db\<lparr> sv_members := row_put sv_member_key m (sv_members db) \<rparr>)"

definition add_member_sv :: "list_id \<Rightarrow> member_id \<Rightarrow> role \<Rightarrow> epoch \<Rightarrow> bytes \<Rightarrow> unit sv_action" where
  "add_member_sv l m r epoch wrapped =
     safe_transaction (
       sbind (upsert_member \<lparr> sm_list_id = l, sm_member_id = m, sm_role = r \<rparr>) (\<lambda>_.
       add_slot \<lparr> sk_list_id = l, sk_epoch = epoch, sk_member_id = m, sk_wrapped_dek = wrapped \<rparr>))"

definition rotate_slot :: "list_id \<Rightarrow> member_id \<Rightarrow> epoch \<Rightarrow> key_slot_entry \<Rightarrow> unit sv_action" where
  "rotate_slot l gone new_epoch k =
     (if ke_member_id k = gone then sfail (BadRequest ''removed member must not receive a new key slot'')
      else add_slot \<lparr> sk_list_id = l, sk_epoch = new_epoch, sk_member_id = ke_member_id k,
                      sk_wrapped_dek = ke_wrapped_dek k \<rparr>)"

definition remove_member_sv :: "list_id \<Rightarrow> member_id \<Rightarrow> epoch \<Rightarrow> key_slot_entry list \<Rightarrow> unit sv_action" where
  "remove_member_sv l gone epoch new_slots =
     (let new_epoch = epoch + 1 in
      safe_transaction (
        sbind (for_each (rotate_slot l gone new_epoch) new_slots) (\<lambda>_.
        sbind (statement (\<lambda>db. epoch_check new_epoch \<or> \<not> sv_has_list l db)
                 (\<lambda>db. db\<lparr> sv_lists := row_update (\<lambda>r. sl_list_id r = l) (sl_current_epoch_update (\<lambda>_. new_epoch)) (sv_lists db) \<rparr>)) (\<lambda>_.
        sbind (statement (\<lambda>_. True) (\<lambda>db. db\<lparr> sv_members := row_del sv_member_key (l, gone) (sv_members db) \<rparr>)) (\<lambda>_.
        statement (\<lambda>_. True)
          (\<lambda>db. db\<lparr> sv_slots := filter (\<lambda>r. \<not> (sk_list_id r = l \<and> sk_member_id r = gone)) (sv_slots db) \<rparr>))))))"

section \<open>Users, sessions and logins\<close>

definition create_user :: "user_row \<Rightarrow> unit sv_action" where
  "create_user u =
     statement (\<lambda>db. row_get us_member_id (us_member_id u) (sv_users db) = None \<and>
                     row_get us_username (us_username u) (sv_users db) = None \<and>
                     row_get us_identity_pub (us_identity_pub u) (sv_users db) = None \<and>
                     row_get us_signing_pub (us_signing_pub u) (sv_users db) = None)
       (\<lambda>db. db\<lparr> sv_users := sv_users db @ [u] \<rparr>)"

definition fetch_login_user :: "string \<Rightarrow> server_db \<Rightarrow> (member_id \<times> bytes) option" where
  "fetch_login_user name db =
     map_option (\<lambda>u. (us_member_id u, us_opaque_record u)) (row_get us_username name (sv_users db))"

definition create_session :: "int \<Rightarrow> member_id \<Rightarrow> token_hash \<Rightarrow> int \<Rightarrow> device_id option \<Rightarrow> unit sv_action" where
  "create_session now m th expires dev =
     statement (\<lambda>db. row_get sx_token_hash th (sv_sessions db) = None \<and> sv_has_user m db)
       (\<lambda>db. db\<lparr> sv_sessions := sv_sessions db @
          [\<lparr> sx_token_hash = th, sx_member_id = m, sx_device_id = dev, sx_expires_at = expires, sx_created_at = now \<rparr>] \<rparr>)"

definition lookup_session :: "int \<Rightarrow> token_hash \<Rightarrow> server_db \<Rightarrow> session_row option" where
  "lookup_session now th db =
     (case row_get sx_token_hash th (sv_sessions db) of
        None \<Rightarrow> None
      | Some r \<Rightarrow> if now < sx_expires_at r then Some r else None)"

definition delete_session :: "token_hash \<Rightarrow> unit sv_action" where
  "delete_session th =
     statement (\<lambda>_. True) (\<lambda>db. db\<lparr> sv_sessions := row_del sx_token_hash th (sv_sessions db) \<rparr>)"

definition cleanup_expired_sessions :: "int \<Rightarrow> server_db \<Rightarrow> server_db" where
  "cleanup_expired_sessions now db = db\<lparr> sv_sessions := filter (\<lambda>r. \<not> sx_expires_at r \<le> now) (sv_sessions db) \<rparr>"

definition login_ttl :: int where "login_ttl = 60"

definition login_start :: "int \<Rightarrow> uuid \<Rightarrow> bytes \<Rightarrow> member_id option \<Rightarrow> uuid sv_action" where
  "login_start now login_id data m =
     safe_transaction (
       sbind (statement (\<lambda>db. row_get lc_login_id login_id (sv_logins db) = None \<and>
                              (case m of None \<Rightarrow> True | Some k \<Rightarrow> sv_has_user k db))
                (\<lambda>db. db\<lparr> sv_logins := sv_logins db @
                   [\<lparr> lc_login_id = login_id, lc_member_id = m, lc_state = data, lc_expires_at = now + login_ttl \<rparr>] \<rparr>))
         (\<lambda>_. sreturn login_id))"

definition login_finish :: "int \<Rightarrow> uuid \<Rightarrow> (bytes \<times> member_id option) option sv_action" where
  "login_finish now login_id =
     safe_transaction (
       sbind (query (\<lambda>db. case row_get lc_login_id login_id (sv_logins db) of
                       None \<Rightarrow> None
                     | Some r \<Rightarrow> if now < lc_expires_at r then Some (lc_state r, lc_member_id r) else None)) (\<lambda>row.
       sbind (statement (\<lambda>_. True) (\<lambda>db. db\<lparr> sv_logins := row_del lc_login_id login_id (sv_logins db) \<rparr>)) (\<lambda>_.
       sreturn row)))"

definition cleanup_expired_logins :: "int \<Rightarrow> server_db \<Rightarrow> server_db" where
  "cleanup_expired_logins now db = db\<lparr> sv_logins := filter (\<lambda>r. \<not> lc_expires_at r \<le> now) (sv_logins db) \<rparr>"

definition fetch_user_keys :: "member_id \<Rightarrow> server_db \<Rightarrow> user_row option" where
  "fetch_user_keys m db = row_get us_member_id m (sv_users db)"

section \<open>Trusted devices\<close>

definition enroll_trusted_device_key ::
    "int \<Rightarrow> member_id \<Rightarrow> device_id \<Rightarrow> ed25519_pub \<Rightarrow> string \<Rightarrow> unit sv_action" where
  "enroll_trusted_device_key now m dev pub label =
     statement (sv_has_user m)
       (\<lambda>db. db\<lparr> sv_devices := row_put device_key
          \<lparr> dv_member_id = m, dv_device_id = dev, dv_signing_pub = pub, dv_label = label,
            dv_created_at = now, dv_revoked_at = None \<rparr> (sv_devices db) \<rparr>)"

definition fetch_active_device_pub :: "member_id \<Rightarrow> device_id \<Rightarrow> server_db \<Rightarrow> ed25519_pub option" where
  "fetch_active_device_pub m dev db =
     (case row_get device_key (m, dev) (sv_devices db) of
        None \<Rightarrow> None
      | Some r \<Rightarrow> if dv_revoked_at r = None then Some (dv_signing_pub r) else None)"

definition revoke_trusted_device_key :: "int \<Rightarrow> member_id \<Rightarrow> device_id \<Rightarrow> unit sv_action" where
  "revoke_trusted_device_key now m dev =
     safe_transaction (
       sbind (statement (\<lambda>_. True) (\<lambda>db. db\<lparr> sv_devices :=
           row_update (\<lambda>r. device_key r = (m, dev) \<and> dv_revoked_at r = None) (dv_revoked_at_update (\<lambda>_. Some now)) (sv_devices db) \<rparr>)) (\<lambda>_.
       statement (\<lambda>_. True) (\<lambda>db. db\<lparr> sv_sessions :=
           filter (\<lambda>r. \<not> (sx_member_id r = m \<and> sx_device_id r = Some dev)) (sv_sessions db) \<rparr>)))"

definition list_trusted_device_keys :: "member_id \<Rightarrow> server_db \<Rightarrow> (device_id \<times> string \<times> int \<times> bool) list" where
  "list_trusted_device_keys m db =
     map (\<lambda>r. (dv_device_id r, dv_label r, dv_created_at r, dv_revoked_at r \<noteq> None))
       (sort_key dv_created_at (filter (\<lambda>r. dv_member_id r = m) (sv_devices db)))"

section \<open>What the schema promises\<close>

definition sv_keys_wf :: "server_db \<Rightarrow> bool" where
  "sv_keys_wf db \<longleftrightarrow> keyed us_member_id (sv_users db) \<and> keyed us_username (sv_users db) \<and>
     keyed us_signing_pub (sv_users db) \<and> keyed sl_list_id (sv_lists db) \<and> keyed sv_member_key (sv_members db) \<and>
     keyed sv_slot_key (sv_slots db) \<and> keyed fst (sv_snapshots db) \<and> keyed sx_token_hash (sv_sessions db) \<and>
     keyed lc_login_id (sv_logins db) \<and> keyed device_key (sv_devices db)"

abbreviation "sv_list_ids db \<equiv> sl_list_id ` set (sv_lists db)"
abbreviation "sv_user_ids db \<equiv> us_member_id ` set (sv_users db)"

definition sv_refs_wf :: "server_db \<Rightarrow> bool" where
  "sv_refs_wf db \<longleftrightarrow>
     sm_list_id ` set (sv_members db) \<subseteq> sv_list_ids db \<and> sm_member_id ` set (sv_members db) \<subseteq> sv_user_ids db \<and>
     sk_list_id ` set (sv_slots db) \<subseteq> sv_list_ids db \<and> sk_member_id ` set (sv_slots db) \<subseteq> sv_user_ids db \<and>
     su_list_id ` set (sv_updates db) \<subseteq> sv_list_ids db \<and> su_author ` set (sv_updates db) \<subseteq> sv_user_ids db \<and>
     fst ` set (sv_snapshots db) \<subseteq> sv_list_ids db \<and> sx_member_id ` set (sv_sessions db) \<subseteq> sv_user_ids db \<and>
     dv_member_id ` set (sv_devices db) \<subseteq> sv_user_ids db"

definition sv_log_wf :: "server_db \<Rightarrow> bool" where
  "sv_log_wf db \<longleftrightarrow> sorted_wrt (<) (map su_seq (sv_updates db)) \<and> keyed su_signature (sv_updates db) \<and>
     (\<forall>r\<in>set (sv_updates db). su_seq r < sv_next_seq db)"

definition sv_epochs_wf :: "server_db \<Rightarrow> bool" where
  "sv_epochs_wf db \<longleftrightarrow> (\<forall>r\<in>set (sv_lists db). epoch_check (sl_current_epoch r)) \<and>
     (\<forall>r\<in>set (sv_slots db). epoch_check (sk_epoch r)) \<and> (\<forall>r\<in>set (sv_updates db). epoch_check (su_epoch r))"

definition sv_wf :: "server_db \<Rightarrow> bool" where
  "sv_wf db \<longleftrightarrow> sv_keys_wf db \<and> sv_refs_wf db \<and> sv_log_wf db \<and> sv_epochs_wf db"

lemmas sv_wf_defs = sv_wf_def sv_keys_wf_def sv_refs_wf_def sv_log_wf_def sv_epochs_wf_def

lemma sv_has_iff: "sv_has_list l db \<longleftrightarrow> l \<in> sv_list_ids db" "sv_has_user m db \<longleftrightarrow> m \<in> sv_user_ids db"
  by (simp_all add: sv_has_list_def sv_has_user_def row_get_None)

lemma keeps_statement: "(\<And>db. I db \<Longrightarrow> ok db \<Longrightarrow> I (f db)) \<Longrightarrow> keeps I (statement ok f)"
  by (rule keepsI) (simp add: statement_def)

lemma keeps_query [keeps_intros]: "keeps I (query f)"
  by (rule keepsI) (simp add: query_def)

lemma keeps_transaction [keeps_intros]: "keeps I f \<Longrightarrow> keeps I (safe_transaction f)"
  by (auto simp: keeps_def safe_transaction_def split: prod.splits sum.splits)

lemma keeps_require [keeps_intros]: "keeps I (list_current_epoch l)"
  by (rule keepsI) (simp add: list_current_epoch_def require_def split: option.splits)

lemma keyed_snoc: "row_get key (key r) rs = None \<Longrightarrow> keyed key rs \<Longrightarrow> keyed key (rs @ [r])"
  by (auto simp: keyed_def row_get_None)

lemma filter_subset: "f ` set (filter p rs) \<subseteq> f ` set rs"
  by auto

lemma insert_update_wf [keeps_intros]: "keeps sv_wf (insert_update l e a n c sig)"
proof (rule keepsI)
  fix db assume wf: "sv_wf db"
  have "sv_wf (db\<lparr> sv_next_seq := sv_next_seq db + 1 \<rparr>)"
    using wf by (auto simp: sv_wf_defs)
  moreover have "sv_wf (db\<lparr> sv_next_seq := sv_next_seq db + 1, sv_updates := sv_updates db @
       [\<lparr> su_seq = sv_next_seq db, su_list_id = l, su_epoch = e, su_author = a, su_nonce = n,
          su_ciphertext = c, su_signature = sig \<rparr>] \<rparr>)"
    if "epoch_check e" "row_get su_signature sig (sv_updates db) = None" "sv_has_list l db" "sv_has_user a db"
    using wf that by (auto simp: sv_wf_defs sv_has_iff sorted_wrt_append keyed_snoc)
  ultimately show "sv_wf (snd (insert_update l e a n c sig db))"
    using wf by (auto simp: insert_update_def Let_def split: option.splits)
qed

lemma sorted_seq_filter: "sorted_wrt (<) (map su_seq rs) \<Longrightarrow> sorted_wrt (<) (map su_seq (filter p rs))"
  by (simp add: sorted_wrt_map sorted_wrt_filter)

lemma upsert_snapshot_wf [keeps_intros]: "keeps sv_wf (upsert_snapshot l snap)"
  unfolding upsert_snapshot_def
proof (intro keeps_intros keeps_statement)
  fix db assume "sv_wf db" "epoch_check (sn_epoch snap) \<and> sv_has_list l db"
  then show "sv_wf (db\<lparr> sv_snapshots := row_put fst (l, snap) (sv_snapshots db) \<rparr>)"
    by (auto simp: sv_wf_defs sv_has_iff key_row_put)
next
  fix db assume "sv_wf db"
  then show "sv_wf (db\<lparr> sv_updates := filter (\<lambda>r. \<not> (su_list_id r = l \<and> su_seq r \<le> sn_covers_seq snap)) (sv_updates db) \<rparr>)"
    by (auto simp: sv_wf_defs sorted_seq_filter)
qed

lemma create_list_wf [keeps_intros]: "keeps sv_wf (create_list_sv l m w)"
  unfolding create_list_sv_def insert_member_def
  by (intro keeps_intros keeps_statement)
     (auto simp: sv_wf_defs sv_has_iff keyed_snoc row_get_None epoch_check_def)

lemma delete_list_sv_wf [keeps_intros]: "keeps sv_wf (delete_list_sv l)"
  unfolding delete_list_sv_def
  by (intro keeps_statement) (auto simp: sv_wf_defs sorted_seq_filter table_simps)

lemma add_slot_wf [keeps_intros]: "keeps sv_wf (add_slot k)"
  unfolding add_slot_def
  by (intro keeps_statement) (auto simp: sv_wf_defs sv_has_iff row_add_def keyed_snoc)

lemma upsert_member_wf [keeps_intros]: "keeps sv_wf (upsert_member m)"
  unfolding upsert_member_def
  by (intro keeps_statement) (auto simp: sv_wf_defs sv_has_iff dest!: in_row_put)

lemma add_member_wf [keeps_intros]: "keeps sv_wf (add_member_sv l m r e w)"
  unfolding add_member_sv_def by (intro keeps_intros)

lemma rotate_slot_wf [keeps_intros]: "keeps sv_wf (rotate_slot l gone e k)"
  unfolding rotate_slot_def by (auto intro: keeps_intros)

lemma remove_member_wf [keeps_intros]: "keeps sv_wf (remove_member_sv l gone e ks)"
  unfolding remove_member_sv_def Let_def
proof (intro keeps_intros keeps_statement)
  fix db assume "sv_wf db" "epoch_check (e + 1) \<or> \<not> sv_has_list l db"
  then show "sv_wf (db\<lparr> sv_lists := row_update (\<lambda>r. sl_list_id r = l) (sl_current_epoch_update (\<lambda>_. e + 1)) (sv_lists db) \<rparr>)"
    by (auto simp: sv_wf_defs sv_has_iff key_row_update dest!: in_row_update)
qed (auto simp: sv_wf_defs table_simps)

lemma auth_wf [keeps_intros]:
  "keeps sv_wf (create_user u)" "keeps sv_wf (create_session now m th ex dev)" "keeps sv_wf (delete_session th)"
  "keeps sv_wf (login_start now i d mm)" "keeps sv_wf (login_finish now i)"
  "keeps sv_wf (enroll_trusted_device_key now m dv pub lab)" "keeps sv_wf (revoke_trusted_device_key now m dv)"
  unfolding create_user_def create_session_def delete_session_def login_start_def login_finish_def
    enroll_trusted_device_key_def revoke_trusted_device_key_def
  by (intro keeps_intros keeps_statement;
      auto simp: sv_wf_defs sv_has_iff keyed_snoc table_simps key_row_update map_key_update dest!: in_row_put in_row_update)+

end
