(* ===== verification/ServerRoutes.thy ===== *)
theory ServerRoutes
  imports ServerDb ClientCrypto
begin

text \<open>
  The server's HTTP handlers (\<open>todoers-server/src/routes/\<close>), its session tokens and step-up rule, and
  the fan-out hub (\<open>state.rs\<close>, \<open>routes/ws.rs\<close>).  A handler takes the clock reading, the request's
  authorization header and its decoded body (\<open>None\<close> when postcard rejects it) and returns an error
  or a response with the new state; the extractor runs before the body is looked at, as in the code.
  OPAQUE, SHA-512, HMAC and base64 are the fields of \<open>server_env\<close>; Ed25519 is the \<open>crypto\<close> record of
  the client.  Routing, tracing and socket I/O are not modelled.
\<close>

section \<open>State\<close>

record server_env =
  en_crypto :: crypto
  en_b64_encode :: "bytes \<Rightarrow> string"
  en_b64_decode :: "string \<Rightarrow> bytes option"
  en_sha512 :: "bytes \<Rightarrow> token_hash"
  en_hmac :: "bytes \<Rightarrow> bytes \<Rightarrow> bytes"
  op_server_key :: bytes
  op_registration_request :: "bytes \<Rightarrow> bytes option"
  op_registration_start :: "bytes \<Rightarrow> bytes \<Rightarrow> bytes option"
  op_registration_upload :: "bytes \<Rightarrow> bytes option"
  op_credential_request :: "bytes \<Rightarrow> bytes option"
  op_password_file :: "bytes \<Rightarrow> bytes option"
  op_login_start :: "bytes \<Rightarrow> bytes option \<Rightarrow> bytes \<Rightarrow> bytes \<Rightarrow> (bytes \<times> bytes) option"
  op_login_state :: "bytes \<Rightarrow> bytes option"
  op_finalization :: "bytes \<Rightarrow> bytes option"
  op_login_finish :: "bytes \<Rightarrow> bytes \<Rightarrow> bytes option"

text \<open>A broadcast channel: every message published since it was made, and for each receiver the
  position of the next message it will read.\<close>

record channel =
  ch_log :: "stored_update_dto list"
  ch_receivers :: "(nat \<times> nat) list"

record app_state =
  ap_db :: server_db
  ap_hub :: "list_id \<rightharpoonup> channel"
  ap_verify_signatures :: bool

type_synonym 'a handler = "app_state \<Rightarrow> (app_error + 'a) \<times> app_state"

definition on_db :: "'a sv_action \<Rightarrow> 'a handler" where
  "on_db f s = (case f (ap_db s) of (r, db) \<Rightarrow> (r, s\<lparr> ap_db := db \<rparr>))"

definition ask :: "app_error \<Rightarrow> (server_db \<Rightarrow> 'a option) \<Rightarrow> 'a handler" where
  "ask e f s = (case f (ap_db s) of None \<Rightarrow> (Inl e, s) | Some x \<Rightarrow> (Inr x, s))"

definition ensure :: "app_error \<Rightarrow> bool \<Rightarrow> unit handler" where
  "ensure e ok s = (if ok then (Inr (), s) else (Inl e, s))"

definition body_or :: "'b option \<Rightarrow> 'b handler" where
  "body_or body s = (case body of None \<Rightarrow> (Inl BytesError, s) | Some b \<Rightarrow> (Inr b, s))"

section \<open>Session tokens\<close>

definition session_ttl :: int where "session_ttl = 30 * 86400"
definition step_up_ttl :: int where "step_up_ttl = 5 * 60"

record auth_member =
  at_member_id :: member_id
  at_token_hash :: token_hash
  at_device_id :: "device_id option"
  at_created_at :: int

definition require_password_step_up :: "int \<Rightarrow> auth_member \<Rightarrow> app_error option" where
  "require_password_step_up now a =
     (if at_device_id a \<noteq> None then Some StepUpRequired
      else if step_up_ttl < now - at_created_at a then Some StepUpRequired
      else None)"

definition mint_session_token :: "server_env \<Rightarrow> 32 fixed \<Rightarrow> string \<times> token_hash" where
  "mint_session_token E rnd = (en_b64_encode E (as_slice rnd), en_sha512 E (as_slice rnd))"

definition hash_token :: "server_env \<Rightarrow> string \<Rightarrow> app_error + token_hash" where
  "hash_token E token = (case en_b64_decode E token of None \<Rightarrow> Inl Base64Error | Some bs \<Rightarrow> Inr (en_sha512 E bs))"

definition strip_prefix :: "string \<Rightarrow> string \<Rightarrow> string option" where
  "strip_prefix p s = (if take (length p) s = p then Some (drop (length p) s) else None)"

definition auth_extractor :: "server_env \<Rightarrow> int \<Rightarrow> string option \<Rightarrow> auth_member handler" where
  "auth_extractor E now header s =
     (case header of
        None \<Rightarrow> (Inl Unauthorized, s)
      | Some h \<Rightarrow>
          (case strip_prefix ''Bearer '' h of
             None \<Rightarrow> (Inl Unauthorized, s)
           | Some t \<Rightarrow>
               (case hash_token E (trim t) of
                  Inl e \<Rightarrow> (Inl e, s)
                | Inr th \<Rightarrow>
                    (case lookup_session now th (ap_db s) of
                       None \<Rightarrow> (Inl Unauthorized, s)
                     | Some r \<Rightarrow> (Inr \<lparr> at_member_id = sx_member_id r, at_token_hash = th,
                                       at_device_id = sx_device_id r, at_created_at = sx_created_at r \<rparr>, s)))))"

section \<open>The hub\<close>

definition channel_capacity :: nat where "channel_capacity = 256"

definition hub_sender :: "list_id \<Rightarrow> (list_id \<rightharpoonup> channel) \<Rightarrow> (list_id \<rightharpoonup> channel)" where
  "hub_sender l hub = (if hub l = None then hub(l \<mapsto> \<lparr> ch_log = [], ch_receivers = [] \<rparr>) else hub)"

definition hub_publish :: "list_id \<Rightarrow> stored_update_dto \<Rightarrow> (list_id \<rightharpoonup> channel) \<Rightarrow> (list_id \<rightharpoonup> channel)" where
  "hub_publish l msg hub =
     (case hub l of
        None \<Rightarrow> hub
      | Some ch \<Rightarrow> if ch_receivers ch = [] then hub else hub(l \<mapsto> ch\<lparr> ch_log := ch_log ch @ [msg] \<rparr>))"

definition hub_subscribe :: "nat \<Rightarrow> list_id \<Rightarrow> (list_id \<rightharpoonup> channel) \<Rightarrow> (list_id \<rightharpoonup> channel)" where
  "hub_subscribe rid l hub =
     (case hub_sender l hub l of
        None \<Rightarrow> hub
      | Some ch \<Rightarrow> hub(l \<mapsto> ch\<lparr> ch_receivers := (rid, length (ch_log ch)) # ch_receivers ch \<rparr>))"

definition hub_unsubscribe :: "nat \<Rightarrow> list_id \<Rightarrow> (list_id \<rightharpoonup> channel) \<Rightarrow> (list_id \<rightharpoonup> channel)" where
  "hub_unsubscribe rid l hub =
     (case hub l of
        None \<Rightarrow> hub
      | Some ch \<Rightarrow> hub(l \<mapsto> ch\<lparr> ch_receivers := filter (\<lambda>r. fst r \<noteq> rid) (ch_receivers ch) \<rparr>))"

datatype recv = Wait | Got stored_update_dto | Lagged

text \<open>One \<open>recv\<close> of a receiver: nothing new, the next message, or an error when more messages than the
  ring holds came after the one it was to read.\<close>

definition hub_recv :: "nat \<Rightarrow> list_id \<Rightarrow> (list_id \<rightharpoonup> channel) \<Rightarrow> recv \<times> (list_id \<rightharpoonup> channel)" where
  "hub_recv rid l hub =
     (case hub l of
        None \<Rightarrow> (Wait, hub)
      | Some ch \<Rightarrow>
          (case map_of (ch_receivers ch) rid of
             None \<Rightarrow> (Wait, hub)
           | Some pos \<Rightarrow>
               if length (ch_log ch) \<le> pos then (Wait, hub)
               else if channel_capacity < length (ch_log ch) - pos then (Lagged, hub)
               else (Got (ch_log ch ! pos),
                     hub(l \<mapsto> ch\<lparr> ch_receivers := AList.update rid (Suc pos) (ch_receivers ch) \<rparr>))))"

text \<open>\<open>handle_socket\<close>: attaching after the first frame, and one turn of the forwarding loop.\<close>

definition ws_attach :: "nat \<Rightarrow> list_id option \<Rightarrow> member_id \<Rightarrow> app_state \<Rightarrow> bool \<times> app_state" where
  "ws_attach rid frame m s =
     (case frame of
        None \<Rightarrow> (False, s)
      | Some l \<Rightarrow>
          if member_role l m (ap_db s) = None then (False, s)
          else (True, s\<lparr> ap_hub := hub_subscribe rid l (ap_hub s) \<rparr>))"

definition ws_forward :: "nat \<Rightarrow> list_id \<Rightarrow> app_state \<Rightarrow> recv \<times> app_state" where
  "ws_forward rid l s =
     (case hub_recv rid l (ap_hub s) of
        (Lagged, hub) \<Rightarrow> (Lagged, s\<lparr> ap_hub := hub_unsubscribe rid l hub \<rparr>)
      | (r, hub) \<Rightarrow> (r, s\<lparr> ap_hub := hub \<rparr>))"

section \<open>Updates and snapshots\<close>

definition update_view :: "append_update \<Rightarrow> bytes" where
  "update_view b = signing_view (au_version b) (au_list_id b) (au_epoch b) (au_author b) (au_nonce b) (au_ciphertext b)"

definition verify_update_signature :: "server_env \<Rightarrow> ed25519_pub \<Rightarrow> append_update \<Rightarrow> bool" where
  "verify_update_signature E pub b \<longleftrightarrow>
     c_key_valid (en_crypto E) pub \<and> c_verify (en_crypto E) pub (update_view b) (au_signature b)"

definition stored_of :: "int \<Rightarrow> append_update \<Rightarrow> stored_update_dto" where
  "stored_of seq b = \<lparr> sd_seq = seq, sd_epoch = au_epoch b, sd_author = au_author b, sd_nonce = au_nonce b,
     sd_ciphertext = au_ciphertext b, sd_signature = au_signature b \<rparr>"

definition append_update_route :: "server_env \<Rightarrow> int \<Rightarrow> string option \<Rightarrow> append_update option \<Rightarrow> int handler" where
  "append_update_route E now header body =
     sbind (auth_extractor E now header) (\<lambda>auth.
     sbind (body_or body) (\<lambda>b.
     sbind (ensure (BadRequest ''nonce must be 24 bytes'') (length (as_slice (au_nonce b)) = 24)) (\<lambda>_.
     sbind (ensure (BadRequest ''signature must be 64 bytes'') (length (as_slice (au_signature b)) = 64)) (\<lambda>_.
     sbind (ensure Unauthorized (au_author b = at_member_id auth)) (\<lambda>_.
     sbind (\<lambda>s. if ap_verify_signatures s
                then sbind (ask InvalidSignature (fetch_author_signing_pub (au_list_id b) (au_author b))) (\<lambda>pub.
                       ensure InvalidSignature (verify_update_signature E pub b)) s
                else (Inr (), s)) (\<lambda>_.
     sbind (on_db (insert_update (au_list_id b) (au_epoch b) (au_author b) (au_nonce b) (au_ciphertext b) (au_signature b))) (\<lambda>seq s.
       (Inr seq, s\<lparr> ap_hub := hub_publish (au_list_id b) (stored_of seq b) (ap_hub s) \<rparr>))))))))"

definition pull_updates_route :: "server_env \<Rightarrow> int \<Rightarrow> string option \<Rightarrow> pull_params option \<Rightarrow> stored_update_dto list handler" where
  "pull_updates_route E now header body =
     sbind (auth_extractor E now header) (\<lambda>_.
     sbind (body_or body) (\<lambda>p. on_db (query (fetch_updates_after (pp_list_id p) (pp_after p) (pp_limit p)))))"

definition get_snapshot_route :: "server_env \<Rightarrow> int \<Rightarrow> string option \<Rightarrow> list_id option \<Rightarrow> snapshot_dto handler" where
  "get_snapshot_route E now header body =
     sbind (auth_extractor E now header) (\<lambda>_.
     sbind (body_or body) (\<lambda>l. ask NotFound (fetch_snapshot l)))"

definition put_snapshot_route :: "server_env \<Rightarrow> int \<Rightarrow> string option \<Rightarrow> put_snapshot option \<Rightarrow> unit handler" where
  "put_snapshot_route E now header body =
     sbind (auth_extractor E now header) (\<lambda>_.
     sbind (body_or body) (\<lambda>b.
     sbind (ensure (BadRequest ''bad nonce/signature length'')
              (\<not> (length (as_slice (ps_nonce b)) \<noteq> 24 \<or> length (as_slice (ps_signature b)) \<noteq> 64))) (\<lambda>_.
     on_db (upsert_snapshot (ps_list_id b)
       \<lparr> sn_epoch = ps_epoch b, sn_covers_seq = ps_covers_seq b, sn_nonce = ps_nonce b,
         sn_ciphertext = ps_ciphertext b, sn_signature = ps_signature b \<rparr>))))"

section \<open>Lists and membership\<close>

definition require_owner :: "list_id \<Rightarrow> member_id \<Rightarrow> unit handler" where
  "require_owner l m s =
     ensure (Forbidden ''only an owner may change membership'') (member_role l m (ap_db s) = Some Owner) s"

definition create_list_route :: "server_env \<Rightarrow> int \<Rightarrow> string option \<Rightarrow> create_list_request option \<Rightarrow> list_id handler" where
  "create_list_route E now header body =
     sbind (auth_extractor E now header) (\<lambda>auth.
     sbind (body_or body) (\<lambda>b.
     sbind (on_db (create_list_sv (cl_list_id b) (at_member_id auth) (cl_wrapped_dek b))) (\<lambda>_.
     sreturn (cl_list_id b))))"

definition fetch_lists_route :: "server_env \<Rightarrow> int \<Rightarrow> string option \<Rightarrow> list_id list handler" where
  "fetch_lists_route E now header =
     sbind (auth_extractor E now header) (\<lambda>auth. on_db (query (fetch_user_lists (at_member_id auth))))"

definition delete_list_route :: "server_env \<Rightarrow> int \<Rightarrow> string option \<Rightarrow> list_id option \<Rightarrow> unit handler" where
  "delete_list_route E now header body =
     sbind (auth_extractor E now header) (\<lambda>auth.
     sbind (body_or body) (\<lambda>l.
     sbind (require_owner l (at_member_id auth)) (\<lambda>_. on_db (delete_list_sv l))))"

definition add_member_route :: "server_env \<Rightarrow> int \<Rightarrow> string option \<Rightarrow> add_member_request option \<Rightarrow> unit handler" where
  "add_member_route E now header body =
     sbind (auth_extractor E now header) (\<lambda>auth.
     sbind (body_or body) (\<lambda>b.
     sbind (require_owner (am_list_id b) (at_member_id auth)) (\<lambda>_.
     sbind (ensure (BadRequest ''invalid role'') (\<not> (am_role b \<noteq> Owner \<and> am_role b \<noteq> Member))) (\<lambda>_.
     on_db (add_member_sv (am_list_id b) (am_member_id b) (am_role b) (am_epoch b) (am_wrapped_dek b))))))"

definition remove_member_route :: "server_env \<Rightarrow> int \<Rightarrow> string option \<Rightarrow> remove_member_request option \<Rightarrow> unit handler" where
  "remove_member_route E now header body =
     sbind (auth_extractor E now header) (\<lambda>auth.
     sbind (body_or body) (\<lambda>b.
     sbind (require_owner (rm_list_id b) (at_member_id auth)) (\<lambda>_.
     on_db (remove_member_sv (rm_list_id b) (rm_remove_member_id b) (rm_epoch b) (rm_new_slots b)))))"

definition get_metadata_route :: "server_env \<Rightarrow> int \<Rightarrow> string option \<Rightarrow> list_id option \<Rightarrow> metadata_response handler" where
  "get_metadata_route E now header body =
     sbind (auth_extractor E now header) (\<lambda>_.
     sbind (body_or body) (\<lambda>l.
     sbind (on_db (list_current_epoch l)) (\<lambda>epoch.
     sbind (on_db (query (fetch_members l))) (\<lambda>members.
     sbind (on_db (query (fetch_snapshot l))) (\<lambda>snap.
     sreturn \<lparr> md_list_id = l, md_current_epoch = epoch, md_snapshot = snap, md_members = members \<rparr>)))))"

definition get_my_keys_route :: "server_env \<Rightarrow> int \<Rightarrow> string option \<Rightarrow> list_id option \<Rightarrow> key_slot_dto list handler" where
  "get_my_keys_route E now header body =
     sbind (auth_extractor E now header) (\<lambda>auth.
     sbind (body_or body) (\<lambda>l. on_db (query (fetch_my_key_slots l (at_member_id auth)))))"

definition get_user_pubkeys_route :: "server_env \<Rightarrow> int \<Rightarrow> string option \<Rightarrow> string option \<Rightarrow> user_pubkeys handler" where
  "get_user_pubkeys_route E now header body =
     sbind (auth_extractor E now header) (\<lambda>_.
     sbind (body_or body) (\<lambda>name. ask NotFound (fetch_user_pubkeys name)))"

end
