(* ===== verification/ServerAuth.thy ===== *)
theory ServerAuth
  imports ServerRoutes
begin

text \<open>
  OPAQUE registration and login, logout (\<open>todoers-server/src/routes/auth.rs\<close>), password-less device
  login with trusted device keys (\<open>routes/device.rs\<close>), and the cleanup worker (\<open>workers.rs\<close>).
\<close>

section \<open>Registration\<close>

definition registration_start :: "server_env \<Rightarrow> (x25519_pub \<times> bytes) option \<Rightarrow> bytes handler" where
  "registration_start E body =
     sbind (body_or body) (\<lambda>(identity_pub, reg).
     sbind (ask OpaqueError (\<lambda>_. op_registration_request E reg)) (\<lambda>req.
     ask (BadRequest ''invalid registration request'')
       (\<lambda>_. op_registration_start E req (as_slice (member_id_from_identity_pub (en_hmac E) identity_pub)))))"

definition registration_finish :: "server_env \<Rightarrow> finish_register_request option \<Rightarrow> member_id handler" where
  "registration_finish E body =
     sbind (body_or body) (\<lambda>r.
     sbind (ensure (BadRequest ''signing_pub must be 32 bytes'') (length (as_slice (fr_signing_pub r)) = 32)) (\<lambda>_.
     (let member_id = member_id_from_identity_pub (en_hmac E) (fr_identity_pub r) in
      sbind (ask OpaqueError (\<lambda>_. op_registration_upload E (fr_registration_up r))) (\<lambda>opaque_record.
      sbind (on_db (create_user \<lparr> us_member_id = member_id, us_username = fr_username r,
               us_identity_pub = fr_identity_pub r, us_signing_pub = fr_signing_pub r,
               us_wrapped_secret_keys = fr_wrapped_secret_keys r, us_opaque_record = opaque_record \<rparr>)) (\<lambda>_.
      sreturn member_id)))))"

section \<open>Login\<close>

definition placeholder_credential_id :: "server_env \<Rightarrow> string \<Rightarrow> member_id" where
  "placeholder_credential_id E username = fixed_of_slice (take 16 (en_hmac E (op_server_key E) (ascii username)))"

definition login_start_route :: "server_env \<Rightarrow> int \<Rightarrow> uuid \<Rightarrow> bytes \<Rightarrow> (string \<times> bytes) option \<Rightarrow> (uuid \<times> bytes) handler" where
  "login_start_route E now login_id rnd body =
     sbind (body_or body) (\<lambda>(username, cred).
     sbind (ask OpaqueError (\<lambda>_. op_credential_request E cred)) (\<lambda>credential_req.
     sbind (on_db (query (fetch_login_user username))) (\<lambda>user.
     sbind (case user of
              Some (m, opaque_rec) \<Rightarrow> ask OpaqueError (\<lambda>_. map_option (\<lambda>f. (Some f, Some m)) (op_password_file E opaque_rec))
            | None \<Rightarrow> sreturn (None, None)) (\<lambda>(password_file, member).
     (let cid = (case member of Some m \<Rightarrow> m | None \<Rightarrow> placeholder_credential_id E username) in
      sbind (ask Unauthorized (\<lambda>_. op_login_start E rnd password_file credential_req (as_slice cid))) (\<lambda>(state, msg).
      sbind (on_db (login_start now login_id state member)) (\<lambda>i. sreturn (i, msg))))))))"

definition login_finish_route :: "server_env \<Rightarrow> int \<Rightarrow> 32 fixed \<Rightarrow> (uuid \<times> bytes) option \<Rightarrow> login_finish_response handler" where
  "login_finish_route E now rnd body =
     sbind (body_or body) (\<lambda>(login_id, fin).
     sbind (on_db (login_finish now login_id)) (\<lambda>stashed.
     sbind (ask Unauthorized (\<lambda>_. stashed)) (\<lambda>(state, member).
     sbind (ask Unauthorized (\<lambda>_. member)) (\<lambda>member_id.
     sbind (ask OpaqueError (\<lambda>_. op_login_state E state)) (\<lambda>login_state.
     sbind (ask OpaqueError (\<lambda>_. op_finalization E fin)) (\<lambda>finalization.
     sbind (ask Unauthorized (\<lambda>_. op_login_finish E login_state finalization)) (\<lambda>_.
     sbind (ask Unauthorized (fetch_user_keys member_id)) (\<lambda>keys.
     (let (token, th) = mint_session_token E rnd in
      sbind (on_db (create_session now member_id th (now + session_ttl) None)) (\<lambda>_.
      sreturn \<lparr> lf_token = token, lf_member_id = member_id, lf_identity_pub = us_identity_pub keys,
                lf_signing_pub = us_signing_pub keys, lf_wrapped_secret_keys = us_wrapped_secret_keys keys \<rparr>))))))))))"

definition logout_route :: "server_env \<Rightarrow> int \<Rightarrow> string option \<Rightarrow> unit handler" where
  "logout_route E now header =
     sbind (auth_extractor E now header) (\<lambda>auth. on_db (delete_session (at_token_hash auth)))"

section \<open>Trusted devices\<close>

definition step_up :: "int \<Rightarrow> auth_member \<Rightarrow> unit handler" where
  "step_up now auth s =
     (case require_password_step_up now auth of Some e \<Rightarrow> (Inl e, s) | None \<Rightarrow> (Inr (), s))"

definition enroll_route :: "server_env \<Rightarrow> int \<Rightarrow> string option \<Rightarrow> (device_id \<times> ed25519_pub \<times> string) option \<Rightarrow> unit handler" where
  "enroll_route E now header body =
     sbind (auth_extractor E now header) (\<lambda>auth.
     sbind (body_or body) (\<lambda>(dev, pub, label).
     sbind (step_up now auth) (\<lambda>_.
     on_db (enroll_trusted_device_key now (at_member_id auth) dev pub label))))"

definition list_devices_route :: "server_env \<Rightarrow> int \<Rightarrow> string option \<Rightarrow> (device_id \<times> string \<times> int \<times> bool) list handler" where
  "list_devices_route E now header =
     sbind (auth_extractor E now header) (\<lambda>auth. on_db (query (list_trusted_device_keys (at_member_id auth))))"

definition revoke_route :: "server_env \<Rightarrow> int \<Rightarrow> string option \<Rightarrow> device_id option \<Rightarrow> unit handler" where
  "revoke_route E now header body =
     sbind (auth_extractor E now header) (\<lambda>auth.
     sbind (body_or body) (\<lambda>dev.
     sbind (step_up now auth) (\<lambda>_.
     on_db (revoke_trusted_device_key now (at_member_id auth) dev))))"

definition device_login_start_route ::
    "int \<Rightarrow> uuid \<Rightarrow> nonce \<Rightarrow> (member_id \<times> device_id) option \<Rightarrow> (uuid \<times> nonce) handler" where
  "device_login_start_route now login_id nonce body =
     sbind (body_or body) (\<lambda>(member, dev).
     sbind (ask Unauthorized (fetch_active_device_pub member dev)) (\<lambda>_.
     sbind (on_db (login_start now login_id (as_slice dev @ as_slice nonce) (Some member))) (\<lambda>i.
     sreturn (i, nonce))))"

definition device_login_finish_route ::
    "server_env \<Rightarrow> int \<Rightarrow> 32 fixed \<Rightarrow> (uuid \<times> signature) option \<Rightarrow> device_login_response handler" where
  "device_login_finish_route E now rnd body =
     sbind (body_or body) (\<lambda>(login_id, sig).
     sbind (on_db (login_finish now login_id)) (\<lambda>stashed.
     sbind (ask Unauthorized (\<lambda>_. stashed)) (\<lambda>(state, member).
     sbind (ask Unauthorized (\<lambda>_. member)) (\<lambda>member_id.
     sbind (ensure Unauthorized (\<not> length state < 16)) (\<lambda>_.
     sbind (ask Unauthorized (\<lambda>_. case fixed_try_from (take 16 state) of Inl _ \<Rightarrow> None | Inr d \<Rightarrow> Some d)) (\<lambda>dev :: device_id.
     sbind (ask Unauthorized (\<lambda>_. case fixed_try_from (drop 16 state) of Inl _ \<Rightarrow> None | Inr n \<Rightarrow> Some n)) (\<lambda>nonce :: nonce.
     sbind (ask Unauthorized (fetch_active_device_pub member_id dev)) (\<lambda>pub.
     sbind (\<lambda>s. ensure Unauthorized (ap_verify_signatures s \<longrightarrow>
                c_key_valid (en_crypto E) pub \<and>
                c_verify (en_crypto E) pub (device_challenge_view device_challenge_version member_id dev nonce) sig) s) (\<lambda>_.
     sbind (ask Unauthorized (fetch_user_keys member_id)) (\<lambda>keys.
     (let (token, th) = mint_session_token E rnd in
      sbind (on_db (create_session now member_id th (now + session_ttl) (Some dev))) (\<lambda>_.
      sreturn \<lparr> df_token = token, df_member_id = member_id, df_identity_pub = us_identity_pub keys,
                df_signing_pub = us_signing_pub keys \<rparr>))))))))))))"

section \<open>Cleanup\<close>

definition cleanup :: "int \<Rightarrow> app_state \<Rightarrow> app_state" where
  "cleanup now s = s\<lparr> ap_db := cleanup_expired_logins now (cleanup_expired_sessions now (ap_db s)) \<rparr>"

section \<open>The step relation\<close>

definition app_new :: "bool \<Rightarrow> app_state" where
  "app_new verify = \<lparr> ap_db = server_empty, ap_hub = Map.empty, ap_verify_signatures = verify \<rparr>"

text \<open>One request of any caller, a socket attaching, forwarding or going away, or a tick of the cleanup
  worker.\<close>

inductive server_step :: "server_env \<Rightarrow> app_state \<Rightarrow> app_state \<Rightarrow> bool" for E :: server_env where
  append_update: "server_step E s (snd (append_update_route E now header b1 s))"
| pull_updates: "server_step E s (snd (pull_updates_route E now header b2 s))"
| get_snapshot: "server_step E s (snd (get_snapshot_route E now header b3 s))"
| put_snapshot: "server_step E s (snd (put_snapshot_route E now header b4 s))"
| create_list: "server_step E s (snd (create_list_route E now header b5 s))"
| fetch_lists: "server_step E s (snd (fetch_lists_route E now header s))"
| delete_list: "server_step E s (snd (delete_list_route E now header b6 s))"
| add_member: "server_step E s (snd (add_member_route E now header b7 s))"
| remove_member: "server_step E s (snd (remove_member_route E now header b8 s))"
| get_metadata: "server_step E s (snd (get_metadata_route E now header b9 s))"
| get_my_keys: "server_step E s (snd (get_my_keys_route E now header b10 s))"
| get_user_pubkeys: "server_step E s (snd (get_user_pubkeys_route E now header b11 s))"
| registration_start: "server_step E s (snd (registration_start E b12 s))"
| registration_finish: "server_step E s (snd (registration_finish E b13 s))"
| login_start: "server_step E s (snd (login_start_route E now i rnd b14 s))"
| login_finish: "server_step E s (snd (login_finish_route E now rnd32 b15 s))"
| logout: "server_step E s (snd (logout_route E now header s))"
| enroll: "server_step E s (snd (enroll_route E now header b16 s))"
| list_devices: "server_step E s (snd (list_devices_route E now header s))"
| revoke: "server_step E s (snd (revoke_route E now header b17 s))"
| device_login_start: "server_step E s (snd (device_login_start_route now i nonce b18 s))"
| device_login_finish: "server_step E s (snd (device_login_finish_route E now rnd32 b19 s))"
| cleanup: "server_step E s (cleanup now s)"
| ws_attach: "server_step E s (snd (ws_attach rid frame m s))"
| ws_forward: "server_step E s (snd (ws_forward rid l s))"
| ws_detach: "server_step E s (s\<lparr> ap_hub := hub_unsubscribe rid l (ap_hub s) \<rparr>)"

text \<open>Everything a server started with a given \<open>verify_signatures\<close> can become.\<close>

inductive server_reachable :: "server_env \<Rightarrow> bool \<Rightarrow> app_state \<Rightarrow> bool" for E :: server_env and v :: bool where
  start: "server_reachable E v (app_new v)"
| step: "server_reachable E v s \<Longrightarrow> server_step E s s' \<Longrightarrow> server_reachable E v s'"

section \<open>Handlers keep what the database operations keep\<close>

definition app_inv :: "bool \<Rightarrow> (server_db \<Rightarrow> bool) \<Rightarrow> app_state \<Rightarrow> bool" where
  "app_inv v I s \<longleftrightarrow> ap_verify_signatures s = v \<and> I (ap_db s)"

lemma keeps_on_db [keeps_intros]: "keeps I f \<Longrightarrow> keeps (app_inv v I) (on_db f)"
  by (auto simp: keeps_def app_inv_def on_db_def split: prod.splits)

lemma keeps_readers [keeps_intros]:
  "keeps (app_inv v I) (ask e f)" "keeps (app_inv v I) (ensure e b)" "keeps (app_inv v I) (body_or body)"
  "keeps (app_inv v I) (require_owner l m)" "keeps (app_inv v I) (step_up now a)"
  "keeps (app_inv v I) (auth_extractor E now header)"
  by (auto simp: keeps_def ask_def ensure_def body_or_def require_owner_def step_up_def auth_extractor_def
      split: option.splits sum.splits)

lemma keeps_state_fun [keeps_intros]:
  "keeps (app_inv v I) (\<lambda>s. (r s, s\<lparr> ap_hub := h s \<rparr>))" "keeps (app_inv v I) (\<lambda>s. ensure e (p s) s)"
  by (auto simp: keeps_def app_inv_def ensure_def)

lemma keeps_if [keeps_intros]:
  "keeps I f \<Longrightarrow> keeps I g \<Longrightarrow> keeps I (\<lambda>s. if p s then f s else g s)"
  "keeps I (\<lambda>s. (r s, s))"
  by (auto simp: keeps_def)

lemma keeps_case_prod [keeps_intros]: "(\<And>a b. keeps I (f a b)) \<Longrightarrow> keeps I (case p of (a, b) \<Rightarrow> f a b)"
  by (cases p) simp

lemma keeps_case_option [keeps_intros]: "keeps I f \<Longrightarrow> (\<And>x. keeps I (g x)) \<Longrightarrow> keeps I (case p of None \<Rightarrow> f | Some x \<Rightarrow> g x)"
  by (cases p) simp_all

lemma keeps_snd: "keeps P m \<Longrightarrow> P s \<Longrightarrow> P (snd (m s))"
  by (simp add: keeps_def)

text \<open>An invariant of the database that every operation but the append keeps, and that the append
  handler keeps.\<close>

locale server_invariant =
  fixes E :: server_env and v :: bool and I :: "server_db \<Rightarrow> bool"
  assumes inv_append: "keeps (app_inv v I) (append_update_route E now header b)"
    and inv_lists: "keeps I (upsert_snapshot l snap)" "keeps I (create_list_sv l m w)" "keeps I (delete_list_sv l)"
      "keeps I (add_member_sv l m r e w)" "keeps I (remove_member_sv l m e ks)"
    and inv_auth: "keeps I (create_user u)" "keeps I (create_session now m th ex dev)" "keeps I (delete_session th)"
      "keeps I (login_start now i d mm)" "keeps I (login_finish now i)"
      "keeps I (enroll_trusted_device_key now m dv pub lab)" "keeps I (revoke_trusted_device_key now m dv)"
    and inv_cleanup: "I db \<Longrightarrow> I (cleanup_expired_logins now (cleanup_expired_sessions now db))"
    and inv_start: "I server_empty"
begin

lemmas route_intros = inv_lists inv_auth keeps_intros

lemma ws_inv: "app_inv v I s \<Longrightarrow> app_inv v I (snd (ws_attach rid frame m s))"
  "app_inv v I s \<Longrightarrow> app_inv v I (snd (ws_forward rid l s))"
  by (auto simp: ws_attach_def ws_forward_def app_inv_def split: option.splits prod.splits recv.splits)

lemma list_routes_keep:
  "keeps (app_inv v I) (pull_updates_route E now header b2)" "keeps (app_inv v I) (get_snapshot_route E now header b3)"
  "keeps (app_inv v I) (put_snapshot_route E now header b4)" "keeps (app_inv v I) (create_list_route E now header b5)"
  "keeps (app_inv v I) (fetch_lists_route E now header)" "keeps (app_inv v I) (delete_list_route E now header b6)"
  "keeps (app_inv v I) (add_member_route E now header b7)" "keeps (app_inv v I) (remove_member_route E now header b8)"
  "keeps (app_inv v I) (get_metadata_route E now header b9)" "keeps (app_inv v I) (get_my_keys_route E now header b10)"
  "keeps (app_inv v I) (get_user_pubkeys_route E now header b11)"
  unfolding pull_updates_route_def get_snapshot_route_def put_snapshot_route_def create_list_route_def
    fetch_lists_route_def delete_list_route_def add_member_route_def remove_member_route_def get_metadata_route_def
    get_my_keys_route_def get_user_pubkeys_route_def
  by (intro route_intros)+

lemma auth_routes_keep:
  "keeps (app_inv v I) (registration_start E b12)" "keeps (app_inv v I) (registration_finish E b13)"
  "keeps (app_inv v I) (login_start_route E now i rnd b14)" "keeps (app_inv v I) (login_finish_route E now rnd32 b15)"
  "keeps (app_inv v I) (logout_route E now header)" "keeps (app_inv v I) (enroll_route E now header b16)"
  "keeps (app_inv v I) (list_devices_route E now header)" "keeps (app_inv v I) (revoke_route E now header b17)"
  "keeps (app_inv v I) (device_login_start_route now i nonce b18)"
  "keeps (app_inv v I) (device_login_finish_route E now rnd32 b19)"
  unfolding registration_start_def registration_finish_def login_start_route_def login_finish_route_def Let_def
    logout_route_def enroll_route_def list_devices_route_def revoke_route_def device_login_start_route_def
    device_login_finish_route_def
  by (intro route_intros)+

lemma step_inv: "server_step E s s' \<Longrightarrow> app_inv v I s \<Longrightarrow> app_inv v I s'"
proof (induction rule: server_step.induct)
  case (cleanup s now)
  then show ?case using inv_cleanup by (simp add: app_inv_def cleanup_def)
next
  case (ws_detach s rid l)
  then show ?case by (simp add: app_inv_def)
qed (blast intro: ws_inv keeps_snd inv_append list_routes_keep auth_routes_keep)+

lemma reachable_inv: "server_reachable E v s \<Longrightarrow> app_inv v I s"
proof (induction rule: server_reachable.induct)
  case start
  show ?case using inv_start by (simp add: app_inv_def app_new_def)
next
  case (step s s')
  then show ?case by (blast intro: step_inv)
qed

end

lemma append_route_keeps:
  "(\<And>l e a n c sig. keeps I (insert_update l e a n c sig)) \<Longrightarrow> keeps (app_inv v I) (append_update_route E now header b)"
  unfolding append_update_route_def by (intro keeps_intros)

interpretation schema: server_invariant E v sv_wf for E v
proof unfold_locales
  fix db now assume "sv_wf db"
  then show "sv_wf (cleanup_expired_logins now (cleanup_expired_sessions now db))"
    by (auto simp: sv_wf_defs cleanup_expired_logins_def cleanup_expired_sessions_def)
qed (auto simp: sv_wf_defs server_empty_def intro: append_route_keeps keeps_intros)


section \<open>Authenticity of the log\<close>

definition authentic :: "server_env \<Rightarrow> server_db \<Rightarrow> server_update \<Rightarrow> bool" where
  "authentic E db u \<longleftrightarrow> (\<exists>row ver. row_get us_member_id (su_author u) (sv_users db) = Some row \<and>
     c_verify (en_crypto E) (us_signing_pub row)
       (signing_view ver (su_list_id u) (su_epoch u) (su_author u) (su_nonce u) (su_ciphertext u)) (su_signature u))"

definition log_authentic :: "server_env \<Rightarrow> server_db \<Rightarrow> bool" where
  "log_authentic E db \<longleftrightarrow> (\<forall>u\<in>set (sv_updates db). authentic E db u)"

text \<open>A statement that adds no update and changes no user keeps the log authentic.\<close>

lemma keeps_authentic:
  assumes "\<And>db. set (sv_updates (f db)) \<subseteq> set (sv_updates db)"
    and "\<And>db. ok db \<Longrightarrow> \<exists>us. sv_users (f db) = sv_users db @ us"
  shows "keeps (log_authentic E) (statement ok f)"
proof (rule keeps_statement)
  fix db assume db: "log_authentic E db" "ok db"
  obtain us where us: "sv_users (f db) = sv_users db @ us" using assms(2) [OF db(2)] by blast
  have "authentic E (f db) u" if "authentic E db u" for u
    using that by (auto simp: authentic_def us row_get_append)
  then show "log_authentic E (f db)" using db(1) assms(1) by (auto simp: log_authentic_def)
qed

lemma auth_extractor_state: "auth_extractor E now header s = (r, s') \<Longrightarrow> s' = s"
  by (auto simp: auth_extractor_def split: option.splits sum.splits)

lemma reader_state:
  "ask e f s = (r, s') \<Longrightarrow> s' = s" "ensure e b s = (q, s') \<Longrightarrow> s' = s" "body_or bd s = (p, s') \<Longrightarrow> s' = s"
  by (auto simp: ask_def ensure_def body_or_def split: option.splits if_splits)

lemma append_update_cases:
  assumes "append_update_route E now header body s = (r, s')"
  obtains (rejected) e where "r = Inl e" "s' = s"
  | (stored) auth b db' where "auth_extractor E now header s = (Inr auth, s)" "body = Some b" "au_author b = at_member_id auth"
    "ap_verify_signatures s \<Longrightarrow> \<exists>pub. fetch_author_signing_pub (au_list_id b) (au_author b) (ap_db s) = Some pub \<and>
       verify_update_signature E pub b"
    "insert_update (au_list_id b) (au_epoch b) (au_author b) (au_nonce b) (au_ciphertext b) (au_signature b) (ap_db s) = (r, db')"
    "s' = (case r of Inl _ \<Rightarrow> s\<lparr> ap_db := db' \<rparr>
           | Inr seq \<Rightarrow> s\<lparr> ap_db := db', ap_hub := hub_publish (au_list_id b) (stored_of seq b) (ap_hub s) \<rparr>)"
proof (cases "auth_extractor E now header s")
  case (Pair ra s1)
  then have [simp]: "s1 = s" by (rule auth_extractor_state)
  note rest = assms [unfolded append_update_route_def sbind_def [of "auth_extractor E now header"] Pair, simplified]
  show thesis
  proof (cases ra)
    case (Inl e)
    then show thesis using rest by (intro rejected [of "projl r"]) auto
  next
    case (Inr auth)
    show thesis
    proof (cases body)
      case None
      then show thesis using rest Inr by (intro rejected [of "projl r"]) (auto simp: sbind_def body_or_def)
    next
      case (Some b)
      let ?check = "\<exists>pub. fetch_author_signing_pub (au_list_id b) (au_author b) (ap_db s) = Some pub \<and> verify_update_signature E pub b"
      show thesis
      proof (cases "au_author b = at_member_id auth \<and> (ap_verify_signatures s \<longrightarrow> ?check)")
        case False
        then show thesis
          using rest Inr Some by (intro rejected [of "projl r"]) (auto simp: sbind_def body_or_def ensure_def ask_def split: option.splits if_splits)
      next
        case True
        then have "sbind (on_db (insert_update (au_list_id b) (au_epoch b) (au_author b) (au_nonce b) (au_ciphertext b) (au_signature b)))
            (\<lambda>seq s. (Inr seq, s\<lparr> ap_hub := hub_publish (au_list_id b) (stored_of seq b) (ap_hub s) \<rparr>)) s = (r, s')"
          using rest Inr Some by (auto simp: sbind_def body_or_def ensure_def ask_def split: if_splits)
        then show thesis
          using True Inr Some Pair
          by (intro stored [of auth b "snd (insert_update (au_list_id b) (au_epoch b) (au_author b) (au_nonce b)
                (au_ciphertext b) (au_signature b) (ap_db s))"]) (auto simp: sbind_def on_db_def split: prod.splits sum.splits)
      qed
    qed
  qed
qed


lemma authentic_append:
  assumes "log_authentic E db" and "insert_update (au_list_id b) (au_epoch b) (au_author b) (au_nonce b) (au_ciphertext b) (au_signature b) db = (r, db')"
    and "fetch_author_signing_pub (au_list_id b) (au_author b) db = Some pub" and "verify_update_signature E pub b"
  shows "log_authentic E db'"
proof -
  have "\<exists>row. row_get us_member_id (au_author b) (sv_users db) = Some row \<and> us_signing_pub row = pub"
    using assms(3) by (auto simp: fetch_author_signing_pub_def split: option.splits)
  then show ?thesis
    using assms(1,2,4)
    by (auto simp: insert_update_def Let_def log_authentic_def authentic_def verify_update_signature_def update_view_def
        split: if_splits option.splits) blast
qed

interpretation signed_log: server_invariant E True "log_authentic E" for E
proof unfold_locales
  fix now header b
  show "keeps (app_inv True (log_authentic E)) (append_update_route E now header b)"
  proof (rule keepsI)
    fix s assume inv: "app_inv True (log_authentic E) s"
    show "app_inv True (log_authentic E) (snd (append_update_route E now header b s))"
    proof (cases "append_update_route E now header b s")
      case (Pair r s')
      then have "app_inv True (log_authentic E) s'"
      proof (cases rule: append_update_cases)
        case (stored auth b db')
        have I: "ap_verify_signatures s" "log_authentic E (ap_db s)" using inv by (simp_all add: app_inv_def)
        obtain pub where "fetch_author_signing_pub (au_list_id b) (au_author b) (ap_db s) = Some pub"
          "verify_update_signature E pub b" using stored(4) I(1) by blast
        from authentic_append [OF I(2) stored(5) this] show ?thesis
          using I(1) stored(6) by (simp add: app_inv_def split: sum.splits)
      qed (use inv in simp)
      then show ?thesis by (simp add: Pair)
    qed
  qed
next
  fix db now assume "log_authentic E db"
  then show "log_authentic E (cleanup_expired_logins now (cleanup_expired_sessions now db))"
    by (simp add: log_authentic_def authentic_def cleanup_expired_logins_def cleanup_expired_sessions_def)
next
  show "log_authentic E server_empty" by (simp add: log_authentic_def server_empty_def)
qed (auto simp: upsert_snapshot_def create_list_sv_def delete_list_sv_def add_member_sv_def remove_member_sv_def
       insert_member_def upsert_member_def add_slot_def rotate_slot_def Let_def create_user_def create_session_def
       delete_session_def login_start_def login_finish_def enroll_trusted_device_key_def revoke_trusted_device_key_def
     intro!: keeps_intros keeps_authentic)

text \<open>C10: on a server that verifies signatures, every update that is ever in the log, whatever requests
  came before, carries a signature that verifies under the registered key of its author over the
  list, epoch, author, nonce and ciphertext under which it is stored.\<close>

theorem stored_updates_signed:
  assumes "server_reachable E True s" and "u \<in> set (sv_updates (ap_db s))"
  shows "\<exists>row ver. row_get us_member_id (su_author u) (sv_users (ap_db s)) = Some row \<and>
     c_verify (en_crypto E) (us_signing_pub row)
       (signing_view ver (su_list_id u) (su_epoch u) (su_author u) (su_nonce u) (su_ciphertext u)) (su_signature u)"
  using signed_log.reachable_inv [OF assms(1)] assms(2)
  by (auto simp: app_inv_def log_authentic_def authentic_def)

end
