(* ===== verification/ServerRouter.thy ===== *)
theory ServerRouter
  imports ServerAuth Http "HOL-Library.Stream"
begin

text \<open>
  The route table of the server (\<open>todoers-server/src/routes/mod.rs\<close>, \<open>health.rs\<close>): which handler a method
  and a path reach, with which body type, and the status of its response.  The WebSocket route is
  \<open>ws_attach\<close> and \<open>ws_forward\<close> of \<open>ServerRoutes\<close>.  A tick holds what a handler reads besides the request
  and the state: the clock and the random source.
\<close>

record tick =
  tk_now :: int
  tk_uuid :: uuid
  tk_token_rnd :: "32 fixed"
  tk_nonce :: nonce
  tk_opaque_rnd :: bytes

definition respond :: "nat \<Rightarrow> ('a \<Rightarrow> response_body) \<Rightarrow> 'a handler \<Rightarrow> app_state \<Rightarrow> http_response \<times> app_state" where
  "respond status f h s =
     (case h s of
        (Inl e, s') \<Rightarrow> ((status_code e, RespError (error_message e)), s')
      | (Inr x, s') \<Rightarrow> ((status, f x), s'))"

definition plain :: "nat \<Rightarrow> app_state \<Rightarrow> http_response \<times> app_state" where
  "plain status s = ((status, RespEmpty), s)"

section \<open>Bodies at their types\<close>

definition body_list :: "request_body option \<Rightarrow> list_id option" where
  "body_list b = (case b of Some (BodyList l) \<Rightarrow> Some l | _ \<Rightarrow> None)"

definition body_device :: "request_body option \<Rightarrow> device_id option" where
  "body_device b = (case b of Some (BodyDevice d) \<Rightarrow> Some d | _ \<Rightarrow> None)"

section \<open>The route table\<close>

definition route_lists :: "server_env \<Rightarrow> tick \<Rightarrow> http_method \<Rightarrow> string option \<Rightarrow> request_body option
    \<Rightarrow> app_state \<Rightarrow> http_response \<times> app_state" where
  "route_lists E t m auth b =
     (case m of
        POST \<Rightarrow> respond 201 RespList (create_list_route E (tk_now t) auth (case b of Some (BodyCreateList x) \<Rightarrow> Some x | _ \<Rightarrow> None))
      | GET \<Rightarrow> respond 200 RespLists (fetch_lists_route E (tk_now t) auth)
      | DELETE \<Rightarrow> respond 204 (\<lambda>_. RespEmpty) (delete_list_route E (tk_now t) auth (body_list b))
      | PUT \<Rightarrow> plain 405)"

definition route_members :: "server_env \<Rightarrow> tick \<Rightarrow> http_method \<Rightarrow> string option \<Rightarrow> request_body option
    \<Rightarrow> app_state \<Rightarrow> http_response \<times> app_state" where
  "route_members E t m auth b =
     (case m of
        POST \<Rightarrow> respond 204 (\<lambda>_. RespEmpty)
          (add_member_route E (tk_now t) auth (case b of Some (BodyAddMember x) \<Rightarrow> Some x | _ \<Rightarrow> None))
      | DELETE \<Rightarrow> respond 204 (\<lambda>_. RespEmpty)
          (remove_member_route E (tk_now t) auth (case b of Some (BodyRemoveMember x) \<Rightarrow> Some x | _ \<Rightarrow> None))
      | _ \<Rightarrow> plain 405)"

definition route_updates :: "server_env \<Rightarrow> tick \<Rightarrow> http_method \<Rightarrow> string option \<Rightarrow> request_body option
    \<Rightarrow> app_state \<Rightarrow> http_response \<times> app_state" where
  "route_updates E t m auth b =
     (case m of
        POST \<Rightarrow> respond 201 RespSeq
          (append_update_route E (tk_now t) auth (case b of Some (BodyAppend x) \<Rightarrow> Some x | _ \<Rightarrow> None))
      | PUT \<Rightarrow> respond 200 RespUpdates
          (pull_updates_route E (tk_now t) auth (case b of Some (BodyPull x) \<Rightarrow> Some x | _ \<Rightarrow> None))
      | _ \<Rightarrow> plain 405)"

definition route_snapshot :: "server_env \<Rightarrow> tick \<Rightarrow> http_method \<Rightarrow> string option \<Rightarrow> request_body option
    \<Rightarrow> app_state \<Rightarrow> http_response \<times> app_state" where
  "route_snapshot E t m auth b =
     (case m of
        POST \<Rightarrow> respond 204 (\<lambda>_. RespEmpty)
          (put_snapshot_route E (tk_now t) auth (case b of Some (BodyPutSnapshot x) \<Rightarrow> Some x | _ \<Rightarrow> None))
      | PUT \<Rightarrow> respond 200 RespSnapshot (get_snapshot_route E (tk_now t) auth (body_list b))
      | _ \<Rightarrow> plain 405)"

definition route_devices :: "server_env \<Rightarrow> tick \<Rightarrow> http_method \<Rightarrow> string option \<Rightarrow> request_body option
    \<Rightarrow> app_state \<Rightarrow> http_response \<times> app_state" where
  "route_devices E t m auth b =
     (case m of
        POST \<Rightarrow> respond 201 (\<lambda>_. RespEmpty)
          (enroll_route E (tk_now t) auth (case b of Some (BodyEnroll d p l) \<Rightarrow> Some (d, p, l) | _ \<Rightarrow> None))
      | GET \<Rightarrow> respond 200 RespDevices (list_devices_route E (tk_now t) auth)
      | DELETE \<Rightarrow> respond 204 (\<lambda>_. RespEmpty) (revoke_route E (tk_now t) auth (body_device b))
      | PUT \<Rightarrow> plain 405)"

definition route_auth :: "server_env \<Rightarrow> tick \<Rightarrow> string \<Rightarrow> string option \<Rightarrow> request_body option
    \<Rightarrow> app_state \<Rightarrow> http_response \<times> app_state" where
  "route_auth E t p auth b =
     (if p = ''/v1/auth/register/start'' then
        respond 200 RespRegisterStart (registration_start E
          (case b of Some (BodyRegisterStart x) \<Rightarrow> Some (sr_identity_pub x, sr_registration_req x) | _ \<Rightarrow> None))
      else if p = ''/v1/auth/register/finish'' then
        respond 200 RespRegisterFinish (registration_finish E (case b of Some (BodyRegisterFinish x) \<Rightarrow> Some x | _ \<Rightarrow> None))
      else if p = ''/v1/auth/login/start'' then
        respond 200 (\<lambda>(i, msg). RespLoginStart i msg) (login_start_route E (tk_now t) (tk_uuid t) (tk_opaque_rnd t)
          (case b of Some (BodyLoginStart n c) \<Rightarrow> Some (n, c) | _ \<Rightarrow> None))
      else if p = ''/v1/auth/login/finish'' then
        respond 200 RespLoginFinish (login_finish_route E (tk_now t) (tk_token_rnd t)
          (case b of Some (BodyLoginFinish i f) \<Rightarrow> Some (i, f) | _ \<Rightarrow> None))
      else if p = ''/v1/auth/logout'' then respond 200 (\<lambda>_. RespEmpty) (logout_route E (tk_now t) auth)
      else if p = ''/v1/auth/device-login/start'' then
        respond 200 (\<lambda>(i, n). RespDeviceLoginStart i n) (device_login_start_route (tk_now t) (tk_uuid t) (tk_nonce t)
          (case b of Some (BodyDeviceLoginStart m d) \<Rightarrow> Some (m, d) | _ \<Rightarrow> None))
      else if p = ''/v1/auth/device-login/finish'' then
        respond 200 RespDeviceLoginFinish (device_login_finish_route E (tk_now t) (tk_token_rnd t)
          (case b of Some (BodyDeviceLoginFinish i g) \<Rightarrow> Some (i, g) | _ \<Rightarrow> None))
      else plain 404)"

definition auth_paths :: "string list" where
  "auth_paths = [''/v1/auth/register/start'', ''/v1/auth/register/finish'', ''/v1/auth/login/start'',
     ''/v1/auth/login/finish'', ''/v1/auth/logout'', ''/v1/auth/device-login/start'', ''/v1/auth/device-login/finish'']"

definition build_router :: "server_env \<Rightarrow> tick \<Rightarrow> http_method \<Rightarrow> string \<Rightarrow> string option \<Rightarrow> request_body option
    \<Rightarrow> app_state \<Rightarrow> http_response \<times> app_state" where
  "build_router E t m p auth b =
     (if p = ''/healthz'' then (if m = GET then (\<lambda>s. ((200, RespText ''ok''), s)) else plain 405)
      else if p = ''/v1/lists'' then route_lists E t m auth b
      else if p = ''/v1/lists/metadata'' then
        (if m = PUT then respond 200 RespMetadata (get_metadata_route E (tk_now t) auth (body_list b)) else plain 405)
      else if p = ''/v1/lists/keys'' then
        (if m = PUT then respond 200 RespKeys (get_my_keys_route E (tk_now t) auth (body_list b)) else plain 405)
      else if p = ''/v1/lists/members'' then route_members E t m auth b
      else if p = ''/v1/users/pubkeys'' then
        (if m = PUT then respond 200 RespPubkeys
           (get_user_pubkeys_route E (tk_now t) auth (case b of Some (BodyName n) \<Rightarrow> Some n | _ \<Rightarrow> None)) else plain 405)
      else if p = ''/v1/lists/updates'' then route_updates E t m auth b
      else if p = ''/v1/lists/snapshot'' then route_snapshot E t m auth b
      else if p = ''/v1/auth/devices'' then route_devices E t m auth b
      else if p \<in> set auth_paths then (if m = POST then route_auth E t p auth b else plain 405)
      else plain 404)"

text \<open>A client's transport to this server, which is reached at its own base URL and at no other.  The
  world is the server with the ticks it will handle its requests at.\<close>

record served =
  sd_app :: app_state
  sd_ticks :: "tick stream"

definition serve :: "server_env \<Rightarrow> string \<Rightarrow> served transport" where
  "serve E base rq w =
     (case strip_prefix base (rq_url rq) of
        None \<Rightarrow> (None, w)
      | Some p \<Rightarrow>
          (case build_router E (shd (sd_ticks w)) (rq_method rq) p (rq_auth rq) (rq_body rq) (sd_app w) of
             (r, s') \<Rightarrow> (Some r, \<lparr> sd_app = s', sd_ticks = stl (sd_ticks w) \<rparr>)))"

lemma respond_state: "snd (respond st f h s) = snd (h s)"
  by (simp add: respond_def split: prod.splits sum.splits)

text \<open>Whatever a request asks for, what it leaves behind is the result of at most one step of the server.\<close>

definition at_most_a_step :: "server_env \<Rightarrow> (app_state \<Rightarrow> http_response \<times> app_state) \<Rightarrow> bool" where
  "at_most_a_step E h \<longleftrightarrow> (\<forall>s. snd (h s) = s \<or> server_step E s (snd (h s)))"

lemma step_plain: "at_most_a_step E (plain st)"
  by (simp add: at_most_a_step_def plain_def)

lemma step_respond: "(\<And>s. server_step E s (snd (h s))) \<Longrightarrow> at_most_a_step E (respond st f h)"
  by (simp add: at_most_a_step_def respond_state)

lemma step_method:
  "at_most_a_step E g \<Longrightarrow> at_most_a_step E p \<Longrightarrow> at_most_a_step E u \<Longrightarrow> at_most_a_step E d \<Longrightarrow>
     at_most_a_step E (case m of GET \<Rightarrow> g | POST \<Rightarrow> p | PUT \<Rightarrow> u | DELETE \<Rightarrow> d)"
  by (cases m) simp_all

lemma step_if: "(c \<Longrightarrow> at_most_a_step E f) \<Longrightarrow> (\<not> c \<Longrightarrow> at_most_a_step E g) \<Longrightarrow> at_most_a_step E (if c then f else g)"
  by simp

lemmas step_intros = step_plain step_respond step_method step_if server_step.intros

lemma route_steps:
  "at_most_a_step E (route_lists E t m auth b)" "at_most_a_step E (route_members E t m auth b)"
  "at_most_a_step E (route_updates E t m auth b)" "at_most_a_step E (route_snapshot E t m auth b)"
  "at_most_a_step E (route_devices E t m auth b)" "at_most_a_step E (route_auth E t p auth b)"
  unfolding route_lists_def route_members_def route_updates_def route_snapshot_def route_devices_def route_auth_def
  by (intro step_intros)+

lemma build_router_step: "at_most_a_step E (build_router E t m p auth b)"
proof -
  have "at_most_a_step E (\<lambda>s. ((200, RespText ''ok''), s))" by (simp add: at_most_a_step_def)
  then show ?thesis
    unfolding build_router_def by (intro step_intros route_steps)
qed

lemma serve_reachable:
  assumes "server_reachable E v (sd_app w)"
  shows "server_reachable E v (sd_app (snd (serve E base rq w)))"
proof (cases "strip_prefix base (rq_url rq)")
  case (Some p)
  then show ?thesis
    using build_router_step [of E "shd (sd_ticks w)" "rq_method rq" p "rq_auth rq" "rq_body rq"]
      assms server_reachable.step [OF assms]
    by (auto simp: serve_def at_most_a_step_def split: prod.splits dest: spec [of _ "sd_app w"])
qed (use assms in \<open>simp add: serve_def\<close>)

end
