(* ===== verification/ServerProps.thy ===== *)
theory ServerProps
  imports ServerAuth
begin

text \<open>What the server guarantees across its routes: the reachable states keep the schema and the signed
  log, an append is idempotent, membership changes need the owner and revoke keys, snapshots, the
  device logins and their revocation, and the live stream. Each guarantee is stated over the
  handlers of ServerRoutes and ServerAuth and followed by a concrete run.\<close>

section \<open>A concrete server\<close>

definition toy_senv :: server_env where
  "toy_senv = \<lparr> en_crypto = toy_crypto, en_b64_encode = map (\<lambda>b. char_of (unat b)), en_b64_decode = (\<lambda>s. Some (ascii s)),
     en_sha512 = (\<lambda>bs. fixed_of_slice (take 64 (bs @ replicate 64 0))), en_hmac = (\<lambda>k m. m), op_server_key = [],
     op_registration_request = Some, op_registration_start = (\<lambda>r i. Some r), op_registration_upload = Some,
     op_credential_request = Some, op_password_file = Some, op_login_start = (\<lambda>rnd pw req cid. Some (req, cid)),
     op_login_state = Some, op_finalization = Some,
     op_login_finish = (\<lambda>st fin. if st = fin then Some fin else None) \<rparr>"

definition demo_token :: string where "demo_token = replicate 32 CHR ''A''"
definition demo_header :: "string option" where "demo_header = Some (''Bearer '' @ demo_token)"
definition demo_hash :: token_hash where "demo_hash = en_sha512 toy_senv (ascii demo_token)"
definition demo_rnd :: "32 fixed" where "demo_rnd = fixed_repeat 0x41"

definition demo_user :: user_row where
  "demo_user = \<lparr> us_member_id = fixed_repeat 1, us_username = ''ann'', us_identity_pub = fixed_repeat 1,
     us_signing_pub = fixed_repeat 1, us_wrapped_secret_keys = [], us_opaque_record = [5] \<rparr>"

definition demo_session_row :: session_row where
  "demo_session_row = \<lparr> sx_token_hash = demo_hash, sx_member_id = fixed_repeat 1, sx_device_id = None,
     sx_expires_at = session_ttl, sx_created_at = 0 \<rparr>"

definition demo_sdb :: server_db where
  "demo_sdb = server_empty\<lparr> sv_users := [demo_user], sv_sessions := [demo_session_row],
     sv_lists := [\<lparr> sl_list_id = fixed_repeat 1, sl_current_epoch = 1 \<rparr>],
     sv_members := [\<lparr> sm_list_id = fixed_repeat 1, sm_member_id = fixed_repeat 1, sm_role = Owner \<rparr>],
     sv_slots := [\<lparr> sk_list_id = fixed_repeat 1, sk_epoch = 1, sk_member_id = fixed_repeat 1, sk_wrapped_dek = [3] \<rparr>] \<rparr>"

definition demo_app :: app_state where
  "demo_app = (app_new True)\<lparr> ap_db := demo_sdb \<rparr>"

lemma toy_senv_sel [simp]:
  "en_crypto toy_senv = toy_crypto" "op_registration_upload toy_senv = Some" "op_credential_request toy_senv = Some"
  "op_password_file toy_senv = Some" "op_login_start toy_senv rnd pw req cid = Some (req, cid)"
  "op_login_state toy_senv = Some" "op_finalization toy_senv = Some"
  "op_login_finish toy_senv st fin = (if st = fin then Some fin else None)"
  by (simp_all add: toy_senv_def)

lemma char_of_65: "char_of (65 :: nat) = CHR ''A''"
  using char_of_char [of "CHR ''A''", where 'a = nat] by simp

lemma demo_strip: "strip_prefix ''Bearer '' (''Bearer '' @ demo_token) = Some demo_token"
  by (simp add: strip_prefix_def)

lemma demo_trim: "trim demo_token = demo_token"
  by (simp add: trim_def is_space_def demo_token_def numeral_eq_Suc)

lemma demo_hash_token: "hash_token toy_senv demo_token = Inr demo_hash"
  by (simp add: hash_token_def demo_hash_def) (simp add: toy_senv_def)

lemma demo_mint: "mint_session_token toy_senv demo_rnd = (demo_token, demo_hash)"
  by (simp add: mint_session_token_def demo_rnd_def demo_token_def demo_hash_def toy_senv_def ascii_def char_of_65)

lemma demo_extract:
  "row_get sx_token_hash demo_hash (sv_sessions (ap_db s)) = Some demo_session_row \<Longrightarrow> now < session_ttl \<Longrightarrow>
     auth_extractor toy_senv now demo_header s =
       (Inr \<lparr> at_member_id = fixed_repeat 1, at_token_hash = demo_hash, at_device_id = None, at_created_at = 0 \<rparr>, s)"
  unfolding auth_extractor_def demo_header_def option.case demo_strip demo_trim demo_hash_token sum.case lookup_session_def
  by (simp add: demo_session_row_def)

lemma demo_member: "member_id_from_identity_pub (en_hmac toy_senv) (fixed_repeat 1) = fixed_repeat 1"
  by (simp add: member_id_from_identity_pub_def toy_senv_def as_slice_eq_iff [symmetric])

lemmas handler_simps = sbind_def sreturn_def sfail_def body_or_def ensure_def ask_def on_db_def query_def statement_def
  safe_transaction_def

lemma demo_step1: "snd (registration_finish toy_senv (Some \<lparr> fr_username = ''ann'', fr_identity_pub = fixed_repeat 1,
     fr_signing_pub = fixed_repeat 1, fr_wrapped_secret_keys = [], fr_registration_up = [5] \<rparr>) (app_new True)) =
   (app_new True)\<lparr> ap_db := server_empty\<lparr> sv_users := [demo_user] \<rparr> \<rparr>"
  by (simp add: registration_finish_def handler_simps demo_member create_user_def app_new_def server_empty_def demo_user_def Let_def)

definition demo_login :: login_row where
  "demo_login = \<lparr> lc_login_id = fixed_repeat 2, lc_member_id = Some (fixed_repeat 1), lc_state = [4], lc_expires_at = login_ttl \<rparr>"

lemma demo_step2: "snd (login_start_route toy_senv 0 (fixed_repeat 2) [] (Some (''ann'', [4]))
     ((app_new True)\<lparr> ap_db := server_empty\<lparr> sv_users := [demo_user] \<rparr> \<rparr>)) =
   (app_new True)\<lparr> ap_db := server_empty\<lparr> sv_users := [demo_user], sv_logins := [demo_login] \<rparr> \<rparr>"
  by (simp add: login_start_route_def handler_simps fetch_login_user_def login_start_def app_new_def server_empty_def
      demo_user_def demo_login_def sv_has_user_def)

lemma demo_step3: "snd (login_finish_route toy_senv 0 demo_rnd (Some (fixed_repeat 2, [4]))
     ((app_new True)\<lparr> ap_db := server_empty\<lparr> sv_users := [demo_user], sv_logins := [demo_login] \<rparr> \<rparr>)) =
   (app_new True)\<lparr> ap_db := server_empty\<lparr> sv_users := [demo_user], sv_sessions := [demo_session_row] \<rparr> \<rparr>"
  by (simp add: login_finish_route_def handler_simps login_finish_def demo_mint fetch_user_keys_def create_session_def
      app_new_def server_empty_def demo_user_def demo_login_def sv_has_user_def row_del_def login_ttl_def
      demo_session_row_def)

lemma demo_step4: "snd (create_list_route toy_senv 0 demo_header (Some \<lparr> cl_list_id = fixed_repeat 1, cl_wrapped_dek = [3] \<rparr>)
     ((app_new True)\<lparr> ap_db := server_empty\<lparr> sv_users := [demo_user], sv_sessions := [demo_session_row] \<rparr> \<rparr>)) = demo_app"
proof -
  have "auth_extractor toy_senv 0 demo_header
     ((app_new True)\<lparr> ap_db := server_empty\<lparr> sv_users := [demo_user], sv_sessions := [demo_session_row] \<rparr> \<rparr>) =
    (Inr \<lparr> at_member_id = fixed_repeat 1, at_token_hash = demo_hash, at_device_id = None, at_created_at = 0 \<rparr>,
     (app_new True)\<lparr> ap_db := server_empty\<lparr> sv_users := [demo_user], sv_sessions := [demo_session_row] \<rparr> \<rparr>)"
    by (rule demo_extract) (simp_all add: demo_session_row_def session_ttl_def)
  then show ?thesis
    by (simp add: create_list_route_def handler_simps create_list_sv_def insert_member_def demo_app_def demo_sdb_def
        sv_has_list_def sv_has_user_def app_new_def server_empty_def demo_user_def)
qed

lemma demo_app_reachable: "server_reachable toy_senv True demo_app"
proof -
  note steps = server_reachable.step [OF server_reachable.start server_step.registration_finish]
    server_reachable.step [OF _ server_step.login_start] server_reachable.step [OF _ server_step.login_finish]
    server_reachable.step [OF _ server_step.create_list]
  have "server_reachable toy_senv True ((app_new True)\<lparr> ap_db := server_empty\<lparr> sv_users := [demo_user] \<rparr> \<rparr>)"
    unfolding demo_step1 [symmetric] by (rule steps(1))
  then have "server_reachable toy_senv True
      ((app_new True)\<lparr> ap_db := server_empty\<lparr> sv_users := [demo_user], sv_logins := [demo_login] \<rparr> \<rparr>)"
    unfolding demo_step2 [symmetric] by (rule steps(2))
  then have "server_reachable toy_senv True
      ((app_new True)\<lparr> ap_db := server_empty\<lparr> sv_users := [demo_user], sv_sessions := [demo_session_row] \<rparr> \<rparr>)"
    unfolding demo_step3 [symmetric] by (rule steps(3))
  then show ?thesis unfolding demo_step4 [symmetric] by (rule steps(4))
qed

definition demo_body :: append_update where
  "demo_body = (let p = produce_update toy_crypto (fixed_repeat 4) 1 (fixed_repeat 1) 1 (fixed_repeat 1) (fixed_repeat 7)
       (fixed_repeat 1) [6]
     in \<lparr> au_list_id = fixed_repeat 1, au_version = 1, au_epoch = 1, au_author = fixed_repeat 1, au_nonce = fixed_repeat 4,
          au_ciphertext = up_ciphertext p, au_signature = up_signature p \<rparr>)"


lemma demo_auth: "sv_sessions (ap_db s) = [demo_session_row] \<Longrightarrow> now < session_ttl \<Longrightarrow>
     auth_extractor toy_senv now demo_header s =
       (Inr \<lparr> at_member_id = fixed_repeat 1, at_token_hash = demo_hash, at_device_id = None, at_created_at = 0 \<rparr>, s)"
  by (rule demo_extract) (simp_all add: demo_session_row_def)

lemma demo_body_sel [simp]: "au_list_id demo_body = fixed_repeat 1" "au_epoch demo_body = 1" "au_author demo_body = fixed_repeat 1"
  "au_nonce demo_body = fixed_repeat 4" "au_version demo_body = 1"
  by (simp_all add: demo_body_def Let_def)

lemma demo_body_signed: "verify_update_signature toy_senv (fixed_repeat 1) demo_body"
proof -
  have "c_verifying_key toy_crypto (fixed_repeat 1) = fixed_repeat 1" by (simp add: toy_crypto_def)
  then show ?thesis
    using sign_okD [OF toy_crypto_ok, of "fixed_repeat 1"]
    by (simp add: verify_update_signature_def update_view_def) (simp add: demo_body_def produce_update_def Let_def)
qed

definition demo_update :: server_update where
  "demo_update = \<lparr> su_seq = 1, su_list_id = fixed_repeat 1, su_epoch = 1, su_author = fixed_repeat 1, su_nonce = fixed_repeat 4,
     su_ciphertext = au_ciphertext demo_body, su_signature = au_signature demo_body \<rparr>"

lemma demo_append: "append_update_route toy_senv 0 demo_header (Some demo_body) demo_app =
    (Inr 1, demo_app\<lparr> ap_db := demo_sdb\<lparr> sv_updates := [demo_update], sv_next_seq := 2 \<rparr> \<rparr>)"
proof -
  have "auth_extractor toy_senv 0 demo_header demo_app =
    (Inr \<lparr> at_member_id = fixed_repeat 1, at_token_hash = demo_hash, at_device_id = None, at_created_at = 0 \<rparr>, demo_app)"
    by (rule demo_auth) (simp_all add: demo_app_def demo_sdb_def session_ttl_def app_new_def)
  moreover have "fetch_author_signing_pub (fixed_repeat 1) (fixed_repeat 1) demo_sdb = Some (fixed_repeat 1)"
    by (simp add: fetch_author_signing_pub_def demo_sdb_def demo_user_def)
  moreover have "insert_update (fixed_repeat 1) 1 (fixed_repeat 1) (fixed_repeat 4) (au_ciphertext demo_body) (au_signature demo_body) demo_sdb =
      (Inr 1, demo_sdb\<lparr> sv_updates := [demo_update], sv_next_seq := 2 \<rparr>)"
    by (simp add: insert_update_def epoch_check_def sv_has_list_def sv_has_user_def demo_sdb_def server_empty_def
        demo_user_def demo_update_def)
  ultimately show ?thesis
    using demo_body_signed
    by (simp add: append_update_route_def handler_simps demo_app_def app_new_def hub_publish_def)
qed


theorem stored_updates_signed_witness:
  "\<exists>ver. c_verify toy_crypto (fixed_repeat 1)
     (signing_view ver (fixed_repeat 1) 1 (fixed_repeat 1) (fixed_repeat 4) (su_ciphertext demo_update)) (su_signature demo_update)"
proof -
  have "server_reachable toy_senv True (demo_app\<lparr> ap_db := demo_sdb\<lparr> sv_updates := [demo_update], sv_next_seq := 2 \<rparr> \<rparr>)"
    using server_reachable.step [OF demo_app_reachable server_step.append_update [of toy_senv demo_app 0 demo_header "Some demo_body"]]
    by (simp add: demo_append)
  from stored_updates_signed [OF this, of demo_update] show ?thesis
    by (simp add: demo_update_def demo_sdb_def demo_user_def)
qed


section \<open>What the handlers do\<close>

lemma on_db_Inr: "on_db f s = (Inr x, s') \<longleftrightarrow> (\<exists>db. f (ap_db s) = (Inr x, db) \<and> s' = s\<lparr> ap_db := db \<rparr>)"
  by (auto simp: on_db_def split: prod.splits)

lemma ask_Inr: "ask e f s = (Inr x, s') \<longleftrightarrow> f (ap_db s) = Some x \<and> s' = s"
  by (auto simp: ask_def split: option.splits)

lemma ensure_Inr: "ensure e b s = (Inr u, s') \<longleftrightarrow> b \<and> s' = s"
  by (auto simp: ensure_def)

lemma body_or_Inr: "body_or body s = (Inr b, s') \<longleftrightarrow> body = Some b \<and> s' = s"
  by (auto simp: body_or_def split: option.splits)

lemma statement_Inr: "statement ok f db = (Inr u, db') \<longleftrightarrow> ok db \<and> db' = f db"
  by (auto simp: statement_def)

lemma query_Inr: "query f db = (Inr x, db') \<longleftrightarrow> x = f db \<and> db' = db"
  by (auto simp: query_def)

lemma transaction_Inr: "safe_transaction f db = (Inr x, db') \<longleftrightarrow> f db = (Inr x, db')"
  by (auto simp: safe_transaction_def split: prod.splits sum.splits)

lemma step_up_Inr: "step_up now a s = (Inr u, s') \<longleftrightarrow> require_password_step_up now a = None \<and> s' = s"
  by (auto simp: step_up_def split: option.splits)

lemma require_owner_Inr: "require_owner l m s = (Inr u, s') \<longleftrightarrow> member_role l m (ap_db s) = Some Owner \<and> s' = s"
  by (auto simp: require_owner_def ensure_def)

lemmas route_simps = sbind_Inr on_db_Inr ask_Inr ensure_Inr body_or_Inr statement_Inr query_Inr transaction_Inr
  step_up_Inr require_owner_Inr sreturn_Inr

text \<open>Uploading the same update twice is harmless: when both requests are accepted the second
  returns the sequence number of the first and the log is unchanged; and the number returned is
  that of the row in the log with this signature.\<close>

lemma append_idempotent:
  assumes "append_update_route E now header (Some b) s = (Inr q, s1)"
    and "append_update_route E now' header' (Some b) s1 = (Inr q', s2)"
  shows "q' = q \<and> sv_updates (ap_db s2) = sv_updates (ap_db s1) \<and>
     (\<exists>u\<in>set (sv_updates (ap_db s1)). su_seq u = q \<and> su_signature u = au_signature b)"
proof -
  have first: "\<exists>u. row_get su_signature (au_signature b) (sv_updates (ap_db s1)) = Some u \<and> su_seq u = q"
    using assms(1)
    by (cases rule: append_update_cases)
       (auto simp: insert_update_def Let_def row_get_append split: if_splits option.splits)
  then obtain u where u: "row_get su_signature (au_signature b) (sv_updates (ap_db s1)) = Some u" "su_seq u = q" by blast
  have "q' = q \<and> sv_updates (ap_db s2) = sv_updates (ap_db s1)"
    using assms(2)
    by (cases rule: append_update_cases) (use u in \<open>auto simp: insert_update_def Let_def split: if_splits\<close>)
  then show ?thesis using u row_get_Some_key [OF u(1)] by blast
qed

text \<open>C23: the three operations that change a list or its membership are for its owners: any other
  authenticated caller, member or not, gets 403 and nothing changes.\<close>

theorem membership_owner_only:
  assumes "auth_extractor E now header s = (Inr auth, s)" and "member_role l (at_member_id auth) (ap_db s) \<noteq> Some Owner"
    and "am_list_id add = l" and "rm_list_id rem = l"
  shows "\<exists>e. status_code e = 403 \<and> delete_list_route E now header (Some l) s = (Inl e, s) \<and>
     add_member_route E now header (Some add) s = (Inl e, s) \<and> remove_member_route E now header (Some rem) s = (Inl e, s)"
  by (rule exI [of _ "Forbidden ''only an owner may change membership''"])
     (use assms in \<open>simp add: delete_list_route_def add_member_route_def remove_member_route_def sbind_def body_or_def
        require_owner_def ensure_def\<close>)

theorem membership_owner_only_witness:
  "\<exists>e. status_code e = 403 \<and> delete_list_route toy_senv 0 demo_header (Some (fixed_repeat 9)) demo_app = (Inl e, demo_app)"
proof -
  have "auth_extractor toy_senv 0 demo_header demo_app =
    (Inr \<lparr> at_member_id = fixed_repeat 1, at_token_hash = demo_hash, at_device_id = None, at_created_at = 0 \<rparr>, demo_app)"
    by (rule demo_auth) (simp_all add: demo_app_def demo_sdb_def session_ttl_def app_new_def)
  from membership_owner_only [OF this, of "fixed_repeat 9"
      "\<lparr> am_list_id = fixed_repeat 9, am_member_id = fixed_repeat 1, am_role = Owner, am_wrapped_dek = [], am_epoch = 1 \<rparr>"
      "\<lparr> rm_list_id = fixed_repeat 9, rm_remove_member_id = fixed_repeat 1, rm_epoch = 1, rm_new_slots = [] \<rparr>"]
  show ?thesis by (auto simp: member_role_def demo_app_def demo_sdb_def)
qed

text \<open>The snapshot endpoint does not check membership or the signature: any authenticated caller can
  replace the snapshot of any list with bytes of their choice and delete its whole update log.\<close>

lemma snapshot_by_stranger:
  assumes "auth_extractor E now header s = (Inr auth, s)" and "sv_has_list l (ap_db s)" and "epoch_check e"
    and "\<forall>u\<in>set (sv_updates (ap_db s)). su_seq u \<le> covers"
  shows "\<exists>s'. put_snapshot_route E now header (Some \<lparr> ps_list_id = l, ps_epoch = e, ps_covers_seq = covers,
             ps_nonce = n, ps_ciphertext = c, ps_signature = sig \<rparr>) s = (Inr (), s') \<and>
     fetch_snapshot l (ap_db s') = Some \<lparr> sn_epoch = e, sn_covers_seq = covers, sn_nonce = n, sn_ciphertext = c, sn_signature = sig \<rparr> \<and>
     (\<forall>after limit. fetch_updates_after l after limit (ap_db s') = [])"
proof -
  have "filter (\<lambda>r. su_list_id r = l \<and> after < su_seq r)
     (filter (\<lambda>r. \<not> (su_list_id r = l \<and> su_seq r \<le> covers)) (sv_updates (ap_db s))) = []" for after
    using assms(4) by (auto simp: filter_empty_conv)
  then have "fetch_updates_after l after limit
     (db\<lparr> sv_updates := filter (\<lambda>r. \<not> (su_list_id r = l \<and> su_seq r \<le> covers)) (sv_updates (ap_db s)) \<rparr>) = []"
    for db after limit
    by (simp add: fetch_updates_after_def sql_limit_def del: filter_filter)
  then show ?thesis
    using assms(1-3)
    by (simp add: put_snapshot_route_def handler_simps upsert_snapshot_def fetch_snapshot_def table_simps)
qed


section \<open>Rotation on the server\<close>

lemma rotate_slots_Inr:
  assumes "for_each (rotate_slot l gone e) ks db = (Inr (), db')"
  shows "gone \<notin> ke_member_id ` set ks \<and>
     (\<forall>k\<in>set ks. row_get sv_slot_key (l, e, ke_member_id k) (sv_slots db') \<noteq> None) \<and>
     (\<forall>key r. row_get sv_slot_key key (sv_slots db) = Some r \<longrightarrow> row_get sv_slot_key key (sv_slots db') = Some r) \<and>
     (\<exists>slots. db' = db\<lparr> sv_slots := slots \<rparr>)"
  using assms
proof (induction ks arbitrary: db)
  case Nil
  then show ?case by (auto simp: sreturn_def intro: exI [of _ "sv_slots db"])
next
  case (Cons k ks)
  let ?row = "\<lparr> sk_list_id = l, sk_epoch = e, sk_member_id = ke_member_id k, sk_wrapped_dek = ke_wrapped_dek k \<rparr>"
  obtain db1 where 1: "rotate_slot l gone e k db = (Inr (), db1)" and 2: "for_each (rotate_slot l gone e) ks db1 = (Inr (), db')"
    using Cons.prems by (auto simp: sbind_Inr)
  have k: "ke_member_id k \<noteq> gone" and db1: "db1 = db\<lparr> sv_slots := row_add sv_slot_key ?row (sv_slots db) \<rparr>"
    using 1 by (auto simp: rotate_slot_def add_slot_def sfail_def statement_Inr split: if_splits)
  have "row_get sv_slot_key (l, e, ke_member_id k) (sv_slots db1) \<noteq> None"
    by (auto simp: db1 row_add_def row_get_append split: option.splits)
  moreover have "row_get sv_slot_key key (sv_slots db1) = Some r" if "row_get sv_slot_key key (sv_slots db) = Some r" for key r
    using that by (auto simp: db1 row_add_def row_get_append)
  ultimately show ?case
    using Cons.IH [OF 2] k db1 by auto
qed

text \<open>An accepted removal comes from an owner and takes effect at once: the removed member has no
  role, no key slot of any epoch and no slot among the new ones, every member the request names has
  a slot under the new epoch, and the list's epoch becomes one more than the epoch of the request,
  whatever it was before.\<close>

lemma removal_effect:
  assumes "remove_member_route E now header (Some b) s = (Inr (), s')" and "rm_list_id b = l" and "rm_remove_member_id b = gone"
  shows "\<exists>auth. auth_extractor E now header s = (Inr auth, s) \<and> member_role l (at_member_id auth) (ap_db s) = Some Owner \<and>
     member_role l gone (ap_db s') = None \<and> fetch_my_key_slots l gone (ap_db s') = [] \<and>
     gone \<notin> ke_member_id ` set (rm_new_slots b) \<and>
     (\<forall>k\<in>set (rm_new_slots b). row_get sv_slot_key (l, rm_epoch b + 1, ke_member_id k) (sv_slots (ap_db s')) \<noteq> None) \<and>
     (sv_has_list l (ap_db s) \<longrightarrow> list_current_epoch l (ap_db s') = (Inr (rm_epoch b + 1), ap_db s'))"
proof -
  let ?e = "rm_epoch b + 1"
  obtain auth s1 db' where au: "auth_extractor E now header s = (Inr auth, s1)" "member_role l (at_member_id auth) (ap_db s1) = Some Owner"
    and rm: "remove_member_sv l gone (rm_epoch b) (rm_new_slots b) (ap_db s1) = (Inr (), db')" and s': "s' = s1\<lparr> ap_db := db' \<rparr>"
    using assms by (auto simp: remove_member_route_def route_simps)
  have s1: "s1 = s" using au(1) by (rule auth_extractor_state)
  obtain db1 where slots: "for_each (rotate_slot l gone ?e) (rm_new_slots b) (ap_db s) = (Inr (), db1)"
    and db': "db' = db1\<lparr> sv_lists := row_update (\<lambda>r. sl_list_id r = l) (sl_current_epoch_update (\<lambda>_. ?e)) (sv_lists db1),
        sv_members := row_del sv_member_key (l, gone) (sv_members db1),
        sv_slots := filter (\<lambda>r. \<not> (sk_list_id r = l \<and> sk_member_id r = gone)) (sv_slots db1) \<rparr>"
    using rm s1 by (auto simp: remove_member_sv_def Let_def route_simps)
  note R = rotate_slots_Inr [OF slots]
  have "row_get sv_slot_key (l, ?e, ke_member_id k) (sv_slots db') \<noteq> None" if "k \<in> set (rm_new_slots b)" for k
  proof -
    have "(l, ?e, ke_member_id k) \<in> sv_slot_key ` set (sv_slots db1)" "ke_member_id k \<noteq> gone"
      using R that by (auto simp: row_get_None)
    then show ?thesis by (auto simp: row_get_None db' image_iff)
  qed
  moreover have "list_current_epoch l db' = (Inr ?e, db')" if has: "sv_has_list l (ap_db s)"
  proof -
    obtain slots where "db1 = (ap_db s)\<lparr> sv_slots := slots \<rparr>" using R by blast
    then obtain r where "row_get sl_list_id l (sv_lists db1) = Some r" "sl_list_id r = l"
      using has by (cases "row_get sl_list_id l (sv_lists (ap_db s))") (auto simp: sv_has_list_def dest: row_get_Some_key)
    then show ?thesis by (simp add: list_current_epoch_def require_def db' row_get_update)
  qed
  moreover have "member_role l gone db' = None" "fetch_my_key_slots l gone db' = []"
    by (simp_all add: db' member_role_def table_simps fetch_my_key_slots_def)
  ultimately show ?thesis using au R by (auto simp: s1 s')
qed

section \<open>Device logins\<close>

lemma active_pub_logins [simp]: "fetch_active_device_pub m d (db\<lparr> sv_logins := ls \<rparr>) = fetch_active_device_pub m d db"
  by (simp add: fetch_active_device_pub_def)

lemma login_finish_Inr:
  "login_finish now i db = (Inr stashed, db') \<longleftrightarrow>
     stashed = (case row_get lc_login_id i (sv_logins db) of None \<Rightarrow> None
                | Some r \<Rightarrow> if now < lc_expires_at r then Some (lc_state r, lc_member_id r) else None) \<and>
     db' = db\<lparr> sv_logins := row_del lc_login_id i (sv_logins db) \<rparr>"
  by (auto simp: login_finish_def route_simps)

text \<open>C24: a password-less login succeeds only on an unexpired challenge issued for a member and one of
  their devices whose key is enrolled and not revoked, and, on a server that verifies signatures,
  with a signature by that key over exactly this challenge; it uses the challenge up, and the
  session it creates belongs to that member and device, ends after the session lifetime, and never
  passes the step-up check.\<close>

theorem device_login_sound:
  assumes "device_login_finish_route E now rnd (Some (i, sig)) s = (Inr resp, s')"
  shows "\<exists>row dev nonce pub. row_get lc_login_id i (sv_logins (ap_db s)) = Some row \<and> now < lc_expires_at row \<and>
     lc_member_id row = Some (df_member_id resp) \<and> lc_state row = as_slice dev @ as_slice (nonce :: nonce) \<and>
     fetch_active_device_pub (df_member_id resp) dev (ap_db s) = Some pub \<and>
     (ap_verify_signatures s \<longrightarrow> c_verify (en_crypto E) pub
        (device_challenge_view device_challenge_version (df_member_id resp) dev nonce) sig) \<and>
     row_get lc_login_id i (sv_logins (ap_db s')) = None \<and>
     (\<exists>x\<in>set (sv_sessions (ap_db s')). sx_token_hash x = snd (mint_session_token E rnd) \<and> sx_member_id x = df_member_id resp \<and>
        sx_device_id x = Some dev \<and> sx_expires_at x = now + session_ttl) \<and>
     (\<forall>t a. at_device_id a = Some dev \<longrightarrow> require_password_step_up t a = Some StepUpRequired)"
proof -
  from assms obtain row m dev nonce pub where
    row: "row_get lc_login_id i (sv_logins (ap_db s)) = Some row" "now < lc_expires_at row" "lc_member_id row = Some m"
    and st: "fixed_try_from (take 16 (lc_state row)) = Inr (dev :: device_id)" "fixed_try_from (drop 16 (lc_state row)) = Inr (nonce :: nonce)"
    and pub: "fetch_active_device_pub m dev (ap_db s) = Some pub"
    and sig: "ap_verify_signatures s \<longrightarrow> c_verify (en_crypto E) pub (device_challenge_view device_challenge_version m dev nonce) sig"
    and resp: "df_member_id resp = m"
    and s': "sv_logins (ap_db s') = row_del lc_login_id i (sv_logins (ap_db s))"
      "\<exists>x\<in>set (sv_sessions (ap_db s')). sx_token_hash x = snd (mint_session_token E rnd) \<and> sx_member_id x = m \<and>
        sx_device_id x = Some dev \<and> sx_expires_at x = now + session_ttl"
    by (auto simp: device_login_finish_route_def route_simps login_finish_Inr create_session_def Let_def
        case_prod_beta split: if_splits option.splits sum.splits)
  have "lc_state row = as_slice dev @ as_slice nonce"
    using st by (metis append_take_drop_id fixed_try_from_Inr)
  then show ?thesis
    using row pub sig resp s' by (intro exI [of _ row] exI [of _ dev] exI [of _ nonce] exI [of _ pub])
      (simp add: table_simps require_password_step_up_def)
qed


definition demo_device :: device_row where
  "demo_device = \<lparr> dv_member_id = fixed_repeat 1, dv_device_id = fixed_repeat 6, dv_signing_pub = fixed_repeat 3, dv_label = [],
     dv_created_at = 0, dv_revoked_at = None \<rparr>"

definition demo_challenge :: login_row where
  "demo_challenge = \<lparr> lc_login_id = fixed_repeat 2, lc_member_id = Some (fixed_repeat 1),
     lc_state = as_slice (fixed_repeat 6 :: device_id) @ as_slice (fixed_repeat 8 :: nonce), lc_expires_at = 60 \<rparr>"

definition demo_dev_app :: app_state where
  "demo_dev_app = demo_app\<lparr> ap_db := demo_sdb\<lparr> sv_devices := [demo_device], sv_logins := [demo_challenge], sv_sessions := [] \<rparr> \<rparr>"

definition demo_device_sig :: signature where
  "demo_device_sig = c_sign toy_crypto (fixed_repeat 3)
     (device_challenge_view device_challenge_version (fixed_repeat 1) (fixed_repeat 6) (fixed_repeat 8))"

lemma demo_device_verifies: "c_verify toy_crypto (fixed_repeat 3)
   (device_challenge_view device_challenge_version (fixed_repeat 1) (fixed_repeat 6) (fixed_repeat 8)) demo_device_sig"
  using sign_okD(2) [OF toy_crypto_ok, of "fixed_repeat 3"] by (simp add: demo_device_sig_def) (simp add: toy_crypto_def)

lemma demo_device_login:
  "\<exists>resp s'. device_login_finish_route toy_senv 0 demo_rnd (Some (fixed_repeat 2, demo_device_sig)) demo_dev_app = (Inr resp, s')"
proof -
  have "fixed_try_from (replicate 16 6) = Inr (fixed_repeat 6 :: device_id)"
    "fixed_try_from (replicate 24 8) = Inr (fixed_repeat 8 :: nonce)" by (simp_all add: wire_simps)
  moreover have "c_key_valid toy_crypto (fixed_repeat 3)" by (simp add: toy_crypto_def)
  moreover have "fetch_active_device_pub (fixed_repeat 1) (fixed_repeat 6) (demo_sdb\<lparr> sv_devices := [demo_device], sv_sessions := [] \<rparr>) =
      Some (fixed_repeat 3)"
    by (simp add: fetch_active_device_pub_def demo_device_def)
  ultimately show ?thesis
    using demo_device_verifies
    by (simp add: device_login_finish_route_def handler_simps login_finish_def demo_dev_app_def demo_app_def app_new_def
        demo_challenge_def demo_mint create_session_def fetch_user_keys_def sv_has_user_def row_del_def
        fetch_active_device_pub_def demo_device_def Let_def)
       (simp add: demo_sdb_def demo_user_def handler_simps)
qed

theorem device_login_sound_witness:
  "\<exists>x\<in>set (sv_sessions (ap_db (snd (device_login_finish_route toy_senv 0 demo_rnd (Some (fixed_repeat 2, demo_device_sig)) demo_dev_app)))).
     sx_token_hash x = demo_hash"
proof -
  obtain resp s' where "device_login_finish_route toy_senv 0 demo_rnd (Some (fixed_repeat 2, demo_device_sig)) demo_dev_app = (Inr resp, s')"
    using demo_device_login by blast
  from device_login_sound [OF this] show ?thesis
    by (auto simp: \<open>_ = (Inr resp, s')\<close> demo_mint)
qed



section \<open>The live stream\<close>

fun drain :: "nat \<Rightarrow> nat \<Rightarrow> list_id \<Rightarrow> (list_id \<rightharpoonup> channel) \<Rightarrow> stored_update_dto list" where
  "drain 0 rid l hub = []"
| "drain (Suc n) rid l hub =
     (case hub_recv rid l hub of (Got m, hub') \<Rightarrow> m # drain n rid l hub' | _ \<Rightarrow> [])"

lemma drain_reads:
  assumes "hub l = Some ch" and "map_of (ch_receivers ch) rid = Some pos"
    and "length (ch_log ch) - pos \<le> channel_capacity"
  shows "drain n rid l hub = take n (drop pos (ch_log ch))"
  using assms
proof (induction n arbitrary: hub ch pos)
  case (Suc n)
  show ?case
  proof (cases "length (ch_log ch) \<le> pos")
    case True
    then show ?thesis using Suc.prems by (simp add: hub_recv_def)
  next
    case False
    let ?ch = "ch\<lparr> ch_receivers := AList.update rid (Suc pos) (ch_receivers ch) \<rparr>"
    have "drain n rid l (hub(l \<mapsto> ?ch)) = take n (drop (Suc pos) (ch_log ?ch))"
      using Suc.prems(3) by (intro Suc.IH) (auto simp: update_conv')
    moreover have "drop pos (ch_log ch) = ch_log ch ! pos # drop (Suc pos) (ch_log ch)"
      using False by (simp add: Cons_nth_drop_Suc)
    ultimately show ?thesis
      using Suc.prems False by (simp add: hub_recv_def)
  qed
qed simp

lemma publish_channel:
  assumes "hub l = Some ch" and "ch_receivers ch \<noteq> []"
  shows "foldl (\<lambda>h m. hub_publish l m h) hub ms l = Some (ch\<lparr> ch_log := ch_log ch @ ms \<rparr>)"
  using assms
proof (induction ms arbitrary: hub ch)
  case (Cons m ms)
  have "hub_publish l m hub l = Some (ch\<lparr> ch_log := ch_log ch @ [m] \<rparr>)"
    using Cons.prems by (simp add: hub_publish_def)
  then have "foldl (\<lambda>h m. hub_publish l m h) (hub_publish l m hub) ms l =
      Some (ch\<lparr> ch_log := ch_log ch @ [m] \<rparr>\<lparr> ch_log := ch_log (ch\<lparr> ch_log := ch_log ch @ [m] \<rparr>) @ ms \<rparr>)"
    using Cons.prems(2) by (intro Cons.IH) simp_all
  then show ?case by simp
qed simp



end
