(* ===== verification/EndToEnd.thy ===== *)
theory EndToEnd
  imports NetAuth ServerRouter ServerProps
begin

text \<open>
  The client and the server together: the client's HTTP calls of \<open>ClientNet\<close> and \<open>NetAuth\<close> sent to the
  route table of \<open>ServerRouter\<close>.  The server model is shown to be the update log that the sync engine's
  paging relies on, and three flows are followed from end to end: pulling a list, delivering an
  edit to another member, and unlocking with a device key.
\<close>

section \<open>A client call reaches its handler\<close>

lemma strip_prefix_append [simp]: "strip_prefix p (p @ s) = Some s"
  by (simp add: strip_prefix_def)

definition bearer :: "string \<Rightarrow> string option" where
  "bearer token = Some (''Bearer '' @ token)"

lemma status_code_error [simp]: "error_for_status (status_code e)"
  by (cases e) (simp_all add: error_for_status_def)

lemma serve_req:
  "serve E base (req base m path token body) w =
     (case build_router E (shd (sd_ticks w)) m (''/v1/'' @ trim_start_slash path) (map_option (\<lambda>t. ''Bearer '' @ t) token) body (sd_app w) of
        (r, s') \<Rightarrow> (Some r, \<lparr> sd_app = s', sd_ticks = stl (sd_ticks w) \<rparr>))"
  by (simp add: serve_def req_def net_path_def)

text \<open>A call whose route answers with what it selects is the handler, with every error of the handler
  turned into a failed request.\<close>

lemma decode_serve:
  assumes "build_router E (shd (sd_ticks w)) m (''/v1/'' @ trim_start_slash path) (map_option (\<lambda>t. ''Bearer '' @ t) token) body = respond st f h"
    and "\<not> error_for_status st" and "\<And>x. sel (f x) = Some (g x)"
  shows "decode (serve E base) sel (req base m path token body) w =
     (case h (sd_app w) of
        (r, s') \<Rightarrow> (case r of Inl _ \<Rightarrow> Inl Reqwest | Inr x \<Rightarrow> Inr (g x), \<lparr> sd_app = s', sd_ticks = stl (sd_ticks w) \<rparr>))"
  unfolding decode_def serve_req assms(1) respond_def
  using assms(2,3) by (cases "h (sd_app w)") (simp split: sum.split)

lemma ok_statuses [simp]: "\<not> error_for_status 200" "\<not> error_for_status 201" "\<not> error_for_status 204"
  by (simp_all add: error_for_status_def)

lemma append_call:
  "append_update_call (serve E base) base token b w =
     (case append_update_route E (tk_now (shd (sd_ticks w))) (bearer token) (Some b) (sd_app w) of
        (r, s') \<Rightarrow> (case r of Inl _ \<Rightarrow> Inl Reqwest | Inr x \<Rightarrow> Inr x, \<lparr> sd_app = s', sd_ticks = stl (sd_ticks w) \<rparr>))"
  unfolding append_update_call_def
  by (rule decode_serve [where st = 201 and f = RespSeq]) (simp_all add: trim_start_slash_def build_router_def route_updates_def bearer_def)

lemma pull_call:
  "pull_updates_call (serve E base) base token l after n w =
     (case pull_updates_route E (tk_now (shd (sd_ticks w))) (bearer token)
             (Some \<lparr> pp_list_id = l, pp_after = after, pp_limit = n \<rparr>) (sd_app w) of
        (r, s') \<Rightarrow> (case r of Inl _ \<Rightarrow> Inl Reqwest | Inr x \<Rightarrow> Inr x, \<lparr> sd_app = s', sd_ticks = stl (sd_ticks w) \<rparr>))"
  unfolding pull_updates_call_def
  by (rule decode_serve [where st = 200 and f = RespUpdates]) (simp_all add: trim_start_slash_def build_router_def route_updates_def bearer_def)

section \<open>The server's log, pulled over HTTP\<close>

definition list_log :: "list_id \<Rightarrow> app_state \<Rightarrow> stored_update_dto list" where
  "list_log l s = map dto_of_update (filter (\<lambda>u. su_list_id u = l) (sv_updates (ap_db s)))"

text \<open>The token is accepted at every clock reading ahead, and the database keeps its schema.\<close>

definition authorised :: "server_env \<Rightarrow> string \<Rightarrow> served \<Rightarrow> bool" where
  "authorised E token w \<longleftrightarrow> sv_wf (ap_db (sd_app w)) \<and>
     (\<forall>t\<in>sset (sd_ticks w). \<exists>auth. auth_extractor E (tk_now t) (bearer token) (sd_app w) = (Inr auth, sd_app w))"

lemma sorted_log: "sv_wf db \<Longrightarrow> sorted_wrt (<) (map su_seq (filter p (sv_updates db)))"
  by (simp add: sv_wf_def sv_log_wf_def sorted_seq_filter)

lemma fetch_after_log:
  assumes "sv_wf (ap_db s)"
  shows "fetch_updates_after l after batch (ap_db s) = take (nat batch) (filter (\<lambda>u. after < sd_seq u) (list_log l s))"
proof -
  let ?us = "filter (\<lambda>r. su_list_id r = l \<and> after < su_seq r) (sv_updates (ap_db s))"
  have "sorted (map su_seq ?us)"
    using sorted_log [OF assms] by (rule strict_sorted_imp_sorted)
  then have "sort_key su_seq ?us = ?us" by (rule sort_key_id_if_sorted)
  moreover have "filter (\<lambda>u. after < sd_seq u) (list_log l s) = map dto_of_update ?us"
    by (simp add: list_log_def filter_map comp_def dto_of_update_def conj_commute)
  ultimately show ?thesis
    by (simp add: fetch_updates_after_def sql_limit_def clamp_def batch_def take_map)
qed

interpretation server_log: update_log "http_net (serve E base) base token" "\<lambda>l w. list_log l (sd_app w)" "authorised E token"
  for E base token
proof
  fix w l assume "authorised E token w"
  then show "sorted_wrt (<) (map sd_seq (list_log l (sd_app w)))"
    using sorted_log [of "ap_db (sd_app w)"]
    by (simp add: authorised_def list_log_def comp_def dto_of_update_def)
next
  fix w l after assume a: "authorised E token w"
  then obtain auth where au: "auth_extractor E (tk_now (shd (sd_ticks w))) (bearer token) (sd_app w) = (Inr auth, sd_app w)"
    unfolding authorised_def by (metis stream.set_sel(1))
  have "authorised E token (w\<lparr> sd_ticks := stl (sd_ticks w) \<rparr>)"
    using a by (auto simp: authorised_def stream.set_sel(2))
  then show "\<exists>w'. net_pull (http_net (serve E base) base token) l after batch w =
      (Inr (take (nat batch) (filter (\<lambda>u. after < sd_seq u) (list_log l (sd_app w)))), w') \<and>
      authorised E token w' \<and> list_log l (sd_app w') = list_log l (sd_app w)"
    using a au fetch_after_log [of "sd_app w" l after]
    by (intro exI [of _ "w\<lparr> sd_ticks := stl (sd_ticks w) \<rparr>"])
       (simp add: http_net_def pull_call pull_updates_route_def sbind_def body_or_def on_db_def query_def authorised_def)
qed

text \<open>C6: pulling a list from the server over HTTP hands the store, page by page and in order, exactly the
  updates in the server's log of that list with a sequence number above the cursor, none left out
  and none twice, provided the session stays valid; no page is longer than the batch.\<close>

theorem pull_delivers_log:
  assumes "server_reachable E v (sd_app (eg_world g))"
    and "\<forall>t\<in>sset (sd_ticks (eg_world g)). \<exists>auth. auth_extractor E (tk_now t) (bearer token) (sd_app (eg_world g)) = (Inr auth, sd_app (eg_world g))"
    and "length (list_log l (sd_app (eg_world g))) < fuel * 500"
  shows "\<exists>pages w'. pull fuel (http_net (serve E base) base token) l g =
      Some (Inr (), g\<lparr> eg_world := w', eg_store_tx := eg_store_tx g @ map (ApplyRemote l) pages \<rparr>) \<and>
    concat pages = filter (\<lambda>u. applied_through_seq l (eg_db g) < sd_seq u) (list_log l (sd_app (eg_world g))) \<and>
    (\<forall>p\<in>set pages. p \<noteq> [] \<and> length p \<le> 500)"
proof -
  have "authorised E token (eg_world g)"
    using assms(2) schema.reachable_inv [OF assms(1)] by (simp add: authorised_def app_inv_def)
  from server_log.pull_delivers [OF this, of l fuel base] assms(3) show ?thesis by (simp add: batch_def)
qed


definition demo_tick :: tick where
  "demo_tick = \<lparr> tk_now = 0, tk_uuid = fixed_repeat 2, tk_token_rnd = demo_rnd, tk_nonce = fixed_repeat 8, tk_opaque_rnd = [] \<rparr>"

definition demo_logged :: app_state where
  "demo_logged = demo_app\<lparr> ap_db := demo_sdb\<lparr> sv_updates := [demo_update], sv_next_seq := 2 \<rparr> \<rparr>"

lemma demo_logged_reachable: "server_reachable toy_senv True demo_logged"
  using server_reachable.step [OF demo_app_reachable server_step.append_update [of toy_senv demo_app 0 demo_header "Some demo_body"]]
  by (simp add: demo_append demo_logged_def)

definition demo_client :: "app_state \<Rightarrow> served engine" where
  "demo_client s = \<lparr> eg_db = db_empty, eg_world = \<lparr> sd_app = s, sd_ticks = sconst demo_tick \<rparr>, eg_store_tx = [], eg_tx = [],
     eg_tasks = [] \<rparr>"

lemma demo_bearer: "bearer demo_token = demo_header"
  by (simp add: bearer_def demo_header_def)

lemma demo_authorised:
  "sv_sessions (ap_db s) = [demo_session_row] \<Longrightarrow>
     \<forall>t\<in>sset (sconst demo_tick). \<exists>auth. auth_extractor toy_senv (tk_now t) (bearer demo_token) s = (Inr auth, s)"
  using demo_auth [of s 0] by (auto simp: demo_bearer demo_tick_def session_ttl_def)

lemma demo_logged_sessions: "sv_sessions (ap_db demo_logged) = [demo_session_row]"
  by (simp add: demo_logged_def demo_sdb_def)

lemma demo_log: "list_log (fixed_repeat 1) demo_logged = [dto_of_update demo_update]"
  by (simp add: list_log_def demo_logged_def) (simp add: demo_update_def)

theorem pull_delivers_log_witness:
  "\<exists>pages w'. pull 1 (http_net (serve toy_senv ''h'') ''h'' demo_token) (fixed_repeat 1) (demo_client demo_logged) =
      Some (Inr (), (demo_client demo_logged)\<lparr> eg_world := w', eg_store_tx := map (ApplyRemote (fixed_repeat 1)) pages \<rparr>) \<and>
    concat pages = [dto_of_update demo_update]"
proof -
  let ?g = "demo_client demo_logged"
  have s: "sd_app (eg_world ?g) = demo_logged" "sd_ticks (eg_world ?g) = sconst demo_tick" "eg_store_tx ?g = []"
    "applied_through_seq (fixed_repeat 1) (eg_db ?g) = 0"
    by (simp_all add: demo_client_def applied_through_seq_def db_empty_def)
  note d = pull_delivers_log [of toy_senv True ?g demo_token "fixed_repeat 1" 1 "''h''"]
  have "sd_seq (dto_of_update demo_update) = 1" by (simp add: dto_of_update_def demo_update_def)
  then show ?thesis
    using d demo_logged_reachable demo_authorised [OF demo_logged_sessions] by (auto simp: s demo_log)
qed


section \<open>An edit reaches another member\<close>

lemma authorisedI:
  "server_reachable E v (sd_app w) \<Longrightarrow>
   \<forall>t\<in>sset (sd_ticks w). \<exists>auth. auth_extractor E (tk_now t) (bearer token) (sd_app w) = (Inr auth, sd_app w) \<Longrightarrow>
   authorised E token w"
  using schema.reachable_inv [of E v "sd_app w"] by (simp add: authorised_def app_inv_def)

lemma append_call_reachable:
  "server_reachable E v (sd_app w) \<Longrightarrow> append_update_call (serve E base) base token b w = (r, w') \<Longrightarrow>
     server_reachable E v (sd_app w')"
  using server_reachable.step [OF _ server_step.append_update [of E "sd_app w" "tk_now (shd (sd_ticks w))" "bearer token" "Some b"]]
  by (auto simp: append_call split: prod.splits)

lemma append_call_stores:
  assumes "append_update_call (serve E base) base token b w = (Inr q, w')"
    and "row_get su_signature (au_signature b) (sv_updates (ap_db (sd_app w))) = None"
  shows "list_log (au_list_id b) (sd_app w') = list_log (au_list_id b) (sd_app w) @ [stored_of q b]"
proof -
  obtain s' where r: "append_update_route E (tk_now (shd (sd_ticks w))) (bearer token) (Some b) (sd_app w) = (Inr q, s')"
    and w': "sd_app w' = s'"
    using assms(1) by (auto simp: append_call split: prod.splits sum.splits)
  from r show ?thesis
  proof (cases rule: append_update_cases)
    case (stored auth b' db')
    then show ?thesis
      using assms(2) w' by (auto simp: insert_update_def Let_def list_log_def dto_of_update_def stored_of_def split: if_splits)
  qed simp
qed

text \<open>C2: an edit reaches the other members: once the upload of an update that a client signed and encrypted
  under the list's key is accepted as new, every member whose session is valid and whose cursor is
  below its number gets it in the next pull, and it verifies under the author's key and decrypts
  to exactly the delta that was exported.\<close>

theorem edit_delivered:
  assumes "crypto_ok (ev_crypto E)" and "server_reachable V v (sd_app w)"
    and "append_update_call (serve V base) base alice_token (append_body l (delta_payload E nonce l epoch dek alice delta)) w = (Inr q, eg_world bob)"
    and "row_get su_signature (up_signature (delta_payload E nonce l epoch dek alice delta)) (sv_updates (ap_db (sd_app w))) = None"
    and "\<forall>t\<in>sset (sd_ticks (eg_world bob)). \<exists>auth. auth_extractor V (tk_now t) (bearer token) (sd_app (eg_world bob)) = (Inr auth, sd_app (eg_world bob))"
    and "applied_through_seq l (eg_db bob) < q" and "length (list_log l (sd_app (eg_world bob))) < fuel * 500"
  shows "\<exists>pages w' dto. pull fuel (http_net (serve V base) base token) l bob =
      Some (Inr (), bob\<lparr> eg_world := w', eg_store_tx := eg_store_tx bob @ map (ApplyRemote l) pages \<rparr>) \<and>
    dto \<in> set (concat pages) \<and> sd_seq dto = q \<and> sd_author dto = se_member_id (st_session alice) \<and> sd_epoch dto = epoch \<and>
    verify_and_decrypt (ev_crypto E) (remote_payload l dto) l
      (c_verifying_key (ev_crypto E) (se_signing_seed (st_session alice))) dek = Inr delta"
proof -
  let ?p = "delta_payload E nonce l epoch dek alice delta"
  let ?dto = "stored_of q (append_body l ?p)"
  have "authorised V token (eg_world bob)"
    using append_call_reachable [OF assms(2,3)] assms(5) by (rule authorisedI)
  then obtain pages w' where pull: "pull fuel (http_net (serve V base) base token) l bob =
      Some (Inr (), bob\<lparr> eg_world := w', eg_store_tx := eg_store_tx bob @ map (ApplyRemote l) pages \<rparr>)"
    and pages: "concat pages = filter (\<lambda>u. applied_through_seq l (eg_db bob) < sd_seq u) (list_log l (sd_app (eg_world bob)))"
    using server_log.pull_delivers [of V token bob l fuel base] assms(7) by (auto simp: batch_def)
  have "?dto \<in> set (list_log l (sd_app (eg_world bob)))"
    using append_call_stores [OF assms(3)] assms(4) by (simp add: append_body_def)
  moreover have "remote_payload l ?dto = ?p"
    by (simp add: remote_payload_def stored_of_def append_body_def delta_payload_def produce_update_def Let_def)
  ultimately show ?thesis
    using pull delta_payload_opens [OF assms(1)] assms(6)
    by (intro exI [of _ pages] exI [of _ w'] exI [of _ ?dto])
       (simp add: pages stored_of_def append_body_def delta_payload_def produce_update_def Let_def)
qed


definition demo_alice :: store where
  "demo_alice = store_new db_empty \<lparr> se_member_id = fixed_repeat 1, se_identity_secret = fixed_repeat 1,
     se_identity_pub = fixed_repeat 1, se_signing_seed = fixed_repeat 1, se_signing_pub = fixed_repeat 1,
     se_token = demo_token, se_deks = Map.empty \<rparr>"

lemma demo_alice_body:
  "append_body (fixed_repeat 1) (delta_payload demo_env (fixed_repeat 4) (fixed_repeat 1) 1 (fixed_repeat 7) demo_alice [6]) = demo_body"
  by (simp add: append_body_def delta_payload_def demo_alice_def store_new_def demo_env_def update_version_def
      produce_update_def demo_body_def Let_def)

lemma demo_upload:
  "append_update_call (serve toy_senv ''h'') ''h'' demo_token demo_body \<lparr> sd_app = demo_app, sd_ticks = sconst demo_tick \<rparr> =
     (Inr 1, \<lparr> sd_app = demo_logged, sd_ticks = sconst demo_tick \<rparr>)"
  using demo_append by (simp add: append_call demo_bearer demo_tick_def demo_logged_def)

theorem edit_delivered_witness:
  "\<exists>pages w' dto. pull 1 (http_net (serve toy_senv ''h'') ''h'' demo_token) (fixed_repeat 1) (demo_client demo_logged) =
      Some (Inr (), (demo_client demo_logged)\<lparr> eg_world := w', eg_store_tx := map (ApplyRemote (fixed_repeat 1)) pages \<rparr>) \<and>
    dto \<in> set (concat pages) \<and>
    verify_and_decrypt toy_crypto (remote_payload (fixed_repeat 1) dto) (fixed_repeat 1) (fixed_repeat 1) (fixed_repeat 7) = Inr [6]"
proof -
  let ?g = "demo_client demo_logged"
  let ?w = "\<lparr> sd_app = demo_app, sd_ticks = sconst demo_tick \<rparr>"
  have g: "eg_world ?g = \<lparr> sd_app = demo_logged, sd_ticks = sconst demo_tick \<rparr>" "eg_store_tx ?g = []"
    "applied_through_seq (fixed_repeat 1) (eg_db ?g) < 1" "length (list_log (fixed_repeat 1) demo_logged) < 1 * 500"
    by (simp_all add: demo_client_def applied_through_seq_def db_empty_def demo_log)
  have sent: "append_update_call (serve toy_senv ''h'') ''h'' demo_token (append_body (fixed_repeat 1)
      (delta_payload demo_env (fixed_repeat 4) (fixed_repeat 1) 1 (fixed_repeat 7) demo_alice [6])) ?w = (Inr 1, eg_world ?g)"
    by (simp add: demo_alice_body demo_upload g)
  have fresh: "row_get su_signature s (sv_updates (ap_db (sd_app ?w))) = None" for s
    by (simp add: demo_app_def demo_sdb_def server_empty_def)
  have reach: "server_reachable toy_senv True (sd_app ?w)" by (simp add: demo_app_reachable)
  have auth: "\<forall>t\<in>sset (sd_ticks (eg_world ?g)). \<exists>auth. auth_extractor toy_senv (tk_now t) (bearer demo_token) (sd_app (eg_world ?g)) =
      (Inr auth, sd_app (eg_world ?g))"
    unfolding g(1) served.select_convs using demo_authorised [OF demo_logged_sessions] .
  have seed: "c_verifying_key (ev_crypto demo_env) (se_signing_seed (st_session demo_alice)) = fixed_repeat 1"
    by (simp add: demo_env_def toy_crypto_def demo_alice_def store_new_def)
  have len: "length (list_log (fixed_repeat 1) (sd_app (eg_world ?g))) < 1 * 500" using g(4) by (simp add: g(1))
  obtain pages w' dto where "pull 1 (http_net (serve toy_senv ''h'') ''h'' demo_token) (fixed_repeat 1) ?g =
      Some (Inr (), ?g\<lparr> eg_world := w', eg_store_tx := eg_store_tx ?g @ map (ApplyRemote (fixed_repeat 1)) pages \<rparr>)"
    "dto \<in> set (concat pages)"
    "verify_and_decrypt (ev_crypto demo_env) (remote_payload (fixed_repeat 1) dto) (fixed_repeat 1)
      (c_verifying_key (ev_crypto demo_env) (se_signing_seed (st_session demo_alice))) (fixed_repeat 7) = Inr [6]"
    using edit_delivered [OF demo_env_crypto reach sent fresh auth g(3) len] by blast
  then show ?thesis by (simp add: seed g(2)) (auto simp: demo_env_def)
qed


section \<open>Unlocking with a device key\<close>

lemma device_start_call:
  "decode (serve E base) (\<lambda>b. case b of RespDeviceLoginStart i n \<Rightarrow> Some (i, n) | _ \<Rightarrow> None)
     (req base POST ''auth/device-login/start'' None (Some (BodyDeviceLoginStart m dev))) w =
   (case device_login_start_route (tk_now (shd (sd_ticks w))) (tk_uuid (shd (sd_ticks w))) (tk_nonce (shd (sd_ticks w)))
           (Some (m, dev)) (sd_app w) of
      (r, s') \<Rightarrow> (case r of Inl _ \<Rightarrow> Inl Reqwest | Inr x \<Rightarrow> Inr x, \<lparr> sd_app = s', sd_ticks = stl (sd_ticks w) \<rparr>))"
  by (rule decode_serve [where st = 200 and f = "\<lambda>(i, n). RespDeviceLoginStart i n"])
     (auto simp: trim_start_slash_def build_router_def route_auth_def auth_paths_def)

lemma device_finish_call:
  "decode (serve E base) (\<lambda>b. case b of RespDeviceLoginFinish x \<Rightarrow> Some x | _ \<Rightarrow> None)
     (req base POST ''auth/device-login/finish'' None (Some (BodyDeviceLoginFinish i sig))) w =
   (case device_login_finish_route E (tk_now (shd (sd_ticks w))) (tk_token_rnd (shd (sd_ticks w))) (Some (i, sig)) (sd_app w) of
      (r, s') \<Rightarrow> (case r of Inl _ \<Rightarrow> Inl Reqwest | Inr x \<Rightarrow> Inr x, \<lparr> sd_app = s', sd_ticks = stl (sd_ticks w) \<rparr>))"
  by (rule decode_serve [where st = 200 and f = RespDeviceLoginFinish])
     (auto simp: trim_start_slash_def build_router_def route_auth_def auth_paths_def)

text \<open>A session that was just minted is accepted until it ends.\<close>

lemma fresh_session_accepted:
  assumes "mint_session_token E rnd = (token, th)" and "hash_token E (trim token) = Inr th"
    and "row_get sx_token_hash th (sv_sessions (ap_db s)) = Some row" and "now < sx_expires_at row"
  shows "auth_extractor E now (bearer token) s =
    (Inr \<lparr> at_member_id = sx_member_id row, at_token_hash = th, at_device_id = sx_device_id row, at_created_at = sx_created_at row \<rparr>, s)"
  using assms unfolding auth_extractor_def bearer_def option.case strip_prefix_append
  by (simp add: lookup_session_def)

lemma device_start_ok:
  assumes "fetch_active_device_pub m dev (ap_db s) = Some pub" and "sv_has_user m (ap_db s)"
    and "row_get lc_login_id i (sv_logins (ap_db s)) = None"
  shows "device_login_start_route now i n (Some (m, dev)) s = (Inr (i, n), s\<lparr> ap_db := (ap_db s)\<lparr> sv_logins := sv_logins (ap_db s) @
     [\<lparr> lc_login_id = i, lc_member_id = Some m, lc_state = as_slice dev @ as_slice n, lc_expires_at = now + login_ttl \<rparr>] \<rparr> \<rparr>)"
  using assms by (simp add: device_login_start_route_def handler_simps login_start_def)

lemma device_finish_ok:
  assumes "row_get lc_login_id i (sv_logins (ap_db s)) =
      Some \<lparr> lc_login_id = i, lc_member_id = Some m, lc_state = as_slice dev @ as_slice n, lc_expires_at = ex \<rparr>"
    and "now < ex" and "fetch_active_device_pub m dev (ap_db s) = Some pub" and "fetch_user_keys m (ap_db s) = Some u"
    and "c_key_valid (en_crypto E) pub"
    and "c_verify (en_crypto E) pub (device_challenge_view device_challenge_version m dev n) sig"
    and "mint_session_token E rnd = (token, th)" and "row_get sx_token_hash th (sv_sessions (ap_db s)) = None"
  shows "\<exists>resp s'. device_login_finish_route E now rnd (Some (i, sig)) s = (Inr resp, s') \<and> df_token resp = token \<and>
     row_get sx_token_hash th (sv_sessions (ap_db s')) =
       Some \<lparr> sx_token_hash = th, sx_member_id = m, sx_device_id = Some dev, sx_expires_at = now + session_ttl, sx_created_at = now \<rparr>"
proof -
  have "fixed_try_from (as_slice dev) = Inr dev" "fixed_try_from (as_slice n) = Inr n" by (simp_all add: wire_simps)
  moreover have "sv_has_user m (ap_db s)" using assms(4) by (simp add: fetch_user_keys_def sv_has_user_def)
  ultimately show ?thesis
    using assms by (simp add: device_login_finish_route_def handler_simps login_finish_def create_session_def
      fetch_user_keys_def sv_has_user_def row_get_append fetch_active_device_pub_def)
qed


text \<open>C7: password-less unlock, end to end: when the cache opens, the device is enrolled and not revoked,
  and the challenge comes back within its lifetime, the unlock returns the cached identity with the
  token of a fresh session that the server accepts, as this member on this device, until the
  session lifetime is over; when the server cannot be reached it returns the cached identity with
  an empty token.\<close>

theorem device_unlock_online:
  assumes "crypto_ok (en_crypto V)"
    and "unlock_from_device_cache (en_crypto V) Q contents blob = Inr payload" and "m = ul_member_id (dc_keys payload)"
    and "fetch_active_device_pub m dev (ap_db s) = Some (c_verifying_key (en_crypto V) (dc_device_signing_seed payload))"
    and "fetch_user_keys m (ap_db s) = Some u" and "row_get lc_login_id (tk_uuid t1) (sv_logins (ap_db s)) = None"
    and "tk_now t2 < tk_now t1 + login_ttl" and "mint_session_token V (tk_token_rnd t2) = (token, th)"
    and "hash_token V (trim token) = Inr th" and "row_get sx_token_hash th (sv_sessions (ap_db s)) = None"
  shows "\<exists>w'. unlock_via_device (serve V base) (en_crypto V) Q base (Some contents) dev blob
        \<lparr> sd_app = s, sd_ticks = t1 ## t2 ## ts \<rparr> = (Inr ((dc_keys payload)\<lparr> ul_token := token \<rparr>), w') \<and>
      (\<forall>now. now < tk_now t2 + session_ttl \<longrightarrow>
         (\<exists>a. auth_extractor V now (bearer token) (sd_app w') = (Inr a, sd_app w') \<and> at_member_id a = m \<and> at_device_id a = Some dev)) \<and>
      fst (unlock_via_device (\<lambda>rq (x :: unit). (None, x)) (en_crypto V) Q base (Some contents) dev blob ()) =
      Inr ((dc_keys payload)\<lparr> ul_token := [] \<rparr>)"
proof -
  let ?C = "en_crypto V"
  let ?i = "tk_uuid t1"
  let ?sig = "sign_device_challenge ?C (dc_device_signing_seed payload) m dev (tk_nonce t1)"
  let ?row = "\<lparr> lc_login_id = ?i, lc_member_id = Some m, lc_state = as_slice dev @ as_slice (tk_nonce t1),
      lc_expires_at = tk_now t1 + login_ttl \<rparr>"
  let ?s1 = "s\<lparr> ap_db := (ap_db s)\<lparr> sv_logins := sv_logins (ap_db s) @ [?row] \<rparr> \<rparr>"
  have "sv_has_user m (ap_db s)" using assms(5) by (simp add: fetch_user_keys_def sv_has_user_def)
  then have start: "device_login_start_route (tk_now t1) ?i (tk_nonce t1) (Some (m, dev)) s = (Inr (?i, tk_nonce t1), ?s1)"
    using device_start_ok assms(4,6) by blast
  have "c_verify ?C (c_verifying_key ?C (dc_device_signing_seed payload))
      (device_challenge_view device_challenge_version m dev (tk_nonce t1)) ?sig"
    using sign_okD(2) [OF assms(1)] by (simp add: sign_device_challenge_def)
  then have "\<exists>resp s2. device_login_finish_route V (tk_now t2) (tk_token_rnd t2) (Some (?i, ?sig)) ?s1 = (Inr resp, s2) \<and>
      df_token resp = token \<and> row_get sx_token_hash th (sv_sessions (ap_db s2)) =
         Some \<lparr> sx_token_hash = th, sx_member_id = m, sx_device_id = Some dev, sx_expires_at = tk_now t2 + session_ttl, sx_created_at = tk_now t2 \<rparr>"
    by (intro device_finish_ok [OF _ assms(7) _ _ sign_okD(1) [OF assms(1)] _ assms(8)])
       (use assms in \<open>auto simp: row_get_append fetch_user_keys_def\<close>)
  then obtain resp s2 where fin: "device_login_finish_route V (tk_now t2) (tk_token_rnd t2) (Some (?i, ?sig)) ?s1 = (Inr resp, s2)"
      "df_token resp = token" and row: "row_get sx_token_hash th (sv_sessions (ap_db s2)) =
         Some \<lparr> sx_token_hash = th, sx_member_id = m, sx_device_id = Some dev, sx_expires_at = tk_now t2 + session_ttl, sx_created_at = tk_now t2 \<rparr>"
    by blast
  have "unlock_via_device (serve V base) ?C Q base (Some contents) dev blob \<lparr> sd_app = s, sd_ticks = t1 ## t2 ## ts \<rparr> =
      (Inr ((dc_keys payload)\<lparr> ul_token := token \<rparr>), \<lparr> sd_app = s2, sd_ticks = ts \<rparr>)"
    using start fin by (simp add: unlock_via_device_def assms(2,3) Let_def device_login_def sbind_def device_start_call device_finish_call)
  moreover have "auth_extractor V now (bearer token) s2 = (Inr \<lparr> at_member_id = m, at_token_hash = th, at_device_id = Some dev,
      at_created_at = tk_now t2 \<rparr>, s2)" if "now < tk_now t2 + session_ttl" for now
    using fresh_session_accepted [OF assms(8,9) row] that by simp
  ultimately have "\<exists>w'. unlock_via_device (serve V base) ?C Q base (Some contents) dev blob
        \<lparr> sd_app = s, sd_ticks = t1 ## t2 ## ts \<rparr> = (Inr ((dc_keys payload)\<lparr> ul_token := token \<rparr>), w') \<and>
      (\<forall>now. now < tk_now t2 + session_ttl \<longrightarrow>
         (\<exists>a. auth_extractor V now (bearer token) (sd_app w') = (Inr a, sd_app w') \<and> at_member_id a = m \<and> at_device_id a = Some dev))"
    by (intro exI [of _ "\<lparr> sd_app = s2, sd_ticks = ts \<rparr>"]) simp
  moreover have "fst (unlock_via_device (\<lambda>rq (x :: unit). (None, x)) ?C Q base (Some contents) dev blob ()) =
      Inr ((dc_keys payload)\<lparr> ul_token := [] \<rparr>)"
    by (simp add: unlock_via_device_def assms(2) Let_def device_login_def sbind_def decode_def)
  ultimately show ?thesis by blast
qed

definition demo_cache :: device_cache_payload where
  "demo_cache = \<lparr> dc_keys = demo_keys\<lparr> ul_token := [] \<rparr>, dc_device_id = fixed_repeat 6, dc_device_signing_seed = fixed_repeat 3,
     dc_device_signing_pub = fixed_repeat 3 \<rparr>"

definition demo_opaque :: opaque_client where
  "demo_opaque = toy_opaque\<lparr> oc_cache_to_json := (\<lambda>p. if p = demo_cache then Some [1] else None),
     oc_cache_from_json := (\<lambda>bs. if bs = [1] then Some demo_cache else None) \<rparr>"

theorem device_unlock_online_witness:
  "\<exists>blob. fst (unlock_via_device (serve toy_senv ''h'') toy_crypto demo_opaque ''h'' (Some demo_hex) (fixed_repeat 6) blob
       \<lparr> sd_app = demo_dev_app\<lparr> ap_db := (ap_db demo_dev_app)\<lparr> sv_logins := [] \<rparr> \<rparr>, sd_ticks = sconst demo_tick \<rparr>) =
     Inr (demo_keys\<lparr> ul_token := demo_token \<rparr>)"
proof -
  let ?s = "demo_dev_app\<lparr> ap_db := (ap_db demo_dev_app)\<lparr> sv_logins := [] \<rparr> \<rparr>"
  let ?sk = "fixed_of_slice (ascii demo_hex) :: 32 fixed"
  have line: "key_line demo_hex = Some demo_hex" and trimmed: "trim demo_hex = demo_hex"
    by (simp_all add: key_line_def str_lines_def trim_def is_space_def demo_hex_def numeral_eq_Suc)
  have hex: "c_hex_decode toy_crypto demo_hex = Some (as_slice ?sk)"
    by (simp add: toy_crypto_def demo_hex_def)
  then have pub: "c_hex_decode toy_crypto (trim demo_hex) = Some (c_kem_public toy_crypto ?sk)"
    by (simp add: trimmed) (simp add: toy_crypto_def)
  have "\<exists>blob. build_device_cache toy_crypto demo_opaque [] (fixed_repeat 9) demo_hex demo_keys (fixed_repeat 6) (fixed_repeat 3) (fixed_repeat 3) = Inr blob"
    using device_vault_opens [OF toy_crypto_ok pub line hex, of "[]" "fixed_repeat 9" "[1]"]
    by (auto simp: build_device_cache_def demo_opaque_def demo_cache_def)
  then obtain blob where built: "build_device_cache toy_crypto demo_opaque [] (fixed_repeat 9) demo_hex demo_keys (fixed_repeat 6) (fixed_repeat 3) (fixed_repeat 3) = Inr blob"
    by blast
  have cache: "unlock_from_device_cache (en_crypto toy_senv) demo_opaque demo_hex blob = Inr demo_cache"
  proof -
    have "oc_cache_from_json demo_opaque json = Some p" if "oc_cache_to_json demo_opaque p = Some json" for p json
      using that by (auto simp: demo_opaque_def split: if_splits)
    from device_cache_opens [OF toy_crypto_ok pub line hex built this] show ?thesis by (simp add: demo_cache_def)
  qed
  have t: "sconst demo_tick = demo_tick ## demo_tick ## sconst demo_tick"
    by (metis siterate.code id_apply)
  have db: "fetch_active_device_pub (fixed_repeat 1) (fixed_repeat 6) (ap_db ?s) =
      Some (c_verifying_key (en_crypto toy_senv) (dc_device_signing_seed demo_cache))"
    "fetch_user_keys (fixed_repeat 1) (ap_db ?s) = Some demo_user"
    "row_get lc_login_id (tk_uuid demo_tick) (sv_logins (ap_db ?s)) = None"
    "row_get sx_token_hash demo_hash (sv_sessions (ap_db ?s)) = None"
    by (simp_all add: fetch_active_device_pub_def fetch_user_keys_def demo_dev_app_def demo_device_def demo_cache_def)
       (simp_all add: toy_crypto_def demo_sdb_def demo_user_def)
  have m: "fixed_repeat 1 = ul_member_id (dc_keys demo_cache)" by (simp add: demo_cache_def demo_keys_def)
  have "tk_now demo_tick < tk_now demo_tick + login_ttl" "mint_session_token toy_senv (tk_token_rnd demo_tick) = (demo_token, demo_hash)"
    "hash_token toy_senv (trim demo_token) = Inr demo_hash" "crypto_ok (en_crypto toy_senv)"
    by (simp_all add: login_ttl_def demo_tick_def demo_mint demo_trim demo_hash_token toy_crypto_ok)
  from device_unlock_online [OF this(4) cache m db(1,2,3) this(1,2,3) db(4), of "''h''" "sconst demo_tick"]
  show ?thesis by (subst t) (auto simp: demo_cache_def intro!: exI [of _ blob])
qed

end
