(* ===== verification/Replicas.thy ===== *)
theory Replicas
  imports Store "HOL-Library.Countable"
begin

text \<open>
  Replicas of one list on several devices: what a client's store makes of its own edits and of the
  updates of the other members, in whatever order they interleave, and that two replicas with the same
  updates hold the same document.  The document library's laws are \<open>crdt_ok\<close>; that updates which reached
  two replicas in different orders commute is a hypothesis of its own, the library's promise for
  concurrent changes.
\<close>

section \<open>Merging a list of updates\<close>

fun import_all :: "store_env \<Rightarrow> todo_doc \<Rightarrow> bytes list \<Rightarrow> todo_doc option" where
  "import_all E d [] = Some d"
| "import_all E d (b # bs) = (case ev_import E d b of None \<Rightarrow> None | Some d' \<Rightarrow> import_all E d' bs)"

definition commute :: "store_env \<Rightarrow> bytes \<Rightarrow> bytes \<Rightarrow> bool" where
  "commute E a b \<longleftrightarrow> (\<forall>d. import_all E d [a, b] = import_all E d [b, a])"

fun precedes :: "'a list \<Rightarrow> 'a \<Rightarrow> 'a \<Rightarrow> bool" where
  "precedes [] a b = False"
| "precedes (x # xs) a b \<longleftrightarrow> x = a \<and> b \<in> set xs \<or> precedes xs a b"

lemma import_all_append:
  "import_all E d (xs @ ys) = (case import_all E d xs of None \<Rightarrow> None | Some d' \<Rightarrow> import_all E d' ys)"
  by (induction xs arbitrary: d) (auto split: option.splits)

lemma commuteD: "commute E a b \<Longrightarrow> import_all E d (a # b # bs) = import_all E d (b # a # bs)"
  using import_all_append [of E d "[a, b]" bs] import_all_append [of E d "[b, a]" bs]
  by (simp only: commute_def append.simps)

lemma import_to_front:
  "\<forall>b\<in>set us. commute E a b \<Longrightarrow> import_all E d (us @ a # vs) = import_all E d (a # us @ vs)"
proof (induction us arbitrary: d)
  case (Cons u us)
  then have "import_all E d (u # us @ a # vs) = import_all E d (u # a # us @ vs)"
    by (auto split: option.splits)
  also have "\<dots> = import_all E d (a # u # us @ vs)"
    using Cons.prems commuteD [of E a u] by simp
  finally show ?case by simp
qed simp

lemma precedes_append: "precedes (xs @ ys) a b \<longleftrightarrow> precedes xs a b \<or> precedes ys a b \<or> a \<in> set xs \<and> b \<in> set ys"
  by (induction xs) auto

text \<open>Two orders of the same updates give the same document when every two that were swapped commute.\<close>

lemma import_reordered:
  assumes "distinct xs" and "mset ys = mset xs"
    and "\<And>a b. precedes xs a b \<Longrightarrow> precedes ys b a \<Longrightarrow> commute E a b"
  shows "import_all E d ys = import_all E d xs"
  using assms
proof (induction xs arbitrary: ys d)
  case (Cons a xs)
  then have "a \<in> set ys" by (metis list.set_intros(1) mset_eq_setD)
  then obtain us vs where ys: "ys = us @ a # vs" by (auto dest: split_list)
  have rest: "mset (us @ vs) = mset xs" using Cons.prems(2) by (simp add: ys)
  have "set us \<subseteq> set xs" using mset_eq_setD [OF rest] by auto
  then have "\<forall>b\<in>set us. commute E a b"
    using Cons.prems(3) by (auto simp: ys precedes_append)
  then have "import_all E d ys = import_all E d (a # us @ vs)"
    unfolding ys by (rule import_to_front)
  moreover have "import_all E d' (us @ vs) = import_all E d' xs" for d'
    using Cons.prems(1,3) rest by (intro Cons.IH) (auto simp: ys precedes_append)
  ultimately show ?case by (simp split: option.splits)
qed simp

text \<open>Updates that arrive again: only the first arrivals count, when a document that has an update takes
  nothing from it.\<close>

definition firsts :: "'a list \<Rightarrow> 'a list" where
  "firsts xs = rev (remdups (rev xs))"

definition absorbs :: "store_env \<Rightarrow> todo_doc \<Rightarrow> bytes set \<Rightarrow> bool" where
  "absorbs E d0 U \<longleftrightarrow> (\<forall>us b d. set us \<subseteq> U \<and> b \<in> set us \<and> import_all E d0 us = Some d \<longrightarrow> ev_import E d b = Some d)"

lemma firsts_snoc: "firsts (xs @ [x]) = firsts xs @ (if x \<in> set xs then [] else [x])"
  by (simp add: firsts_def)

lemma firsts_facts [simp]: "distinct (firsts xs)" "set (firsts xs) = set xs"
  by (simp_all add: firsts_def)

lemma import_firsts:
  "absorbs E d0 U \<Longrightarrow> set h \<subseteq> U \<Longrightarrow> import_all E d0 h = Some d \<Longrightarrow> import_all E d0 (firsts h) = Some d"
proof (induction h arbitrary: d rule: rev_induct)
  case (snoc b h)
  then obtain d1 where d1: "import_all E d0 h = Some d1" "ev_import E d1 b = Some d"
    by (auto simp: import_all_append split: option.splits)
  have "d = d1" if "b \<in> set h"
    using snoc.prems(1,2) that d1 by (auto simp: absorbs_def)
  then show ?case
    using snoc.IH [OF snoc.prems(1) _ d1(1)] snoc.prems(2) d1 by (auto simp: firsts_snoc import_all_append)
qed (simp add: firsts_def)

section \<open>What a replica goes through\<close>

text \<open>The plaintext that \<open>apply_remote_update\<close> hands to the document.\<close>

definition received :: "store_env \<Rightarrow> list_id \<Rightarrow> stored_update_dto \<Rightarrow> store \<Rightarrow> bytes option" where
  "received E l dto s =
     (case session_dek (st_session s) l (sd_epoch dto) of
        None \<Rightarrow> None
      | Some dek \<Rightarrow>
          (case find (\<lambda>m. mem_id m = sd_author dto) (list_members l (st_db s)) of
             None \<Rightarrow> None
           | Some m \<Rightarrow>
               (case verify_and_decrypt (ev_crypto E) (remote_payload l dto) l (mem_signing_pub m) dek of
                  Inl _ \<Rightarrow> None
                | Inr p \<Rightarrow> Some p)))"

text \<open>What the server hands on of a payload.\<close>

definition dto_of_payload :: "int \<Rightarrow> update_payload \<Rightarrow> stored_update_dto" where
  "dto_of_payload q p = \<lparr> sd_seq = q, sd_epoch = up_epoch p, sd_author = up_author p, sd_nonce = up_nonce p,
     sd_ciphertext = up_ciphertext p, sd_signature = up_signature p \<rparr>"

lemma dto_of_payload_sel [simp]:
  "sd_author (dto_of_payload q (delta_payload E n l e dek s d)) = se_member_id (st_session s)"
  "sd_epoch (dto_of_payload q (delta_payload E n l e dek s d)) = e" "sd_seq (dto_of_payload q p) = q"
  by (simp_all add: dto_of_payload_def delta_payload_def produce_update_def Let_def)

lemma remote_payload_dto:
  "remote_payload l (dto_of_payload q (delta_payload E n l e dek s d)) = delta_payload E n l e dek s d"
  by (simp add: remote_payload_def dto_of_payload_def delta_payload_def produce_update_def Let_def)

text \<open>What an edit exports, an empty export being no update.\<close>

definition exported :: "store_env \<Rightarrow> list_id \<Rightarrow> doc_op \<Rightarrow> store \<Rightarrow> bytes list" where
  "exported E l op s =
     (case open_doc E l s of
        None \<Rightarrow> []
      | Some d \<Rightarrow> (case doc_step op d of Inl _ \<Rightarrow> [] | Inr d' \<Rightarrow> filter (\<lambda>b. b \<noteq> []) [ev_export_updates E d d']))"

text \<open>A run of the store and the updates of list \<open>l\<close> that its document took in, in order: own edits,
  updates of other members, skipped ones, edits the document refuses, edits and updates of other
  lists, metadata, and a restart that opens the database again.\<close>

inductive replica :: "store_env \<Rightarrow> list_id \<Rightarrow> store \<Rightarrow> bytes list \<Rightarrow> store \<Rightarrow> bool" for E l s0 where
  start: "replica E l s0 [] s0"
| edit: "replica E l s0 h s \<Longrightarrow> todo_op E n l op s = (Inr (), s') \<Longrightarrow> replica E l s0 (h @ exported E l op s) s'"
| receive: "replica E l s0 h s \<Longrightarrow> apply_remote_update E l dto s = (Inr True, s') \<Longrightarrow>
    received E l dto s = Some p \<Longrightarrow> replica E l s0 (h @ [p]) s'"
| skip: "replica E l s0 h s \<Longrightarrow> apply_remote_update E l dto s = (Inr False, s') \<Longrightarrow> replica E l s0 h s'"
| refuse: "replica E l s0 h s \<Longrightarrow> open_doc E l s = Some d \<Longrightarrow> doc_step op d = Inl e \<Longrightarrow>
    todo_op E n l op s = (r, s') \<Longrightarrow> replica E l s0 h s'"
| edit_other: "replica E l s0 h s \<Longrightarrow> k \<noteq> l \<Longrightarrow> todo_op E n k op s = (r, s') \<Longrightarrow> replica E l s0 h s'"
| receive_other: "replica E l s0 h s \<Longrightarrow> k \<noteq> l \<Longrightarrow> apply_remote_update E k dto s = (r, s') \<Longrightarrow> replica E l s0 h s'"
| ingest: "replica E l s0 h s \<Longrightarrow> ingest_remote_list E md keys s = (r, s') \<Longrightarrow> replica E l s0 h s'"
| restart: "replica E l s0 h s \<Longrightarrow> replica E l s0 h (store_new (st_db s) S)"
| wire: "replica E l s0 h s \<Longrightarrow> replica E l s0 h (set_sync_tx s)"

section \<open>What the library promises\<close>

definition crdt_ok :: "store_env \<Rightarrow> bool" where
  "crdt_ok E \<longleftrightarrow>
     (\<forall>op d d'. doc_step op d = Inr d' \<longrightarrow>
        (if ev_export_updates E d d' = [] then d' = d else ev_import E d (ev_export_updates E d d') = Some d')) \<and>
     (\<forall>d. ev_from_snapshot E (ev_export_snapshot E d) = Some d)"

text \<open>The document that the database alone gives, after a restart.\<close>

definition stored_doc :: "store_env \<Rightarrow> list_id \<Rightarrow> client_db \<Rightarrow> todo_doc option" where
  "stored_doc E l db = (case load_document l db of None \<Rightarrow> Some doc_new | Some snap \<Rightarrow> ev_from_snapshot E snap)"

definition in_step :: "store_env \<Rightarrow> list_id \<Rightarrow> todo_doc \<Rightarrow> store \<Rightarrow> bool" where
  "in_step E l d s \<longleftrightarrow> open_doc E l s = Some d \<and> stored_doc E l (st_db s) = Some d \<and> db_wf (st_db s)"

section \<open>What leaves a list alone\<close>

text \<open>The parts of a store that list \<open>l\<close> is read from, and that the schema holds.\<close>

definition kept :: "list_id \<Rightarrow> todo_doc option \<Rightarrow> bytes option \<Rightarrow> todo_item_row list \<Rightarrow> store \<Rightarrow> bool" where
  "kept l cached snap rows s \<longleftrightarrow> st_docs s l = cached \<and> load_document l (st_db s) = snap \<and>
     read_model l (st_db s) = rows \<and> db_wf (st_db s)"

lemma keeps_lift_db:
  assumes "\<And>db db'. f db = Inr db' \<Longrightarrow> db_step db db' \<and> load_document l db' = load_document l db \<and> read_model l db' = read_model l db"
  shows "keeps (kept l d snap rows) (lift_db f)"
  using assms db_step_wf by (intro keepsI) (auto simp: kept_def lift_db_def split: sum.splits)

lemma keeps_modify_db:
  assumes "\<And>db. db_step db (f db) \<and> load_document l (f db) = load_document l db \<and> read_model l (f db) = read_model l db"
  shows "keeps (kept l d snap rows) (modify_db f)"
  using assms db_step_wf by (intro keepsI) (auto simp: kept_def modify_db_def)

lemma keeps_quiet [keeps_intros]:
  "keeps (kept l d snap rows) (modify_session f)" "keeps (kept l d snap rows) (of_option e g)"
  "keeps (kept l d snap rows) (sync c)"
  by (auto intro!: keepsI simp: kept_def modify_session_def of_option_def sync_def split: option.splits)

lemma quiet_db:
  "enqueue_outbound k e p sig db = Inr db' \<Longrightarrow> load_document l db' = load_document l db \<and> read_model l db' = read_model l db"
  "upsert_list_meta k r e db = Inr db' \<Longrightarrow> load_document l db' = load_document l db \<and> read_model l db' = read_model l db"
  "add_member_row k m db = Inr db' \<Longrightarrow> load_document l db' = load_document l db \<and> read_model l db' = read_model l db"
  "save_key_slot k e w db = Inr db' \<Longrightarrow> load_document l db' = load_document l db \<and> read_model l db' = read_model l db"
  "load_document l (set_applied_through_seq k q db) = load_document l db \<and> read_model l (set_applied_through_seq k q db) = read_model l db"
  by (auto simp: enqueue_outbound_def upsert_list_meta_def add_member_row_def save_key_slot_def set_applied_through_seq_def
      update_list_def load_document_def read_model_def Let_def split: if_splits option.splits)

lemma other_db:
  "k \<noteq> l \<Longrightarrow> save_document k snap db = Inr db' \<Longrightarrow> load_document l db' = load_document l db \<and> read_model l db' = read_model l db"
  "k \<noteq> l \<Longrightarrow> replace_todo_items jt k its db = Inr db' \<Longrightarrow> load_document l db' = load_document l db \<and> read_model l db' = read_model l db"
  using replace_todo_items_frame(3) [of jt k its db db'] replace_todo_items_frame(7) [of jt k its db db' l]
  by (auto simp: save_document_def load_document_def read_model_def table_simps split: if_splits)

lemma keeps_db [keeps_intros]:
  "keeps (kept l d snap rows) (lift_db (enqueue_outbound k e p sig))"
  "keeps (kept l d snap rows) (lift_db (upsert_list_meta k r e))"
  "keeps (kept l d snap rows) (lift_db (add_member_row k m))"
  "keeps (kept l d snap rows) (lift_db (save_key_slot k e w))"
  "keeps (kept l d snap rows) (modify_db (set_applied_through_seq k q))"
  by (intro keeps_lift_db keeps_modify_db conjI quiet_db db_step.intros; (assumption | erule quiet_db [THEN conjunct1] quiet_db [THEN conjunct2] | simp add: quiet_db))+

lemma keeps_save_doc [keeps_intros]: "k \<noteq> l \<Longrightarrow> keeps (kept l d snap rows) (save_doc E k doc)"
  unfolding save_doc_def
  by (intro keeps_intros keeps_lift_db) (auto dest: other_db intro: db_step.intros)

lemma keeps_ensure_doc: "k \<noteq> l \<Longrightarrow> keeps (kept l d snap rows) (ensure_doc E k)"
  by (intro keepsI) (auto simp: ensure_doc_eq kept_def split: option.splits)

lemma keeps_enqueue_delta [keeps_intros]: "keeps (kept l d snap rows) (enqueue_delta E n k e dek u)"
proof (rule keepsI)
  fix s assume "kept l d snap rows s"
  moreover have "keeps (kept l d snap rows) (sbind (lift_db (enqueue_outbound k e p sig)) (\<lambda>_. sync (SyncPush k)))" for p sig
    by (intro keeps_intros)
  ultimately show "kept l d snap rows (snd (enqueue_delta E n k e dek u s))"
    by (simp add: enqueue_delta_def Let_def keeps_def)
qed

lemma keeps_edit: "k \<noteq> l \<Longrightarrow> keeps (kept l d snap rows) (todo_op E n k op)"
proof (rule keepsI)
  fix s assume k: "k \<noteq> l" and s: "kept l d snap rows s"
  have cached: "kept l d snap rows (s\<lparr> st_docs := (st_docs s)(k \<mapsto> x) \<rparr>)" for x
    using k s by (simp add: kept_def)
  have "keeps (kept l d snap rows) (persist E n k x y)" for x y
    unfolding persist_def using k by (intro keeps_intros)
  then show "kept l d snap rows (snd (todo_op E n k op s))"
    using s cached by (auto simp: todo_op_def edit_doc_eq keeps_def split: option.splits sum.splits)
qed

lemma keeps_receive: "k \<noteq> l \<Longrightarrow> keeps (kept l d snap rows) (apply_remote_update E k dto)"
proof (rule keepsI)
  fix s assume k: "k \<noteq> l" and s: "kept l d snap rows s"
  have "keeps (kept l d snap rows) (\<lambda>s. case ev_import E x u of None \<Rightarrow> (Inl Loro, s)
      | Some doc' \<Rightarrow> (Inr (), s\<lparr> st_docs := (st_docs s)(k \<mapsto> doc') \<rparr>))" for x u
    using k by (auto intro!: keepsI simp: kept_def split: option.splits)
  then have "keeps (kept l d snap rows) (sbind (ensure_doc E k) (\<lambda>_. sbind (of_option DocNotOpen (\<lambda>s. st_docs s k)) (\<lambda>doc.
      sbind (\<lambda>s. case ev_import E doc u of None \<Rightarrow> (Inl Loro, s)
                | Some doc' \<Rightarrow> (Inr (), s\<lparr> st_docs := (st_docs s)(k \<mapsto> doc') \<rparr>)) (\<lambda>_.
      sbind (rebuild_read_model E k) (\<lambda>_.
      sbind (modify_db (set_applied_through_seq k (sd_seq dto))) (\<lambda>_. sreturn True))))))" for u
    unfolding rebuild_read_model_def using k by (intro keeps_intros keeps_ensure_doc)
  moreover have "keeps (kept l d snap rows) (sbind (modify_db (set_applied_through_seq k (sd_seq dto))) (\<lambda>_. sreturn False))"
    by (intro keeps_intros)
  ultimately show "kept l d snap rows (snd (apply_remote_update E k dto s))"
    using s by (auto simp: apply_remote_update_def keeps_def split: option.splits sum.splits)
qed

lemma keeps_ingest: "keeps (kept l d snap rows) (ingest_remote_list E md keys)"
proof (rule keepsI)
  fix s assume s: "kept l d snap rows s"
  have "keeps (kept l d snap rows) (\<lambda>s. modify_session (rehydrate C (st_db s)) s)" for C
    by (intro keepsI) (simp add: kept_def modify_session_def)
  then have "keeps (kept l d snap rows) (sbind (lift_db (upsert_list_meta k r e)) (\<lambda>_.
         sbind (for_each (\<lambda>m. lift_db (add_member_row k m)) ms) (\<lambda>_.
         sbind (for_each (\<lambda>q. lift_db (save_key_slot k (kd_epoch q) (kd_wrapped_dek q))) keys) (\<lambda>_ s.
         modify_session (rehydrate (ev_crypto E) (st_db s)) s))))" for k r e ms
    by (intro keeps_intros)
  then show "kept l d snap rows (snd (ingest_remote_list E md keys s))"
    using s by (simp add: ingest_remote_list_def Let_def keeps_def)
qed

section \<open>Convergence\<close>

lemma receive_merges:
  assumes "apply_remote_update E l dto s = (Inr True, s')" and "received E l dto s = Some p"
  obtains doc doc' db' where "open_doc E l s = Some doc" "ev_import E doc p = Some doc'"
    "save_doc_spec E l doc' (st_db s) db'" "db_wf (st_db s) \<longrightarrow> db_wf db'"
    "s' = s\<lparr> st_docs := (st_docs s)(l \<mapsto> doc'), st_db := set_applied_through_seq l (sd_seq dto) db' \<rparr>"
proof -
  obtain s1 doc doc' s2 u v where en: "ensure_doc E l s = (Inr u, s1)" "st_docs s1 l = Some doc" "ev_import E doc p = Some doc'"
    and rb: "rebuild_read_model E l (s1\<lparr> st_docs := (st_docs s1)(l \<mapsto> doc') \<rparr>) = (Inr v, s2)"
    and s': "s' = s2\<lparr> st_db := set_applied_through_seq l (sd_seq dto) (st_db s2) \<rparr>"
    using assms by (auto simp: apply_remote_update_def received_def action_simps split: if_splits option.splits sum.splits)
  have o: "open_doc E l s = Some doc" and s1: "s1 = s\<lparr> st_docs := (st_docs s)(l \<mapsto> doc) \<rparr>"
    using en(1,2) by (auto simp: ensure_doc_eq split: option.splits)
  obtain db' where "s2 = s1\<lparr> st_docs := (st_docs s1)(l \<mapsto> doc'), st_db := db' \<rparr>"
    "save_doc_spec E l doc' (st_db s) db'" "db_wf (st_db s) \<longrightarrow> db_wf db'"
    by (rule rebuild_Inr [OF rb, of doc']) (auto simp: s1)
  then show ?thesis using o en(3) by (intro that) (auto simp: s1 s')
qed

lemma receive_skips:
  assumes "apply_remote_update E l dto s = (Inr False, s')"
  shows "s' = s \<or> s' = s\<lparr> st_db := set_applied_through_seq l (sd_seq dto) (st_db s) \<rparr>"
  using assms by (auto simp: apply_remote_update_def action_simps split: if_splits option.splits sum.splits)

definition shows_doc :: "store_env \<Rightarrow> list_id \<Rightarrow> todo_doc \<Rightarrow> store \<Rightarrow> bool" where
  "shows_doc E l d s \<longleftrightarrow> read_model l (st_db s) = map (row_of_item (ev_json_tags E)) (items d)"

lemma kept_in_step:
  assumes "kept l (st_docs s l) (load_document l (st_db s)) (read_model l (st_db s)) s'" and "in_step E l d s"
  shows "in_step E l d s' \<and> (shows_doc E l d s \<longrightarrow> shows_doc E l d s')"
proof -
  have "open_doc E l s' = open_doc E l s" "stored_doc E l (st_db s') = stored_doc E l (st_db s)"
    using assms(1) unfolding kept_def open_doc_def stored_doc_def by (simp_all cong: option.case_cong)
  then show ?thesis using assms by (simp add: kept_def in_step_def shows_doc_def)
qed

lemma in_step_kept: "in_step E l d s \<Longrightarrow> kept l (st_docs s l) (load_document l (st_db s)) (read_model l (st_db s)) s"
  by (simp add: kept_def in_step_def)

lemma keeps_in_step:
  assumes "\<And>c snap rows. keeps (kept l c snap rows) m" and "m s = (r, s')" and "in_step E l d s"
  shows "in_step E l d s' \<and> (shows_doc E l d s \<longrightarrow> shows_doc E l d s')"
  using kept_in_step [OF keepsD [OF assms(1) in_step_kept [OF assms(3)] assms(2)] assms(3)] .

text \<open>A new document that is saved with its snapshot and its rows.\<close>

lemma saved_in_step:
  assumes "crdt_ok E" and "st_docs s l = Some d" and "load_document l (st_db s) = Some (ev_export_snapshot E d)" and "db_wf (st_db s)"
  shows "in_step E l d s"
  using assms by (simp add: in_step_def open_doc_def stored_doc_def crdt_ok_def)

lemma replica_in_step:
  assumes "replica E l s0 h s" and "crdt_ok E" and "in_step E l d0 s0"
  shows "\<exists>d. import_all E d0 h = Some d \<and> in_step E l d s \<and> (h \<noteq> [] \<longrightarrow> shows_doc E l d s)"
  using assms(1)
proof induction
  case start
  then show ?case using assms(3) by simp
next
  case (edit h s n op s')
  then obtain d where d: "import_all E d0 h = Some d" "in_step E l d s" by blast
  obtain doc doc' where o: "open_doc E l s = Some doc" "doc_step op doc = Inr doc'"
    and p: "persist E n l doc doc' (s\<lparr> st_docs := (st_docs s)(l \<mapsto> doc') \<rparr>) = (Inr (), s')"
    by (rule todo_op_Inr [OF edit.hyps(2)])
  have doc: "doc = d" using o(1) d(2) by (simp add: in_step_def)
  have s': "in_step E l doc' s' \<and> shows_doc E l doc' s'"
    by (rule persist_Inr [OF p])
       (use d(2) [unfolded in_step_def] in \<open>simp add: saved_in_step [OF assms(2)] shows_doc_def\<close>)
  have "import_all E d (exported E l op s) = Some doc'"
    using assms(2) o by (auto simp: crdt_ok_def exported_def doc split: if_splits)
  then show ?case using d(1) s' by (auto simp: import_all_append)
next
  case (receive h s dto s' p)
  then obtain d where d: "import_all E d0 h = Some d" "in_step E l d s" by blast
  obtain doc' db' where m: "ev_import E d p = Some doc'" "save_doc_spec E l doc' (st_db s) db'" "db_wf (st_db s) \<longrightarrow> db_wf db'"
    "s' = s\<lparr> st_docs := (st_docs s)(l \<mapsto> doc'), st_db := set_applied_through_seq l (sd_seq dto) db' \<rparr>"
    by (rule receive_merges [OF receive.hyps(2,3)]) (use d(2) in \<open>auto simp: in_step_def\<close>)
  have "in_step E l doc' s'"
    using m d(2) db_step_wf [OF db_step.set_applied_through_seq]
    by (intro saved_in_step [OF assms(2)]) (auto simp: save_doc_spec_def quiet_db in_step_def)
  then show ?case
    using d(1) m by (auto simp: import_all_append shows_doc_def save_doc_spec_def quiet_db)
next
  case (skip h s dto s')
  then obtain d where d: "import_all E d0 h = Some d" "in_step E l d s" "h \<noteq> [] \<longrightarrow> shows_doc E l d s" by blast
  have "kept l (st_docs s l) (load_document l (st_db s)) (read_model l (st_db s)) s'"
    using receive_skips [OF skip.hyps(2)] in_step_kept [OF d(2)] keepsD [OF keeps_db(5) in_step_kept [OF d(2)]]
    by (auto simp: modify_db_def)
  from kept_in_step [OF this d(2)] show ?case using d by blast
next
  case (refuse h s d op e n r s')
  then have "s' = s\<lparr> st_docs := (st_docs s)(l \<mapsto> d) \<rparr>" by (auto simp: todo_op_def edit_doc_eq)
  then show ?case using refuse.IH refuse.hyps(2) by (auto simp: in_step_def open_doc_def shows_doc_def)
next
  case (edit_other h s k n op r s')
  then obtain d where d: "import_all E d0 h = Some d" "in_step E l d s" "h \<noteq> [] \<longrightarrow> shows_doc E l d s" by blast
  from keeps_in_step [OF keeps_edit [OF edit_other.hyps(2)] edit_other.hyps(3) d(2)] show ?case using d by blast
next
  case (receive_other h s k dto r s')
  then obtain d where d: "import_all E d0 h = Some d" "in_step E l d s" "h \<noteq> [] \<longrightarrow> shows_doc E l d s" by blast
  from keeps_in_step [OF keeps_receive [OF receive_other.hyps(2)] receive_other.hyps(3) d(2)] show ?case using d by blast
next
  case (ingest h s md keys r s')
  then obtain d where d: "import_all E d0 h = Some d" "in_step E l d s" "h \<noteq> [] \<longrightarrow> shows_doc E l d s" by blast
  from keeps_in_step [OF keeps_ingest ingest.hyps(2) d(2)] show ?case using d by blast
next
  case (restart h s S)
  then show ?case by (auto simp: store_new_def in_step_def open_doc_def stored_doc_def shows_doc_def)
next
  case (wire h s)
  then show ?case by (simp add: set_sync_tx_def in_step_def open_doc_def stored_doc_def shows_doc_def cong: option.case_cong)
qed


section \<open>Two members who edit at the same time\<close>

text \<open>A last-writer-wins document library: an update is the change it was exported for, and merging keeps
  the greater document.\<close>

instance lval :: countable
  by countable_datatype

definition doc_key :: "todo_doc \<Rightarrow> nat" where
  "doc_key d = (if d = doc_new then 0 else Suc (to_nat (td_meta d, td_items d)))"

definition doc_code :: "todo_doc \<times> todo_doc \<Rightarrow> bytes" where
  "doc_code p = replicate (Suc (to_nat (doc_key (fst p), doc_key (snd p)))) 0"

definition lww_merge :: "todo_doc \<Rightarrow> todo_doc \<times> todo_doc \<Rightarrow> todo_doc" where
  "lww_merge x p = (if x = fst p \<or> doc_key x < doc_key (snd p) then snd p else x)"

definition lww_env :: store_env where
  "lww_env = demo_env\<lparr> ev_export_snapshot := (\<lambda>d. doc_code (d, d)),
     ev_from_snapshot := (\<lambda>b. Some (fst (inv doc_code b))),
     ev_import := (\<lambda>x b. Some (lww_merge x (inv doc_code b))),
     ev_export_updates := (\<lambda>d d'. if d' = d then [] else doc_code (d, d')) \<rparr>"

lemma doc_key_inj [simp]: "doc_key x = doc_key y \<longleftrightarrow> x = y"
  by (auto simp: doc_key_def intro: todo_doc.equality)

lemma doc_code_inv [simp]: "inv doc_code (doc_code p) = p"
  by (rule inv_f_f, rule injI) (auto simp: doc_code_def prod_eq_iff)

lemma doc_code_Nil [simp]: "doc_code p \<noteq> []" "doc_code p = doc_code q \<longleftrightarrow> p = q"
  by (simp add: doc_code_def) (metis doc_code_inv)

lemma lww_env_sel [simp]:
  "ev_crypto lww_env = toy_crypto" "ev_import lww_env x (doc_code p) = Some (lww_merge x p)"
  "ev_export_updates lww_env d d' = (if d' = d then [] else doc_code (d, d'))"
  "ev_export_snapshot lww_env d = doc_code (d, d)" "ev_from_snapshot lww_env (doc_code (d, d')) = Some d"
  by (simp_all add: lww_env_def demo_env_def)

lemma lww_crdt: "crdt_ok lww_env"
  by (auto simp: crdt_ok_def lww_merge_def)

lemma doc_key_new [simp]: "doc_key doc_new = 0" "0 < doc_key x \<longleftrightarrow> x \<noteq> doc_new" "doc_key x = 0 \<longleftrightarrow> x = doc_new"
  by (simp_all add: doc_key_def)

text \<open>Changes of the empty document merge to the greatest.\<close>

lemma lww_merge_new: "x \<noteq> doc_new \<Longrightarrow> lww_merge d (doc_new, x) = (if doc_key d < doc_key x then x else d)"
  by (auto simp: lww_merge_def)

lemma lww_commute: "x \<noteq> doc_new \<Longrightarrow> y \<noteq> doc_new \<Longrightarrow> commute lww_env (doc_code (doc_new, x)) (doc_code (doc_new, y))"
  by (auto simp: commute_def lww_merge_new)

lemma lww_import_bounds:
  assumes "set us \<subseteq> (\<lambda>x. doc_code (doc_new, x)) ` X" and "doc_new \<notin> X" and "import_all lww_env d us = Some r"
  shows "doc_key d \<le> doc_key r \<and> (\<forall>x. doc_code (doc_new, x) \<in> set us \<longrightarrow> doc_key x \<le> doc_key r)"
  using assms
proof (induction us arbitrary: d)
  case (Cons u us)
  then obtain x where x: "u = doc_code (doc_new, x)" "x \<noteq> doc_new" by auto
  with Cons show ?case
    by (fastforce simp: lww_merge_new split: if_splits)
qed simp

lemma lww_absorbs:
  assumes "doc_new \<notin> X"
  shows "absorbs lww_env doc_new ((\<lambda>x. doc_code (doc_new, x)) ` X)"
  unfolding absorbs_def
proof (intro allI impI, elim conjE)
  fix us b d
  assume us: "set us \<subseteq> (\<lambda>x. doc_code (doc_new, x)) ` X" "b \<in> set us" "import_all lww_env doc_new us = Some d"
  then obtain x where "b = doc_code (doc_new, x)" "x \<noteq> doc_new" using assms by auto
  then show "ev_import lww_env d b = Some d"
    using lww_import_bounds [OF us(1) assms us(3)] us(2) by (fastforce simp: lww_merge_new)
qed

definition member_store :: "byte \<Rightarrow> store" where
  "member_store b = demo_store\<lparr> st_session := demo_session\<lparr> se_member_id := fixed_repeat b, se_signing_seed := fixed_repeat b \<rparr> \<rparr>"

definition titled :: "string \<Rightarrow> todo_doc" where
  "titled t = \<lparr> td_meta = [(''title'', VStr t)], td_items = [] \<rparr>"

definition titled_by :: "byte \<Rightarrow> string \<Rightarrow> store" where
  "titled_by b t = snd (todo_op lww_env (fixed_repeat 4) demo_list (OpSetTitle t) (member_store b))"

definition title_dto :: "byte \<Rightarrow> string \<Rightarrow> int \<Rightarrow> stored_update_dto" where
  "title_dto b t q = dto_of_payload q (delta_payload lww_env (fixed_repeat 4) demo_list 1 (fixed_repeat 7)
     (member_store b) (doc_code (doc_new, titled t)))"

definition synced :: "byte \<Rightarrow> string \<Rightarrow> byte \<Rightarrow> string \<Rightarrow> store" where
  "synced b t c u = snd (apply_remote_update lww_env demo_list (title_dto c u 3) (titled_by b t))"

lemma titled_facts [simp]: "set_title t doc_new = Inr (titled t)" "titled t \<noteq> doc_new" "items (titled t) = []"
  by (simp_all add: set_title_def doc_new_def titled_def map_insert_def items_def raw_items_def)

lemma titled_by_runs: "todo_op lww_env (fixed_repeat 4) demo_list (OpSetTitle t) (member_store b) = (Inr (), titled_by b t)"
proof -
  have "fst (todo_op lww_env (fixed_repeat 4) demo_list (OpSetTitle t) (member_store b)) = Inr ()"
    by (simp add: todo_op_def edit_doc_eq open_doc_def persist_def sbind_def of_option_def enqueue_delta_def
      lift_db_def sync_def save_doc_def save_document_def replace_todo_items_def load_document_def
      enqueue_outbound_def epoch_check_def has_list_def member_store_def demo_store_simps Let_def)
  then show ?thesis by (simp add: titled_by_def prod_eq_iff)
qed

lemma titled_by_facts:
  "st_docs (titled_by b t) demo_list = Some (titled t)"
  "st_session (titled_by b t) = st_session (member_store b)"
  "list_members demo_list (st_db (titled_by b t)) = [demo_member 1, demo_member 2]"
  "has_list demo_list (st_db (titled_by b t))"
  by (simp_all add: titled_by_def todo_op_def edit_doc_eq open_doc_def persist_def sbind_def of_option_def enqueue_delta_def
      lift_db_def sync_def save_doc_def save_document_def replace_todo_items_def load_document_def list_members_def
      enqueue_outbound_def epoch_check_def has_list_def member_store_def demo_store_simps Let_def)

lemma member_store_facts:
  "session_dek (st_session (member_store b)) demo_list 1 = Some (fixed_repeat 7)"
  "se_member_id (st_session (member_store b)) = fixed_repeat b"
  "se_signing_seed (st_session (member_store b)) = fixed_repeat b"
  "open_doc lww_env demo_list (member_store b) = Some doc_new"
  "load_document demo_list (st_db (member_store b)) = None" "db_wf (st_db (member_store b))"
  by (simp_all add: member_store_def session_dek_def demo_session_def open_doc_def load_document_def demo_store_simps
      db_wf_defs keyed_def demo_member_def epoch_check_def queue_wf_def)

lemma title_dto_sel [simp]: "sd_author (title_dto c u q) = fixed_repeat c" "sd_epoch (title_dto c u q) = 1"
  by (simp_all add: title_dto_def member_store_facts)

lemma title_received:
  assumes "c = 1 \<or> c = 2"
  shows "received lww_env demo_list (title_dto c u q) (titled_by b t) = Some (doc_code (doc_new, titled u))"
proof -
  have "find (\<lambda>m. mem_id m = fixed_repeat c) [demo_member 1, demo_member 2] = Some (demo_member c)"
    using assms by (auto simp: demo_member_def)
  moreover have "c_verifying_key toy_crypto (fixed_repeat c) = mem_signing_pub (demo_member c)"
    by (simp add: toy_crypto_def demo_member_def)
  ultimately show ?thesis
    using delta_payload_opens [of lww_env "fixed_repeat 4" demo_list 1 "fixed_repeat 7" "member_store c" "doc_code (doc_new, titled u)"]
    by (simp add: received_def titled_by_facts member_store_facts toy_crypto_ok title_dto_def [of c u q] remote_payload_dto)
qed

lemma receive_runs:
  assumes "received E l dto s = Some p" and "sd_author dto \<noteq> se_member_id (st_session s)" and "st_docs s l = Some d"
    and "ev_import E d p = Some d'" and "items d' = []" and "has_list l (st_db s)"
  shows "fst (apply_remote_update E l dto s) = Inr True"
  using assms
  by (auto simp: received_def apply_remote_update_def ensure_doc_eq open_doc_def sbind_def of_option_def sreturn_def
      modify_db_def rebuild_read_model_def lift_db_def save_doc_def save_document_def replace_todo_items_def has_list_def Let_def
      split: option.splits sum.splits)

lemma synced_replica:
  assumes "c = 1 \<or> c = 2" and "b \<noteq> c"
  shows "replica lww_env demo_list (member_store b) [doc_code (doc_new, titled t), doc_code (doc_new, titled u)] (synced b t c u)"
proof -
  have e: "exported lww_env demo_list (OpSetTitle t) (member_store b) = [doc_code (doc_new, titled t)]"
    by (simp add: exported_def member_store_facts)
  have "items (lww_merge (titled t) (doc_new, titled u)) = []" by (simp add: lww_merge_def)
  then have "fst (apply_remote_update lww_env demo_list (title_dto c u 3) (titled_by b t)) = Inr True"
    using assms title_received [OF assms(1)]
    by (intro receive_runs [where d = "titled t"]) (auto simp: titled_by_facts member_store_facts)
  then have r: "apply_remote_update lww_env demo_list (title_dto c u 3) (titled_by b t) = (Inr True, synced b t c u)"
    by (simp add: synced_def prod_eq_iff)
  show ?thesis
    using replica.receive [OF replica.edit [OF replica.start titled_by_runs] r title_received [OF assms(1)]] by (simp add: e)
qed

lemma swapped_pair:
  assumes "commute E a b"
  shows "\<forall>x y. precedes (firsts [a, b]) x y \<and> precedes (firsts [b, a]) y x \<longrightarrow> commute E x y"
proof -
  have "x = a \<and> y = b \<and> a \<noteq> b" if "precedes (firsts [a, b]) x y" for x y
    using that by (cases "a = b") (auto simp: firsts_def)
  then show ?thesis using assms by blast
qed


end
