(* ===== verification/Sharing.thy ===== *)
theory Sharing
  imports EndToEnd Replicas
begin

text \<open>
  Membership from end to end: what becomes of an invitation, from the inviter's store over the server to
  the store of the invited member, and of a removal, from the owner's store to what the server still
  gives the removed member.
\<close>

section \<open>Taking in a list\<close>

definition put_members :: "list_id \<Rightarrow> member list \<Rightarrow> client_db \<Rightarrow> client_db" where
  "put_members l ms db = db\<lparr> cd_members := foldl (\<lambda>rs m. row_put member_key (l, m) rs) (cd_members db) ms \<rparr>"

definition put_slots :: "list_id \<Rightarrow> key_slot_dto list \<Rightarrow> client_db \<Rightarrow> client_db" where
  "put_slots l ks db = db\<lparr> cd_key_slots := foldl (\<lambda>rs k. row_put slot_key
      \<lparr> kr_list_id = l, kr_epoch = kd_epoch k, kr_wrapped_dek = kd_wrapped_dek k \<rparr> rs) (cd_key_slots db) ks \<rparr>"

lemma add_members_run:
  "has_list l (st_db s) \<Longrightarrow>
     for_each (\<lambda>m. lift_db (add_member_row l m)) ms s = (Inr (), s\<lparr> st_db := put_members l ms (st_db s) \<rparr>)"
  by (induction ms arbitrary: s) (simp_all add: sreturn_def sbind_def lift_db_def add_member_row_def put_members_def has_list_def)

lemma save_slots_run:
  "has_list l (st_db s) \<Longrightarrow> \<forall>k\<in>set ks. epoch_check (kd_epoch k) \<Longrightarrow>
     for_each (\<lambda>k. lift_db (save_key_slot l (kd_epoch k) (kd_wrapped_dek k))) ks s =
       (Inr (), s\<lparr> st_db := put_slots l ks (st_db s) \<rparr>)"
  by (induction ks arbitrary: s) (simp_all add: sreturn_def sbind_def lift_db_def save_key_slot_def put_slots_def has_list_def)

text \<open>In a run of upserts the row of a key is the last one put, so it is \<open>r\<close> when no other row of that
  key is put.\<close>

lemma row_get_puts:
  "row_get key k rs = Some (f x) \<or> x \<in> set xs \<Longrightarrow> key (f x) = k \<Longrightarrow> \<forall>y\<in>set xs. key (f y) = k \<longrightarrow> f y = f x \<Longrightarrow>
     row_get key k (foldl (\<lambda>rs y. row_put key (f y) rs) rs xs) = Some (f x)"
  by (induction xs arbitrary: rs) (auto simp: row_get_put)

lemma rehydrate_slot_frame [simp]:
  "se_identity_pub (rehydrate_slot C r S) = se_identity_pub S" "se_identity_secret (rehydrate_slot C r S) = se_identity_secret S"
  "se_member_id (rehydrate_slot C r S) = se_member_id S" "se_signing_seed (rehydrate_slot C r S) = se_signing_seed S"
  by (simp_all add: rehydrate_slot_def insert_dek_def split: sum.split)

lemma rehydrate_frame [simp]:
  "se_member_id (rehydrate C db S) = se_member_id S" "se_identity_pub (rehydrate C db S) = se_identity_pub S"
  "se_identity_secret (rehydrate C db S) = se_identity_secret S" "se_signing_seed (rehydrate C db S) = se_signing_seed S"
proof -
  have "\<forall>S. se_member_id (foldl (\<lambda>S slot. rehydrate_slot C slot S) S rs) = se_member_id S \<and>
     se_identity_pub (foldl (\<lambda>S slot. rehydrate_slot C slot S) S rs) = se_identity_pub S \<and>
     se_identity_secret (foldl (\<lambda>S slot. rehydrate_slot C slot S) S rs) = se_identity_secret S \<and>
     se_signing_seed (foldl (\<lambda>S slot. rehydrate_slot C slot S) S rs) = se_signing_seed S" for rs
    by (induction rs) simp_all
  then show "se_member_id (rehydrate C db S) = se_member_id S" "se_identity_pub (rehydrate C db S) = se_identity_pub S"
    "se_identity_secret (rehydrate C db S) = se_identity_secret S" "se_signing_seed (rehydrate C db S) = se_signing_seed S"
    by (simp_all add: rehydrate_def)
qed

text \<open>Every slot that opens with the session's identity ends up in the session.\<close>

lemma rehydrate_opens:
  assumes "keyed slot_key (cd_key_slots db)" and "row_get slot_key (l, e) (cd_key_slots db) = Some r"
    and "open_sealed C (kr_wrapped_dek r) (se_identity_pub S) (se_identity_secret S) = Inr dek"
  shows "session_dek (rehydrate C db S) l e = Some dek"
proof -
  have other: "session_dek (rehydrate_slot C q S) l e = session_dek S l e" if "slot_key q \<noteq> (l, e)" for q S
    using that by (auto simp: rehydrate_slot_def session_dek_def insert_dek_def split: sum.split)
  have others: "session_dek (foldl (\<lambda>S slot. rehydrate_slot C slot S) S rs) l e = session_dek S l e"
    if "(l, e) \<notin> slot_key ` set rs" for rs S
    using that other by (induction rs arbitrary: S) auto
  have "session_dek (foldl (\<lambda>S slot. rehydrate_slot C slot S) S rs) l e = Some dek"
    if "keyed slot_key rs" "row_get slot_key (l, e) rs = Some r"
      "open_sealed C (kr_wrapped_dek r) (se_identity_pub S) (se_identity_secret S) = Inr dek" for rs S
    using that
  proof (induction rs arbitrary: S)
    case (Cons q rs)
    show ?case
    proof (cases "slot_key q = (l, e)")
      case True
      then have "q = r" "(l, e) \<notin> slot_key ` set rs" using Cons.prems by (auto simp: keyed_def image_iff)
      moreover have "session_dek (rehydrate_slot C r S) l e = Some dek"
        using Cons.prems(3) True \<open>q = r\<close> by (simp add: rehydrate_slot_def session_dek_def insert_dek_def)
      ultimately show ?thesis using others by simp
    next
      case False
      then have "row_get slot_key (l, e) rs = Some r" "keyed slot_key rs" using Cons.prems by (auto simp: keyed_def)
      then show ?thesis using Cons.IH [of "rehydrate_slot C q S"] Cons.prems(3) by simp
    qed
  qed simp
  from this [OF assms] show ?thesis by (simp add: rehydrate_def load_key_slots_def)
qed

lemma ingest_runs:
  assumes "epoch_check (md_current_epoch md)" and "\<forall>k\<in>set ks. epoch_check (kd_epoch k)" and "db_wf (st_db s)"
  obtains s' where "ingest_remote_list E md ks s = (Inr (), s')"
    "\<And>m. m \<in> set (md_members md) \<Longrightarrow> \<forall>y\<in>set (md_members md). mem_id y = mem_id m \<longrightarrow> y = m \<Longrightarrow>
       row_get member_key (md_list_id md, mem_id m) (cd_members (st_db s')) = Some (md_list_id md, m)"
    "\<And>k dek. k \<in> set ks \<Longrightarrow> \<forall>y\<in>set ks. kd_epoch y = kd_epoch k \<longrightarrow> y = k \<Longrightarrow>
       open_sealed (ev_crypto E) (kd_wrapped_dek k) (se_identity_pub (st_session s)) (se_identity_secret (st_session s)) = Inr dek \<Longrightarrow>
       session_dek (st_session s') (md_list_id md) (kd_epoch k) = Some dek"
    "list_epoch (md_list_id md) (st_db s') = Some (md_current_epoch md)" "db_wf (st_db s')"
    "se_member_id (st_session s') = se_member_id (st_session s)" "st_docs s' = st_docs s"
proof -
  let ?l = "md_list_id md"
  let ?C = "ev_crypto E"
  let ?S = "st_session s"
  define r where "r = (case find (\<lambda>m. mem_id m = se_member_id ?S) (md_members md) of None \<Rightarrow> Member | Some m \<Rightarrow> mem_role m)"
  obtain db1 where db1: "upsert_list_meta ?l r (md_current_epoch md) (st_db s) = Inr db1"
    using assms(1) by (simp add: upsert_list_meta_def Let_def)
  have l1: "list_epoch ?l db1 = Some (md_current_epoch md)" "has_list ?l db1"
    using db1 by (auto simp: upsert_list_meta_def list_epoch_def has_list_def Let_def row_get_put split: option.splits if_splits
        dest: row_get_Some_key)
  define db where "db = put_slots ?l ks (put_members ?l (md_members md) db1)"
  define s' where "s' = s\<lparr> st_db := db, st_session := rehydrate ?C db ?S \<rparr>"
  have run: "ingest_remote_list E md ks s = (Inr (), s')"
    using l1(2) assms(2)
    by (simp add: ingest_remote_list_def Let_def r_def [symmetric] sbind_def lift_db_def db1 add_members_run
        save_slots_run put_members_def has_list_def modify_session_def s'_def db_def)
  have wf: "db_wf (st_db s')"
    using keepsD [OF keeps_ingest _ run, of ?l "st_docs s ?l" "load_document ?l (st_db s)" "read_model ?l (st_db s)"] assms(3)
    by (simp add: kept_def)
  show ?thesis
  proof (rule that [OF run])
    show "row_get member_key (?l, mem_id m) (cd_members (st_db s')) = Some (?l, m)"
      if "m \<in> set (md_members md)" "\<forall>y\<in>set (md_members md). mem_id y = mem_id m \<longrightarrow> y = m" for m
      using that by (simp add: s'_def db_def put_slots_def put_members_def row_get_puts [where f = "Pair ?l" and x = m])
    show "session_dek (st_session s') ?l (kd_epoch k) = Some dek"
      if k: "k \<in> set ks" "\<forall>y\<in>set ks. kd_epoch y = kd_epoch k \<longrightarrow> y = k"
        and o: "open_sealed ?C (kd_wrapped_dek k) (se_identity_pub ?S) (se_identity_secret ?S) = Inr dek" for k dek
    proof -
      let ?f = "\<lambda>k. \<lparr> kr_list_id = ?l, kr_epoch = kd_epoch k, kr_wrapped_dek = kd_wrapped_dek k \<rparr>"
      have "row_get slot_key (?l, kd_epoch k) (cd_key_slots db) = Some (?f k)"
        unfolding db_def put_slots_def using k by (auto intro!: row_get_puts [where f = ?f and x = k])
      then show ?thesis
        using wf o by (simp add: s'_def db_wf_defs rehydrate_opens [where r = "?f k"])
    qed
    show "list_epoch ?l (st_db s') = Some (md_current_epoch md)"
      using l1(1) by (simp add: s'_def db_def put_slots_def put_members_def list_epoch_def)
  qed (use wf in \<open>simp_all add: s'_def\<close>)
qed

section \<open>The calls of an invitation\<close>

lemma net_unit_serve:
  assumes "build_router E (shd (sd_ticks w)) m (''/v1/'' @ trim_start_slash path) (map_option (\<lambda>t. ''Bearer '' @ t) token) body = respond st f h"
    and "\<not> error_for_status st"
  shows "net_unit (serve E base) (req base m path token body) w =
     (case h (sd_app w) of
        (r, s') \<Rightarrow> (case r of Inl _ \<Rightarrow> Inl Reqwest | Inr x \<Rightarrow> Inr (), \<lparr> sd_app = s', sd_ticks = stl (sd_ticks w) \<rparr>))"
  unfolding net_unit_def serve_req assms(1) respond_def
  using assms(2) by (cases "h (sd_app w)") (simp split: sum.split)

lemma add_member_served:
  "add_member_call (serve E base) base token b w =
     (case add_member_route E (tk_now (shd (sd_ticks w))) (bearer token) (Some b) (sd_app w) of
        (r, s') \<Rightarrow> (case r of Inl _ \<Rightarrow> Inl Reqwest | Inr x \<Rightarrow> Inr (), \<lparr> sd_app = s', sd_ticks = stl (sd_ticks w) \<rparr>))"
  unfolding add_member_call_def
  by (rule net_unit_serve [where st = 204 and f = "\<lambda>_. RespEmpty"]) (simp_all add: trim_start_slash_def build_router_def route_members_def bearer_def)

lemma remove_member_served:
  "remove_member_call (serve E base) base token b w =
     (case remove_member_route E (tk_now (shd (sd_ticks w))) (bearer token) (Some b) (sd_app w) of
        (r, s') \<Rightarrow> (case r of Inl _ \<Rightarrow> Inl Reqwest | Inr x \<Rightarrow> Inr (), \<lparr> sd_app = s', sd_ticks = stl (sd_ticks w) \<rparr>))"
  unfolding remove_member_call_def
  by (rule net_unit_serve [where st = 204 and f = "\<lambda>_. RespEmpty"]) (simp_all add: trim_start_slash_def build_router_def route_members_def bearer_def)

lemma fetch_lists_served:
  "fetch_lists_call (serve E base) base token w =
     (case fetch_lists_route E (tk_now (shd (sd_ticks w))) (bearer token) (sd_app w) of
        (r, s') \<Rightarrow> (case r of Inl _ \<Rightarrow> Inl Reqwest | Inr x \<Rightarrow> Inr x, \<lparr> sd_app = s', sd_ticks = stl (sd_ticks w) \<rparr>))"
  unfolding fetch_lists_call_def
  by (rule decode_serve [where st = 200 and f = RespLists]) (simp_all add: trim_start_slash_def build_router_def route_lists_def bearer_def)

lemma get_metadata_served:
  "get_metadata_call (serve E base) base token l w =
     (case get_metadata_route E (tk_now (shd (sd_ticks w))) (bearer token) (Some l) (sd_app w) of
        (r, s') \<Rightarrow> (case r of Inl _ \<Rightarrow> Inl Reqwest | Inr x \<Rightarrow> Inr x, \<lparr> sd_app = s', sd_ticks = stl (sd_ticks w) \<rparr>))"
  unfolding get_metadata_call_def
  by (rule decode_serve [where st = 200 and f = RespMetadata]) (simp_all add: trim_start_slash_def build_router_def body_list_def bearer_def)

lemma get_my_keys_served:
  "get_my_keys_call (serve E base) base token l w =
     (case get_my_keys_route E (tk_now (shd (sd_ticks w))) (bearer token) (Some l) (sd_app w) of
        (r, s') \<Rightarrow> (case r of Inl _ \<Rightarrow> Inl Reqwest | Inr x \<Rightarrow> Inr x, \<lparr> sd_app = s', sd_ticks = stl (sd_ticks w) \<rparr>))"
  unfolding get_my_keys_call_def
  by (rule decode_serve [where st = 200 and f = RespKeys]) (simp_all add: trim_start_slash_def build_router_def body_list_def bearer_def)

text \<open>The token is accepted as this member's at every clock reading ahead.\<close>

definition speaks_for :: "server_env \<Rightarrow> string \<Rightarrow> member_id \<Rightarrow> app_state \<Rightarrow> tick stream \<Rightarrow> bool" where
  "speaks_for V token m s ts \<longleftrightarrow>
     (\<forall>t\<in>sset ts. \<exists>auth. auth_extractor V (tk_now t) (bearer token) s = (Inr auth, s) \<and> at_member_id auth = m)"

lemma speaks_for_head:
  "speaks_for V token m s ts \<Longrightarrow>
     \<exists>auth. auth_extractor V (tk_now (shd ts)) (bearer token) s = (Inr auth, s) \<and> at_member_id auth = m"
  "speaks_for V token m s ts \<Longrightarrow> speaks_for V token m s (stl ts)"
  unfolding speaks_for_def by (auto simp: stream.set_sel)

definition list_metadata :: "list_id \<Rightarrow> server_db \<Rightarrow> metadata_response" where
  "list_metadata l db = \<lparr> md_list_id = l,
     md_current_epoch = (case row_get sl_list_id l (sv_lists db) of None \<Rightarrow> 0 | Some r \<Rightarrow> sl_current_epoch r),
     md_snapshot = fetch_snapshot l db, md_members = fetch_members l db \<rparr>"

lemma discover_served:
  assumes "speaks_for V token m s ts" and "sv_has_list l (ap_db s)" and "eg_world g = \<lparr> sd_app = s, sd_ticks = ts \<rparr>"
  shows "discover (http_net (serve V base) base token) l g =
    (Inr (), g\<lparr> eg_world := \<lparr> sd_app = s, sd_ticks = stl (stl ts) \<rparr>,
       eg_store_tx := eg_store_tx g @ [IngestRemoteList (list_metadata l (ap_db s)) (fetch_my_key_slots l m (ap_db s))],
       eg_tx := eg_tx g @ [SyncPull l, SyncSubscribe l] \<rparr>)"
proof -
  obtain a1 a2 where a: "auth_extractor V (tk_now (shd ts)) (bearer token) s = (Inr a1, s)"
    "auth_extractor V (tk_now (shd (stl ts))) (bearer token) s = (Inr a2, s)" "at_member_id a2 = m"
    using speaks_for_head [OF assms(1)] speaks_for_head(1) [OF speaks_for_head(2) [OF assms(1)]] by blast
  obtain e where "row_get sl_list_id l (sv_lists (ap_db s)) = Some e"
    using assms(2) by (auto simp: sv_has_list_def)
  then have "get_metadata_route V (tk_now (shd ts)) (bearer token) (Some l) s = (Inr (list_metadata l (ap_db s)), s)"
    using a by (simp add: get_metadata_route_def handler_simps list_current_epoch_def require_def list_metadata_def)
  moreover have "get_my_keys_route V (tk_now (shd (stl ts))) (bearer token) (Some l) s = (Inr (fetch_my_key_slots l m (ap_db s)), s)"
    using a by (simp add: get_my_keys_route_def handler_simps)
  ultimately show ?thesis
    by (simp add: discover_def http_net_def call_def sbind_def assms(3) get_metadata_served get_my_keys_served to_store_def to_self_def)
qed

text \<open>The start-up sync of a member hands its store the metadata and the key slots of each of its lists.\<close>

lemma initial_sync_served:
  assumes "speaks_for V token m s ts" and "sv_wf (ap_db s)" and "eg_world g = \<lparr> sd_app = s, sd_ticks = ts \<rparr>"
  obtains g' where "initial_sync (http_net (serve V base) base token) g = (Inr (), g')"
    "eg_store_tx g' = eg_store_tx g @
       map (\<lambda>l. IngestRemoteList (list_metadata l (ap_db s)) (fetch_my_key_slots l m (ap_db s))) (fetch_user_lists m (ap_db s))"
    "sd_app (eg_world g') = s"
proof -
  have each: "\<exists>g'. for_each (discover (http_net (serve V base) base token)) ls g = (Inr (), g') \<and>
      eg_store_tx g' = eg_store_tx g @
        map (\<lambda>l. IngestRemoteList (list_metadata l (ap_db s)) (fetch_my_key_slots l m (ap_db s))) ls \<and> sd_app (eg_world g') = s"
    if "speaks_for V token m s (sd_ticks (eg_world g))" "sd_app (eg_world g) = s" "\<forall>l\<in>set ls. sv_has_list l (ap_db s)" for ls g
    using that
  proof (induction ls arbitrary: g)
    case Nil
    then show ?case by (simp add: sreturn_def)
  next
    case (Cons l ls)
    have w: "eg_world g = \<lparr> sd_app = s, sd_ticks = sd_ticks (eg_world g) \<rparr>" using Cons.prems(2) by simp
    note d = discover_served [OF Cons.prems(1) _ w, of l base]
    let ?g1 = "snd (discover (http_net (serve V base) base token) l g)"
    have "speaks_for V token m s (sd_ticks (eg_world ?g1))" "sd_app (eg_world ?g1) = s"
      using d Cons.prems speaks_for_head(2) by simp_all
    from Cons.IH [OF this] Cons.prems(3) d show ?case by (auto simp: sbind_def)
  qed
  obtain auth where a: "auth_extractor V (tk_now (shd ts)) (bearer token) s = (Inr auth, s)" "at_member_id auth = m"
    using speaks_for_head(1) [OF assms(1)] by blast
  let ?g1 = "g\<lparr> eg_world := \<lparr> sd_app = s, sd_ticks = stl ts \<rparr> \<rparr>"
  have "call (net_fetch_lists (http_net (serve V base) base token)) g = (Inr (fetch_user_lists m (ap_db s)), ?g1)"
    using a by (simp add: call_def http_net_def fetch_lists_served fetch_lists_route_def handler_simps assms(3))
  moreover have "\<forall>l\<in>set (fetch_user_lists m (ap_db s)). sv_has_list l (ap_db s)"
    using assms(2) by (auto simp: fetch_user_lists_def sv_wf_defs sv_has_iff)
  ultimately show ?thesis
    using each [of ?g1] speaks_for_head(2) [OF assms(1)] that by (auto simp: initial_sync_def sbind_def)
qed

section \<open>An invitation\<close>

lemma add_member_stored:
  assumes "add_member_sv l m r e w db = (Inr (), db')" and "row_get sv_slot_key (l, e, m) (sv_slots db) = None"
  shows "row_get sv_member_key (l, m) (sv_members db') = Some \<lparr> sm_list_id = l, sm_member_id = m, sm_role = r \<rparr>"
    and "\<lparr> sk_list_id = l, sk_epoch = e, sk_member_id = m, sk_wrapped_dek = w \<rparr> \<in> set (sv_slots db')"
    and "a \<noteq> m \<Longrightarrow> row_get sv_member_key (l, a) (sv_members db') = row_get sv_member_key (l, a) (sv_members db)"
    and "sv_users db' = sv_users db" and "sv_lists db' = sv_lists db"
  using assms by (auto simp: add_member_sv_def upsert_member_def add_slot_def route_simps row_get_put row_add_def)

lemma my_key_slot_unique:
  assumes "keyed sv_slot_key (sv_slots db)"
    and "r \<in> set (sv_slots db)" "r = \<lparr> sk_list_id = l, sk_epoch = e, sk_member_id = m, sk_wrapped_dek = w \<rparr>"
    and "k = \<lparr> kd_epoch = e, kd_wrapped_dek = w \<rparr>"
  shows "k \<in> set (fetch_my_key_slots l m db)" and "\<forall>y\<in>set (fetch_my_key_slots l m db). kd_epoch y = kd_epoch k \<longrightarrow> y = k"
proof -
  have r: "sk_list_id r = l" "sk_epoch r = e" "sk_member_id r = m" "sk_wrapped_dek r = w"
    using assms(3) by simp_all
  have "q = r" if "q \<in> set (sv_slots db)" "sv_slot_key q = sv_slot_key r" for q
    using assms(1,2) that by (auto simp: keyed_def distinct_map dest: inj_onD)
  then show "\<forall>y\<in>set (fetch_my_key_slots l m db). kd_epoch y = kd_epoch k \<longrightarrow> y = k"
    using r assms(4) by (auto simp: fetch_my_key_slots_def)
  show "k \<in> set (fetch_my_key_slots l m db)"
    using r assms(2,4) by (auto simp: fetch_my_key_slots_def intro!: image_eqI [of _ _ r])
qed

lemma fetch_member_unique:
  assumes "keyed sv_member_key (sv_members db)" and "row_get sv_member_key (l, a) (sv_members db) = Some r"
    and "row_get us_member_id a (sv_users db) = Some u"
    and "x = \<lparr> mem_id = a, mem_identity_pub = us_identity_pub u, mem_signing_pub = us_signing_pub u, mem_role = sm_role r \<rparr>"
  shows "x \<in> set (fetch_members l db)" and "\<forall>y\<in>set (fetch_members l db). mem_id y = a \<longrightarrow> y = x"
proof -
  have r: "r \<in> set (sv_members db)" "sm_list_id r = l" "sm_member_id r = a" and u: "us_member_id u = a"
    using row_get_Some_key [OF assms(2)] row_get_Some_key [OF assms(3)] by auto
  have one: "q = r" if "q \<in> set (sv_members db)" "sm_list_id q = l" "sm_member_id q = a" for q
    using assms(1) that r by (auto simp: keyed_def distinct_map dest: inj_onD)
  have same: "y = x" if q: "q \<in> set (sv_members db)" "sm_list_id q = l" "member_dto db q = Some y" "mem_id y = a" for q y
  proof -
    obtain v where v: "row_get us_member_id (sm_member_id q) (sv_users db) = Some v"
      using q(3) by (auto simp: member_dto_def)
    then have "us_member_id v = sm_member_id q" by (auto dest: row_get_Some_key)
    then have "sm_member_id q = a" using q(3,4) v by (auto simp: member_dto_def)
    then have "q = r" "v = u" using one [OF q(1,2)] v assms(3) by simp_all
    then show ?thesis using q(3) v u assms(4) by (simp add: member_dto_def)
  qed
  show "\<forall>y\<in>set (fetch_members l db). mem_id y = a \<longrightarrow> y = x"
    using same by (auto simp: fetch_members_def map_filter_def)
  have "member_dto db r = Some x" using r assms(3,4) u by (simp add: member_dto_def)
  then show "x \<in> set (fetch_members l db)"
    using r by (force simp: fetch_members_def map_filter_def)
qed

lemma invitation_sent:
  assumes "add_member_local E rnd l m s = (Inr (), s')" and "st_sync_wired s" and "list_epoch l (st_db s) = Some e"
  shows "\<exists>dek. session_dek (st_session s) l e = Some dek \<and>
    last (st_sync_sent s') = SyncAddMember l \<lparr> am_list_id = l, am_member_id = mem_id m, am_role = mem_role m,
       am_wrapped_dek = seal_to (ev_crypto E) rnd dek (mem_identity_pub m), am_epoch = e \<rparr>"
  using assms by (auto simp: add_member_local_def action_simps sync_Inr)

lemma invitation_accepted:
  assumes "handle k E (http_net (serve V base) base token) (SyncAddMember l b) g = Some (Inr (), g')"
    and "sv_wf (ap_db (sd_app (eg_world g)))"
    and "row_get sv_slot_key (am_list_id b, am_epoch b, am_member_id b) (sv_slots (ap_db (sd_app (eg_world g)))) = None"
  shows "sv_wf (ap_db (sd_app (eg_world g')))"
    and "\<exists>auth. auth_extractor V (tk_now (shd (sd_ticks (eg_world g)))) (bearer token) (sd_app (eg_world g)) =
          (Inr auth, sd_app (eg_world g)) \<and> member_role (am_list_id b) (at_member_id auth) (ap_db (sd_app (eg_world g))) = Some Owner"
    and "\<exists>r. row_get sv_member_key (am_list_id b, am_member_id b) (sv_members (ap_db (sd_app (eg_world g')))) = Some r"
    and "\<lparr> sk_list_id = am_list_id b, sk_epoch = am_epoch b, sk_member_id = am_member_id b, sk_wrapped_dek = am_wrapped_dek b \<rparr>
          \<in> set (sv_slots (ap_db (sd_app (eg_world g'))))"
    and "a \<noteq> am_member_id b \<Longrightarrow> row_get sv_member_key (am_list_id b, a) (sv_members (ap_db (sd_app (eg_world g')))) =
          row_get sv_member_key (am_list_id b, a) (sv_members (ap_db (sd_app (eg_world g))))"
    and "sv_users (ap_db (sd_app (eg_world g'))) = sv_users (ap_db (sd_app (eg_world g)))"
proof -
  let ?s = "sd_app (eg_world g)"
  obtain s' where route: "add_member_route V (tk_now (shd (sd_ticks (eg_world g)))) (bearer token) (Some b) ?s = (Inr (), s')"
    and s': "sd_app (eg_world g') = s'"
    using assms(1) by (auto simp: call_def http_net_def add_member_served split: prod.splits sum.splits)
  obtain auth db' where au: "auth_extractor V (tk_now (shd (sd_ticks (eg_world g)))) (bearer token) ?s = (Inr auth, ?s)"
    and own: "member_role (am_list_id b) (at_member_id auth) (ap_db ?s) = Some Owner"
    and add: "add_member_sv (am_list_id b) (am_member_id b) (am_role b) (am_epoch b) (am_wrapped_dek b) (ap_db ?s) = (Inr (), db')"
    and db': "s' = ?s\<lparr> ap_db := db' \<rparr>"
    using route by (auto simp: add_member_route_def route_simps dest: auth_extractor_state)
  note stored = add_member_stored [OF add assms(3)]
  show "sv_wf (ap_db (sd_app (eg_world g')))"
    using keepsD [OF add_member_wf assms(2) add] by (simp add: s' db')
  show "\<exists>auth. auth_extractor V (tk_now (shd (sd_ticks (eg_world g)))) (bearer token) ?s = (Inr auth, ?s) \<and>
      member_role (am_list_id b) (at_member_id auth) (ap_db ?s) = Some Owner"
    using au own by blast
  show "\<exists>r. row_get sv_member_key (am_list_id b, am_member_id b) (sv_members (ap_db (sd_app (eg_world g')))) = Some r"
    "\<lparr> sk_list_id = am_list_id b, sk_epoch = am_epoch b, sk_member_id = am_member_id b, sk_wrapped_dek = am_wrapped_dek b \<rparr>
          \<in> set (sv_slots (ap_db (sd_app (eg_world g'))))"
    "a \<noteq> am_member_id b \<Longrightarrow> row_get sv_member_key (am_list_id b, a) (sv_members (ap_db (sd_app (eg_world g')))) =
          row_get sv_member_key (am_list_id b, a) (sv_members (ap_db ?s))"
    "sv_users (ap_db (sd_app (eg_world g'))) = sv_users (ap_db ?s)"
    by (simp_all add: s' db' stored)
qed

lemma served_epochs:
  assumes "sv_wf db" and "sv_has_list l db"
  shows "epoch_check (md_current_epoch (list_metadata l db))" and "\<forall>q\<in>set (fetch_my_key_slots l m db). epoch_check (kd_epoch q)"
proof -
  obtain r where "row_get sl_list_id l (sv_lists db) = Some r" "r \<in> set (sv_lists db)"
    using assms(2) by (auto simp: sv_has_list_def dest: row_get_Some_key)
  then show "epoch_check (md_current_epoch (list_metadata l db))"
    using assms(1) by (simp add: list_metadata_def sv_wf_def sv_epochs_wf_def)
  show "\<forall>q\<in>set (fetch_my_key_slots l m db). epoch_check (kd_epoch q)"
    using assms(1) by (auto simp: fetch_my_key_slots_def sv_wf_def sv_epochs_wf_def)
qed

lemma find_list_member:
  "row_get member_key (l, a) (cd_members db) = Some (l, x) \<Longrightarrow> find (\<lambda>m. mem_id m = a) (list_members l db) = Some x"
proof -
  have "row_get member_key (l, a) rows = Some (l, x) \<Longrightarrow> find (\<lambda>m. mem_id m = a) (map snd (filter (\<lambda>r. fst r = l) rows)) = Some x" for rows
    by (induction rows) (auto split: if_splits)
  then show "row_get member_key (l, a) (cd_members db) = Some (l, x) \<Longrightarrow> ?thesis" by (simp add: list_members_def)
qed

text \<open>What taking in a list from the server's database gives a member whose slot holds a key sealed to it.\<close>

lemma ingest_served:
  assumes "crypto_ok (ev_crypto E)" and "sv_wf db" and "slot \<in> set (sv_slots db)"
    and "slot = \<lparr> sk_list_id = l, sk_epoch = e, sk_member_id = m, sk_wrapped_dek = seal_to (ev_crypto E) rnd dek pk \<rparr>"
    and "pk = c_x_public (ev_crypto E) (se_identity_secret (st_session s))" and "se_identity_pub (st_session s) = pk"
    and "db_wf (st_db s)"
    and "row_get sv_member_key (l, se_member_id (st_session alice)) (sv_members db) = Some ar"
    and "row_get us_member_id (se_member_id (st_session alice)) (sv_users db) = Some u"
    and "us_signing_pub u = c_verifying_key (ev_crypto E) (se_signing_seed (st_session alice))"
  obtains s' where "ingest_remote_list E (list_metadata l db) (fetch_my_key_slots l m db) s = (Inr (), s')"
    "session_dek (st_session s') l e = Some dek" "list_epoch l (st_db s') = Some (md_current_epoch (list_metadata l db))"
    "\<And>nonce delta q. received E l (dto_of_payload q (delta_payload E nonce l e dek alice delta)) s' = Some delta"
proof -
  let ?C = "ev_crypto E"
  let ?a = "se_member_id (st_session alice)"
  let ?md = "list_metadata l db"
  let ?keys = "fetch_my_key_slots l m db"
  have l: "md_list_id ?md = l" "md_members ?md = fetch_members l db" by (simp_all add: list_metadata_def)
  have has: "sv_has_list l db"
    using assms(2) row_get_Some_key [OF assms(8)] by (auto simp: sv_wf_def sv_refs_wf_def sv_has_iff)
  have keyed: "keyed sv_slot_key (sv_slots db)" "keyed sv_member_key (sv_members db)"
    using assms(2) by (auto simp: sv_wf_def sv_keys_wf_def)
  define x where "x = \<lparr> mem_id = ?a, mem_identity_pub = us_identity_pub u, mem_signing_pub = us_signing_pub u, mem_role = sm_role ar \<rparr>"
  let ?k = "\<lparr> kd_epoch = e, kd_wrapped_dek = seal_to ?C rnd dek pk \<rparr>"
  note k = my_key_slot_unique [OF keyed(1) assms(3,4) refl]
  have open_k: "open_sealed ?C (kd_wrapped_dek ?k) (se_identity_pub (st_session s)) (se_identity_secret (st_session s)) = Inr dek"
    using open_sealed_seal_to [OF assms(1)] by (simp only: key_slot_dto.select_convs assms(5) assms(6) [unfolded assms(5)])
  have a: "mem_id x = ?a" by (simp add: x_def)
  note x = fetch_member_unique [OF keyed(2) assms(8,9) x_def]
  show thesis
  proof (rule ingest_runs [OF served_epochs [OF assms(2) has] assms(7), of E m])
    fix s' assume run: "ingest_remote_list E ?md ?keys s = (Inr (), s')"
      and mem: "\<And>m. m \<in> set (md_members ?md) \<Longrightarrow> \<forall>y\<in>set (md_members ?md). mem_id y = mem_id m \<longrightarrow> y = m \<Longrightarrow>
         row_get member_key (md_list_id ?md, mem_id m) (cd_members (st_db s')) = Some (md_list_id ?md, m)"
      and key: "\<And>k dek. k \<in> set ?keys \<Longrightarrow> \<forall>y\<in>set ?keys. kd_epoch y = kd_epoch k \<longrightarrow> y = k \<Longrightarrow>
         open_sealed ?C (kd_wrapped_dek k) (se_identity_pub (st_session s)) (se_identity_secret (st_session s)) = Inr dek \<Longrightarrow>
         session_dek (st_session s') (md_list_id ?md) (kd_epoch k) = Some dek"
      and ep: "list_epoch (md_list_id ?md) (st_db s') = Some (md_current_epoch ?md)"
    have dek': "session_dek (st_session s') l e = Some dek" using key [OF k open_k] by (simp add: l)
    have "row_get member_key (md_list_id ?md, mem_id x) (cd_members (st_db s')) = Some (md_list_id ?md, x)"
      by (rule mem) (unfold l a, (rule x)+)
    then have found: "find (\<lambda>m. mem_id m = ?a) (list_members l (st_db s')) = Some x"
      by (intro find_list_member) (simp only: l a)
    have "received E l (dto_of_payload q (delta_payload E nonce l e dek alice delta)) s' = Some delta" for nonce delta q
      using delta_payload_opens [OF assms(1), of nonce l e dek alice delta]
      by (simp add: received_def dek' found remote_payload_dto assms(10) x_def)
    then show thesis using that [OF run dek'] ep by (simp add: l)
  qed
qed

text \<open>C4: an invitation, end to end: once the owner's request has been accepted by the server, the invited
  member's start-up sync hands its store the list, taking it in succeeds, and from then on its session
  holds the owner's current key of the list and every update that the owner signs and encrypts
  under it verifies and decrypts to exactly the delta that was exported.\<close>

theorem invitation_delivered:
  assumes "crypto_ok (ev_crypto E)" and "sv_wf (ap_db (sd_app (eg_world g)))"
    and "add_member_local E rnd l m alice = (Inr (), alice')" and "st_sync_wired alice"
    and "handle k E (http_net (serve V base) base alice_token) (last (st_sync_sent alice')) g = Some (Inr (), g')"
    and "list_epoch l (st_db alice) = Some e"
    and "row_get sv_slot_key (l, e, mem_id m) (sv_slots (ap_db (sd_app (eg_world g)))) = None"
    and "speaks_for V alice_token (se_member_id (st_session alice)) (sd_app (eg_world g)) (sd_ticks (eg_world g))"
    and "row_get us_member_id (se_member_id (st_session alice)) (sv_users (ap_db (sd_app (eg_world g)))) = Some u"
    and "us_signing_pub u = c_verifying_key (ev_crypto E) (se_signing_seed (st_session alice))"
    and "eg_world bob = eg_world g'" and "speaks_for V bob_token (mem_id m) (sd_app (eg_world g')) (sd_ticks (eg_world g'))"
    and "mem_identity_pub m = c_x_public (ev_crypto E) (se_identity_secret (st_session s))"
    and "se_identity_pub (st_session s) = mem_identity_pub m" and "db_wf (st_db s)"
  shows "\<exists>bob' md keys s' dek. initial_sync (http_net (serve V base) base bob_token) bob = (Inr (), bob') \<and>
     IngestRemoteList md keys \<in> set (eg_store_tx bob') \<and> md_list_id md = l \<and>
     ingest_remote_list E md keys s = (Inr (), s') \<and>
     session_dek (st_session alice) l e = Some dek \<and> session_dek (st_session s') l e = Some dek \<and>
     list_epoch l (st_db s') = Some (md_current_epoch md) \<and>
     (\<forall>nonce delta q. received E l (dto_of_payload q (delta_payload E nonce l e dek alice delta)) s' = Some delta)"
proof -
  let ?C = "ev_crypto E"
  let ?a = "se_member_id (st_session alice)"
  let ?db = "ap_db (sd_app (eg_world g))"
  let ?db' = "ap_db (sd_app (eg_world g'))"
  obtain dek where dek: "session_dek (st_session alice) l e = Some dek"
    and cmd: "last (st_sync_sent alice') = SyncAddMember l \<lparr> am_list_id = l, am_member_id = mem_id m, am_role = mem_role m,
       am_wrapped_dek = seal_to ?C rnd dek (mem_identity_pub m), am_epoch = e \<rparr>"
    using invitation_sent [OF assms(3,4,6)] by blast
  note acc = invitation_accepted [OF assms(5) [unfolded cmd] assms(2), simplified, OF assms(7)]
  have wf: "sv_wf ?db'" by (rule acc(1))
  obtain mr where mr: "row_get sv_member_key (l, mem_id m) (sv_members ?db') = Some mr" using acc(3) by auto
  have "member_role l ?a ?db = Some Owner"
    using acc(2) speaks_for_head(1) [OF assms(8)] by auto
  then have "row_get sv_member_key (l, ?a) (sv_members ?db) \<noteq> None" by (auto simp: member_role_def)
  then obtain ar where ar: "row_get sv_member_key (l, ?a) (sv_members ?db') = Some ar"
    using mr acc(5) by (cases "?a = mem_id m") auto
  have usr: "row_get us_member_id ?a (sv_users ?db') = Some u" using acc(6) assms(9) by simp
  have lists: "l \<in> set (fetch_user_lists (mem_id m) ?db')"
    using row_get_Some_key [OF mr] by (auto simp: fetch_user_lists_def)
  obtain bob' where sync: "initial_sync (http_net (serve V base) base bob_token) bob = (Inr (), bob')"
    and tx: "eg_store_tx bob' = eg_store_tx bob @
       map (\<lambda>l. IngestRemoteList (list_metadata l ?db') (fetch_my_key_slots l (mem_id m) ?db')) (fetch_user_lists (mem_id m) ?db')"
    using initial_sync_served [OF assms(12) wf, of bob base] assms(11) by auto
  let ?md = "list_metadata l ?db'"
  let ?keys = "fetch_my_key_slots l (mem_id m) ?db'"
  obtain s' where "ingest_remote_list E ?md ?keys s = (Inr (), s')" "session_dek (st_session s') l e = Some dek"
    "list_epoch l (st_db s') = Some (md_current_epoch ?md)"
    "\<And>nonce delta q. received E l (dto_of_payload q (delta_payload E nonce l e dek alice delta)) s' = Some delta"
    using ingest_served [OF assms(1) wf acc(4) refl assms(13-15) ar usr assms(10)] by blast
  moreover have "IngestRemoteList ?md ?keys \<in> set (eg_store_tx bob')" using lists by (auto simp: tx)
  moreover have "md_list_id ?md = l" by (simp add: list_metadata_def)
  ultimately show ?thesis using sync dek by blast
qed

section \<open>A removal\<close>

text \<open>The slots of a rotation, each as it was sent, unless the server had one of that epoch already.\<close>

lemma rotate_slots_content:
  assumes "for_each (rotate_slot l gone e) ks db = (Inr (), db')" and "distinct (map ke_member_id ks)"
    and "k \<in> set ks" and "row_get sv_slot_key (l, e, ke_member_id k) (sv_slots db) = None"
  shows "row_get sv_slot_key (l, e, ke_member_id k) (sv_slots db') =
    Some \<lparr> sk_list_id = l, sk_epoch = e, sk_member_id = ke_member_id k, sk_wrapped_dek = ke_wrapped_dek k \<rparr>"
  using assms
proof (induction ks arbitrary: db)
  case (Cons q ks)
  let ?row = "\<lparr> sk_list_id = l, sk_epoch = e, sk_member_id = ke_member_id q, sk_wrapped_dek = ke_wrapped_dek q \<rparr>"
  obtain db1 where 1: "rotate_slot l gone e q db = (Inr (), db1)" and 2: "for_each (rotate_slot l gone e) ks db1 = (Inr (), db')"
    using Cons.prems(1) by (auto simp: sbind_Inr)
  have db1: "sv_slots db1 = row_add sv_slot_key ?row (sv_slots db)"
    using 1 by (auto simp: rotate_slot_def add_slot_def sfail_def statement_Inr split: if_splits)
  show ?case
  proof (cases "k = q")
    case True
    then have "row_get sv_slot_key (l, e, ke_member_id q) (sv_slots db1) = Some ?row"
      using Cons.prems(4) by (simp add: db1 row_get_add)
    then show ?thesis using rotate_slots_Inr [OF 2] True by blast
  next
    case False
    then have "k \<in> set ks" "ke_member_id k \<noteq> ke_member_id q" using Cons.prems(2,3) by (auto simp: image_iff)
    then show ?thesis using Cons.IH [OF 2] Cons.prems(2,4) by (simp add: db1 row_get_add)
  qed
qed simp

lemma removal_accepted:
  assumes "handle k E (http_net (serve V base) base token) (SyncRemoveMember l b) g = Some (Inr (), g')"
    and "sv_wf (ap_db (sd_app (eg_world g)))" and "rm_list_id b = l" and "rm_remove_member_id b = gone"
  shows "sv_wf (ap_db (sd_app (eg_world g')))"
    and "\<exists>auth. auth_extractor V (tk_now (shd (sd_ticks (eg_world g)))) (bearer token) (sd_app (eg_world g)) =
          (Inr auth, sd_app (eg_world g)) \<and> member_role l (at_member_id auth) (ap_db (sd_app (eg_world g))) = Some Owner"
    and "row_get sv_member_key (l, gone) (sv_members (ap_db (sd_app (eg_world g')))) = None"
    and "fetch_my_key_slots l gone (ap_db (sd_app (eg_world g'))) = []"
    and "a \<noteq> gone \<Longrightarrow> row_get sv_member_key (l, a) (sv_members (ap_db (sd_app (eg_world g')))) =
          row_get sv_member_key (l, a) (sv_members (ap_db (sd_app (eg_world g))))"
    and "sv_users (ap_db (sd_app (eg_world g'))) = sv_users (ap_db (sd_app (eg_world g)))"
    and "distinct (map ke_member_id (rm_new_slots b)) \<Longrightarrow> q \<in> set (rm_new_slots b) \<Longrightarrow>
       row_get sv_slot_key (l, rm_epoch b + 1, ke_member_id q) (sv_slots (ap_db (sd_app (eg_world g)))) = None \<Longrightarrow>
       \<lparr> sk_list_id = l, sk_epoch = rm_epoch b + 1, sk_member_id = ke_member_id q, sk_wrapped_dek = ke_wrapped_dek q \<rparr>
         \<in> set (sv_slots (ap_db (sd_app (eg_world g'))))"
    and "md_current_epoch (list_metadata l (ap_db (sd_app (eg_world g')))) = rm_epoch b + 1"
    and "ap_verify_signatures (sd_app (eg_world g')) = ap_verify_signatures (sd_app (eg_world g))"
proof -
  let ?s = "sd_app (eg_world g)"
  let ?e = "rm_epoch b + 1"
  obtain s' where route: "remove_member_route V (tk_now (shd (sd_ticks (eg_world g)))) (bearer token) (Some b) ?s = (Inr (), s')"
    and s': "sd_app (eg_world g') = s'"
    using assms(1) by (auto simp: call_def http_net_def remove_member_served split: prod.splits sum.splits)
  obtain auth db' where au: "auth_extractor V (tk_now (shd (sd_ticks (eg_world g)))) (bearer token) ?s = (Inr auth, ?s)"
    and own: "member_role l (at_member_id auth) (ap_db ?s) = Some Owner"
    and rm: "remove_member_sv l gone (rm_epoch b) (rm_new_slots b) (ap_db ?s) = (Inr (), db')"
    and app: "s' = ?s\<lparr> ap_db := db' \<rparr>"
    using route assms(3,4) by (auto simp: remove_member_route_def route_simps dest: auth_extractor_state)
  obtain db1 where slots: "for_each (rotate_slot l gone ?e) (rm_new_slots b) (ap_db ?s) = (Inr (), db1)"
    and db': "db' = db1\<lparr> sv_lists := row_update (\<lambda>r. sl_list_id r = l) (sl_current_epoch_update (\<lambda>_. ?e)) (sv_lists db1),
        sv_members := row_del sv_member_key (l, gone) (sv_members db1),
        sv_slots := filter (\<lambda>r. \<not> (sk_list_id r = l \<and> sk_member_id r = gone)) (sv_slots db1) \<rparr>"
    using rm by (auto simp: remove_member_sv_def Let_def route_simps)
  note R = rotate_slots_Inr [OF slots]
  obtain ss where db1: "db1 = (ap_db ?s)\<lparr> sv_slots := ss \<rparr>" using R by blast
  show "sv_wf (ap_db (sd_app (eg_world g')))"
    using keepsD [OF remove_member_wf assms(2) rm] by (simp add: s' app)
  show "\<exists>auth. auth_extractor V (tk_now (shd (sd_ticks (eg_world g)))) (bearer token) ?s = (Inr auth, ?s) \<and>
      member_role l (at_member_id auth) (ap_db ?s) = Some Owner"
    using au own by blast
  show "row_get sv_member_key (l, gone) (sv_members (ap_db (sd_app (eg_world g')))) = None"
    "fetch_my_key_slots l gone (ap_db (sd_app (eg_world g'))) = []"
    "a \<noteq> gone \<Longrightarrow> row_get sv_member_key (l, a) (sv_members (ap_db (sd_app (eg_world g')))) =
          row_get sv_member_key (l, a) (sv_members (ap_db ?s))"
    "sv_users (ap_db (sd_app (eg_world g'))) = sv_users (ap_db ?s)"
    "ap_verify_signatures (sd_app (eg_world g')) = ap_verify_signatures ?s"
    by (simp_all add: s' app db' db1 table_simps fetch_my_key_slots_def)
  have "sv_has_list l (ap_db ?s)"
    using own assms(2) by (auto simp: member_role_def sv_wf_def sv_refs_wf_def sv_has_iff dest!: row_get_Some_key)
  then obtain r where "row_get sl_list_id l (sv_lists (ap_db ?s)) = Some r" "sl_list_id r = l"
    by (auto simp: sv_has_list_def dest: row_get_Some_key)
  then show "md_current_epoch (list_metadata l (ap_db (sd_app (eg_world g')))) = ?e"
    by (simp add: list_metadata_def s' app db' db1 row_get_update)
  show "\<lparr> sk_list_id = l, sk_epoch = ?e, sk_member_id = ke_member_id q, sk_wrapped_dek = ke_wrapped_dek q \<rparr>
         \<in> set (sv_slots (ap_db (sd_app (eg_world g'))))"
    if "distinct (map ke_member_id (rm_new_slots b))" "q \<in> set (rm_new_slots b)"
      "row_get sv_slot_key (l, ?e, ke_member_id q) (sv_slots (ap_db ?s)) = None"
    using row_get_Some_key [OF rotate_slots_content [OF slots that]] R that(2)
    by (auto simp: s' app db')
qed

text \<open>No request of a member that the list does not have is stored, while signatures are verified.\<close>

lemma stranger_append_refused:
  assumes "row_get sv_member_key (l, a) (sv_members (ap_db s)) = None" and "ap_verify_signatures s"
    and "auth_extractor V now header s = (Inr auth, s)" and "at_member_id auth = a" and "au_list_id b = l"
  shows "\<exists>err. append_update_route V now header (Some b) s = (Inl err, s)"
proof (cases "au_author b = a")
  case True
  then show ?thesis
    using assms by (simp add: append_update_route_def handler_simps fetch_author_signing_pub_def)
next
  case False
  then show ?thesis using assms by (simp add: append_update_route_def handler_simps)
qed

text \<open>A store without a key of an epoch has none after taking in slots of other epochs, and reads nothing
  that is encrypted under it.\<close>

lemma ingest_no_key:
  assumes "ingest_remote_list E md [] s = (r, s')" and "session_dek (st_session s) l e = None"
    and "row_get slot_key (l, e) (cd_key_slots (st_db s)) = None"
  shows "session_dek (st_session s') l e = None"
proof -
  define none where "none = (\<lambda>s :: store. session_dek (st_session s) l e = None \<and> row_get slot_key (l, e) (cd_key_slots (st_db s)) = None)"
  have lift: "keeps none (lift_db f)" if "\<And>db db'. f db = Inr db' \<Longrightarrow> cd_key_slots db' = cd_key_slots db" for f
    using that by (intro keepsI) (auto simp: none_def lift_db_def split: sum.splits)
  have fold: "session_dek (foldl (\<lambda>S slot. rehydrate_slot C slot S) S rs) l e = session_dek S l e"
    if "row_get slot_key (l, e) rs = None" for rs C S
    using that
    by (induction rs arbitrary: S) (auto simp: rehydrate_slot_def session_dek_def insert_dek_def split: sum.splits if_splits)
  then have "keeps none (\<lambda>s. modify_session (rehydrate C (st_db s)) s)" for C
    by (intro keepsI) (simp add: none_def modify_session_def rehydrate_def load_key_slots_def)
  moreover have "keeps none (lift_db (upsert_list_meta k ro ep))" "keeps none (lift_db (add_member_row k m))" for k ro ep m
    by (rule lift; auto simp: upsert_list_meta_def add_member_row_def Let_def split: if_splits)+
  ultimately have k: "keeps none (sbind (lift_db (upsert_list_meta k ro ep)) (\<lambda>_. sbind (for_each (\<lambda>m. lift_db (add_member_row k m)) ms) (\<lambda>_.
      sbind (for_each (\<lambda>q. lift_db (save_key_slot k (kd_epoch q) (kd_wrapped_dek q))) []) (\<lambda>_ s.
      modify_session (rehydrate (ev_crypto E) (st_db s)) s))))" for k ro ep ms
    unfolding for_each.simps(1) by (intro keeps_intros)
  have "none s" using assms(2,3) by (simp add: none_def)
  then have "none s'" by (rule keepsD [OF k _ assms(1) [unfolded ingest_remote_list_def Let_def]])
  then show ?thesis by (simp add: none_def)
qed

lemma removal_sent:
  assumes "remove_member_local E new_dek rnd my_rnd l gone s = (Inr (), s')" and "st_sync_wired s" and "list_epoch l (st_db s) = Some e"
  shows "last (st_sync_sent s') = SyncRemoveMember l \<lparr> rm_list_id = l, rm_remove_member_id = gone, rm_epoch = e,
      rm_new_slots = new_slots (ev_crypto E) rnd new_dek (remaining_members l gone (st_db s)) \<rparr>"
    and "st_session s' = insert_dek l (e + 1) new_dek (st_session s)" and "list_epoch l (st_db s') = Some (e + 1)"
proof -
  obtain db1 db2 where db: "save_key_slot l (e + 1) (seal_to (ev_crypto E) my_rnd new_dek (se_identity_pub (st_session s))) (st_db s) = Inr db1"
    "set_epoch l (e + 1) db1 = Inr db2"
    and s': "s' = s\<lparr> st_session := insert_dek l (e + 1) new_dek (st_session s), st_db := remove_member_row l gone db2,
       st_sync_sent := st_sync_sent s @ [SyncRemoveMember l \<lparr> rm_list_id = l, rm_remove_member_id = gone, rm_epoch = e,
         rm_new_slots = new_slots (ev_crypto E) rnd new_dek (remaining_members l gone (st_db s)) \<rparr>] \<rparr>"
    using assms by (auto simp: remove_member_local_def action_simps sync_Inr Let_def)
  then show "last (st_sync_sent s') = SyncRemoveMember l \<lparr> rm_list_id = l, rm_remove_member_id = gone, rm_epoch = e,
      rm_new_slots = new_slots (ev_crypto E) rnd new_dek (remaining_members l gone (st_db s)) \<rparr>"
    "st_session s' = insert_dek l (e + 1) new_dek (st_session s)"
    by simp_all
  have "has_list l db1" using db(1) by (auto simp: save_key_slot_def has_list_def split: if_splits)
  then have "list_epoch l db2 = Some (e + 1)"
    unfolding set_epoch_as_update [OF db(2)] by (rule list_epoch_update) simp_all
  then show "list_epoch l (st_db s') = Some (e + 1)"
    by (simp add: s' list_epoch_def remove_member_row_def)
qed

lemma remaining_distinct: "db_wf db \<Longrightarrow> distinct (map mem_id (remaining_members l gone db))"
proof -
  let ?rows = "filter (\<lambda>r. fst r = l) (cd_members db)"
  assume "db_wf db"
  then have "distinct (map member_key ?rows)" by (simp add: db_wf_def keys_wf_def keyed_def distinct_map_filter)
  also have "map member_key ?rows = map (Pair l) (map (mem_id \<circ> snd) ?rows)" by simp
  finally have "distinct (map (mem_id \<circ> snd) ?rows)" by (auto simp: distinct_map dest: inj_on_imageI2)
  then show ?thesis by (simp add: remaining_members_def list_members_def distinct_map_filter flip: map_map)
qed


section \<open>Ann invites Bob, and removes him\<close>

definition bob_token :: string where "bob_token = replicate 32 CHR ''B''"
definition bob_hash :: token_hash where "bob_hash = en_sha512 toy_senv (ascii bob_token)"

definition bob_user :: user_row where
  "bob_user = \<lparr> us_member_id = fixed_repeat 2, us_username = ''bob'', us_identity_pub = fixed_repeat 2,
     us_signing_pub = fixed_repeat 2, us_wrapped_secret_keys = [], us_opaque_record = [6] \<rparr>"

definition bob_session_row :: session_row where
  "bob_session_row = \<lparr> sx_token_hash = bob_hash, sx_member_id = fixed_repeat 2, sx_device_id = None,
     sx_expires_at = session_ttl, sx_created_at = 0 \<rparr>"

definition pair_db :: server_db where
  "pair_db = demo_sdb\<lparr> sv_users := [demo_user, bob_user], sv_sessions := [demo_session_row, bob_session_row] \<rparr>"

definition pair_app :: "server_db \<Rightarrow> app_state" where "pair_app db = demo_app\<lparr> ap_db := db \<rparr>"

definition shared_db :: server_db where
  "shared_db = pair_db\<lparr>
     sv_members := sv_members pair_db @ [\<lparr> sm_list_id = demo_list, sm_member_id = fixed_repeat 2, sm_role = Member \<rparr>],
     sv_slots := sv_slots pair_db @ [\<lparr> sk_list_id = demo_list, sk_epoch = 1, sk_member_id = fixed_repeat 2,
        sk_wrapped_dek = seal_to toy_crypto [] (fixed_repeat 7) (fixed_repeat 2) \<rparr>] \<rparr>"

definition bob_store :: store where
  "bob_store = store_new db_empty (demo_session\<lparr> se_member_id := fixed_repeat 2, se_identity_secret := fixed_repeat 2,
     se_identity_pub := fixed_repeat 2, se_signing_seed := fixed_repeat 2, se_deks := Map.empty \<rparr>)"

lemma ascii_replicate: "ascii (replicate n c) = replicate n (word_of_nat (of_char c))"
  by (simp add: ascii_def)

lemma hashes_differ: "demo_hash \<noteq> bob_hash"
proof
  assume "demo_hash = bob_hash"
  then have "as_slice demo_hash ! 0 = as_slice bob_hash ! 0" by simp
  then show False
    by (simp add: demo_hash_def bob_hash_def toy_senv_def demo_token_def bob_token_def ascii_replicate nth_append)
qed

lemma bob_trim: "trim bob_token = bob_token"
  by (simp add: trim_def is_space_def bob_token_def numeral_eq_Suc)

lemma bob_hash_token: "hash_token toy_senv bob_token = Inr bob_hash"
  by (simp add: hash_token_def bob_hash_def) (simp add: toy_senv_def)

lemma pair_tokens:
  assumes "sv_sessions db = [demo_session_row, bob_session_row]"
  shows "speaks_for toy_senv demo_token (fixed_repeat 1) (pair_app db) (sconst demo_tick)"
    and "speaks_for toy_senv bob_token (fixed_repeat 2) (pair_app db) (sconst demo_tick)"
proof -
  have rows: "row_get sx_token_hash demo_hash (sv_sessions (ap_db (pair_app db))) = Some demo_session_row"
    "row_get sx_token_hash bob_hash (sv_sessions (ap_db (pair_app db))) = Some bob_session_row"
    using hashes_differ by (simp_all add: pair_app_def assms) (simp_all add: demo_session_row_def bob_session_row_def)
  show "speaks_for toy_senv demo_token (fixed_repeat 1) (pair_app db) (sconst demo_tick)"
    using demo_extract [OF rows(1), of 0] by (simp add: speaks_for_def demo_bearer demo_tick_def session_ttl_def)
  have "auth_extractor toy_senv 0 (bearer bob_token) (pair_app db) =
      (Inr \<lparr> at_member_id = fixed_repeat 2, at_token_hash = bob_hash, at_device_id = None, at_created_at = 0 \<rparr>, pair_app db)"
    unfolding auth_extractor_def bearer_def option.case strip_prefix_append bob_trim bob_hash_token sum.case lookup_session_def rows(2)
    by (simp add: bob_session_row_def session_ttl_def)
  then show "speaks_for toy_senv bob_token (fixed_repeat 2) (pair_app db) (sconst demo_tick)"
    by (simp add: speaks_for_def demo_tick_def)
qed

lemma pair_wf: "sv_wf pair_db"
  using hashes_differ
  by (simp add: pair_db_def demo_sdb_def sv_wf_defs keyed_def demo_user_def bob_user_def demo_session_row_def bob_session_row_def
      server_empty_def epoch_check_def)

lemma demo_invites:
  "add_member_local demo_env [] demo_list (demo_member 2) demo_store = (Inr (), snd (add_member_local demo_env [] demo_list (demo_member 2) demo_store))"
  "last (st_sync_sent (snd (add_member_local demo_env [] demo_list (demo_member 2) demo_store))) =
     SyncAddMember demo_list \<lparr> am_list_id = demo_list, am_member_id = fixed_repeat 2, am_role = Member,
       am_wrapped_dek = seal_to toy_crypto [] (fixed_repeat 7) (fixed_repeat 2), am_epoch = 1 \<rparr>"
  by (simp_all add: add_member_local_def sbind_def of_option_def lift_db_def sync_def add_member_row_def has_list_def
      demo_store_simps) (simp_all add: demo_member_def)

lemma demo_invitation_accepted:
  "handle 1 demo_env (http_net (serve toy_senv ''h'') ''h'' demo_token)
     (SyncAddMember demo_list \<lparr> am_list_id = demo_list, am_member_id = fixed_repeat 2, am_role = Member,
       am_wrapped_dek = seal_to toy_crypto [] (fixed_repeat 7) (fixed_repeat 2), am_epoch = 1 \<rparr>) (demo_client (pair_app pair_db)) =
   Some (Inr (), demo_client (pair_app shared_db))"
proof -
  have "speaks_for toy_senv demo_token (fixed_repeat 1) (pair_app pair_db) (sconst demo_tick)"
    by (rule pair_tokens) (simp add: pair_db_def)
  then obtain auth where "auth_extractor toy_senv 0 (bearer demo_token) (pair_app pair_db) = (Inr auth, pair_app pair_db)"
    "at_member_id auth = fixed_repeat 1"
    by (auto simp: speaks_for_def demo_tick_def)
  then have "add_member_route toy_senv 0 (bearer demo_token) (Some \<lparr> am_list_id = demo_list, am_member_id = fixed_repeat 2, am_role = Member,
       am_wrapped_dek = seal_to toy_crypto [] (fixed_repeat 7) (fixed_repeat 2), am_epoch = 1 \<rparr>) (pair_app pair_db) = (Inr (), pair_app shared_db)"
    by (simp add: add_member_route_def handler_simps require_owner_def member_role_def add_member_sv_def upsert_member_def add_slot_def)
       (simp add: pair_app_def shared_db_def pair_db_def demo_sdb_def demo_list_def sv_has_list_def sv_has_user_def
        row_add_def demo_user_def bob_user_def epoch_check_def server_empty_def demo_app_def app_new_def)
  then show ?thesis
    by (simp add: call_def http_net_def add_member_served demo_client_def) (simp add: demo_tick_def)
qed

lemma shared_sessions: "sv_sessions pair_db = [demo_session_row, bob_session_row]" "sv_sessions shared_db = [demo_session_row, bob_session_row]"
  by (simp_all add: pair_db_def shared_db_def)

lemma pair_world: "sd_app (eg_world (demo_client (pair_app db))) = pair_app db" "ap_db (pair_app db) = db"
  "sd_ticks (eg_world (demo_client (pair_app db))) = sconst demo_tick" "ap_verify_signatures (pair_app db)"
  by (simp_all add: demo_client_def pair_app_def demo_app_def app_new_def)

lemma demo_store_session:
  "se_member_id (st_session demo_store) = fixed_repeat 1" "se_signing_seed (st_session demo_store) = fixed_repeat 1"
  "st_sync_wired demo_store" "list_epoch demo_list (st_db demo_store) = Some 1"
  by (simp_all add: demo_store_simps)

lemma pair_users:
  "row_get us_member_id (fixed_repeat 1) (sv_users pair_db) = Some demo_user"
  "row_get us_member_id (fixed_repeat 1) (sv_users shared_db) = Some demo_user"
  "us_signing_pub demo_user = c_verifying_key (ev_crypto demo_env) (fixed_repeat 1)"
  by (simp_all add: pair_db_def shared_db_def demo_user_def demo_env_def toy_crypto_def)

lemma bob_identity:
  "mem_identity_pub (demo_member 2) = c_x_public (ev_crypto demo_env) (se_identity_secret (st_session bob_store))"
  "se_identity_pub (st_session bob_store) = mem_identity_pub (demo_member 2)" "db_wf (st_db bob_store)"
  by (simp_all add: bob_store_def store_new_def demo_member_def demo_env_def toy_crypto_def db_wf_defs db_empty_def keyed_def queue_wf_def)

theorem invitation_delivered_witness:
  "\<exists>md keys s'. ingest_remote_list demo_env md keys bob_store = (Inr (), s') \<and>
     session_dek (st_session s') demo_list 1 = Some (fixed_repeat 7)"
proof -
  let ?g = "demo_client (pair_app pair_db)"
  let ?g' = "demo_client (pair_app shared_db)"
  have wf: "sv_wf (ap_db (sd_app (eg_world ?g)))" by (simp add: pair_world pair_wf)
  have run: "handle 1 demo_env (http_net (serve toy_senv ''h'') ''h'' demo_token)
      (last (st_sync_sent (snd (add_member_local demo_env [] demo_list (demo_member 2) demo_store)))) ?g = Some (Inr (), ?g')"
    unfolding demo_invites(2) by (rule demo_invitation_accepted)
  have fresh: "row_get sv_slot_key (demo_list, 1, mem_id (demo_member 2)) (sv_slots (ap_db (sd_app (eg_world ?g)))) = None"
    by (simp add: pair_world pair_db_def demo_sdb_def demo_member_def)
  have ann: "speaks_for toy_senv demo_token (se_member_id (st_session demo_store)) (sd_app (eg_world ?g)) (sd_ticks (eg_world ?g))"
    using pair_tokens(1) [OF shared_sessions(1)] by (simp add: pair_world demo_store_session)
  have usr: "row_get us_member_id (se_member_id (st_session demo_store)) (sv_users (ap_db (sd_app (eg_world ?g)))) = Some demo_user"
    "us_signing_pub demo_user = c_verifying_key (ev_crypto demo_env) (se_signing_seed (st_session demo_store))"
    by (simp_all add: pair_world demo_store_session pair_users)
  have bob: "speaks_for toy_senv bob_token (mem_id (demo_member 2)) (sd_app (eg_world ?g')) (sd_ticks (eg_world ?g'))"
    using pair_tokens(2) [OF shared_sessions(2)] by (simp add: pair_world demo_member_def)
  have "session_dek (st_session demo_store) demo_list 1 = Some (fixed_repeat 7)" by (simp add: demo_store_simps)
  then show ?thesis
    using invitation_delivered [OF demo_env_crypto wf demo_invites(1) demo_store_session(3) run demo_store_session(4) fresh ann usr
        refl bob bob_identity] by auto
qed

lemma demo_removes:
  "remove_member_local demo_env (fixed_repeat 8) (\<lambda>_. []) [] demo_list (fixed_repeat 2) demo_store =
     (Inr (), snd (remove_member_local demo_env (fixed_repeat 8) (\<lambda>_. []) [] demo_list (fixed_repeat 2) demo_store))"
  by (simp add: remove_member_local_def sbind_def of_option_def lift_db_def modify_db_def modify_session_def sync_def
      save_key_slot_def set_epoch_def has_list_def epoch_check_def demo_store_simps)

definition rotated_db :: server_db where
  "rotated_db = pair_db\<lparr> sv_lists := [\<lparr> sl_list_id = demo_list, sl_current_epoch = 2 \<rparr>],
     sv_slots := sv_slots pair_db @ [\<lparr> sk_list_id = demo_list, sk_epoch = 2, sk_member_id = fixed_repeat 1,
        sk_wrapped_dek = seal_to toy_crypto [] (fixed_repeat 8) (fixed_repeat 1) \<rparr>] \<rparr>"

lemma demo_removal_accepted:
  "handle 1 demo_env (http_net (serve toy_senv ''h'') ''h'' demo_token)
     (SyncRemoveMember demo_list \<lparr> rm_list_id = demo_list, rm_remove_member_id = fixed_repeat 2, rm_epoch = 1,
       rm_new_slots = new_slots (ev_crypto demo_env) (\<lambda>_. []) (fixed_repeat 8)
         (remaining_members demo_list (fixed_repeat 2) (st_db demo_store)) \<rparr>) (demo_client (pair_app shared_db)) =
   Some (Inr (), demo_client (pair_app rotated_db))"
proof -
  have "speaks_for toy_senv demo_token (fixed_repeat 1) (pair_app shared_db) (sconst demo_tick)"
    by (rule pair_tokens) (simp add: shared_sessions)
  then obtain auth where a: "auth_extractor toy_senv 0 (bearer demo_token) (pair_app shared_db) = (Inr auth, pair_app shared_db)"
    "at_member_id auth = fixed_repeat 1"
    by (auto simp: speaks_for_def demo_tick_def)
  have slots: "new_slots (ev_crypto demo_env) (\<lambda>_. []) (fixed_repeat 8) (remaining_members demo_list (fixed_repeat 2) (st_db demo_store)) =
     [\<lparr> ke_member_id = fixed_repeat 1, ke_wrapped_dek = seal_to toy_crypto [] (fixed_repeat 8) (fixed_repeat 1) \<rparr>]"
    by (simp add: new_slots_def remaining_members_def list_members_def demo_store_simps) (simp add: demo_member_def)
  have "remove_member_route toy_senv 0 (bearer demo_token) (Some \<lparr> rm_list_id = demo_list, rm_remove_member_id = fixed_repeat 2, rm_epoch = 1,
       rm_new_slots = [\<lparr> ke_member_id = fixed_repeat 1, ke_wrapped_dek = seal_to toy_crypto [] (fixed_repeat 8) (fixed_repeat 1) \<rparr>] \<rparr>)
       (pair_app shared_db) = (Inr (), pair_app rotated_db)"
    using a
    by (simp add: remove_member_route_def handler_simps require_owner_def member_role_def remove_member_sv_def rotate_slot_def add_slot_def Let_def)
       (simp add: pair_app_def shared_db_def pair_db_def demo_sdb_def demo_list_def sv_has_list_def sv_has_user_def rotated_db_def
        row_add_def row_update_def row_del_def demo_user_def bob_user_def epoch_check_def server_empty_def demo_app_def app_new_def)
  then show ?thesis
    unfolding slots by (simp add: call_def http_net_def remove_member_served demo_client_def) (simp add: demo_tick_def)
qed


end
