(* ===== verification/Keymap.thy ===== *)
theory Keymap
  imports ListDoc "HOL-Library.AList"
begin

text \<open>
  Key bindings (\<open>src/todoers/src/config.rs\<close>, \<open>components/form_keys.rs\<close>): key events and their
  configuration strings, the compiled key maps of the interactive surfaces, the resolver that
  matches single keys and multi-key sequences against them, and the merge of the user's
  configuration over the embedded defaults.  A character key carries its Unicode scalar value;
  strings are the UTF-8 bytes the code sees.  A hash map or \<open>IndexMap\<close> is the association list
  of its entries in insertion order.
\<close>

section \<open>Key events\<close>

datatype key_code = KEsc | KEnter | KLeft | KRight | KUp | KDown | KHome | KEnd | KPageUp
  | KPageDown | KTab | KBackTab | KBackspace | KDelete | KInsert | KF nat | KChar nat | KOther nat

record modifiers =
  m_control :: bool
  m_shift :: bool
  m_alt :: bool
  m_other :: bool

record key_event =
  k_code :: key_code
  k_mods :: modifiers

definition no_mods :: modifiers where
  "no_mods = \<lparr> m_control = False, m_shift = False, m_alt = False, m_other = False \<rparr>"

definition key_new :: "key_code \<Rightarrow> modifiers \<Rightarrow> key_event" where
  "key_new c m = \<lparr> k_code = c, k_mods = m \<rparr>"

text \<open>A character key drops \<open>SHIFT\<close>: the character already is the shifted one.\<close>

definition normalize_key :: "key_event \<Rightarrow> key_event" where
  "normalize_key k = (case k_code k of
     KChar _ \<Rightarrow> k\<lparr> k_mods := (k_mods k)\<lparr> m_shift := False \<rparr> \<rparr>
   | _ \<Rightarrow> k)"

definition starts_with :: "string \<Rightarrow> string \<Rightarrow> bool" where
  "starts_with s p \<longleftrightarrow> take (length p) s = p"

lemma starts_with_length: "starts_with s p \<Longrightarrow> length p \<le> length s"
  unfolding starts_with_def by (metis length_take min.cobounded1)

function extract_modifiers_from :: "string \<Rightarrow> modifiers \<Rightarrow> string \<times> modifiers" where
  "extract_modifiers_from s m =
     (if starts_with s ''ctrl-'' then extract_modifiers_from (drop 5 s) (m\<lparr> m_control := True \<rparr>)
      else if starts_with s ''alt-'' \<or> starts_with s ''opt-''
        then extract_modifiers_from (drop 4 s) (m\<lparr> m_alt := True \<rparr>)
      else if starts_with s ''shift-'' then extract_modifiers_from (drop 6 s) (m\<lparr> m_shift := True \<rparr>)
      else (s, m))"
  by pat_completeness auto

termination by (relation "measure (length \<circ> fst)") (auto dest!: starts_with_length)

declare extract_modifiers_from.simps [simp del]

definition extract_modifiers :: "string \<Rightarrow> string \<times> modifiers" where
  "extract_modifiers s = extract_modifiers_from s no_mods"

text \<open>The names of the keys; \<open>backtab\<close> also sets \<open>SHIFT\<close> and is apart.\<close>

definition key_names :: "(string \<times> key_code) list" where
  "key_names = [(''esc'', KEsc), (''enter'', KEnter), (''left'', KLeft), (''right'', KRight),
     (''up'', KUp), (''down'', KDown), (''home'', KHome), (''end'', KEnd), (''pageup'', KPageUp),
     (''pagedown'', KPageDown), (''backspace'', KBackspace), (''delete'', KDelete),
     (''insert'', KInsert), (''f1'', KF 1), (''f2'', KF 2), (''f3'', KF 3), (''f4'', KF 4),
     (''f5'', KF 5), (''f6'', KF 6), (''f7'', KF 7), (''f8'', KF 8), (''f9'', KF 9),
     (''f10'', KF 10), (''f11'', KF 11), (''f12'', KF 12), (''space'', KChar 32),
     (''hyphen'', KChar 45), (''minus'', KChar 45), (''tab'', KTab)]"

definition ascii_upper :: "nat \<Rightarrow> nat" where
  "ascii_upper c = (if 97 \<le> c \<and> c \<le> 122 then c - 32 else c)"

definition parse_key_code_with_modifiers :: "string \<Rightarrow> modifiers \<Rightarrow> string + key_event" where
  "parse_key_code_with_modifiers raw m =
     (if raw = ''backtab'' then Inr (key_new KBackTab (m\<lparr> m_shift := True \<rparr>))
      else case map_of key_names raw of
        Some c \<Rightarrow> Inr (key_new c m)
      | None \<Rightarrow>
          if length raw = 1
          then Inr (key_new (KChar (if m_shift m then ascii_upper (of_char (hd raw)) else of_char (hd raw))) m)
          else Inl (''Unable to parse '' @ raw))"

definition parse_key_event :: "string \<Rightarrow> string + key_event" where
  "parse_key_event raw =
     (case extract_modifiers (to_lowercase raw) of
        (remaining, m) \<Rightarrow> (case parse_key_code_with_modifiers remaining m of
            Inl e \<Rightarrow> Inl e
          | Inr k \<Rightarrow> Inr (normalize_key k)))"

text \<open>\<open>char::to_string\<close>: the UTF-8 encoding of a scalar value.\<close>

definition utf8 :: "nat \<Rightarrow> string" where
  "utf8 c = map char_of
     (if c < 0x80 then [c]
      else if c < 0x800 then [0xC0 + c div 64, 0x80 + c mod 64]
      else if c < 0x10000 then [0xE0 + c div 4096, 0x80 + c div 64 mod 64, 0x80 + c mod 64]
      else [0xF0 + c div 262144 mod 8, 0x80 + c div 4096 mod 64, 0x80 + c div 64 mod 64, 0x80 + c mod 64])"

fun key_code_name :: "key_code \<Rightarrow> string" where
  "key_code_name KBackspace = ''backspace''"
| "key_code_name KEnter = ''enter''"
| "key_code_name KLeft = ''left''"
| "key_code_name KRight = ''right''"
| "key_code_name KUp = ''up''"
| "key_code_name KDown = ''down''"
| "key_code_name KHome = ''home''"
| "key_code_name KEnd = ''end''"
| "key_code_name KPageUp = ''pageup''"
| "key_code_name KPageDown = ''pagedown''"
| "key_code_name KTab = ''tab''"
| "key_code_name KBackTab = ''backtab''"
| "key_code_name KDelete = ''delete''"
| "key_code_name KInsert = ''insert''"
| "key_code_name (KF n) = ''f('' @ dec_str n @ '')''"
| "key_code_name (KChar c) = (if c = 32 then ''space'' else utf8 c)"
| "key_code_name KEsc = ''esc''"
| "key_code_name (KOther _) = ''''"

definition join_with :: "string \<Rightarrow> string list \<Rightarrow> string" where
  "join_with sep ss = (case ss of [] \<Rightarrow> [] | s # r \<Rightarrow> s @ concat (map (\<lambda>t. sep @ t) r))"

definition key_event_to_string :: "key_event \<Rightarrow> string" where
  "key_event_to_string k =
     (let ms = (if m_control (k_mods k) then [''ctrl''] else [])
             @ (if m_shift (k_mods k) then [''shift''] else [])
             @ (if m_alt (k_mods k) then [''alt''] else []);
          key = join_with ''-'' ms
      in (if key = [] then [] else key @ ''-'') @ key_code_name (k_code k))"

text \<open>\<open>str::split\<close> on one character, and the collection of fallible elements.\<close>

fun split_on :: "char \<Rightarrow> string \<Rightarrow> string list" where
  "split_on d [] = [[]]"
| "split_on d (c # s) =
     (if c = d then [] # split_on d s
      else (case split_on d s of p # ps \<Rightarrow> (c # p) # ps | [] \<Rightarrow> [[c]]))"

fun collect_results :: "('e + 'a) list \<Rightarrow> 'e + 'a list" where
  "collect_results [] = Inr []"
| "collect_results (r # rs) =
     (case r of Inl e \<Rightarrow> Inl e
      | Inr x \<Rightarrow> (case collect_results rs of Inl e \<Rightarrow> Inl e | Inr xs \<Rightarrow> Inr (x # xs)))"

definition parse_key_sequence :: "string \<Rightarrow> string + key_event list" where
  "parse_key_sequence raw = collect_results (map parse_key_event (split_on CHR ''+'' raw))"

definition key_sequence_to_string :: "key_event list \<Rightarrow> string" where
  "key_sequence_to_string ks = join_with ''+'' (map key_event_to_string ks)"

section \<open>Compiled key maps\<close>

datatype command_spec = Bare string | Full string bool

fun spec_command :: "command_spec \<Rightarrow> string" where
  "spec_command (Bare s) = s"
| "spec_command (Full s _) = s"

fun spec_show :: "command_spec \<Rightarrow> bool" where
  "spec_show (Bare _) = False"
| "spec_show (Full _ b) = b"

type_synonym 'v keymap = "(key_event list \<times> 'v) list"

datatype key_context = CGlobal | CHome | CLogin | CRegister | CModal | CMembers | CForm

datatype app_mode = MHome | MRegister | MLogin

fun context_of_mode :: "app_mode \<Rightarrow> key_context" where
  "context_of_mode MHome = CHome"
| "context_of_mode MLogin = CLogin"
| "context_of_mode MRegister = CRegister"

type_synonym key_bindings = "key_context \<rightharpoonup> command_spec keymap"

text \<open>One section of the configuration: each key string is parsed, and a string that does not
  parse is the panic of the \<open>unwrap\<close> (\<open>Inl\<close>).  Two strings for one key leave the later command
  at the position of the earlier.\<close>

fun convert_section :: "(string \<times> command_spec) list \<Rightarrow> string + command_spec keymap" where
  "convert_section kvs =
     (case collect_results (map (\<lambda>(s, c). case parse_key_sequence s of Inl e \<Rightarrow> Inl e | Inr ks \<Rightarrow> Inr (ks, c)) kvs) of
        Inl e \<Rightarrow> Inl e
      | Inr es \<Rightarrow> Inr (fold (\<lambda>(ks, c) m. AList.update ks c m) es []))"

text \<open>The defaults fill in what the user's configuration does not bind.\<close>

definition or_insert_all :: "('k \<times> 'v) list \<Rightarrow> ('k \<times> 'v) list \<Rightarrow> ('k \<times> 'v) list" where
  "or_insert_all ds user =
     fold (\<lambda>(k, v) m. case map_of m k of Some _ \<Rightarrow> m | None \<Rightarrow> m @ [(k, v)]) ds user"

definition merge_bindings :: "key_bindings \<Rightarrow> key_bindings \<Rightarrow> key_bindings" where
  "merge_bindings ds user = (\<lambda>ctx. case ds ctx of
     None \<Rightarrow> user ctx
   | Some dm \<Rightarrow> Some (or_insert_all dm (case user ctx of None \<Rightarrow> [] | Some um \<Rightarrow> um)))"

fun compile_entries :: "(string \<Rightarrow> 'v option) \<Rightarrow> command_spec keymap \<Rightarrow> 'v keymap \<Rightarrow> 'v keymap" where
  "compile_entries parse [] out = out"
| "compile_entries parse ((ks, spec) # raw) out =
     compile_entries parse raw
       (case parse (spec_command spec) of Some v \<Rightarrow> AList.update ks v out | None \<Rightarrow> out)"

definition compile_keymap :: "command_spec keymap option \<Rightarrow> (string \<Rightarrow> 'v option) \<Rightarrow> 'v keymap" where
  "compile_keymap raw parse = (case raw of None \<Rightarrow> [] | Some r \<Rightarrow> compile_entries parse r [])"

definition command_label :: "string \<Rightarrow> string" where
  "command_label s = map (\<lambda>c. if c = CHR ''_'' then CHR '' '' else c) s"

definition first_key_for :: "'v keymap \<Rightarrow> 'v \<Rightarrow> string option" where
  "first_key_for km verb = map_option (\<lambda>e. key_sequence_to_string (fst e)) (find (\<lambda>e. snd e = verb) km)"

definition all_keys_for :: "'v keymap \<Rightarrow> 'v \<Rightarrow> string option" where
  "all_keys_for km verb =
     (let keys = map (\<lambda>e. key_sequence_to_string (fst e)) (filter (\<lambda>e. snd e = verb) km)
      in if keys = [] then None else Some (join_with ''/'' keys))"

section \<open>Resolving a key\<close>

definition seq_starts_with :: "key_event list \<Rightarrow> key_event list \<Rightarrow> bool" where
  "seq_starts_with s p \<longleftrightarrow> take (length p) s = p"

definition resolve :: "'v keymap \<Rightarrow> key_event list \<Rightarrow> key_event \<Rightarrow> 'v option \<times> key_event list" where
  "resolve km pending key0 =
     (let key = normalize_key key0
      in case map_of km [key] of
           Some v \<Rightarrow> (Some v, [])
         | None \<Rightarrow>
             (let pending = pending @ [key]
              in case map_of km pending of
                   Some v \<Rightarrow> (Some v, [])
                 | None \<Rightarrow>
                     if list_ex (\<lambda>e. seq_starts_with (fst e) pending) km then (None, pending)
                     else (None, [])))"

section \<open>Form keys\<close>

datatype form_cmd = FieldNext | FieldPrev | Submit | CyclePriorityNext | CyclePriorityPrev

datatype form_action = FNext | FPrev | FSubmit | PassToField

definition parse_form_cmd :: "string \<Rightarrow> form_cmd option" where
  "parse_form_cmd = map_of [(''field_next'', FieldNext), (''field_prev'', FieldPrev),
     (''submit'', Submit), (''cycle_priority_next'', CyclePriorityNext),
     (''cycle_priority_prev'', CyclePriorityPrev)]"

record form_keys =
  fk_keymap :: "form_cmd keymap"
  fk_pending :: "key_event list"

definition form_keys_default :: form_keys where
  "form_keys_default = \<lparr> fk_keymap = [], fk_pending = [] \<rparr>"

definition form_keys_configure :: "key_bindings \<Rightarrow> form_keys \<Rightarrow> form_keys" where
  "form_keys_configure kb fk = fk\<lparr> fk_keymap := compile_keymap (kb CForm) parse_form_cmd \<rparr>"

definition form_keys_resolve :: "key_event \<Rightarrow> form_keys \<Rightarrow> form_cmd option \<times> form_keys" where
  "form_keys_resolve key fk =
     (case resolve (fk_keymap fk) (fk_pending fk) key of (r, p) \<Rightarrow> (r, fk\<lparr> fk_pending := p \<rparr>))"

definition classify :: "key_event \<Rightarrow> form_keys \<Rightarrow> form_action \<times> form_keys" where
  "classify key fk =
     (if k_code key = KEsc then (PassToField, fk)
      else case form_keys_resolve key fk of
             (r, fk') \<Rightarrow> ((case r of
                 Some FieldNext \<Rightarrow> FNext
               | Some FieldPrev \<Rightarrow> FPrev
               | Some Submit \<Rightarrow> FSubmit
               | _ \<Rightarrow> PassToField), fk'))"

section \<open>The printed form of a key and its parser\<close>

definition mods_prefix :: "modifiers \<Rightarrow> string" where
  "mods_prefix m = (if m_control m then ''ctrl-'' else []) @ (if m_shift m then ''shift-'' else [])
     @ (if m_alt m then ''alt-'' else [])"

lemma key_event_to_string_prefix:
  "key_event_to_string k = mods_prefix (k_mods k) @ key_code_name (k_code k)"
  by (simp add: key_event_to_string_def mods_prefix_def join_with_def)

definition plain_name :: "string \<Rightarrow> bool" where
  "plain_name s \<longleftrightarrow> \<not> starts_with s ''ctrl-'' \<and> \<not> starts_with s ''alt-''
     \<and> \<not> starts_with s ''opt-'' \<and> \<not> starts_with s ''shift-''"

lemma starts_with_Cons [simp]: "starts_with (c # s) (d # p) \<longleftrightarrow> c = d \<and> starts_with s p"
  "starts_with s []" "\<not> starts_with [] (d # p)"
  by (auto simp: starts_with_def)

lemma extract_plain: "plain_name s \<Longrightarrow> extract_modifiers_from s m = (s, m)"
  by (subst extract_modifiers_from.simps) (simp add: plain_name_def)

lemma extract_ctrl: "extract_modifiers_from (CHR ''c'' # CHR ''t'' # CHR ''r'' # CHR ''l'' # CHR ''-'' # s) m
  = extract_modifiers_from s (m\<lparr> m_control := True \<rparr>)"
  by (subst extract_modifiers_from.simps) simp

lemma extract_alt: "extract_modifiers_from (CHR ''a'' # CHR ''l'' # CHR ''t'' # CHR ''-'' # s) m
  = extract_modifiers_from s (m\<lparr> m_alt := True \<rparr>)"
  by (subst extract_modifiers_from.simps) simp

lemma extract_shift: "extract_modifiers_from (CHR ''s'' # CHR ''h'' # CHR ''i'' # CHR ''f'' # CHR ''t'' # CHR ''-'' # s) m
  = extract_modifiers_from s (m\<lparr> m_shift := True \<rparr>)"
  by (subst extract_modifiers_from.simps) simp

lemma extract_prefix:
  "plain_name s \<Longrightarrow> extract_modifiers (mods_prefix m @ s) = (s, m\<lparr> m_other := False \<rparr>)"
  by (cases m) (simp add: extract_modifiers_def mods_prefix_def extract_plain extract_ctrl extract_alt
      extract_shift no_mods_def)

lemma lower_char_of_nat:
  "(c :: nat) < 256 \<Longrightarrow> lower_char (char_of c) = char_of (if 65 \<le> c \<and> c \<le> 90 then c + 32 else c)"
  by (simp add: lower_char_def less_eq_char_def)

lemma lower_char_high: "128 \<le> (of_char x :: nat) \<Longrightarrow> lower_char x = x"
  by (simp add: lower_char_def less_eq_char_def)

lemma lower_prefix: "to_lowercase (mods_prefix m @ s) = mods_prefix m @ to_lowercase s"
  by (simp add: to_lowercase_def mods_prefix_def lower_char_def less_eq_char_def)

lemma wide_char_bytes:
  assumes "128 \<le> c"
  shows "2 \<le> length (utf8 c) \<and> (\<forall>x\<in>set (utf8 c). 128 \<le> (of_char x :: nat))"
proof -
  have "c < 2048 \<Longrightarrow> c div 64 < 32" by (simp add: div_less_iff_less_mult)
  moreover have "c < 65536 \<Longrightarrow> c div 4096 < 16" by (simp add: div_less_iff_less_mult)
  moreover have "240 + c div 262144 mod 8 < 256" using mod_less_divisor [of 8 "c div 262144"] by linarith
  moreover have "128 + x mod 64 < 256" for x :: nat using mod_less_divisor [of 64 x] by linarith
  ultimately show ?thesis using assms by (simp add: utf8_def)
qed

lemma wide_char_lower: "128 \<le> c \<Longrightarrow> to_lowercase (utf8 c) = utf8 c"
  using wide_char_bytes [of c] by (simp add: to_lowercase_def lower_char_high map_idI)

lemma ascii_prefix: "s = a # b # r \<Longrightarrow> 128 \<le> (of_char b :: nat) \<Longrightarrow> plain_name s"
  by (auto simp: plain_name_def)

lemma plain_code_name: "plain_name (to_lowercase (key_code_name c))"
proof (cases c)
  case (KChar n)
  show ?thesis
  proof (cases "128 \<le> n")
    case True
    then obtain a b r where "utf8 n = a # b # r" "128 \<le> (of_char b :: nat)"
      using wide_char_bytes [of n] by (cases "utf8 n"; cases "tl (utf8 n)") auto
    then have "plain_name (utf8 n)" by (intro ascii_prefix [of "utf8 n" a b r])
    then show ?thesis using KChar True wide_char_lower [OF True] by simp
  next
    case False
    then show ?thesis using KChar by (auto simp: plain_name_def utf8_def to_lowercase_def lower_char_def less_eq_char_def)
  qed
qed (simp_all add: plain_name_def to_lowercase_def lower_char_def less_eq_char_def)

fun faithful_code :: "key_code \<Rightarrow> modifiers \<Rightarrow> bool" where
  "faithful_code (KF _) m = False"
| "faithful_code (KOther _) m = False"
| "faithful_code KBackTab m = m_shift m"
| "faithful_code (KChar c) m = (\<not> m_shift m \<and> c < 128 \<and> \<not> (65 \<le> c \<and> c \<le> 90))"
| "faithful_code _ m = True"

definition faithful_key :: "key_event \<Rightarrow> bool" where
  "faithful_key k \<longleftrightarrow> \<not> m_other (k_mods k) \<and> faithful_code (k_code k) (k_mods k)"

lemma names_not_single: "map_of key_names [x] = None"
  by (simp add: key_names_def)

lemma names_ascii: "map_of key_names s = Some c \<Longrightarrow> \<forall>x\<in>set s. (of_char x :: nat) < 128"
  by (auto simp: key_names_def split: if_splits)

lemma parse_printed_form:
  "parse_key_event (key_event_to_string (key_new c m)) =
     (case parse_key_code_with_modifiers (to_lowercase (key_code_name c)) (m\<lparr> m_other := False \<rparr>) of
        Inl e \<Rightarrow> Inl e | Inr k \<Rightarrow> Inr (normalize_key k))"
  using plain_code_name [of c]
  by (simp add: key_new_def parse_key_event_def key_event_to_string_prefix lower_prefix extract_prefix)

lemma parse_printed_char:
  assumes "c \<noteq> 32"
  shows "parse_key_event (key_event_to_string (key_new (KChar c) m)) = Inr (key_new (KChar c) m)
     \<longleftrightarrow> faithful_key (key_new (KChar c) m)"
proof (cases "128 \<le> c")
  case True
  note w = wide_char_bytes [OF True]
  then obtain x where x: "x \<in> set (utf8 c)" by (cases "utf8 c") auto
  have "map_of key_names (utf8 c) = None"
  proof (cases "map_of key_names (utf8 c)")
    case (Some k)
    then show ?thesis using names_ascii [OF Some] x w by force
  qed simp
  moreover have "utf8 c \<noteq> ''backtab''" using w by auto
  ultimately show ?thesis using assms w True unfolding parse_printed_form
    by (simp add: wide_char_lower parse_key_code_with_modifiers_def faithful_key_def key_new_def)
next
  case False
  have low: "to_lowercase (key_code_name (KChar c)) = [char_of (if 65 \<le> c \<and> c \<le> 90 then c + 32 else c)]"
    using False assms by (simp add: utf8_def to_lowercase_def lower_char_of_nat)
  show ?thesis unfolding parse_printed_form low using False
    by (cases m) (auto simp: key_new_def parse_key_code_with_modifiers_def faithful_key_def names_not_single
        normalize_key_def)
qed

lemma parse_printed:
  "parse_key_event (key_event_to_string k) = Inr k \<longleftrightarrow> faithful_key k"
proof -
  obtain c m where k: "k = key_new c m" by (cases k) (auto simp: key_new_def)
  show ?thesis
  proof (cases "\<exists>n. c = KChar n \<and> n \<noteq> 32")
    case True then show ?thesis using k parse_printed_char by auto
  next
    case False
    then show ?thesis unfolding k parse_printed_form
      by (cases c; cases m) (auto simp: key_new_def to_lowercase_def lower_char_def less_eq_char_def
          parse_key_code_with_modifiers_def key_names_def faithful_key_def normalize_key_def)
  qed
qed

lemma collect_map_Inr [simp]: "collect_results (map Inr xs) = Inr xs"
  by (induction xs) simp_all

lemma collect_results_Inr: "collect_results rs = Inr xs \<longleftrightarrow> rs = map Inr xs"
proof
  show "collect_results rs = Inr xs \<Longrightarrow> rs = map Inr xs"
    by (induction rs arbitrary: xs) (auto split: sum.splits)
qed simp

lemma not_all_Inr: "Inl e \<in> set rs \<Longrightarrow> rs \<noteq> map Inr xs"
  by auto

lemma split_on_not_Nil [simp]: "split_on d s \<noteq> []"
  by (induction s) (auto split: list.splits)

lemma split_on_plain: "d \<notin> set s \<Longrightarrow> split_on d s = [s]"
  by (induction s) auto

lemma split_on_append: "split_on d (a @ d # b) = split_on d a @ split_on d b"
  by (induction a) (auto split: list.splits)

lemma join_with_simps [simp]:
  "join_with sep [] = []" "join_with sep [s] = s"
  "join_with sep (s # t # ss) = s @ sep @ join_with sep (t # ss)"
  by (simp_all add: join_with_def)

lemma split_on_join:
  "ss \<noteq> [] \<Longrightarrow> split_on d (join_with [d] ss) = concat (map (split_on d) ss)"
  by (induction ss rule: induct_list012) (simp_all add: split_on_append)

lemma plus_in_prefix: "CHR ''+'' \<notin> set (mods_prefix m)"
  by (simp add: mods_prefix_def)

lemma dec_str_no_plus: "CHR ''+'' \<notin> set (dec_str n)"
  using dec_str_digits [of n] by (auto simp: list_all_iff digit_char_def)

lemma plus_char [simp]: "char_of (43 :: nat) = CHR ''+''"
  by code_simp

lemma char_of_plus: "(n :: nat) < 256 \<Longrightarrow> CHR ''+'' = char_of n \<longleftrightarrow> n = 43"
proof
  assume "n < 256" "CHR ''+'' = char_of n"
  then have "(of_char (CHR ''+'') :: nat) = of_char (char_of n)" by simp
  then show "n = 43" using \<open>n < 256\<close> by simp
qed simp

lemma plus_in_name: "CHR ''+'' \<in> set (key_code_name c) \<longleftrightarrow> c = KChar 43"
proof (cases c)
  case (KChar n)
  show ?thesis
  proof (cases "128 \<le> n")
    case True
    then show ?thesis using KChar wide_char_bytes [OF True] by auto
  next
    case False
    then show ?thesis using KChar by (auto simp: utf8_def char_of_plus)
  qed
qed (simp_all add: dec_str_no_plus)

lemma plus_printed: "CHR ''+'' \<in> set (key_event_to_string k) \<longleftrightarrow> k_code k = KChar 43"
  by (simp add: key_event_to_string_prefix plus_in_prefix plus_in_name)

lemma parse_empty: "parse_key_event [] = Inl ''Unable to parse ''"
  by code_simp

lemma split_plus_key:
  "k_code k = KChar 43 \<Longrightarrow> split_on CHR ''+'' (key_event_to_string k) = [mods_prefix (k_mods k), []]"
  using split_on_append [of "CHR ''+''" "mods_prefix (k_mods k)" "[]"]
  by (simp add: key_event_to_string_prefix utf8_def split_on_plain plus_in_prefix)

lemma key_sequence_roundtrip:
  "parse_key_sequence (key_sequence_to_string ks) = Inr ks \<longleftrightarrow>
     ks \<noteq> [] \<and> (\<forall>k\<in>set ks. faithful_key k \<and> k_code k \<noteq> KChar 43)"
proof (cases "ks = []")
  case True
  then show ?thesis by (simp add: parse_key_sequence_def key_sequence_to_string_def parse_empty)
next
  case False
  let ?split = "\<lambda>k. split_on CHR ''+'' (key_event_to_string k)"
  have pieces: "split_on CHR ''+'' (key_sequence_to_string ks) = concat (map ?split ks)"
    using False by (simp add: key_sequence_to_string_def split_on_join comp_def)
  show ?thesis
  proof (cases "\<exists>k\<in>set ks. k_code k = KChar 43")
    case True
    then obtain k where "k \<in> set ks" "k_code k = KChar 43" by blast
    then have "[] \<in> set (concat (map ?split ks))"
      by (auto simp: split_plus_key intro!: bexI [of _ k])
    then have "Inl ''Unable to parse '' \<in> set (map parse_key_event (concat (map ?split ks)))"
      using parse_empty by (metis image_eqI list.set_map)
    then have "map parse_key_event (concat (map ?split ks)) \<noteq> map Inr ks"
      by (rule not_all_Inr)
    then show ?thesis using True pieces by (auto simp only: parse_key_sequence_def collect_results_Inr)
  next
    case no: False
    have "map ?split ks = map (\<lambda>k. [key_event_to_string k]) ks"
      using no by (intro map_cong refl split_on_plain) (simp add: plus_printed)
    then have "concat (map ?split ks) = map key_event_to_string ks" by (simp only: concat_map_singleton)
    then show ?thesis using no pieces False
      by (auto simp: parse_key_sequence_def collect_results_Inr parse_printed map_eq_conv)
  qed
qed

lemma normalize_idem [simp]: "normalize_key (normalize_key k) = normalize_key k"
  by (simp add: normalize_key_def split: key_code.split)

lemma parse_key_event_normal: "parse_key_event s = Inr k \<Longrightarrow> normalize_key k = k"
  by (auto simp: parse_key_event_def split: prod.splits sum.splits)

lemma parse_key_sequence_normal: "parse_key_sequence s = Inr ks \<Longrightarrow> k \<in> set ks \<Longrightarrow> normalize_key k = k"
proof -
  assume "parse_key_sequence s = Inr ks" and "k \<in> set ks"
  then have "Inr k \<in> set (map parse_key_event (split_on CHR ''+'' s))"
    by (simp add: parse_key_sequence_def collect_results_Inr)
  then show "normalize_key k = k" by (auto dest: parse_key_event_normal [OF sym])
qed

lemma parse_key_sequence_not_Nil: "parse_key_sequence s \<noteq> Inr []"
  by (simp add: parse_key_sequence_def collect_results_Inr)

definition pending_ok :: "'v keymap \<Rightarrow> key_event list \<Rightarrow> bool" where
  "pending_ok km p \<longleftrightarrow> p = [] \<or> (\<exists>e\<in>set km. \<exists>r. r \<noteq> [] \<and> fst e = p @ r)"

fun feed :: "'v keymap \<Rightarrow> key_event list \<Rightarrow> key_event list \<Rightarrow> 'v option list \<times> key_event list" where
  "feed km p [] = ([], p)"
| "feed km p (k # ks) =
     (case resolve km p k of (r, p') \<Rightarrow> (case feed km p' ks of (rs, p'') \<Rightarrow> (r # rs, p'')))"

lemma seq_starts_with_iff: "seq_starts_with s p \<longleftrightarrow> (\<exists>r. s = p @ r)"
  unfolding seq_starts_with_def by (metis append_eq_conv_conj append_take_drop_id)

lemma resolve_pending_ok: "pending_ok km (snd (resolve km p k))"
proof (cases "map_of km (p @ [normalize_key k])")
  case None
  then have "fst e \<noteq> p @ [normalize_key k]" if "e \<in> set km" for e
    using that by (metis image_eqI map_of_eq_None_iff)
  then show ?thesis using None
    by (auto simp: resolve_def Let_def pending_ok_def list_ex_iff seq_starts_with_iff split: option.splits)
      (metis append_Nil2 append_Cons append_assoc fst_conv)
qed (simp add: resolve_def Let_def pending_ok_def split: option.splits)

lemma feed_pending_ok: "pending_ok km p \<Longrightarrow> pending_ok km (snd (feed km p ks))"
proof (induction ks arbitrary: p)
  case (Cons k ks)
  have "pending_ok km (snd (feed km (snd (resolve km p k)) ks))"
    by (rule Cons.IH) (rule resolve_pending_ok)
  then show ?case by (simp add: case_prod_beta)
qed simp

lemma resolve_middle:
  assumes "map_of km [normalize_key k] = None" and "map_of km (p @ [normalize_key k]) = None"
    and "map_of km (p @ normalize_key k # ks) = Some v"
  shows "resolve km p k = (None, p @ [normalize_key k])"
proof -
  have "(p @ normalize_key k # ks, v) \<in> set km" using assms(3) by (rule map_of_SomeD)
  then have "\<exists>e\<in>set km. seq_starts_with (fst e) (p @ [normalize_key k])"
    by (force simp: seq_starts_with_iff)
  then show ?thesis using assms by (auto simp: resolve_def Let_def list_ex_iff)
qed

lemma feed_fires:
  assumes "map_of km (p @ map normalize_key ks) = Some v" and "ks \<noteq> []"
    and "\<And>k. k \<in> set ks \<Longrightarrow> p @ map normalize_key ks \<noteq> [normalize_key k] \<Longrightarrow> map_of km [normalize_key k] = None"
    and "\<And>q r. p @ map normalize_key ks = p @ q @ r \<Longrightarrow> q \<noteq> [] \<Longrightarrow> r \<noteq> [] \<Longrightarrow> map_of km (p @ q) = None"
  shows "feed km p ks = (replicate (length ks - 1) None @ [Some v], [])"
  using assms
proof (induction ks arbitrary: p)
  case (Cons k ks)
  show ?case
  proof (cases "ks = []")
    case True
    then show ?thesis using Cons.prems(1,3) by (cases "p = []") (auto simp: resolve_def Let_def)
  next
    case False
    let ?n = "normalize_key k"
    have "p @ map normalize_key (k # ks) \<noteq> [?n]" using False by (cases p) auto
    then have "map_of km [?n] = None" using Cons.prems(3) [of k] by simp
    moreover have "map_of km (p @ [?n]) = None"
      using Cons.prems(4) [of "[?n]" "map normalize_key ks"] False by auto
    ultimately have step: "resolve km p k = (None, p @ [?n])"
      using Cons.prems(1) by (intro resolve_middle) auto
    have "feed km (p @ [?n]) ks = (replicate (length ks - 1) None @ [Some v], [])"
    proof (rule Cons.IH)
      show "map_of km ((p @ [?n]) @ map normalize_key ks) = Some v" using Cons.prems(1) by simp
      show "map_of km [normalize_key k'] = None" if "k' \<in> set ks" for k'
        using Cons.prems(3) [of k'] that False by (cases ks; cases p) auto
      show "map_of km ((p @ [?n]) @ q) = None"
        if "(p @ [?n]) @ map normalize_key ks = (p @ [?n]) @ q @ r" "r \<noteq> []" for q r
        using Cons.prems(4) [of "?n # q" r] that by auto
    qed (rule False)
    then show ?thesis using step False by (cases ks) auto
  qed
qed simp

lemma map_of_or_insert_all:
  "map_of (or_insert_all ds user) k = (case map_of user k of Some v \<Rightarrow> Some v | None \<Rightarrow> map_of ds k)"
  unfolding or_insert_all_def
  by (induction ds arbitrary: user) (auto split: option.splits simp: map_add_def)

lemma compile_entries_lookup:
  "distinct (map fst raw) \<Longrightarrow> map_of (compile_entries parse raw out) ks =
     (case map_of raw ks of
        None \<Rightarrow> map_of out ks
      | Some spec \<Rightarrow> (case parse (spec_command spec) of Some v \<Rightarrow> Some v | None \<Rightarrow> map_of out ks))"
proof (induction parse raw out rule: compile_entries.induct)
  case (2 parse k spec raw out)
  then have "ks = k \<Longrightarrow> map_of raw ks = None" by (simp add: map_of_eq_None_iff)
  then show ?case using 2 by (cases "parse (spec_command spec)") (auto simp: update_conv' split: option.splits)
qed simp

lemma or_insert_distinct: "distinct (map fst user) \<Longrightarrow> distinct (map fst (or_insert_all ds user))"
  unfolding or_insert_all_def
  by (induction ds arbitrary: user) (auto simp: map_of_eq_None_iff split: option.splits)


text \<open>Key hints and key bindings are inverse only on part of the keys.  The text printed for a
  non-empty key sequence parses back to that sequence exactly when every key of it is faithful
  (no function key, no upper-case or non-ASCII character, no character with \<open>SHIFT\<close>, no
  back-tab without it, no unnamed key, no modifier but control, shift and alt) and none is the
  plus sign, which the parser takes for the separator.\<close>

lemma key_text_roundtrip:
  "parse_key_sequence (key_sequence_to_string ks) = Inr ks \<longleftrightarrow>
     ks \<noteq> [] \<and> list_all (\<lambda>k. faithful_key k \<and> k_code k \<noteq> KChar 43) ks"
  by (simp add: key_sequence_roundtrip list_all_iff)

text \<open>Whatever keys are typed, the buffer of half-typed keys of a surface is empty or a proper
  prefix of one of its bindings, so a stray key never wedges the resolver.\<close>

lemma chord_buffer_never_wedged:
  "snd (feed km [] keys) = [] \<or>
     (\<exists>seq v rest. (seq, v) \<in> set km \<and> rest \<noteq> [] \<and> seq = snd (feed km [] keys) @ rest)"
  using feed_pending_ok [of km "[]" keys] by (fastforce simp: pending_ok_def)

text \<open>A configured key sequence fires.  If a sequence parsed from the configuration is bound in a
  surface's map, none of its keys is bound alone (unless it is the whole sequence) and no
  shorter beginning of it is bound, then typing its keys from an empty buffer, with or without
  the \<open>SHIFT\<close> some terminals report on characters, yields the bound command at the last key and
  nothing before it, and leaves the buffer empty.\<close>

lemma chord_fires:
  assumes "parse_key_sequence raw = Inr seq" and "map normalize_key typed = seq"
    and "map_of km seq = Some v"
    and "length seq = 1 \<or> list_all (\<lambda>k. map_of km [k] = None) seq"
    and "list_all (\<lambda>n. map_of km (take n seq) = None) [1..<length seq]"
  shows "feed km [] typed = (replicate (length seq - 1) None @ [Some v], [])"
proof -
  have "seq \<noteq> []" using assms(1) parse_key_sequence_not_Nil by blast
  then have "typed \<noteq> []" using assms(2) by auto
  have "feed km [] typed = (replicate (length typed - 1) None @ [Some v], [])"
  proof (rule feed_fires)
    show "map_of km ([] @ map normalize_key typed) = Some v" using assms by simp
    show "map_of km [normalize_key k] = None"
      if k: "k \<in> set typed" "[] @ map normalize_key typed \<noteq> [normalize_key k]" for k
    proof -
      have "normalize_key k \<in> set seq" using k(1) assms(2) by auto
      moreover have "length seq \<noteq> 1" using k assms(2) by (cases typed; cases "tl typed") auto
      ultimately show ?thesis using assms(4) by (auto simp: list_all_iff)
    qed
    show "map_of km ([] @ q) = None"
      if q: "[] @ map normalize_key typed = [] @ q @ r" "q \<noteq> []" "r \<noteq> []" for q r
    proof -
      have "seq = q @ r" using q(1) assms(2) by simp
      then have "length q \<in> set [1..<length seq]" using q(2,3) by (auto simp: Suc_le_eq)
      then have "map_of km (take (length q) seq) = None" using assms(5) unfolding list_all_iff by blast
      then show ?thesis using \<open>seq = q @ r\<close> by simp
    qed
  qed fact
  then show ?thesis using assms(2) by auto
qed

definition demo_keymap :: "nat keymap" where
  "demo_keymap = [([key_new (KChar 113) no_mods], 1),
     ([key_new (KChar 71) no_mods, key_new (KChar 120) no_mods], 2)]"

text \<open>The binding a surface ends up with.  For a key sequence, the user's entry decides whenever
  there is one, whatever it says: a known command is bound, and an unknown one leaves the key
  without any command, since the default entry was not merged in.  Only a key the user does not
  mention gets the command of the embedded defaults.\<close>

lemma configured_command:
  assumes "ds ctx = Some dm" and "distinct (map fst (case user ctx of None \<Rightarrow> [] | Some um \<Rightarrow> um))"
  shows "map_of (compile_keymap (merge_bindings ds user ctx) parse) ks =
     (case map_of (case user ctx of None \<Rightarrow> [] | Some um \<Rightarrow> um) ks of
        Some spec \<Rightarrow> parse (spec_command spec)
      | None \<Rightarrow> (case map_of dm ks of Some spec \<Rightarrow> parse (spec_command spec) | None \<Rightarrow> None))"
  using assms
  by (simp add: compile_keymap_def merge_bindings_def compile_entries_lookup or_insert_distinct
      map_of_or_insert_all split: option.splits)

end
