(* ===== verification/UiAction.thy ===== *)
theory UiAction
  imports NetAuth Keymap
begin

text \<open>
  The messages of the terminal program: the terminal events of \<open>src/todoers/src/tui.rs\<close>, the actions
  of \<open>action.rs\<close> (the only way state changes travel through the app), and the render-side view
  model of \<open>view.rs\<close>.
\<close>

datatype mouse_kind = MouseDownLeft | MouseOther

record mouse_event =
  ms_kind :: mouse_kind
  ms_column :: nat
  ms_row :: nat

datatype tui_event = EvInit | EvQuit | EvError | EvClosed | EvTick | EvRender | EvFocusGained | EvFocusLost
  | EvPaste string | EvKey key_event | EvMouse mouse_event | EvResize nat nat

datatype delete_target = DelList list_id | DelTodo list_id string

datatype app_action =
    AcTick | AcRender | AcResize nat nat | AcSuspend | AcResume | AcQuit | AcClearScreen
  | AcError string | AcHelpModal | AcAuthChooser | AcRegisterModal | AcLoginModal | AcCloseModal
  | AcFocusButtons | AcSubmitForm | AcSetMode app_mode | AcStartCapture | AcStopCapture
  | AcUnlockModal | AcDeviceUnlock
  | AcUnlock string
  | AcRegister string string
  | AcLogin string string
  | AcKeys unlocked_keys
  | AcToggleSidebar
  | AcOpenView view_target nat
  | AcRefreshLists
  | AcNewListModal
  | AcCreateList string
  | AcRenameListModal list_id string
  | AcRenameList list_id string
  | AcAddTodoModal list_id
  | AcEditTodoModal list_id string
  | AcSaveTodo list_id "string option" todo_item_input
  | AcToggleDone list_id string
  | AcConfirmDelete delete_target
  | AcDeleteList list_id
  | AcDeleteTodo list_id string
  | AcShareModal list_id
  | AcShareList list_id string
  | AcAddResolvedMember list_id member
  | AcMembersModal list_id
  | AcUnshare list_id member_id
  | AcCycleSort
  | AcOpenEditReady
  | AcOpenMembersReady

text \<open>The command names of the \<open>global\<close> section: serde's snake-case names of the variants without
  data (\<open>parse_command::<Action>\<close> reads a JSON string).\<close>

definition parse_global_action :: "string \<Rightarrow> app_action option" where
  "parse_global_action = map_of
     [(''tick'', AcTick), (''render'', AcRender), (''suspend'', AcSuspend), (''resume'', AcResume),
      (''quit'', AcQuit), (''clear_screen'', AcClearScreen), (''help_modal'', AcHelpModal),
      (''auth_chooser'', AcAuthChooser), (''register_modal'', AcRegisterModal),
      (''login_modal'', AcLoginModal), (''close_modal'', AcCloseModal),
      (''focus_buttons'', AcFocusButtons), (''submit_form'', AcSubmitForm),
      (''start_capture'', AcStartCapture), (''stop_capture'', AcStopCapture),
      (''unlock_modal'', AcUnlockModal), (''device_unlock'', AcDeviceUnlock),
      (''toggle_sidebar'', AcToggleSidebar), (''refresh_lists'', AcRefreshLists),
      (''new_list_modal'', AcNewListModal), (''cycle_sort'', AcCycleSort),
      (''open_edit_ready'', AcOpenEditReady), (''open_members_ready'', AcOpenMembersReady)]"

section \<open>The view model\<close>

datatype direction = Horizontal | Vertical

record pane_data =
  pd_target :: "view_target option"
  pd_items :: "(list_id \<times> todo_item) list"

record view_model =
  vm_lists :: "list_summary list"
  vm_sort :: sort_mode
  vm_panes :: "pane_data list"
  vm_split :: "direction option"
  vm_ratio :: int

definition view_default :: view_model where
  "view_default = \<lparr> vm_lists = [], vm_sort = Alphabetical,
     vm_panes = [\<lparr> pd_target = Some (TargetMeta AllTasks), pd_items = [] \<rparr>],
     vm_split = None, vm_ratio = 50 \<rparr>"

end
