(* ===== verification/TextInput.thy ===== *)
theory TextInput
  imports UiAction
begin

text \<open>
  The single-line text field (\<open>src/todoers/src/components/text_input.rs\<close>): focus, capture, and the Vim
  state machine layered on the editing widget.  The widget is a third-party crate: its operations
  are the record \<open>textarea\<close>, an argument of every operation that touches the buffer.
\<close>

section \<open>The editing widget\<close>

datatype cursor_move = MvBack | MvForward | MvUp | MvDown | MvWordForward | MvWordEnd | MvWordBack | MvHead | MvEnd

datatype edit_key = EkChar nat | EkBackspace | EkEnter | EkLeft | EkRight | EkUp | EkDown | EkTab | EkDelete
  | EkHome | EkEnd | EkPageUp | EkPageDown | EkEsc | EkF nat | EkNull

record edit_input =
  ei_key :: edit_key
  ei_ctrl :: bool
  ei_alt :: bool
  ei_shift :: bool

record 'ta textarea =
  ta_new :: "'ta"
  ta_mask :: "'ta \<Rightarrow> 'ta"
  ta_move :: "cursor_move \<Rightarrow> 'ta \<Rightarrow> 'ta"
  ta_input :: "edit_input \<Rightarrow> 'ta \<Rightarrow> 'ta"
  ta_input_plain :: "edit_input \<Rightarrow> 'ta \<Rightarrow> 'ta"
  ta_insert_str :: "string \<Rightarrow> 'ta \<Rightarrow> 'ta"
  ta_lines :: "'ta \<Rightarrow> string list"
  ta_delete_next :: "'ta \<Rightarrow> 'ta"
  ta_delete_to_end :: "'ta \<Rightarrow> 'ta"
  ta_paste :: "'ta \<Rightarrow> 'ta"
  ta_undo :: "'ta \<Rightarrow> 'ta"
  ta_redo :: "'ta \<Rightarrow> 'ta"
  ta_cut :: "'ta \<Rightarrow> 'ta"
  ta_copy :: "'ta \<Rightarrow> 'ta"
  ta_start_selection :: "'ta \<Rightarrow> 'ta"
  ta_cancel_selection :: "'ta \<Rightarrow> 'ta"

definition to_input :: "key_event \<Rightarrow> edit_input" where
  "to_input key =
     \<lparr> ei_key = (case k_code key of KChar c \<Rightarrow> EkChar c | KBackspace \<Rightarrow> EkBackspace | KEnter \<Rightarrow> EkEnter
          | KLeft \<Rightarrow> EkLeft | KRight \<Rightarrow> EkRight | KUp \<Rightarrow> EkUp | KDown \<Rightarrow> EkDown | KTab \<Rightarrow> EkTab
          | KDelete \<Rightarrow> EkDelete | KHome \<Rightarrow> EkHome | KEnd \<Rightarrow> EkEnd | KPageUp \<Rightarrow> EkPageUp
          | KPageDown \<Rightarrow> EkPageDown | KEsc \<Rightarrow> EkEsc | KF n \<Rightarrow> EkF n | _ \<Rightarrow> EkNull),
       ei_ctrl = m_control (k_mods key), ei_alt = m_alt (k_mods key), ei_shift = m_shift (k_mods key) \<rparr>"

section \<open>The Vim machine\<close>

datatype vim_mode = Normal | Insert | Visual | Operator nat

datatype editing_mode = Emacs | Vim

datatype editor_mode = EmNormal | EmInsert | EmVisual | EmOperatorPending

fun editor_mode_label :: "editor_mode \<Rightarrow> string" where
  "editor_mode_label EmNormal = ''NORMAL''"
| "editor_mode_label EmInsert = ''INSERT''"
| "editor_mode_label EmVisual = ''VISUAL''"
| "editor_mode_label EmOperatorPending = ''O-PENDING''"

text \<open>The mode, the count prefix, and the buffer it drives.\<close>

record 'ta vim_state =
  v_mode :: vim_mode
  v_count :: "nat option"
  v_area :: 'ta

definition set_mode :: "vim_mode \<Rightarrow> 'ta vim_state \<Rightarrow> 'ta vim_state" where
  "set_mode m v = v\<lparr> v_mode := m \<rparr>"

definition on_area :: "('ta \<Rightarrow> 'ta) \<Rightarrow> 'ta vim_state \<Rightarrow> 'ta vim_state" where
  "on_area f v = v\<lparr> v_area := f (v_area v) \<rparr>"

abbreviation chr :: "char \<Rightarrow> nat" where "chr c \<equiv> of_char c"

definition command_char :: "edit_input \<Rightarrow> nat option" where
  "command_char i = (case ei_key i of
     EkChar c \<Rightarrow> Some c
   | EkLeft \<Rightarrow> Some (chr CHR ''h'') | EkBackspace \<Rightarrow> Some (chr CHR ''h'')
   | EkRight \<Rightarrow> Some (chr CHR ''l'')
   | EkUp \<Rightarrow> Some (chr CHR ''k'')
   | EkDown \<Rightarrow> Some (chr CHR ''j'')
   | EkHome \<Rightarrow> Some (chr CHR ''0'')
   | EkEnd \<Rightarrow> Some (chr CHR ''$'')
   | EkDelete \<Rightarrow> Some (chr CHR ''x'')
   | _ \<Rightarrow> None)"

definition is_ascii_digit :: "nat \<Rightarrow> bool" where
  "is_ascii_digit c \<longleftrightarrow> 48 \<le> c \<and> c \<le> 57"

text \<open>A digit joins the count, except a leading zero; \<open>usize\<close> arithmetic of a release build.\<close>

definition counts :: "nat \<Rightarrow> nat option \<Rightarrow> bool" where
  "counts c cnt \<longleftrightarrow> is_ascii_digit c \<and> (c \<noteq> chr CHR ''0'' \<or> cnt \<noteq> None)"

definition add_digit :: "nat \<Rightarrow> nat option \<Rightarrow> nat" where
  "add_digit c cnt = ((case cnt of Some k \<Rightarrow> k | None \<Rightarrow> 0) * 10 + (c - 48)) mod 2 ^ 64"

definition count_or_one :: "nat option \<Rightarrow> nat" where
  "count_or_one cnt = (case cnt of Some n \<Rightarrow> n | None \<Rightarrow> 1)"

definition insert_key :: "'ta textarea \<Rightarrow> edit_input \<Rightarrow> 'ta vim_state \<Rightarrow> 'ta vim_state" where
  "insert_key T i v =
     (if ei_key i = EkEsc \<or> (ei_ctrl i \<and> ei_key i = EkChar (chr CHR ''c''))
      then set_mode Normal (on_area (ta_move T MvBack) v)
      else on_area (ta_input_plain T i) v)"

text \<open>The motions shared by the modes, with their repetition.\<close>

definition word_motion :: "'ta textarea \<Rightarrow> nat \<Rightarrow> nat \<Rightarrow> ('ta \<Rightarrow> 'ta) option" where
  "word_motion T n c =
     (if c = chr CHR ''h'' then Some ((ta_move T MvBack) ^^ n)
      else if c = chr CHR ''l'' then Some ((ta_move T MvForward) ^^ n)
      else if c = chr CHR ''w'' then Some ((ta_move T MvWordForward) ^^ n)
      else if c = chr CHR ''e'' then Some ((ta_move T MvWordEnd) ^^ n)
      else if c = chr CHR ''b'' then Some ((ta_move T MvWordBack) ^^ n)
      else if c = chr CHR ''0'' \<or> c = chr CHR ''^'' then Some (ta_move T MvHead)
      else if c = chr CHR ''$'' then Some (ta_move T MvEnd)
      else None)"

definition normal_command :: "'ta textarea \<Rightarrow> nat \<Rightarrow> nat \<Rightarrow> 'ta vim_state \<Rightarrow> 'ta vim_state" where
  "normal_command T n c v =
     (case word_motion T n c of
        Some f \<Rightarrow> on_area f v
      | None \<Rightarrow>
          if c = chr CHR ''j'' then on_area ((ta_move T MvDown) ^^ n) v
          else if c = chr CHR ''k'' then on_area ((ta_move T MvUp) ^^ n) v
          else if c = chr CHR ''i'' then set_mode Insert v
          else if c = chr CHR ''I'' then set_mode Insert (on_area (ta_move T MvHead) v)
          else if c = chr CHR ''a'' then set_mode Insert (on_area (ta_move T MvForward) v)
          else if c = chr CHR ''A'' \<or> c = chr CHR ''o'' \<or> c = chr CHR ''O''
            then set_mode Insert (on_area (ta_move T MvEnd) v)
          else if c = chr CHR ''x'' then on_area ((ta_delete_next T) ^^ n) v
          else if c = chr CHR ''D'' then on_area (ta_delete_to_end T) v
          else if c = chr CHR ''C'' then set_mode Insert (on_area (ta_delete_to_end T) v)
          else if c = chr CHR ''s'' then set_mode Insert (on_area (ta_delete_next T) v)
          else if c = chr CHR ''p'' \<or> c = chr CHR ''P'' then on_area (ta_paste T) v
          else if c = chr CHR ''u'' then on_area (ta_undo T) v
          else if c = chr CHR ''v'' then set_mode Visual (on_area (ta_start_selection T) v)
          else if c = chr CHR ''d'' \<or> c = chr CHR ''c'' \<or> c = chr CHR ''y'' then set_mode (Operator c) v
          else v)"

definition normal_key :: "'ta textarea \<Rightarrow> edit_input \<Rightarrow> 'ta vim_state \<Rightarrow> 'ta vim_state" where
  "normal_key T i v =
     (if ei_ctrl i \<and> ei_key i = EkChar (chr CHR ''r'') then (on_area (ta_redo T) v)\<lparr> v_count := None \<rparr>
      else case command_char i of
             None \<Rightarrow> v\<lparr> v_count := None \<rparr>
           | Some c \<Rightarrow>
               if counts c (v_count v) then v\<lparr> v_count := Some (add_digit c (v_count v)) \<rparr>
               else normal_command T (count_or_one (v_count v)) c (v\<lparr> v_count := None \<rparr>))"

definition visual_command :: "'ta textarea \<Rightarrow> nat \<Rightarrow> nat \<Rightarrow> 'ta vim_state \<Rightarrow> 'ta vim_state" where
  "visual_command T n c v =
     (case word_motion T n c of
        Some f \<Rightarrow> on_area f v
      | None \<Rightarrow>
          if c = chr CHR ''d'' \<or> c = chr CHR ''x'' then set_mode Normal (on_area (ta_cut T) v)
          else if c = chr CHR ''c'' then set_mode Insert (on_area (ta_cut T) v)
          else if c = chr CHR ''y''
            then set_mode Normal (on_area (ta_cancel_selection T) (on_area (ta_copy T) v))
          else if c = chr CHR ''v'' then set_mode Normal (on_area (ta_cancel_selection T) v)
          else v)"

definition visual_key :: "'ta textarea \<Rightarrow> edit_input \<Rightarrow> 'ta vim_state \<Rightarrow> 'ta vim_state" where
  "visual_key T i v =
     (if ei_key i = EkEsc then set_mode Normal (on_area (ta_cancel_selection T) v)
      else case command_char i of
             None \<Rightarrow> v
           | Some c \<Rightarrow>
               if counts c (v_count v) then v\<lparr> v_count := Some (add_digit c (v_count v)) \<rparr>
               else visual_command T (count_or_one (v_count v)) c (v\<lparr> v_count := None \<rparr>))"

definition finish_operator :: "'ta textarea \<Rightarrow> nat \<Rightarrow> 'ta vim_state \<Rightarrow> 'ta vim_state" where
  "finish_operator T op v =
     (if op = chr CHR ''d'' then set_mode Normal (on_area (ta_cut T) v)
      else if op = chr CHR ''c'' then set_mode Insert (on_area (ta_cut T) v)
      else if op = chr CHR ''y''
        then set_mode Normal (on_area (ta_cancel_selection T) (on_area (ta_copy T) v))
      else set_mode Normal v)"

definition operator_key :: "'ta textarea \<Rightarrow> nat \<Rightarrow> edit_input \<Rightarrow> 'ta vim_state \<Rightarrow> 'ta vim_state" where
  "operator_key T op i v =
     (if ei_key i = EkEsc then (set_mode Normal v)\<lparr> v_count := None \<rparr>
      else case command_char i of
             None \<Rightarrow> (set_mode Normal v)\<lparr> v_count := None \<rparr>
           | Some c \<Rightarrow>
               (let n = count_or_one (v_count v); v = v\<lparr> v_count := None \<rparr>
                in if c = op
                   then finish_operator T op
                     (on_area (ta_move T MvEnd) (on_area (ta_start_selection T) (on_area (ta_move T MvHead) v)))
                   else (let v = on_area (ta_start_selection T) v
                         in case word_motion T n c of
                              Some f \<Rightarrow> finish_operator T op (on_area f v)
                            | None \<Rightarrow> set_mode Normal (on_area (ta_cancel_selection T) v))))"

definition on_key :: "'ta textarea \<Rightarrow> edit_input \<Rightarrow> 'ta vim_state \<Rightarrow> 'ta vim_state" where
  "on_key T i v = (case v_mode v of
     Insert \<Rightarrow> insert_key T i v
   | Normal \<Rightarrow> normal_key T i v
   | Visual \<Rightarrow> visual_key T i v
   | Operator op \<Rightarrow> operator_key T op i v)"

section \<open>The field\<close>

record 'ta text_input =
  fi_capturing :: bool
  fi_mask :: bool
  fi_label :: string
  fi_vim :: "'ta vim_state"
  fi_editing :: editing_mode

definition vim_default :: "'ta \<Rightarrow> 'ta vim_state" where
  "vim_default ta = \<lparr> v_mode = Normal, v_count = None, v_area = ta \<rparr>"

definition build_textarea :: "'ta textarea \<Rightarrow> bool \<Rightarrow> 'ta" where
  "build_textarea T m = (if m then ta_mask T (ta_new T) else ta_new T)"

definition text_input_new :: "'ta textarea \<Rightarrow> string \<Rightarrow> 'ta text_input" where
  "text_input_new T lbl = \<lparr> fi_capturing = False, fi_mask = False, fi_label = lbl,
     fi_vim = vim_default (ta_new T), fi_editing = Emacs \<rparr>"

definition masked :: "'ta textarea \<Rightarrow> 'ta text_input \<Rightarrow> 'ta text_input" where
  "masked T t = t\<lparr> fi_mask := True, fi_vim := on_area (ta_mask T) (fi_vim t) \<rparr>"

definition field_config :: "editing_mode \<Rightarrow> 'ta text_input \<Rightarrow> 'ta text_input" where
  "field_config m t = t\<lparr> fi_editing := m \<rparr>"

definition field_focus :: "'ta textarea \<Rightarrow> 'ta text_input \<Rightarrow> 'ta text_input" where
  "field_focus T t = t\<lparr> fi_capturing := True, fi_vim := vim_default (ta_move T MvEnd (v_area (fi_vim t))) \<rparr>"

definition field_blur :: "'ta text_input \<Rightarrow> 'ta text_input" where
  "field_blur t = t\<lparr> fi_capturing := False \<rparr>"

definition field_value :: "'ta textarea \<Rightarrow> 'ta text_input \<Rightarrow> string" where
  "field_value T t = concat (ta_lines T (v_area (fi_vim t)))"

definition field_set_value :: "'ta textarea \<Rightarrow> string \<Rightarrow> 'ta text_input \<Rightarrow> 'ta text_input" where
  "field_set_value T s t = t\<lparr> fi_vim := vim_default (ta_insert_str T s (build_textarea T (fi_mask t))) \<rparr>"

definition field_reset :: "'ta textarea \<Rightarrow> 'ta text_input \<Rightarrow> 'ta text_input" where
  "field_reset T t = t\<lparr> fi_vim := vim_default (build_textarea T (fi_mask t)) \<rparr>"

definition field_key :: "'ta textarea \<Rightarrow> key_event \<Rightarrow> 'ta text_input \<Rightarrow> 'ta text_input" where
  "field_key T key t =
     (if \<not> fi_capturing t then t
      else case fi_editing t of
             Emacs \<Rightarrow> t\<lparr> fi_vim := on_area (ta_input T (to_input key)) (fi_vim t) \<rparr>
           | Vim \<Rightarrow> t\<lparr> fi_vim := on_key T (to_input key) (fi_vim t) \<rparr>)"

definition field_event :: "'ta textarea \<Rightarrow> tui_event \<Rightarrow> 'ta text_input \<Rightarrow> 'ta text_input" where
  "field_event T ev t = (case ev of
     EvKey k \<Rightarrow> field_key T k t
   | EvPaste s \<Rightarrow> (if fi_capturing t then t\<lparr> fi_vim := on_area (ta_insert_str T s) (fi_vim t) \<rparr> else t)
   | _ \<Rightarrow> t)"

definition field_consumes_escape :: "'ta text_input \<Rightarrow> bool" where
  "field_consumes_escape t \<longleftrightarrow> fi_editing t = Vim \<and> v_mode (fi_vim t) \<noteq> Normal"

definition field_editor_mode :: "'ta text_input \<Rightarrow> editor_mode option" where
  "field_editor_mode t =
     (if fi_editing t \<noteq> Vim \<or> \<not> fi_capturing t then None
      else Some (case v_mode (fi_vim t) of Normal \<Rightarrow> EmNormal | Insert \<Rightarrow> EmInsert | Visual \<Rightarrow> EmVisual
                 | Operator _ \<Rightarrow> EmOperatorPending))"

definition field_update :: "'ta textarea \<Rightarrow> app_action \<Rightarrow> 'ta text_input \<Rightarrow> 'ta text_input" where
  "field_update T a t = (case a of
     AcStartCapture \<Rightarrow> field_reset T (t\<lparr> fi_capturing := True \<rparr>)
   | AcStopCapture \<Rightarrow> t\<lparr> fi_capturing := False \<rparr>
   | _ \<Rightarrow> t)"

section \<open>Counts and operators\<close>

definition plain_input :: "nat \<Rightarrow> edit_input" where
  "plain_input c = \<lparr> ei_key = EkChar c, ei_ctrl = False, ei_alt = False, ei_shift = False \<rparr>"

definition digit_input :: "nat \<Rightarrow> edit_input" where
  "digit_input d = plain_input (48 + d)"

definition count_of :: "nat option \<Rightarrow> nat list \<Rightarrow> nat option" where
  "count_of c ds = (if ds = [] then c
     else Some (foldl (\<lambda>a d. (a * 10 + d) mod 2 ^ 64) (case c of Some k \<Rightarrow> k | None \<Rightarrow> 0) ds))"

lemma count_digit:
  assumes "v_mode v = Normal" and "d < 10" and "d \<noteq> 0 \<or> v_count v \<noteq> None"
  shows "on_key T (digit_input d) v = v\<lparr> v_count := count_of (v_count v) [d] \<rparr>"
  using assms
  by (simp add: on_key_def normal_key_def digit_input_def plain_input_def command_char_def counts_def
      is_ascii_digit_def add_digit_def count_of_def)

lemma count_digits:
  assumes "v_mode v = Normal" and "list_all (\<lambda>d. d < 10) ds" and "ds = [] \<or> hd ds \<noteq> 0 \<or> v_count v \<noteq> None"
  shows "fold (on_key T) (map digit_input ds) v = v\<lparr> v_count := count_of (v_count v) ds \<rparr>"
  using assms
proof (induction ds arbitrary: v)
  case (Cons d ds)
  have "on_key T (digit_input d) v = v\<lparr> v_count := count_of (v_count v) [d] \<rparr>"
    using Cons.prems by (intro count_digit) auto
  moreover have "fold (on_key T) (map digit_input ds) (v\<lparr> v_count := count_of (v_count v) [d] \<rparr>)
      = v\<lparr> v_count := count_of (count_of (v_count v) [d]) ds \<rparr>"
    using Cons.prems Cons.IH [of "v\<lparr> v_count := count_of (v_count v) [d] \<rparr>"] by (simp add: count_of_def)
  ultimately show ?case by (simp add: count_of_def)
qed (simp add: count_of_def)

definition vim_operators :: "nat set" where
  "vim_operators = {chr CHR ''d'', chr CHR ''c'', chr CHR ''y''}"

lemma word_motion_operator: "op \<in> vim_operators \<Longrightarrow> word_motion T n op = None"
  by (auto simp: vim_operators_def word_motion_def)

lemma operator_pressed:
  "v_mode v = Normal \<Longrightarrow> op \<in> vim_operators \<Longrightarrow>
     on_key T (plain_input op) v = v\<lparr> v_mode := Operator op, v_count := None \<rparr>"
  by (auto simp: on_key_def normal_key_def plain_input_def command_char_def counts_def is_ascii_digit_def
      normal_command_def word_motion_operator set_mode_def vim_operators_def word_motion_def)

lemma delete_pressed:
  "v_mode v = Normal \<Longrightarrow>
     on_key T (plain_input (chr CHR ''x'')) v
       = on_area ((ta_delete_next T) ^^ count_or_one (v_count v)) (v\<lparr> v_count := None \<rparr>)"
  by (simp add: on_key_def normal_key_def plain_input_def command_char_def counts_def is_ascii_digit_def
      normal_command_def word_motion_def)

text \<open>A count prefix works for an edit and is lost for an operator.  Typing a count and then
  \<open>x\<close> deletes that many characters, but the count typed before \<open>d\<close>, \<open>c\<close> or \<open>y\<close> is discarded when
  the operator is pressed: whatever key follows, the field ends up as if no count had been typed,
  so \<open>2dw\<close> is \<open>dw\<close>.\<close>

lemma operator_drops_count:
  assumes "v_mode v = Normal" and "v_count v = None"
    and "ds \<noteq> []" and "hd ds \<noteq> 0" and "list_all (\<lambda>d. d < 10) ds" and "op \<in> vim_operators"
  shows "fold (on_key T) (map digit_input ds @ [plain_input op, motion]) v
           = fold (on_key T) [plain_input op, motion] v
     \<and> fold (on_key T) (map digit_input ds @ [plain_input (chr CHR ''x'')]) v
           = on_area ((ta_delete_next T) ^^ foldl (\<lambda>a d. (a * 10 + d) mod 2 ^ 64) 0 ds) v"
proof -
  let ?n = "foldl (\<lambda>a d. (a * 10 + d) mod 2 ^ 64) 0 ds"
  have digits: "fold (on_key T) (map digit_input ds) v = v\<lparr> v_count := Some ?n \<rparr>"
    using assms count_digits [of v ds T] by (simp add: count_of_def)
  moreover have "v\<lparr> v_count := None \<rparr> = v" using assms(2) by (cases v) simp
  ultimately show ?thesis using assms(1,6)
    by (simp add: operator_pressed delete_pressed [simplified] count_or_one_def)
qed

section \<open>Escape\<close>

lemma escape_to_normal:
  "fi_capturing t \<Longrightarrow> field_consumes_escape t \<Longrightarrow> k_code k = KEsc \<Longrightarrow>
     \<not> field_consumes_escape (field_key T k t)"
  by (auto simp: field_consumes_escape_def field_key_def on_key_def insert_key_def visual_key_def operator_key_def
      to_input_def set_mode_def split: vim_mode.splits)

lemma escape_swallowed:
  "\<not> fi_capturing t \<Longrightarrow> field_key T k t = t"
  by (simp add: field_key_def)

end
