(* ===== verification/Forms.thy ===== *)
theory Forms
  imports TextInput
begin

text \<open>
  The forms that live inside a modal (\<open>src/todoers/src/components/login.rs\<close>, \<open>register.rs\<close>,
  \<open>unlock.rs\<close>, \<open>list_form.rs\<close>, \<open>share_form.rs\<close>, \<open>todo_form.rs\<close>) and the members dialog
  (\<open>members.rs\<close>).  An operation returns the new form, the action it returns to the modal, and the
  actions it sends on the app's channel (every form is registered with the channel before it is
  shown, so \<open>command_tx\<close> is always there).
\<close>

type_synonym 'f outcome = "'f \<times> app_action option \<times> app_action list"

abbreviation quiet :: "'f \<Rightarrow> 'f outcome" where "quiet f \<equiv> (f, None, [])"

section \<open>Forms with several text fields\<close>

record 'ta fields_form =
  ff_fields :: "'ta text_input list"
  ff_focused :: nat
  ff_error :: "string option"
  ff_busy :: bool
  ff_keys :: form_keys

definition fields_form :: "'ta text_input list \<Rightarrow> 'ta fields_form" where
  "fields_form fs = \<lparr> ff_fields = fs, ff_focused = 0, ff_error = None, ff_busy = False,
     ff_keys = form_keys_default \<rparr>"

definition on_field :: "nat \<Rightarrow> ('a \<Rightarrow> 'a) \<Rightarrow> 'a list \<Rightarrow> 'a list" where
  "on_field i f xs = (if i < length xs then xs[i := f (xs ! i)] else xs)"

definition focus_first :: "'ta textarea \<Rightarrow> 'ta text_input list \<Rightarrow> 'ta text_input list" where
  "focus_first T fs = (case fs of [] \<Rightarrow> [] | f # r \<Rightarrow> field_focus T f # map field_blur r)"

definition set_focus :: "'ta textarea \<Rightarrow> nat \<Rightarrow> 'ta fields_form \<Rightarrow> 'ta fields_form" where
  "set_focus T idx f = f\<lparr>
     ff_fields := on_field idx (field_focus T) (on_field (ff_focused f) field_blur (ff_fields f)),
     ff_focused := idx, ff_error := None \<rparr>"

definition focus_next :: "'ta textarea \<Rightarrow> 'ta fields_form \<Rightarrow> 'ta fields_form" where
  "focus_next T f = set_focus T ((ff_focused f + 1) mod length (ff_fields f)) f"

definition focus_prev :: "'ta textarea \<Rightarrow> 'ta fields_form \<Rightarrow> 'ta fields_form" where
  "focus_prev T f =
     set_focus T ((ff_focused f + length (ff_fields f) - 1) mod length (ff_fields f)) f"

definition form_reset :: "'ta textarea \<Rightarrow> 'ta fields_form \<Rightarrow> 'ta fields_form" where
  "form_reset T f = f\<lparr> ff_focused := 0, ff_fields := focus_first T (ff_fields f),
     ff_error := None, ff_busy := False \<rparr>"

definition form_configure :: "key_bindings \<Rightarrow> editing_mode \<Rightarrow> 'ta fields_form \<Rightarrow> 'ta fields_form" where
  "form_configure kb m f = f\<lparr> ff_fields := map (field_config m) (ff_fields f),
     ff_keys := form_keys_configure kb (ff_keys f) \<rparr>"

definition form_key :: "nat \<Rightarrow> 'ta textarea \<Rightarrow> key_event \<Rightarrow> 'ta fields_form \<Rightarrow> 'ta fields_form outcome" where
  "form_key final T key f =
     (case classify key (ff_keys f) of (a, ks) \<Rightarrow>
        (let f = f\<lparr> ff_keys := ks \<rparr> in case a of
           FNext \<Rightarrow> quiet (focus_next T f)
         | FPrev \<Rightarrow> quiet (focus_prev T f)
         | FSubmit \<Rightarrow> (if ff_focused f < final then quiet (focus_next T f) else (f, Some AcFocusButtons, []))
         | PassToField \<Rightarrow> quiet (f\<lparr> ff_fields := on_field (ff_focused f) (field_key T key) (ff_fields f) \<rparr>)))"

definition form_event :: "nat \<Rightarrow> 'ta textarea \<Rightarrow> tui_event \<Rightarrow> 'ta fields_form \<Rightarrow> 'ta fields_form outcome" where
  "form_event final T ev f = (case ev of
     EvPaste _ \<Rightarrow> quiet (f\<lparr> ff_fields := on_field (ff_focused f) (field_event T ev) (ff_fields f) \<rparr>)
   | EvKey k \<Rightarrow> form_key final T k f
   | _ \<Rightarrow> quiet f)"

definition form_update ::
    "('ta fields_form \<Rightarrow> 'ta fields_form outcome) \<Rightarrow> 'ta textarea \<Rightarrow> app_action \<Rightarrow> 'ta fields_form \<Rightarrow> 'ta fields_form outcome" where
  "form_update submit T a f = (case a of
     AcStartCapture \<Rightarrow> quiet (form_reset T f)
   | AcStopCapture \<Rightarrow> quiet (f\<lparr> ff_fields := map field_blur (ff_fields f) \<rparr>)
   | AcSubmitForm \<Rightarrow> submit f
   | AcError msg \<Rightarrow> quiet (f\<lparr> ff_error := Some msg, ff_busy := False \<rparr>)
   | _ \<Rightarrow> quiet (f\<lparr> ff_fields := map (field_update T a) (ff_fields f) \<rparr>))"

definition form_value :: "'ta textarea \<Rightarrow> nat \<Rightarrow> 'ta fields_form \<Rightarrow> string" where
  "form_value T i f = field_value T (ff_fields f ! i)"

definition form_consumes_escape :: "'ta fields_form \<Rightarrow> bool" where
  "form_consumes_escape f = field_consumes_escape (ff_fields f ! ff_focused f)"

definition form_editor_mode :: "'ta fields_form \<Rightarrow> editor_mode option" where
  "form_editor_mode f = field_editor_mode (ff_fields f ! ff_focused f)"

definition fail_with :: "string \<Rightarrow> 'ta fields_form \<Rightarrow> 'ta fields_form outcome" where
  "fail_with e f = quiet (f\<lparr> ff_error := Some e \<rparr>)"

subsection \<open>Login and registration\<close>

definition login_new :: "'ta textarea \<Rightarrow> 'ta fields_form" where
  "login_new T = fields_form [text_input_new T ''Username'', masked T (text_input_new T ''Password'')]"

definition login_submit :: "'ta textarea \<Rightarrow> 'ta fields_form \<Rightarrow> 'ta fields_form outcome" where
  "login_submit T f =
     (let username = trim (form_value T 0 f); password = form_value T 1 f
      in if username = [] then fail_with ''Username is required'' f
         else if password = [] then fail_with ''Password is required'' f
         else (f\<lparr> ff_error := None, ff_busy := True \<rparr>, None, [AcLogin username password]))"

definition login_key :: "'ta textarea \<Rightarrow> key_event \<Rightarrow> 'ta fields_form \<Rightarrow> 'ta fields_form outcome" where
  "login_key = form_key 1"

definition login_event :: "'ta textarea \<Rightarrow> tui_event \<Rightarrow> 'ta fields_form \<Rightarrow> 'ta fields_form outcome" where
  "login_event = form_event 1"

definition login_update :: "'ta textarea \<Rightarrow> app_action \<Rightarrow> 'ta fields_form \<Rightarrow> 'ta fields_form outcome" where
  "login_update T = form_update (login_submit T) T"

definition register_new :: "'ta textarea \<Rightarrow> 'ta fields_form" where
  "register_new T = fields_form [text_input_new T ''Username'', masked T (text_input_new T ''Password''),
     masked T (text_input_new T ''Repeat Password'')]"

definition register_submit :: "'ta textarea \<Rightarrow> 'ta fields_form \<Rightarrow> 'ta fields_form outcome" where
  "register_submit T f =
     (let username = trim (form_value T 0 f); password = form_value T 1 f; confirm = form_value T 2 f
      in if username = [] then fail_with ''Username is required'' f
         else if password = [] then fail_with ''Password is required'' f
         else if password \<noteq> confirm then fail_with ''Passwords do not match'' f
         else (f\<lparr> ff_error := None, ff_busy := True \<rparr>, None, [AcRegister username password]))"

definition register_key :: "'ta textarea \<Rightarrow> key_event \<Rightarrow> 'ta fields_form \<Rightarrow> 'ta fields_form outcome" where
  "register_key = form_key 2"

definition register_event :: "'ta textarea \<Rightarrow> tui_event \<Rightarrow> 'ta fields_form \<Rightarrow> 'ta fields_form outcome" where
  "register_event = form_event 2"

definition register_update :: "'ta textarea \<Rightarrow> app_action \<Rightarrow> 'ta fields_form \<Rightarrow> 'ta fields_form outcome" where
  "register_update T = form_update (register_submit T) T"

section \<open>Forms with one field\<close>

datatype list_op = OpCreate | OpRename list_id

record 'ta single_form =
  sf_field :: "'ta text_input"
  sf_error :: "string option"
  sf_keys :: form_keys

definition single_form :: "'ta text_input \<Rightarrow> 'ta single_form" where
  "single_form t = \<lparr> sf_field = t, sf_error = None, sf_keys = form_keys_default \<rparr>"

definition single_configure :: "key_bindings \<Rightarrow> editing_mode \<Rightarrow> 'ta single_form \<Rightarrow> 'ta single_form" where
  "single_configure kb m f = f\<lparr> sf_field := field_config m (sf_field f),
     sf_keys := form_keys_configure kb (sf_keys f) \<rparr>"

definition single_key :: "'ta textarea \<Rightarrow> key_event \<Rightarrow> 'ta single_form \<Rightarrow> 'ta single_form outcome" where
  "single_key T key f =
     (case classify key (sf_keys f) of (a, ks) \<Rightarrow>
        (let f = f\<lparr> sf_keys := ks \<rparr> in case a of
           FNext \<Rightarrow> quiet f
         | FPrev \<Rightarrow> quiet f
         | FSubmit \<Rightarrow> (f, Some AcFocusButtons, [])
         | PassToField \<Rightarrow> quiet (f\<lparr> sf_field := field_key T key (sf_field f) \<rparr>)))"

definition single_event :: "'ta textarea \<Rightarrow> tui_event \<Rightarrow> 'ta single_form \<Rightarrow> 'ta single_form outcome" where
  "single_event T ev f = (case ev of
     EvPaste _ \<Rightarrow> quiet (f\<lparr> sf_field := field_event T ev (sf_field f) \<rparr>)
   | EvKey k \<Rightarrow> single_key T k f
   | _ \<Rightarrow> quiet f)"

definition single_update ::
    "('ta single_form \<Rightarrow> 'ta single_form outcome) \<Rightarrow> 'ta textarea \<Rightarrow> app_action \<Rightarrow> 'ta single_form \<Rightarrow> 'ta single_form outcome" where
  "single_update submit T a f = (case a of
     AcStartCapture \<Rightarrow> quiet (f\<lparr> sf_field := field_focus T (sf_field f) \<rparr>)
   | AcStopCapture \<Rightarrow> quiet (f\<lparr> sf_field := field_blur (sf_field f) \<rparr>)
   | AcSubmitForm \<Rightarrow> submit f
   | AcError msg \<Rightarrow> quiet (f\<lparr> sf_error := Some msg \<rparr>)
   | _ \<Rightarrow> quiet (f\<lparr> sf_field := field_update T a (sf_field f) \<rparr>))"

definition list_form_create :: "'ta textarea \<Rightarrow> 'ta single_form" where
  "list_form_create T = single_form (text_input_new T ''List name'')"

definition list_form_rename :: "'ta textarea \<Rightarrow> string \<Rightarrow> 'ta single_form" where
  "list_form_rename T current = single_form (field_set_value T current (text_input_new T ''List name''))"

definition list_form_submit :: "'ta textarea \<Rightarrow> list_op \<Rightarrow> 'ta single_form \<Rightarrow> 'ta single_form outcome" where
  "list_form_submit T op f =
     (let name = trim (field_value T (sf_field f))
      in if name = [] then quiet (f\<lparr> sf_error := Some ''Name is required'' \<rparr>)
         else (f\<lparr> sf_error := None \<rparr>, None,
               [case op of OpCreate \<Rightarrow> AcCreateList name | OpRename l \<Rightarrow> AcRenameList l name]))"

definition share_form_new :: "'ta textarea \<Rightarrow> 'ta single_form" where
  "share_form_new T = single_form (text_input_new T ''Username to share with'')"

definition share_form_submit :: "'ta textarea \<Rightarrow> list_id \<Rightarrow> 'ta single_form \<Rightarrow> 'ta single_form outcome" where
  "share_form_submit T l f =
     (let username = trim (field_value T (sf_field f))
      in if username = [] then quiet (f\<lparr> sf_error := Some ''Username is required'' \<rparr>)
         else (f\<lparr> sf_error := None \<rparr>, None, [AcShareList l username]))"

section \<open>The unlock form\<close>

record 'ta unlock_form =
  uf_password :: "'ta text_input"
  uf_error :: "string option"
  uf_busy :: bool
  uf_focused :: bool
  uf_keys :: form_keys

definition unlock_new :: "'ta textarea \<Rightarrow> 'ta unlock_form" where
  "unlock_new T = \<lparr> uf_password = masked T (text_input_new T ''Password''), uf_error = None,
     uf_busy = False, uf_focused = False, uf_keys = form_keys_default \<rparr>"

definition unlock_configure :: "key_bindings \<Rightarrow> editing_mode \<Rightarrow> 'ta unlock_form \<Rightarrow> 'ta unlock_form" where
  "unlock_configure kb m f = f\<lparr> uf_password := field_config m (uf_password f),
     uf_keys := form_keys_configure kb (uf_keys f) \<rparr>"

definition unlock_set_focus :: "'ta textarea \<Rightarrow> 'ta unlock_form \<Rightarrow> 'ta unlock_form" where
  "unlock_set_focus T f = f\<lparr> uf_password := field_focus T (uf_password f), uf_focused := True, uf_error := None \<rparr>"

definition unlock_reset :: "'ta textarea \<Rightarrow> 'ta unlock_form \<Rightarrow> 'ta unlock_form" where
  "unlock_reset T f = (unlock_set_focus T f)\<lparr> uf_focused := True, uf_error := None, uf_busy := False \<rparr>"

definition unlock_submit :: "'ta textarea \<Rightarrow> 'ta unlock_form \<Rightarrow> 'ta unlock_form outcome" where
  "unlock_submit T f =
     (let password = field_value T (uf_password f)
      in if password = [] then quiet (f\<lparr> uf_error := Some ''Password is required'' \<rparr>)
         else (f\<lparr> uf_focused := False, uf_error := None, uf_busy := True \<rparr>, None, [AcUnlock password]))"

definition unlock_key :: "'ta textarea \<Rightarrow> key_event \<Rightarrow> 'ta unlock_form \<Rightarrow> 'ta unlock_form outcome" where
  "unlock_key T key f =
     (case classify key (uf_keys f) of (a, ks) \<Rightarrow>
        (let f = f\<lparr> uf_keys := ks \<rparr> in case a of
           FNext \<Rightarrow> quiet (unlock_set_focus T f)
         | FPrev \<Rightarrow> quiet (unlock_set_focus T f)
         | FSubmit \<Rightarrow> (if \<not> uf_focused f then quiet (unlock_set_focus T f) else (f, Some AcFocusButtons, []))
         | PassToField \<Rightarrow> quiet (f\<lparr> uf_password := field_key T key (uf_password f) \<rparr>)))"

definition unlock_event :: "'ta textarea \<Rightarrow> tui_event \<Rightarrow> 'ta unlock_form \<Rightarrow> 'ta unlock_form outcome" where
  "unlock_event T ev f = (case ev of
     EvPaste _ \<Rightarrow> quiet (f\<lparr> uf_password := field_event T ev (uf_password f) \<rparr>)
   | EvKey k \<Rightarrow> unlock_key T k f
   | _ \<Rightarrow> quiet f)"

definition unlock_update :: "'ta textarea \<Rightarrow> app_action \<Rightarrow> 'ta unlock_form \<Rightarrow> 'ta unlock_form outcome" where
  "unlock_update T a f = (case a of
     AcStartCapture \<Rightarrow> quiet (unlock_reset T f)
   | AcStopCapture \<Rightarrow> quiet (f\<lparr> uf_password := field_blur (uf_password f) \<rparr>)
   | AcSubmitForm \<Rightarrow> unlock_submit T f
   | AcError msg \<Rightarrow> quiet (f\<lparr> uf_error := Some msg, uf_busy := False \<rparr>)
   | _ \<Rightarrow> quiet (f\<lparr> uf_password := field_update T a (uf_password f) \<rparr>))"

section \<open>One capturing field\<close>

definition fields_wf :: "'ta text_input list \<Rightarrow> nat \<Rightarrow> bool" where
  "fields_wf fs i \<longleftrightarrow> (\<forall>j<length fs. fi_capturing (fs ! j) \<longrightarrow> j = i)"

lemma capturing_simps [simp]:
  "fi_capturing (field_key T k t) = fi_capturing t" "fi_capturing (field_event T ev t) = fi_capturing t"
  "fi_capturing (field_focus T t)" "\<not> fi_capturing (field_blur t)"
  "fi_capturing (field_config m t) = fi_capturing t" "fi_capturing (masked T t) = fi_capturing t"
  "fi_capturing (field_set_value T s t) = fi_capturing t" "\<not> fi_capturing (text_input_new T l)"
  by (auto simp: field_key_def field_event_def field_focus_def field_blur_def field_config_def masked_def
      field_set_value_def text_input_new_def split: editing_mode.split tui_event.split)

lemma field_update_capturing:
  "a \<noteq> AcStartCapture \<Longrightarrow> a \<noteq> AcStopCapture \<Longrightarrow> field_update T a t = t"
  by (simp add: field_update_def split: app_action.split)

lemma length_on_field [simp]: "length (on_field i f xs) = length xs"
  by (simp add: on_field_def)

lemma nth_on_field: "j < length xs \<Longrightarrow> on_field i f xs ! j = (if j = i then f (xs ! j) else xs ! j)"
  by (auto simp: on_field_def)

lemma fields_wf_move:
  "fields_wf fs i \<Longrightarrow> fields_wf (on_field j (field_focus T) (on_field i field_blur fs)) j"
  by (auto simp: fields_wf_def nth_on_field split: if_splits)

lemma fields_wf_keep:
  "fields_wf fs i \<Longrightarrow> (\<And>t. fi_capturing (f t) = fi_capturing t) \<Longrightarrow> fields_wf (on_field j f fs) i"
  by (auto simp: fields_wf_def nth_on_field split: if_splits)

lemma fields_wf_blur: "fields_wf (map field_blur fs) i"
  by (simp add: fields_wf_def)

lemma fields_wf_first: "fields_wf (focus_first T fs) 0"
  by (auto simp: fields_wf_def focus_first_def nth_Cons split: list.split nat.split)

lemma length_focus_first [simp]: "length (focus_first T fs) = length fs"
  by (simp add: focus_first_def split: list.split)

lemma fields_wf_update:
  "fields_wf fs i \<Longrightarrow> a \<noteq> AcStartCapture \<Longrightarrow> a \<noteq> AcStopCapture \<Longrightarrow> fields_wf (map (field_update T a) fs) i"
  by (simp add: field_update_capturing fields_wf_def)

lemma fields_wf_config: "fields_wf fs i \<Longrightarrow> fields_wf (map (field_config m) fs) i"
  by (simp add: fields_wf_def)

definition form_wf :: "nat \<Rightarrow> 'ta fields_form \<Rightarrow> bool" where
  "form_wf n f \<longleftrightarrow> length (ff_fields f) = n \<and> ff_focused f < n \<and> fields_wf (ff_fields f) (ff_focused f)"

lemma set_focus_wf: "form_wf n f \<Longrightarrow> i < n \<Longrightarrow> form_wf n (set_focus T i f)"
  by (simp add: form_wf_def set_focus_def fields_wf_move)

lemma focus_moves_wf: "form_wf n f \<Longrightarrow> form_wf n (focus_next T f)" "form_wf n f \<Longrightarrow> form_wf n (focus_prev T f)"
  by (auto simp: focus_next_def focus_prev_def form_wf_def intro!: set_focus_wf [unfolded form_wf_def] mod_less_divisor)

lemma form_key_wf: "form_wf n f \<Longrightarrow> form_wf n (fst (form_key final T k f))"
proof -
  assume f: "form_wf n f"
  have "form_wf n (f\<lparr> ff_keys := ks \<rparr>)" for ks using f by (simp add: form_wf_def)
  moreover have "form_wf n (f\<lparr> ff_keys := ks, ff_fields := on_field i (field_key T k) (ff_fields f) \<rparr>)" for ks i
    using f by (simp add: form_wf_def fields_wf_keep)
  ultimately show ?thesis
    by (simp add: form_key_def Let_def focus_moves_wf split: prod.split form_action.split)
qed

lemma form_event_wf: "form_wf n f \<Longrightarrow> form_wf n (fst (form_event final T ev f))"
  by (simp add: form_event_def form_key_wf split: tui_event.split) (simp add: form_wf_def fields_wf_keep)

lemma form_update_wf:
  assumes "form_wf n f" and "form_wf n (fst (submit f))"
  shows "form_wf n (fst (form_update submit T a f))"
proof (cases "a = AcStartCapture \<or> a = AcStopCapture")
  case True
  then show ?thesis using assms(1)
    by (auto simp: form_update_def form_reset_def form_wf_def fields_wf_first fields_wf_blur)
next
  case False
  then have "form_wf n (f\<lparr> ff_fields := map (field_update T a) (ff_fields f) \<rparr>)"
    using assms(1) by (simp add: form_wf_def fields_wf_update)
  then show ?thesis using assms False
    by (cases a) (simp_all add: form_update_def form_wf_def)
qed

lemma submit_wf:
  "form_wf n f \<Longrightarrow> form_wf n (fst (login_submit T f))" "form_wf n f \<Longrightarrow> form_wf n (fst (register_submit T f))"
  by (simp_all add: login_submit_def register_submit_def fail_with_def Let_def form_wf_def)

lemma login_wf:
  "form_wf 2 (login_new T)" "form_wf 2 f \<Longrightarrow> form_wf 2 (fst (login_event T ev f))"
  "form_wf 2 f \<Longrightarrow> form_wf 2 (fst (login_update T a f))" "form_wf 2 f \<Longrightarrow> form_wf 2 (form_configure kb m f)"
  by (auto simp: login_event_def login_update_def form_event_wf form_update_wf submit_wf)
    (auto simp: form_wf_def login_new_def fields_form_def fields_wf_def nth_Cons form_configure_def split: nat.split)

lemma register_wf:
  "form_wf 3 (register_new T)" "form_wf 3 f \<Longrightarrow> form_wf 3 (fst (register_event T ev f))"
  "form_wf 3 f \<Longrightarrow> form_wf 3 (fst (register_update T a f))" "form_wf 3 f \<Longrightarrow> form_wf 3 (form_configure kb m f)"
  by (auto simp: register_event_def register_update_def form_event_wf form_update_wf submit_wf)
    (auto simp: form_wf_def register_new_def fields_form_def fields_wf_def nth_Cons form_configure_def split: nat.split)

interpretation login_ring: ring_selector ff_focused 2 "focus_next T" "focus_prev T" "form_wf 2" for T :: "'a textarea"
proof
  fix s :: "'a fields_form" assume s: "form_wf 2 s"
  then show "ff_focused s < 2" by (simp add: form_wf_def)
  show "form_wf 2 (focus_next T s)" "form_wf 2 (focus_prev T s)" using s by (rule focus_moves_wf)+
  show "ff_focused (focus_next T s) = (ff_focused s + 1) mod 2" "ff_focused (focus_prev T s) = (ff_focused s + 2 - 1) mod 2"
    using s by (simp_all add: form_wf_def focus_next_def focus_prev_def set_focus_def)
qed

interpretation register_ring: ring_selector ff_focused 3 "focus_next T" "focus_prev T" "form_wf 3" for T :: "'a textarea"
proof
  fix s :: "'a fields_form" assume s: "form_wf 3 s"
  then show "ff_focused s < 3" by (simp add: form_wf_def)
  show "form_wf 3 (focus_next T s)" "form_wf 3 (focus_prev T s)" using s by (rule focus_moves_wf)+
  show "ff_focused (focus_next T s) = (ff_focused s + 1) mod 3" "ff_focused (focus_prev T s) = (ff_focused s + 3 - 1) mod 3"
    using s by (simp_all add: form_wf_def focus_next_def focus_prev_def set_focus_def)
qed

end
