(* ===== verification/TodoForm.thy ===== *)
theory TodoForm
  imports Forms
begin

text \<open>
  The add/edit form of a todo item (\<open>src/todoers/src/components/todo_form.rs\<close>): three text fields, the
  due-date calendar and the priority list, and the members dialog (\<open>members.rs\<close>).  A \<open>Date\<close> is its
  day number, as in the \<open>Model\<close> theory; the calendar of the \<open>time\<close> crate is a parameter.
\<close>

section \<open>Dates\<close>

record date_ops =
  dt_calendar :: calendar
  dt_from_calendar_date :: "int \<Rightarrow> int \<Rightarrow> int \<Rightarrow> int option"
  dt_min :: int
  dt_max :: int

text \<open>\<open>Date::saturating_add\<close> of whole days.\<close>

definition date_saturating_add :: "date_ops \<Rightarrow> int \<Rightarrow> int \<Rightarrow> int" where
  "date_saturating_add D d n = max (dt_min D) (min (dt_max D) (d + n))"

datatype cal_move = PrevDay | NextDay | PrevWeek | NextWeek | PrevMonth | NextMonth

definition shift_month :: "date_ops \<Rightarrow> int \<Rightarrow> int \<Rightarrow> int" where
  "shift_month D date delta =
     (let (y, m) = cal_year_month (dt_calendar D) date;
          total = y * 12 + (m - 1) + delta;
          year = total div 12;
          month = total mod 12 + 1;
          day = min (cal_mday (dt_calendar D) date) (cal_days_in_month (dt_calendar D) (year, month))
      in case dt_from_calendar_date D year month day of Some d \<Rightarrow> d | None \<Rightarrow> date)"

fun move_cursor :: "date_ops \<Rightarrow> cal_move \<Rightarrow> int \<Rightarrow> int" where
  "move_cursor D PrevDay d = date_saturating_add D d (- 1)"
| "move_cursor D NextDay d = date_saturating_add D d 1"
| "move_cursor D PrevWeek d = date_saturating_add D d (- 7)"
| "move_cursor D NextWeek d = date_saturating_add D d 7"
| "move_cursor D PrevMonth d = shift_month D d (- 1)"
| "move_cursor D NextMonth d = shift_month D d 1"

section \<open>The form\<close>

definition DUE :: nat where "DUE = 3"
definition PRIORITY :: nat where "PRIORITY = 4"
definition FIELD_COUNT :: nat where "FIELD_COUNT = 5"

record 'ta todo_form =
  tf_list_id :: list_id
  tf_item_id :: "string option"
  tf_fields :: "'ta text_input list"
  tf_due_cursor :: int
  tf_due_enabled :: bool
  tf_priority :: priority
  tf_focused :: nat
  tf_error :: "string option"
  tf_keys :: form_keys

definition todo_form_blank :: "'ta textarea \<Rightarrow> int \<Rightarrow> list_id \<Rightarrow> string option \<Rightarrow> 'ta todo_form" where
  "todo_form_blank T today l item = \<lparr> tf_list_id = l, tf_item_id = item,
     tf_fields = [text_input_new T ''Title'', text_input_new T ''Notes'', text_input_new T ''Tags (comma-separated)''],
     tf_due_cursor = today, tf_due_enabled = False, tf_priority = PNone, tf_focused = 0,
     tf_error = None, tf_keys = form_keys_default \<rparr>"

definition todo_form_add :: "'ta textarea \<Rightarrow> int \<Rightarrow> list_id \<Rightarrow> 'ta todo_form" where
  "todo_form_add T today l = todo_form_blank T today l None"

definition todo_form_edit :: "'ta textarea \<Rightarrow> int \<Rightarrow> list_id \<Rightarrow> todo_item \<Rightarrow> 'ta todo_form" where
  "todo_form_edit T today l item =
     (let form = todo_form_blank T today l (Some (ti_id item));
          fs = tf_fields form;
          fs = [field_set_value T (ti_title item) (fs ! 0), field_set_value T (ti_notes item) (fs ! 1),
                field_set_value T (join_with '', '' (ti_tags item)) (fs ! 2)]
      in form\<lparr> tf_fields := fs,
               tf_due_cursor := (case ti_due item of Some due \<Rightarrow> odt_day due | None \<Rightarrow> tf_due_cursor form),
               tf_due_enabled := ti_due item \<noteq> None,
               tf_priority := ti_priority item \<rparr>)"

definition todo_set_focus :: "'ta textarea \<Rightarrow> nat \<Rightarrow> 'ta todo_form \<Rightarrow> 'ta todo_form" where
  "todo_set_focus T idx f = f\<lparr>
     tf_fields := on_field idx (field_focus T) (on_field (tf_focused f) field_blur (tf_fields f)),
     tf_focused := idx, tf_error := None \<rparr>"

definition todo_focus_next :: "'ta textarea \<Rightarrow> 'ta todo_form \<Rightarrow> 'ta todo_form" where
  "todo_focus_next T f = todo_set_focus T ((tf_focused f + 1) mod FIELD_COUNT) f"

definition todo_focus_prev :: "'ta textarea \<Rightarrow> 'ta todo_form \<Rightarrow> 'ta todo_form" where
  "todo_focus_prev T f = todo_set_focus T ((tf_focused f + FIELD_COUNT - 1) mod FIELD_COUNT) f"

definition todo_reset :: "'ta textarea \<Rightarrow> 'ta todo_form \<Rightarrow> 'ta todo_form" where
  "todo_reset T f = f\<lparr> tf_focused := 0, tf_fields := focus_first T (tf_fields f), tf_error := None \<rparr>"

definition todo_configure :: "key_bindings \<Rightarrow> editing_mode \<Rightarrow> 'ta todo_form \<Rightarrow> 'ta todo_form" where
  "todo_configure kb m f = f\<lparr> tf_fields := map (field_config m) (tf_fields f),
     tf_keys := form_keys_configure kb (tf_keys f) \<rparr>"

definition tags_of_text :: "string \<Rightarrow> string list" where
  "tags_of_text s = filter (\<lambda>t. t \<noteq> []) (map trim (split_on CHR '','' s))"

definition midnight_utc :: "int \<Rightarrow> odt" where
  "midnight_utc d = \<lparr> odt_day = d, odt_nanos = 0, odt_off = 0 \<rparr>"

definition todo_submit :: "'ta textarea \<Rightarrow> 'ta todo_form \<Rightarrow> 'ta todo_form outcome" where
  "todo_submit T f =
     (let title = trim (field_value T (tf_fields f ! 0))
      in if title = [] then quiet (f\<lparr> tf_error := Some ''Title is required'' \<rparr>)
         else (let input = \<lparr> in_title = title,
                     in_notes = trim (field_value T (tf_fields f ! 1)),
                     in_due = (if tf_due_enabled f then Some (midnight_utc (tf_due_cursor f)) else None),
                     in_priority = tf_priority f,
                     in_tags = tags_of_text (field_value T (tf_fields f ! 2)) \<rparr>
               in (f\<lparr> tf_error := None \<rparr>, None, [AcSaveTodo (tf_list_id f) (tf_item_id f) input])))"

definition todo_resolve :: "key_event \<Rightarrow> 'ta todo_form \<Rightarrow> form_cmd option \<times> 'ta todo_form" where
  "todo_resolve key f = (case form_keys_resolve key (tf_keys f) of (r, ks) \<Rightarrow> (r, f\<lparr> tf_keys := ks \<rparr>))"

definition todo_due_key :: "'ta textarea \<Rightarrow> date_ops \<Rightarrow> key_event \<Rightarrow> 'ta todo_form \<Rightarrow> 'ta todo_form outcome" where
  "todo_due_key T D key f =
     (let mv = (\<lambda>m. quiet (f\<lparr> tf_due_cursor := move_cursor D m (tf_due_cursor f) \<rparr>))
      in case k_code key of
           KLeft \<Rightarrow> mv PrevDay
         | KRight \<Rightarrow> mv NextDay
         | KUp \<Rightarrow> mv PrevWeek
         | KDown \<Rightarrow> mv NextWeek
         | KPageUp \<Rightarrow> mv PrevMonth
         | KPageDown \<Rightarrow> mv NextMonth
         | KEsc \<Rightarrow> quiet f
         | _ \<Rightarrow>
             if k_code key = KChar 32 then quiet (f\<lparr> tf_due_enabled := \<not> tf_due_enabled f \<rparr>)
             else (case todo_resolve key f of
                     (Some FieldNext, f) \<Rightarrow> quiet (todo_focus_next T f)
                   | (Some FieldPrev, f) \<Rightarrow> quiet (todo_focus_prev T f)
                   | (Some Submit, f) \<Rightarrow> (f, Some AcFocusButtons, [])
                   | (_, f) \<Rightarrow> quiet f))"

definition todo_priority_key :: "'ta textarea \<Rightarrow> key_event \<Rightarrow> 'ta todo_form \<Rightarrow> 'ta todo_form outcome" where
  "todo_priority_key T key f =
     (if k_code key = KEsc then quiet f
      else case todo_resolve key f of
             (Some FieldNext, f) \<Rightarrow> quiet (todo_focus_next T f)
           | (Some FieldPrev, f) \<Rightarrow> quiet (todo_focus_prev T f)
           | (Some Submit, f) \<Rightarrow> (f, Some AcFocusButtons, [])
           | (Some CyclePriorityNext, f) \<Rightarrow> quiet (f\<lparr> tf_priority := priority_next (tf_priority f) \<rparr>)
           | (Some CyclePriorityPrev, f) \<Rightarrow> quiet (f\<lparr> tf_priority := priority_prev (tf_priority f) \<rparr>)
           | (None, f) \<Rightarrow> quiet f)"

definition todo_type :: "'ta textarea \<Rightarrow> key_event \<Rightarrow> 'ta todo_form \<Rightarrow> 'ta todo_form outcome" where
  "todo_type T key f = quiet (f\<lparr> tf_fields := on_field (tf_focused f) (field_key T key) (tf_fields f) \<rparr>)"

definition todo_key :: "'ta textarea \<Rightarrow> date_ops \<Rightarrow> key_event \<Rightarrow> 'ta todo_form \<Rightarrow> 'ta todo_form outcome" where
  "todo_key T D key f =
     (if tf_focused f = DUE then todo_due_key T D key f
      else if tf_focused f = PRIORITY then todo_priority_key T key f
      else if k_code key = KEsc then todo_type T key f
      else case todo_resolve key f of
             (Some FieldNext, f) \<Rightarrow> quiet (todo_focus_next T f)
           | (Some Submit, f) \<Rightarrow> quiet (todo_focus_next T f)
           | (Some FieldPrev, f) \<Rightarrow> quiet (todo_focus_prev T f)
           | (_, f) \<Rightarrow> todo_type T key f)"

definition todo_event :: "'ta textarea \<Rightarrow> date_ops \<Rightarrow> tui_event \<Rightarrow> 'ta todo_form \<Rightarrow> 'ta todo_form outcome" where
  "todo_event T D ev f = (case ev of
     EvPaste _ \<Rightarrow> quiet (f\<lparr> tf_fields := on_field (tf_focused f) (field_event T ev) (tf_fields f) \<rparr>)
   | EvKey k \<Rightarrow> todo_key T D k f
   | _ \<Rightarrow> quiet f)"

definition todo_consumes_escape :: "'ta todo_form \<Rightarrow> bool" where
  "todo_consumes_escape f \<longleftrightarrow>
     tf_focused f < length (tf_fields f) \<and> field_consumes_escape (tf_fields f ! tf_focused f)"

definition todo_editor_mode :: "'ta todo_form \<Rightarrow> editor_mode option" where
  "todo_editor_mode f =
     (if tf_focused f < length (tf_fields f) then field_editor_mode (tf_fields f ! tf_focused f) else None)"

definition todo_update :: "'ta textarea \<Rightarrow> app_action \<Rightarrow> 'ta todo_form \<Rightarrow> 'ta todo_form outcome" where
  "todo_update T a f = (case a of
     AcStartCapture \<Rightarrow> quiet (todo_reset T f)
   | AcStopCapture \<Rightarrow> quiet (f\<lparr> tf_fields := map field_blur (tf_fields f) \<rparr>)
   | AcSubmitForm \<Rightarrow> todo_submit T f
   | AcError msg \<Rightarrow> quiet (f\<lparr> tf_error := Some msg \<rparr>)
   | _ \<Rightarrow> quiet (f\<lparr> tf_fields := map (field_update T a) (tf_fields f) \<rparr>))"

section \<open>The members dialog\<close>

datatype members_cmd = MbSelectNext | MbSelectPrev | MbUnshare

definition parse_members_cmd :: "string \<Rightarrow> members_cmd option" where
  "parse_members_cmd = map_of [(''select_next'', MbSelectNext), (''select_prev'', MbSelectPrev), (''unshare'', MbUnshare)]"

record members =
  mb_list_id :: list_id
  mb_members :: "member list"
  mb_me :: member_id
  mb_selected :: nat
  mb_keymap :: "members_cmd keymap"
  mb_pending :: "key_event list"

definition members_new :: "list_id \<Rightarrow> member list \<Rightarrow> member_id \<Rightarrow> members" where
  "members_new l ms me = \<lparr> mb_list_id = l, mb_members = ms, mb_me = me, mb_selected = 0, mb_keymap = [],
     mb_pending = [] \<rparr>"

definition members_configure :: "key_bindings \<Rightarrow> members \<Rightarrow> members" where
  "members_configure kb m = m\<lparr> mb_keymap := compile_keymap (kb CMembers) parse_members_cmd \<rparr>"

definition members_select :: "int \<Rightarrow> members \<Rightarrow> members" where
  "members_select delta m =
     (if mb_members m = [] then m
      else m\<lparr> mb_selected := nat ((int (mb_selected m) + delta) mod int (length (mb_members m))) \<rparr>)"

definition unshare_selected :: "members \<Rightarrow> app_action list" where
  "unshare_selected m =
     (if mb_selected m < length (mb_members m) then
        (let member = mb_members m ! mb_selected m
         in if mem_id member = mb_me m then [] else [AcUnshare (mb_list_id m) (mem_id member)])
      else [])"

definition members_key :: "key_event \<Rightarrow> members \<Rightarrow> members outcome" where
  "members_key key m =
     (case resolve (mb_keymap m) (mb_pending m) key of (r, p) \<Rightarrow>
        (let m = m\<lparr> mb_pending := p \<rparr> in case r of
           None \<Rightarrow> quiet m
         | Some MbSelectNext \<Rightarrow> quiet (members_select 1 m)
         | Some MbSelectPrev \<Rightarrow> quiet (members_select (- 1) m)
         | Some MbUnshare \<Rightarrow> (m, None, unshare_selected m)))"

definition members_placement :: "members \<Rightarrow> nat" where
  "members_placement m = max 1 (min 10 (length (mb_members m) mod 2 ^ 16)) + 2"

section \<open>Invariants\<close>

definition todo_wf :: "'ta todo_form \<Rightarrow> bool" where
  "todo_wf f \<longleftrightarrow> length (tf_fields f) = 3 \<and> tf_focused f < FIELD_COUNT \<and> fields_wf (tf_fields f) (tf_focused f)"

lemma todo_set_focus_wf: "todo_wf f \<Longrightarrow> i < FIELD_COUNT \<Longrightarrow> todo_wf (todo_set_focus T i f)"
  by (simp add: todo_wf_def todo_set_focus_def fields_wf_move)

lemma todo_moves_wf:
  "todo_wf f \<Longrightarrow> todo_wf (todo_focus_next T f)" "todo_wf f \<Longrightarrow> todo_wf (todo_focus_prev T f)"
  by (simp_all add: todo_focus_next_def todo_focus_prev_def todo_set_focus_wf FIELD_COUNT_def)

lemma todo_type_wf: "todo_wf f \<Longrightarrow> todo_wf (fst (todo_type T k f))"
  by (simp add: todo_type_def todo_wf_def fields_wf_keep)

lemma todo_resolve_wf: "todo_wf f \<Longrightarrow> todo_resolve k f = (r, g) \<Longrightarrow> todo_wf g"
  by (auto simp: todo_resolve_def todo_wf_def split: prod.splits)

lemma todo_wf_data [simp]:
  "todo_wf (f\<lparr> tf_due_cursor := d \<rparr>) = todo_wf f" "todo_wf (f\<lparr> tf_due_enabled := e \<rparr>) = todo_wf f"
  "todo_wf (f\<lparr> tf_priority := p \<rparr>) = todo_wf f" "todo_wf (f\<lparr> tf_error := x \<rparr>) = todo_wf f"
  by (simp_all add: todo_wf_def)

lemma todo_key_wf:
  assumes "todo_wf f"
  shows "todo_wf (fst (todo_key T D k f))"
proof -
  obtain r g where rg: "todo_resolve k f = (r, g)" by fastforce
  then have g: "todo_wf g" by (rule todo_resolve_wf [OF assms])
  note wf = assms rg g todo_moves_wf todo_type_wf
  have "todo_wf (fst (todo_due_key T D k f))"
    by (simp add: todo_due_key_def Let_def wf split: key_code.split option.split form_cmd.split)
  moreover have "todo_wf (fst (todo_priority_key T k f))"
    by (simp add: todo_priority_key_def wf split: option.split form_cmd.split)
  ultimately show ?thesis
    by (simp add: todo_key_def wf split: option.split form_cmd.split)
qed

lemma todo_event_wf: "todo_wf f \<Longrightarrow> todo_wf (fst (todo_event T D ev f))"
  by (cases ev) (simp_all add: todo_event_def todo_key_wf, simp add: todo_wf_def fields_wf_keep)

lemma todo_update_wf:
  assumes "todo_wf f"
  shows "todo_wf (fst (todo_update T a f))"
proof (cases "a = AcStartCapture \<or> a = AcStopCapture")
  case True
  then show ?thesis using assms
    by (auto simp: todo_update_def todo_reset_def todo_wf_def fields_wf_first fields_wf_blur FIELD_COUNT_def)
next
  case False
  then have "todo_wf (f\<lparr> tf_fields := map (field_update T a) (tf_fields f) \<rparr>)"
    using assms by (simp add: todo_wf_def fields_wf_update)
  then show ?thesis using assms False
    by (cases a) (simp_all add: todo_update_def todo_submit_def Let_def)
qed

lemma todo_new_wf: "todo_wf (todo_form_add T d l)" "todo_wf (todo_form_edit T d l item)"
  by (auto simp: todo_wf_def todo_form_add_def todo_form_edit_def todo_form_blank_def fields_wf_def FIELD_COUNT_def
      Let_def nth_Cons split: nat.split)

interpretation todo_ring: ring_selector tf_focused 5 "todo_focus_next T" "todo_focus_prev T" todo_wf
  for T :: "'a textarea"
proof
  fix s :: "'a todo_form" assume s: "todo_wf s"
  then show "tf_focused s < 5" by (simp add: todo_wf_def FIELD_COUNT_def)
  show "todo_wf (todo_focus_next T s)" "todo_wf (todo_focus_prev T s)" using s by (rule todo_moves_wf)+
  show "tf_focused (todo_focus_next T s) = (tf_focused s + 1) mod 5" "tf_focused (todo_focus_prev T s) = (tf_focused s + 5 - 1) mod 5"
    by (simp_all add: todo_focus_next_def todo_focus_prev_def todo_set_focus_def FIELD_COUNT_def)
qed

datatype form_op = FoEvent tui_event | FoAction app_action | FoConfig key_bindings editing_mode

fun login_step :: "'ta textarea \<Rightarrow> form_op \<Rightarrow> 'ta fields_form \<Rightarrow> 'ta fields_form" where
  "login_step T (FoEvent ev) f = fst (login_event T ev f)"
| "login_step T (FoAction a) f = fst (login_update T a f)"
| "login_step T (FoConfig kb m) f = form_configure kb m f"

fun register_step :: "'ta textarea \<Rightarrow> form_op \<Rightarrow> 'ta fields_form \<Rightarrow> 'ta fields_form" where
  "register_step T (FoEvent ev) f = fst (register_event T ev f)"
| "register_step T (FoAction a) f = fst (register_update T a f)"
| "register_step T (FoConfig kb m) f = form_configure kb m f"

fun todo_step :: "'ta textarea \<Rightarrow> date_ops \<Rightarrow> form_op \<Rightarrow> 'ta todo_form \<Rightarrow> 'ta todo_form" where
  "todo_step T D (FoEvent ev) f = fst (todo_event T D ev f)"
| "todo_step T D (FoAction a) f = fst (todo_update T a f)"
| "todo_step T D (FoConfig kb m) f = todo_configure kb m f"

lemma fold_invariant_step: "(\<And>x s. P s \<Longrightarrow> P (f x s)) \<Longrightarrow> P s \<Longrightarrow> P (fold f xs s)"
  by (induction xs arbitrary: s) auto

lemma login_step_wf: "form_wf 2 f \<Longrightarrow> form_wf 2 (login_step T op f)"
  by (cases op) (simp_all add: login_wf)

lemma register_step_wf: "form_wf 3 f \<Longrightarrow> form_wf 3 (register_step T op f)"
  by (cases op) (simp_all add: register_wf)

lemma login_steps_wf: "form_wf 2 (fold (login_step T) ops (login_new T))"
  by (rule fold_invariant_step) (simp_all add: login_step_wf login_wf)

lemma register_steps_wf: "form_wf 3 (fold (register_step T) ops (register_new T))"
  by (rule fold_invariant_step) (simp_all add: register_step_wf register_wf)

lemma todo_configure_wf: "todo_wf f \<Longrightarrow> todo_wf (todo_configure kb m f)"
  by (simp add: todo_configure_def todo_wf_def fields_wf_config)

lemma todo_step_wf: "todo_wf f \<Longrightarrow> todo_wf (todo_step T D op f)"
  by (cases op) (simp_all add: todo_event_wf todo_update_wf todo_configure_wf)

lemma todo_steps_wf: "todo_wf f \<Longrightarrow> todo_wf (fold (todo_step T D) ops f)"
  by (rule fold_invariant_step) (rule todo_step_wf)

text \<open>Exactly one field can take keystrokes.  Whatever terminal events, actions and
  configurations reach the login, registration and todo forms, the focus index stays within the
  form and a field other than the focused one never captures, so a key can change at most the
  focused field.\<close>

lemma one_field_captures:
  "form_wf 2 (fold (login_step T) ops (login_new T)) \<and> form_wf 3 (fold (register_step T) ops (register_new T)) \<and>
     todo_wf (fold (todo_step T D) ops (todo_form_add T today l)) \<and>
     todo_wf (fold (todo_step T D) ops (todo_form_edit T today l item))"
  by (simp add: login_steps_wf register_steps_wf todo_steps_wf todo_new_wf)


section \<open>Editing and saving again\<close>

text \<open>What the forms rely on of the editing widget: an inserted text is held as its lines.\<close>

definition widget_ok :: "'ta textarea \<Rightarrow> bool" where
  "widget_ok T \<longleftrightarrow> (\<forall>s. CHR 0x0D \<notin> set s \<longrightarrow> ta_lines T (ta_insert_str T s (ta_new T)) = split_on CHR 0x0A s)"

lemma concat_split_on: "concat (split_on d s) = filter (\<lambda>c. c \<noteq> d) s"
  by (induction s) (auto split: list.split)

lemma edit_field_value:
  "widget_ok T \<Longrightarrow> CHR 0x0D \<notin> set s \<Longrightarrow>
     field_value T (field_set_value T s (text_input_new T l)) = filter (\<lambda>c. c \<noteq> CHR 0x0A) s"
  by (simp add: widget_ok_def field_value_def field_set_value_def text_input_new_def build_textarea_def
      vim_default_def concat_split_on)

definition clean_tag :: "string \<Rightarrow> bool" where
  "clean_tag t \<longleftrightarrow> t \<noteq> [] \<and> trim t = t \<and> CHR '','' \<notin> set t \<and> CHR 0x0A \<notin> set t \<and> CHR 0x0D \<notin> set t"

lemma trim_space: "trim (CHR '' '' # t) = trim t"
  by (simp add: trim_def is_space_def)

lemma split_tags:
  "list_all clean_tag ts \<Longrightarrow> ts \<noteq> [] \<Longrightarrow>
     split_on CHR '','' (join_with '', '' ts) = hd ts # map (\<lambda>t. CHR '' '' # t) (tl ts)"
proof (induction ts rule: induct_list012)
  case (3 s t ts)
  have "split_on CHR '','' (CHR '' '' # join_with '', '' (t # ts))
      = (CHR '' '' # hd (t # ts)) # map (\<lambda>t. CHR '' '' # t) ts"
    using 3 by simp
  then show ?case using 3(3) split_on_append [of "CHR '',''" s "CHR '' '' # join_with '', '' (t # ts)"]
    by (simp add: split_on_plain clean_tag_def)
qed (simp_all add: split_on_plain clean_tag_def)

lemma tags_roundtrip: "list_all clean_tag ts \<Longrightarrow> tags_of_text (join_with '', '' ts) = ts"
proof (cases "ts = []")
  case False
  assume c: "list_all clean_tag ts"
  have "map trim (hd ts # map (\<lambda>t. CHR '' '' # t) (tl ts)) = ts"
    using c False by (cases ts) (auto simp: clean_tag_def trim_space list_all_iff intro!: map_idI)
  then show ?thesis using c False split_tags [of ts]
    by (simp add: tags_of_text_def) (auto simp: clean_tag_def list_all_iff filter_id_conv)
qed (simp add: tags_of_text_def trim_def)

lemma join_no_char:
  "d \<notin> set sep \<Longrightarrow> \<forall>t\<in>set ts. d \<notin> set t \<Longrightarrow> d \<notin> set (join_with sep ts)"
  by (induction ts rule: induct_list012) auto

text \<open>C40: Opening an item for editing and saving it unchanged.  The form sends one save for the same
  list and item with the title, the priority and the tags of the item (for a trimmed title of one
  line and tags without commas, line breaks or outer blanks); the due date comes back as midnight
  UTC of its day, and the line breaks of the notes are gone.\<close>

theorem edit_form_saves_item:
  assumes "widget_ok T" and "trim (ti_title item) = ti_title item" and "ti_title item \<noteq> []"
    and "CHR 0x0A \<notin> set (ti_title item)" and "CHR 0x0D \<notin> set (ti_title item)"
    and "CHR 0x0D \<notin> set (ti_notes item)" and "list_all clean_tag (ti_tags item)"
  shows "snd (todo_submit T (todo_form_edit T today l item)) =
     (None, [AcSaveTodo l (Some (ti_id item))
        \<lparr> in_title = ti_title item,
          in_notes = trim (filter (\<lambda>c. c \<noteq> CHR 0x0A) (ti_notes item)),
          in_due = map_option (\<lambda>d. midnight_utc (odt_day d)) (ti_due item),
          in_priority = ti_priority item, in_tags = ti_tags item \<rparr>])"
proof -
  let ?tags = "join_with '', '' (ti_tags item)"
  have cr: "CHR 0x0D \<notin> set ?tags" and lf: "CHR 0x0A \<notin> set ?tags"
    using assms(7) join_no_char [of "CHR 0x0D" "'', ''" "ti_tags item"] join_no_char [of "CHR 0x0A" "'', ''" "ti_tags item"]
    by (simp_all add: list_all_iff clean_tag_def)
  have tags: "filter (\<lambda>c. c \<noteq> CHR 0x0A) ?tags = ?tags" using lf by (auto simp: filter_id_conv)
  have title: "filter (\<lambda>c. c \<noteq> CHR 0x0A) (ti_title item) = ti_title item"
    using assms(4) by (auto simp: filter_id_conv)
  show ?thesis using assms
    by (simp add: todo_submit_def todo_form_edit_def todo_form_blank_def Let_def edit_field_value cr title tags
        tags_roundtrip split: option.split)
qed

definition demo_widget :: "string list textarea" where
  "demo_widget = \<lparr> ta_new = [[]], ta_mask = id, ta_move = (\<lambda>_. id), ta_input = (\<lambda>_. id), ta_input_plain = (\<lambda>_. id),
     ta_insert_str = (\<lambda>s ls. case ls of [[]] \<Rightarrow> split_on CHR 0x0A s | _ \<Rightarrow> ls), ta_lines = id,
     ta_delete_next = id, ta_delete_to_end = id, ta_paste = id, ta_undo = id, ta_redo = id, ta_cut = id,
     ta_copy = id, ta_start_selection = id, ta_cancel_selection = id \<rparr>"

lemma demo_widget_ok: "widget_ok demo_widget"
  by (simp add: widget_ok_def demo_widget_def)

definition demo_item :: todo_item where
  "demo_item = \<lparr> ti_id = ''i'', ti_title = ''milk'', ti_notes = ''a'' @ [CHR 0x0A] @ ''b'', ti_due = Some (odt_of_unix 90000),
     ti_priority = High, ti_done = False, ti_tags = [''x'', ''y z''], ti_subtasks = [], ti_order_key = ''0'' \<rparr>"

lemma edit_form_saves_item_witness:
  "snd (todo_submit demo_widget (todo_form_edit demo_widget 7 (fixed_repeat 1) demo_item)) =
     (None, [AcSaveTodo (fixed_repeat 1) (Some ''i'')
        \<lparr> in_title = ''milk'', in_notes = ''ab'', in_due = Some (midnight_utc 1),
          in_priority = High, in_tags = [''x'', ''y z''] \<rparr>])"
proof -
  have "snd (todo_submit demo_widget (todo_form_edit demo_widget 7 (fixed_repeat 1) demo_item)) =
     (None, [AcSaveTodo (fixed_repeat 1) (Some (ti_id demo_item))
        \<lparr> in_title = ti_title demo_item,
          in_notes = trim (filter (\<lambda>c. c \<noteq> CHR 0x0A) (ti_notes demo_item)),
          in_due = map_option (\<lambda>d. midnight_utc (odt_day d)) (ti_due demo_item),
          in_priority = ti_priority demo_item, in_tags = ti_tags demo_item \<rparr>])"
    by (rule edit_form_saves_item [OF demo_widget_ok])
      (simp_all add: demo_item_def trim_def is_space_def clean_tag_def)
  then show ?thesis by (simp add: demo_item_def trim_def is_space_def odt_of_unix_def)
qed

section \<open>The calendar cursor\<close>

text \<open>The documented behaviour of the \<open>time\<close> crate's dates, years from -9999 to 9999.\<close>

definition dates_ok :: "date_ops \<Rightarrow> bool" where
  "dates_ok D \<longleftrightarrow>
     (\<forall>d. 1 \<le> snd (cal_year_month (dt_calendar D) d) \<and> snd (cal_year_month (dt_calendar D) d) \<le> 12 \<and>
          1 \<le> cal_mday (dt_calendar D) d \<and>
          cal_mday (dt_calendar D) d \<le> cal_days_in_month (dt_calendar D) (cal_year_month (dt_calendar D) d)) \<and>
     (\<forall>y m. 28 \<le> cal_days_in_month (dt_calendar D) (y, m)) \<and>
     (\<forall>y m k. - 9999 \<le> y \<and> y \<le> 9999 \<and> 1 \<le> m \<and> m \<le> 12 \<and> 1 \<le> k \<and> k \<le> cal_days_in_month (dt_calendar D) (y, m) \<longrightarrow>
        (\<exists>x. dt_from_calendar_date D y m k = Some x \<and> cal_year_month (dt_calendar D) x = (y, m)
             \<and> cal_mday (dt_calendar D) x = k))"

text \<open>The month after a number of months, and the month as a count.\<close>

definition month_number :: "date_ops \<Rightarrow> int \<Rightarrow> int" where
  "month_number D d = fst (cal_year_month (dt_calendar D) d) * 12 + (snd (cal_year_month (dt_calendar D) d) - 1)"

definition month_length :: "date_ops \<Rightarrow> int \<Rightarrow> int" where
  "month_length D n = cal_days_in_month (dt_calendar D) (n div 12, n mod 12 + 1)"

lemma dates_ok_date:
  "dates_ok D \<Longrightarrow> - 9999 \<le> y \<Longrightarrow> y \<le> 9999 \<Longrightarrow> 1 \<le> m \<Longrightarrow> m \<le> 12 \<Longrightarrow> 1 \<le> k \<Longrightarrow>
     k \<le> cal_days_in_month (dt_calendar D) (y, m) \<Longrightarrow>
     \<exists>x. dt_from_calendar_date D y m k = Some x \<and> cal_year_month (dt_calendar D) x = (y, m) \<and> cal_mday (dt_calendar D) x = k"
  unfolding dates_ok_def by blast

lemma month_div_mod: "0 \<le> r \<Longrightarrow> r < c \<Longrightarrow> (y * c + r) div c = y \<and> (y * c + r) mod c = (r :: int)"
  by simp

lemma shift_month_lands:
  assumes "dates_ok D" and "- 119988 \<le> month_number D d + delta" and "month_number D d + delta < 120000"
  shows "month_number D (shift_month D d delta) = month_number D d + delta
     \<and> cal_mday (dt_calendar D) (shift_month D d delta)
         = min (cal_mday (dt_calendar D) d) (month_length D (month_number D d + delta))"
proof -
  let ?n = "month_number D d + delta"
  let ?k = "min (cal_mday (dt_calendar D) d) (month_length D ?n)"
  obtain y m where ym: "cal_year_month (dt_calendar D) d = (y, m)" by fastforce
  have "- 9999 \<le> ?n div 12" "?n div 12 \<le> 9999" "1 \<le> ?n mod 12 + 1" "?n mod 12 + 1 \<le> 12"
    using assms(2,3) by linarith+
  moreover have "1 \<le> cal_mday (dt_calendar D) d" "28 \<le> month_length D ?n"
    using assms(1) by (simp_all add: dates_ok_def month_length_def)
  ultimately obtain x where x: "dt_from_calendar_date D (?n div 12) (?n mod 12 + 1) ?k = Some x"
      "cal_year_month (dt_calendar D) x = (?n div 12, ?n mod 12 + 1)" "cal_mday (dt_calendar D) x = ?k"
    using dates_ok_date [OF assms(1), of "?n div 12" "?n mod 12 + 1" ?k] unfolding month_length_def by fastforce
  have "shift_month D d delta = x"
    using x(1) by (simp add: shift_month_def ym month_number_def month_length_def Let_def)
  moreover have "?n div 12 * 12 + ?n mod 12 = ?n" by simp
  ultimately show ?thesis using x(2,3) by (simp add: month_number_def)
qed

lemma month_number_shape:
  "dates_ok D \<Longrightarrow> cal_year_month (dt_calendar D) d = (month_number D d div 12, month_number D d mod 12 + 1)"
proof -
  assume "dates_ok D"
  then have "1 \<le> snd (cal_year_month (dt_calendar D) d)" "snd (cal_year_month (dt_calendar D) d) \<le> 12"
    by (simp_all add: dates_ok_def)
  then show ?thesis
    using month_div_mod [of "snd (cal_year_month (dt_calendar D) d) - 1" 12 "fst (cal_year_month (dt_calendar D) d)"]
    by (simp add: month_number_def prod_eq_iff)
qed

text \<open>The month keys of the calendar.  One step forward from any date before December 9999 lands
  in the next month, on the same day or on that month's last day; stepping back returns to the
  month it came from, and the day is the original one unless the shorter month cut it.\<close>

lemma month_keys_clamp:
  assumes "dates_ok D" and "- 119988 \<le> month_number D d" and "month_number D d < 119999"
  shows "month_number D (move_cursor D NextMonth d) = month_number D d + 1
     \<and> cal_mday (dt_calendar D) (move_cursor D NextMonth d)
         = min (cal_mday (dt_calendar D) d) (month_length D (month_number D d + 1))
     \<and> month_number D (move_cursor D PrevMonth (move_cursor D NextMonth d)) = month_number D d
     \<and> cal_mday (dt_calendar D) (move_cursor D PrevMonth (move_cursor D NextMonth d))
         = min (cal_mday (dt_calendar D) d) (month_length D (month_number D d + 1))"
proof -
  note fwd = shift_month_lands [OF assms(1), of d 1]
  note bwd = shift_month_lands [OF assms(1), of "shift_month D d 1" "- 1"]
  have "cal_mday (dt_calendar D) d \<le> month_length D (month_number D d)"
    using assms(1) unfolding month_length_def month_number_shape [OF assms(1), symmetric] dates_ok_def by blast
  then show ?thesis using fwd bwd assms(2,3) by (simp add: min_def)
qed

definition dates30 :: date_ops where
  "dates30 = \<lparr> dt_calendar = \<lparr> cal_from_monday = (\<lambda>d. d mod 7),
       cal_year_month = (\<lambda>d. (d div 360, d mod 360 div 30 + 1)), cal_mday = (\<lambda>d. d mod 30 + 1),
       cal_days_in_month = (\<lambda>_. 30) \<rparr>,
     dt_from_calendar_date = (\<lambda>y m k. Some (y * 360 + (m - 1) * 30 + (k - 1))),
     dt_min = - 3600000, dt_max = 3600000 \<rparr>"

lemma dates30_ok: "dates_ok dates30"
proof -
  have "(y * 360 + (m - 1) * 30 + (k - 1)) div 360 = y \<and> (y * 360 + (m - 1) * 30 + (k - 1)) mod 360 div 30 = m - 1
      \<and> (y * 360 + (m - 1) * 30 + (k - 1)) mod 30 = k - 1"
    if "1 \<le> m" "m \<le> 12" "1 \<le> k" "k \<le> 30" for y m k :: int
  proof -
    let ?r = "(m - 1) * 30 + (k - 1)"
    have "?r div 30 = m - 1" using that month_div_mod [of "k - 1" 30 "m - 1"] by simp
    moreover have "(y * 360 + ?r) div 360 = y" "(y * 360 + ?r) mod 360 = ?r"
      using that month_div_mod [of ?r 360 y] by simp_all
    moreover have "((y * 12 + (m - 1)) * 30 + (k - 1)) mod 30 = k - 1"
      using that month_div_mod [of "k - 1" 30 "y * 12 + (m - 1)"] by simp
    moreover have "y * 360 + (m - 1) * 30 + (k - 1) = y * 360 + ?r"
      "(y * 12 + (m - 1)) * 30 + (k - 1) = y * 360 + ?r" by simp_all
    ultimately show ?thesis by metis
  qed
  moreover have "0 \<le> d mod 360 div 30 \<and> d mod 360 div 30 + 1 \<le> 12" for d :: int by linarith
  moreover have "0 \<le> d mod 30 \<and> d mod 30 + 1 \<le> 30" for d :: int by linarith
  ultimately show ?thesis unfolding dates_ok_def dates30_def by simp
qed

end
