(* ===== verification/Modal.thy ===== *)
theory Modal
  imports TodoForm
begin

text \<open>
  The overlay dialog (\<open>src/todoers/src/components/modal.rs\<close>, \<open>button.rs\<close>): a body, a row of buttons,
  and the two zones the keyboard focus moves between.  The body is one of the components the app
  puts into a modal; \<open>prompt.rs\<close> and \<open>help.rs\<close> only draw.
\<close>

record 'ta ui =
  ui_area :: "'ta textarea"
  ui_dates :: date_ops
  ui_today :: int

section \<open>Buttons\<close>

text \<open>The area a button was last drawn into is the set of positions in it.\<close>

record button =
  bt_label :: string
  bt_action :: app_action
  bt_focused :: bool
  bt_area :: "nat \<times> nat \<Rightarrow> bool"

definition button_new :: "string \<Rightarrow> app_action \<Rightarrow> button" where
  "button_new l a = \<lparr> bt_label = l, bt_action = a, bt_focused = False, bt_area = (\<lambda>_. False) \<rparr>"

definition button_mouse :: "mouse_event \<Rightarrow> button \<Rightarrow> app_action option" where
  "button_mouse ms b =
     (if ms_kind ms = MouseDownLeft \<and> bt_area b (ms_column ms, ms_row ms) then Some (bt_action b) else None)"

section \<open>Bodies\<close>

datatype 'ta body =
    BPrompt string
  | BHelp app_mode
  | BMembers members
  | BLogin "'ta fields_form"
  | BRegister "'ta fields_form"
  | BUnlock "'ta unlock_form"
  | BList list_op "'ta single_form"
  | BShare list_id "'ta single_form"
  | BTodo "'ta todo_form"

fun body_captures :: "'ta body \<Rightarrow> bool" where
  "body_captures (BPrompt _) = False"
| "body_captures (BHelp _) = False"
| "body_captures _ = True"

definition wrap :: "('f \<Rightarrow> 'b) \<Rightarrow> 'f outcome \<Rightarrow> 'b outcome" where
  "wrap c r = (case r of (f, a, s) \<Rightarrow> (c f, a, s))"

fun body_key :: "'ta ui \<Rightarrow> key_event \<Rightarrow> 'ta body \<Rightarrow> 'ta body outcome" where
  "body_key U k (BMembers m) = wrap BMembers (members_key k m)"
| "body_key U k (BLogin f) = wrap BLogin (login_key (ui_area U) k f)"
| "body_key U k (BRegister f) = wrap BRegister (register_key (ui_area U) k f)"
| "body_key U k (BUnlock f) = wrap BUnlock (unlock_key (ui_area U) k f)"
| "body_key U k (BList op f) = wrap (BList op) (single_key (ui_area U) k f)"
| "body_key U k (BShare l f) = wrap (BShare l) (single_key (ui_area U) k f)"
| "body_key U k (BTodo f) = wrap BTodo (todo_key (ui_area U) (ui_dates U) k f)"
| "body_key U k b = quiet b"

fun body_paste :: "'ta ui \<Rightarrow> string \<Rightarrow> 'ta body \<Rightarrow> 'ta body outcome" where
  "body_paste U s (BLogin f) = wrap BLogin (login_event (ui_area U) (EvPaste s) f)"
| "body_paste U s (BRegister f) = wrap BRegister (register_event (ui_area U) (EvPaste s) f)"
| "body_paste U s (BUnlock f) = wrap BUnlock (unlock_event (ui_area U) (EvPaste s) f)"
| "body_paste U s (BList op f) = wrap (BList op) (single_event (ui_area U) (EvPaste s) f)"
| "body_paste U s (BShare l f) = wrap (BShare l) (single_event (ui_area U) (EvPaste s) f)"
| "body_paste U s (BTodo f) = wrap BTodo (todo_event (ui_area U) (ui_dates U) (EvPaste s) f)"
| "body_paste U s b = quiet b"

fun body_update :: "'ta ui \<Rightarrow> app_action \<Rightarrow> 'ta body \<Rightarrow> 'ta body outcome" where
  "body_update U a (BLogin f) = wrap BLogin (login_update (ui_area U) a f)"
| "body_update U a (BRegister f) = wrap BRegister (register_update (ui_area U) a f)"
| "body_update U a (BUnlock f) = wrap BUnlock (unlock_update (ui_area U) a f)"
| "body_update U a (BList op f) = wrap (BList op) (single_update (list_form_submit (ui_area U) op) (ui_area U) a f)"
| "body_update U a (BShare l f) = wrap (BShare l) (single_update (share_form_submit (ui_area U) l) (ui_area U) a f)"
| "body_update U a (BTodo f) = wrap BTodo (todo_update (ui_area U) a f)"
| "body_update U a b = quiet b"

fun body_configure :: "key_bindings \<Rightarrow> editing_mode \<Rightarrow> 'ta body \<Rightarrow> 'ta body" where
  "body_configure kb m (BMembers ms) = BMembers (members_configure kb ms)"
| "body_configure kb m (BLogin f) = BLogin (form_configure kb m f)"
| "body_configure kb m (BRegister f) = BRegister (form_configure kb m f)"
| "body_configure kb m (BUnlock f) = BUnlock (unlock_configure kb m f)"
| "body_configure kb m (BList op f) = BList op (single_configure kb m f)"
| "body_configure kb m (BShare l f) = BShare l (single_configure kb m f)"
| "body_configure kb m (BTodo f) = BTodo (todo_configure kb m f)"
| "body_configure kb m b = b"

text \<open>The focused text field of a body, and what it says of \<open>Esc\<close> and of the editing mode.\<close>

fun focused_field :: "'ta body \<Rightarrow> 'ta text_input option" where
  "focused_field (BLogin f) = Some (ff_fields f ! ff_focused f)"
| "focused_field (BRegister f) = Some (ff_fields f ! ff_focused f)"
| "focused_field (BUnlock f) = Some (uf_password f)"
| "focused_field (BList op f) = Some (sf_field f)"
| "focused_field (BShare l f) = Some (sf_field f)"
| "focused_field (BTodo f) =
     (if tf_focused f < length (tf_fields f) then Some (tf_fields f ! tf_focused f) else None)"
| "focused_field _ = None"

definition body_consumes_escape :: "'ta body \<Rightarrow> bool" where
  "body_consumes_escape b = (case focused_field b of Some t \<Rightarrow> field_consumes_escape t | None \<Rightarrow> False)"

definition body_editor_mode :: "'ta body \<Rightarrow> editor_mode option" where
  "body_editor_mode b = (case focused_field b of Some t \<Rightarrow> field_editor_mode t | None \<Rightarrow> None)"

section \<open>The modal\<close>

datatype modal_cmd = MdFocusNext | MdFocusPrev | MdActivate | MdCancel

definition parse_modal_cmd :: "string \<Rightarrow> modal_cmd option" where
  "parse_modal_cmd = map_of [(''focus_next'', MdFocusNext), (''focus_prev'', MdFocusPrev),
     (''activate'', MdActivate), (''cancel'', MdCancel)]"

record 'ta modal =
  md_title :: string
  md_body :: "'ta body"
  md_buttons :: "button list"
  md_focused :: nat
  md_focus_body :: bool
  md_esc_action :: app_action
  md_keymap :: "modal_cmd keymap"
  md_pending :: "key_event list"

definition sync_focus :: "'ta modal \<Rightarrow> 'ta modal" where
  "sync_focus m = m\<lparr> md_buttons :=
     map (\<lambda>(i, b). b\<lparr> bt_focused := \<not> md_focus_body m \<and> i = md_focused m \<rparr>) (enumerate 0 (md_buttons m)) \<rparr>"

definition modal_new :: "string \<Rightarrow> 'ta body \<Rightarrow> button list \<Rightarrow> app_action \<Rightarrow> 'ta modal" where
  "modal_new title b bs esc = sync_focus \<lparr> md_title = title, md_body = b, md_buttons = bs, md_focused = 0,
     md_focus_body = body_captures b, md_esc_action = esc, md_keymap = [], md_pending = [] \<rparr>"

definition modal_message :: "string \<Rightarrow> 'ta body \<Rightarrow> 'ta modal" where
  "modal_message title b = modal_new title b [button_new ''Close'' AcCloseModal] AcCloseModal"

definition modal_form :: "string \<Rightarrow> 'ta body \<Rightarrow> app_action \<Rightarrow> 'ta modal" where
  "modal_form title b cancel =
     modal_new title b [button_new ''Submit'' AcSubmitForm, button_new ''Cancel'' cancel] cancel"

definition modal_confirm :: "string \<Rightarrow> 'ta body \<Rightarrow> app_action \<Rightarrow> 'ta modal" where
  "modal_confirm title b yes =
     modal_new title b [button_new ''Yes'' yes, button_new ''No'' AcCloseModal] AcCloseModal"

definition modal_configure :: "key_bindings \<Rightarrow> editing_mode \<Rightarrow> 'ta modal \<Rightarrow> 'ta modal" where
  "modal_configure kb em m = m\<lparr> md_body := body_configure kb em (md_body m),
     md_keymap := compile_keymap (kb CModal) parse_modal_cmd \<rparr>"

definition modal_focus_next :: "'ta modal \<Rightarrow> 'ta modal" where
  "modal_focus_next m =
     (if md_buttons m = [] then m
      else sync_focus (m\<lparr> md_focused := (md_focused m + 1) mod length (md_buttons m) \<rparr>))"

definition modal_focus_prev :: "'ta modal \<Rightarrow> 'ta modal" where
  "modal_focus_prev m =
     (if md_buttons m = [] then m
      else sync_focus (m\<lparr> md_focused := (md_focused m + length (md_buttons m) - 1) mod length (md_buttons m) \<rparr>))"

definition body_focused :: "'ta modal \<Rightarrow> bool" where
  "body_focused m \<longleftrightarrow> md_focus_body m \<and> body_captures (md_body m)"

definition modal_editor_mode :: "'ta modal \<Rightarrow> editor_mode option" where
  "modal_editor_mode m = (if body_focused m then body_editor_mode (md_body m) else None)"

definition with_body :: "'ta modal \<Rightarrow> 'ta body outcome \<Rightarrow> 'ta modal outcome" where
  "with_body m = wrap (\<lambda>b. m\<lparr> md_body := b \<rparr>)"

definition body_zone_key :: "'ta ui \<Rightarrow> key_event \<Rightarrow> 'ta modal \<Rightarrow> 'ta modal outcome" where
  "body_zone_key U key m =
     (case body_key U key (md_body m) of
        (b, Some AcFocusButtons, s) \<Rightarrow>
          (case body_update U AcStopCapture b of
             (b, _, s') \<Rightarrow> (sync_focus (m\<lparr> md_focus_body := False, md_focused := 0, md_body := b \<rparr>), None, s @ s'))
      | (b, a, s) \<Rightarrow> (m\<lparr> md_body := b \<rparr>, a, s))"

definition run_modal_cmd :: "'ta ui \<Rightarrow> modal_cmd \<Rightarrow> 'ta modal \<Rightarrow> 'ta modal outcome" where
  "run_modal_cmd U cmd m = (case cmd of
     MdFocusNext \<Rightarrow> quiet (modal_focus_next m)
   | MdFocusPrev \<Rightarrow>
       if md_focused m = 0 \<and> body_captures (md_body m)
       then (case body_update U AcStartCapture (md_body m) of
               (b, _, s) \<Rightarrow> (sync_focus (m\<lparr> md_focus_body := True, md_body := b \<rparr>), None, s))
       else quiet (modal_focus_prev m)
   | MdActivate \<Rightarrow>
       (m, if md_focused m < length (md_buttons m) then Some (bt_action (md_buttons m ! md_focused m)) else None, [])
   | MdCancel \<Rightarrow> (m, Some (md_esc_action m), []))"

definition modal_key :: "'ta ui \<Rightarrow> key_event \<Rightarrow> 'ta modal \<Rightarrow> 'ta modal outcome" where
  "modal_key U key m =
     (if k_code key = KEsc then
        (if body_focused m \<and> body_consumes_escape (md_body m) then with_body m (body_key U key (md_body m))
         else (m, Some (md_esc_action m), []))
      else if body_focused m then body_zone_key U key m
      else case resolve (md_keymap m) (md_pending m) key of (r, p) \<Rightarrow>
        (let m = m\<lparr> md_pending := p \<rparr> in case r of
           Some cmd \<Rightarrow> run_modal_cmd U cmd m
         | None \<Rightarrow>
             if \<not> body_captures (md_body m) then with_body m (body_key U key (md_body m)) else quiet m))"

fun first_some :: "('a \<Rightarrow> 'b option) \<Rightarrow> 'a list \<Rightarrow> 'b option" where
  "first_some f [] = None"
| "first_some f (x # xs) = (case f x of Some y \<Rightarrow> Some y | None \<Rightarrow> first_some f xs)"

text \<open>No body of a modal reacts to the mouse.\<close>

definition modal_mouse :: "mouse_event \<Rightarrow> 'ta modal \<Rightarrow> 'ta modal outcome" where
  "modal_mouse ms m = (m, first_some (button_mouse ms) (md_buttons m), [])"

definition modal_event :: "'ta ui \<Rightarrow> tui_event \<Rightarrow> 'ta modal \<Rightarrow> 'ta modal outcome" where
  "modal_event U ev m = (case ev of
     EvPaste s \<Rightarrow> (if body_focused m then with_body m (body_paste U s (md_body m)) else quiet m)
   | EvKey k \<Rightarrow> modal_key U k m
   | EvMouse ms \<Rightarrow> modal_mouse ms m
   | _ \<Rightarrow> quiet m)"

text \<open>An action goes to the body and then to the buttons, which ignore it.\<close>

definition modal_update :: "'ta ui \<Rightarrow> app_action \<Rightarrow> 'ta modal \<Rightarrow> 'ta modal outcome" where
  "modal_update U a m = with_body m (body_update U a (md_body m))"

section \<open>Focus\<close>

lemma sync_focus_simps [simp]:
  "md_body (sync_focus m) = md_body m" "md_focused (sync_focus m) = md_focused m"
  "md_focus_body (sync_focus m) = md_focus_body m" "md_esc_action (sync_focus m) = md_esc_action m"
  "length (md_buttons (sync_focus m)) = length (md_buttons m)" "md_keymap (sync_focus m) = md_keymap m"
  "md_pending (sync_focus m) = md_pending m"
  "i < length (md_buttons m) \<Longrightarrow> bt_action (md_buttons (sync_focus m) ! i) = bt_action (md_buttons m ! i)"
  "i < length (md_buttons m) \<Longrightarrow>
     bt_focused (md_buttons (sync_focus m) ! i) = (\<not> md_focus_body m \<and> i = md_focused m)"
  by (simp_all add: sync_focus_def nth_enumerate_eq)

definition buttons_ok :: "nat \<Rightarrow> 'ta modal \<Rightarrow> bool" where
  "buttons_ok n m \<longleftrightarrow> length (md_buttons m) = n \<and> md_focused m < n"

lemma modal_focus_ok:
  "buttons_ok n m \<Longrightarrow> buttons_ok n (modal_focus_next m)" "buttons_ok n m \<Longrightarrow> buttons_ok n (modal_focus_prev m)"
  by (auto simp: buttons_ok_def modal_focus_next_def modal_focus_prev_def intro!: mod_less_divisor)

interpretation modal_ring: ring_selector md_focused n modal_focus_next modal_focus_prev "buttons_ok n" for n
proof
  fix m :: "'a modal" assume m: "buttons_ok n m"
  then show "md_focused m < n" by (simp add: buttons_ok_def)
  show "buttons_ok n (modal_focus_next m)" "buttons_ok n (modal_focus_prev m)" using m by (rule modal_focus_ok)+
  show "md_focused (modal_focus_next m) = (md_focused m + 1) mod n" "md_focused (modal_focus_prev m) = (md_focused m + n - 1) mod n"
    using m by (auto simp: buttons_ok_def modal_focus_next_def modal_focus_prev_def)
qed

section \<open>Escape\<close>

fun body_wf :: "'ta body \<Rightarrow> bool" where
  "body_wf (BLogin f) = form_wf 2 f"
| "body_wf (BRegister f) = form_wf 3 f"
| "body_wf (BTodo f) = todo_wf f"
| "body_wf _ = True"

lemma classify_escape: "k_code k = KEsc \<Longrightarrow> classify k fk = (PassToField, fk)"
  by (simp add: classify_def)

lemma on_field_same: "on_field i f xs ! i = (if i < length xs then f (xs ! i) else xs ! i)"
  by (simp add: on_field_def)

lemma body_escape:
  assumes "body_wf b" and "focused_field b = Some t" and "k_code k = KEsc" and "field_consumes_escape t"
  obtains b' where "body_key U k b = (b', None, [])" "focused_field b' = Some (field_key (ui_area U) k t)"
    "body_captures b' = body_captures b"
proof (cases b)
  case (BTodo f)
  then have "tf_focused f < 3" "length (tf_fields f) = 3"
    using assms(1,2) by (auto simp: todo_wf_def split: if_splits)
  then show ?thesis using BTodo assms that
    by (fastforce simp: wrap_def todo_key_def todo_type_def DUE_def PRIORITY_def on_field_same)
qed (use assms that in \<open>auto simp: wrap_def form_wf_def login_key_def register_key_def form_key_def unlock_key_def
      single_key_def classify_escape on_field_same\<close>)

definition body_live :: "'ta body \<Rightarrow> bool" where
  "body_live b = (case focused_field b of Some t \<Rightarrow> fi_capturing t | None \<Rightarrow> True)"

text \<open>\<open>Esc\<close> leaves a modal after at most two presses.  While the focused text field of the body
  captures, one \<open>Esc\<close> either emits the modal's cancel action, or is consumed by a Vim field that
  was not in Normal mode, emits nothing, and the next \<open>Esc\<close> emits the cancel action.\<close>

lemma escape_leaves_modal:
  assumes "body_wf (md_body m)" and "body_live (md_body m)" and "k_code k = KEsc"
  shows "fst (snd (modal_key U k m)) = Some (md_esc_action m) \<or>
     fst (snd (modal_key U k m)) = None \<and>
     fst (snd (modal_key U k (fst (modal_key U k m)))) = Some (md_esc_action m)"
proof (cases "body_focused m \<and> body_consumes_escape (md_body m)")
  case True
  then obtain t where t: "focused_field (md_body m) = Some t" "field_consumes_escape t"
    by (auto simp: body_consumes_escape_def split: option.splits)
  obtain b where b: "body_key U k (md_body m) = (b, None, [])" "focused_field b = Some (field_key (ui_area U) k t)"
    using body_escape [OF assms(1) t(1) assms(3) t(2)] by metis
  have "fi_capturing t" using assms(2) t by (simp add: body_live_def)
  then have "\<not> body_consumes_escape b"
    using b(2) t(2) assms(3) escape_to_normal [of t k "ui_area U"] by (simp add: body_consumes_escape_def)
  then show ?thesis using True assms(3) b(1) by (simp add: modal_key_def with_body_def wrap_def)
next
  case False
  then have "modal_key U k m = (m, Some (md_esc_action m), [])" using assms(3) by (auto simp: modal_key_def)
  then show ?thesis by simp
qed

definition esc_key :: key_event where "esc_key = key_new KEsc no_mods"

definition enter_key :: key_event where "enter_key = key_new KEnter no_mods"

definition demo_field :: "string \<Rightarrow> string list text_input" where
  "demo_field s = field_config Vim (field_set_value demo_widget s (text_input_new demo_widget ''Field''))"

definition demo_insert :: "string list text_input" where
  "demo_insert = (demo_field ''ab'')\<lparr> fi_capturing := True, fi_vim := (fi_vim (demo_field ''ab''))\<lparr> v_mode := Insert \<rparr> \<rparr>"

definition demo_ui :: "string list ui" where
  "demo_ui = \<lparr> ui_area = demo_widget, ui_dates = dates30, ui_today = 0 \<rparr>"

definition demo_register :: "string list modal" where
  "demo_register = modal_form ''Register''
     (BRegister (fields_form [demo_insert, demo_field ''pw'', demo_field ''pw''])) AcAuthChooser"

lemma demo_register_wf: "form_wf 3 (fields_form [demo_insert, demo_field ''pw'', demo_field ''pw''])"
  by (auto simp: form_wf_def fields_form_def fields_wf_def nth_Cons demo_field_def split: nat.split)

text \<open>An \<open>Esc\<close> that is swallowed for good.  When capture is stopped while the registration form's
  focused field is in Vim Insert mode, the field keeps its mode but no longer takes keys: every
  further \<open>Esc\<close> is claimed by it, changes nothing and emits nothing.\<close>

lemma escape_stuck_after_stop:
  assumes "md_body m = BRegister f" and "form_wf 3 f" and "md_focus_body m"
    and "fi_editing (ff_fields f ! ff_focused f) = Vim" and "v_mode (fi_vim (ff_fields f ! ff_focused f)) = Insert"
    and "k_code k = KEsc"
  shows "modal_key U k (fst (modal_update U AcStopCapture m)) = (fst (modal_update U AcStopCapture m), None, [])"
proof -
  let ?f = "f\<lparr> ff_fields := map field_blur (ff_fields f) \<rparr>"
  have stop: "fst (modal_update U AcStopCapture m) = m\<lparr> md_body := BRegister ?f \<rparr>"
    using assms(1) by (simp add: modal_update_def with_body_def wrap_def register_update_def form_update_def)
  have i: "ff_focused f < length (ff_fields f)" using assms(2) by (simp add: form_wf_def)
  have t: "ff_fields ?f ! ff_focused ?f = field_blur (ff_fields f ! ff_focused f)" using i by simp
  have "on_field (ff_focused f) (field_key T k) (map field_blur (ff_fields f)) = map field_blur (ff_fields f)" for T
    using i by (simp add: on_field_def escape_swallowed) (simp add: list_update_same_conv)
  then have "body_key U k (BRegister ?f) = (BRegister ?f, None, [])"
    using assms(6) by (simp add: wrap_def register_key_def form_key_def classify_escape)
  moreover have "body_consumes_escape (BRegister ?f)"
    using t assms(4,5) by (simp add: body_consumes_escape_def field_consumes_escape_def field_blur_def)
  ultimately show ?thesis
    using assms(3,6) by (simp add: stop modal_key_def body_focused_def with_body_def wrap_def)
qed

section \<open>Submitting a form\<close>

text \<open>Signing in through the dialog.  On the password field of the login dialog, the submit key
  moves the focus to the Submit button without submitting; the activation key there emits the
  submit action; and when the app forwards that action to the dialog, exactly one login is sent, with the
  trimmed username and the password as typed, or none when either is blank.\<close>

lemma login_dialog_submits:
  assumes "md_body m = BLogin f" and "form_wf 2 f" and "md_focus_body m" and "ff_focused f = 1"
    and "k_code key \<noteq> KEsc" and "classify key (ff_keys f) = (FSubmit, ks)"
    and "resolve (md_keymap m) (md_pending m) key = (Some MdActivate, p)"
    and "md_buttons m \<noteq> []" and "bt_action (md_buttons m ! 0) = AcSubmitForm"
  shows "snd (modal_key U key m) = (None, []) \<and>
     snd (modal_key U key (fst (modal_key U key m))) = (Some AcSubmitForm, []) \<and>
     snd (modal_update U AcSubmitForm (fst (modal_key U key (fst (modal_key U key m)))))
       = (None, if trim (form_value (ui_area U) 0 f) = [] \<or> form_value (ui_area U) 1 f = [] then []
                else [AcLogin (trim (form_value (ui_area U) 0 f)) (form_value (ui_area U) 1 f)])"
proof -
  let ?f = "f\<lparr> ff_keys := ks, ff_fields := map field_blur (ff_fields f) \<rparr>"
  let ?m = "sync_focus (m\<lparr> md_focus_body := False, md_focused := 0, md_body := BLogin ?f \<rparr>)"
  have first: "modal_key U key m = (?m, None, [])"
    using assms by (simp add: modal_key_def body_focused_def body_zone_key_def wrap_def login_key_def form_key_def
        login_update_def form_update_def)
  have "\<not> body_focused ?m" by (simp add: body_focused_def)
  then have second: "modal_key U key ?m = (?m\<lparr> md_pending := p \<rparr>, Some AcSubmitForm, [])"
    using assms by (simp add: modal_key_def run_modal_cmd_def)
  have val: "form_value (ui_area U) i ?f = form_value (ui_area U) i f" if "i < 2" for i
    using that assms(2) by (simp add: form_value_def form_wf_def field_value_def field_blur_def)
  have "snd (modal_update U AcSubmitForm (?m\<lparr> md_pending := p \<rparr>)) = snd (login_submit (ui_area U) ?f)"
    by (simp add: modal_update_def with_body_def wrap_def login_update_def form_update_def split: prod.split)
  then show ?thesis unfolding first second fst_conv
    using val [of 0] val [of 1] by (simp add: login_submit_def Let_def fail_with_def)
qed

definition enter_bindings :: key_bindings where
  "enter_bindings = [CForm \<mapsto> [([enter_key], Bare ''submit'')], CModal \<mapsto> [([enter_key], Bare ''activate'')]]"

definition demo_login :: "string list modal" where
  "demo_login = modal_configure enter_bindings Emacs (modal_form ''Login''
     (BLogin ((fields_form [demo_field '' bob'', demo_field ''pw''])\<lparr> ff_focused := 1 \<rparr>)) AcAuthChooser)"

lemma enter_submits:
  "classify enter_key (form_keys_configure enter_bindings form_keys_default)
     = (FSubmit, form_keys_configure enter_bindings form_keys_default)"
  "resolve (compile_keymap (enter_bindings CModal) parse_modal_cmd) [] enter_key = (Some MdActivate, [])"
  by (simp_all add: classify_def form_keys_resolve_def form_keys_configure_def form_keys_default_def resolve_def
      compile_keymap_def enter_bindings_def parse_form_cmd_def parse_modal_cmd_def normalize_key_def enter_key_def
      key_new_def)

end
