(* ===== verification/Home.thy ===== *)
theory Home
  imports UiAction
begin

text \<open>
  The workspace (\<open>src/todoers/src/components/home.rs\<close>): the sidebar, one or two panes, the selection in
  each, and the commands that act on it.  The view model is shared with the app, so an operation
  takes it and returns it; actions are sent on the app's channel.
\<close>

datatype home_cmd = HcFocusSidebar | HcFocusPane | HcCycleFocus | HcSelectNext | HcSelectPrev | HcOpenSelected
  | HcSplitHorizontal | HcSplitVertical | HcCyclePane | HcClosePane | HcGrowPane | HcShrinkPane | HcNewList
  | HcCycleSort | HcShare | HcMembers | HcAddTodo | HcEditTodo | HcToggleDone | HcRename | HcDelete

definition parse_home_cmd :: "string \<Rightarrow> home_cmd option" where
  "parse_home_cmd = map_of
     [(''focus_sidebar'', HcFocusSidebar), (''focus_pane'', HcFocusPane), (''cycle_focus'', HcCycleFocus),
      (''select_next'', HcSelectNext), (''select_prev'', HcSelectPrev), (''open_selected'', HcOpenSelected),
      (''split_horizontal'', HcSplitHorizontal), (''split_vertical'', HcSplitVertical),
      (''cycle_pane'', HcCyclePane), (''close_pane'', HcClosePane), (''grow_pane'', HcGrowPane),
      (''shrink_pane'', HcShrinkPane), (''new_list'', HcNewList), (''cycle_sort'', HcCycleSort),
      (''share'', HcShare), (''members'', HcMembers), (''add_todo'', HcAddTodo), (''edit_todo'', HcEditTodo),
      (''toggle_done'', HcToggleDone), (''rename'', HcRename), (''delete'', HcDelete)]"

datatype panel = FocusSidebar | FocusPane

record home =
  hm_focus :: panel
  hm_sidebar_visible :: bool
  hm_sidebar_idx :: nat
  hm_active_pane :: nat
  hm_pane_sel :: "nat list"
  hm_keymap :: "home_cmd keymap"
  hm_pending :: "key_event list"
  hm_layout_hint :: string
  hm_command_hint :: string

definition home_new :: home where
  "home_new = \<lparr> hm_focus = FocusSidebar, hm_sidebar_visible = True, hm_sidebar_idx = 0, hm_active_pane = 0,
     hm_pane_sel = [0, 0], hm_keymap = [], hm_pending = [], hm_layout_hint = [], hm_command_hint = [] \<rparr>"

definition sidebar_len :: "view_model \<Rightarrow> nat" where
  "sidebar_len v = length meta_list_all + length (vm_lists v)"

definition target_at :: "view_model \<Rightarrow> nat \<Rightarrow> view_target option" where
  "target_at v idx =
     (if idx < length meta_list_all then Some (TargetMeta (meta_list_all ! idx))
      else if idx - length meta_list_all < length (vm_lists v)
        then Some (TargetList (ls_id (vm_lists v ! (idx - length meta_list_all))))
      else None)"

definition get_pane :: "view_model \<Rightarrow> nat \<Rightarrow> pane_data option" where
  "get_pane v i = (if i < length (vm_panes v) then Some (vm_panes v ! i) else None)"

definition step_in :: "nat \<Rightarrow> int \<Rightarrow> nat \<Rightarrow> nat" where
  "step_in len delta cur = nat ((int (min cur (len - 1)) + delta) mod int len)"

definition move_selection :: "view_model \<Rightarrow> int \<Rightarrow> home \<Rightarrow> home" where
  "move_selection v delta h = (case hm_focus h of
     FocusSidebar \<Rightarrow>
       (let len = sidebar_len v
        in if len = 0 then h else h\<lparr> hm_sidebar_idx := step_in len delta (hm_sidebar_idx h) \<rparr>)
   | FocusPane \<Rightarrow>
       (let len = (case get_pane v (hm_active_pane h) of Some p \<Rightarrow> length (pd_items p) | None \<Rightarrow> 0)
        in if len = 0 then h
           else h\<lparr> hm_pane_sel := (hm_pane_sel h)[hm_active_pane h :=
                     step_in len delta (hm_pane_sel h ! hm_active_pane h)] \<rparr>))"

definition open_selected :: "view_model \<Rightarrow> home \<Rightarrow> home \<times> app_action list" where
  "open_selected v h = (case target_at v (hm_sidebar_idx h) of
     Some target \<Rightarrow>
       (h\<lparr> hm_pane_sel := (hm_pane_sel h)[hm_active_pane h := 0], hm_focus := FocusPane \<rparr>,
        [AcOpenView target (hm_active_pane h)])
   | None \<Rightarrow> (h, []))"

definition selected_item :: "view_model \<Rightarrow> home \<Rightarrow> (list_id \<times> string) option" where
  "selected_item v h = (case get_pane v (hm_active_pane h) of
     None \<Rightarrow> None
   | Some p \<Rightarrow>
       (let s = hm_pane_sel h ! hm_active_pane h
        in if s < length (pd_items p) then Some (fst (pd_items p ! s), ti_id (snd (pd_items p ! s))) else None))"

definition current_list :: "view_model \<Rightarrow> home \<Rightarrow> list_id option" where
  "current_list v h = (case get_pane v (hm_active_pane h) of
     Some p \<Rightarrow> (case pd_target p of Some (TargetList l) \<Rightarrow> Some l | _ \<Rightarrow> None)
   | None \<Rightarrow> None)"

definition selected_user_list :: "view_model \<Rightarrow> home \<Rightarrow> (list_id \<times> string) option" where
  "selected_user_list v h =
     (let metas = length meta_list_all; i = hm_sidebar_idx h
      in if i < metas then None
         else if i - metas < length (vm_lists v)
           then Some (ls_id (vm_lists v ! (i - metas)), ls_name (vm_lists v ! (i - metas)))
         else None)"

definition command_list :: "view_model \<Rightarrow> home \<Rightarrow> list_id option" where
  "command_list v h = (case hm_focus h of
     FocusSidebar \<Rightarrow> map_option fst (selected_user_list v h)
   | FocusPane \<Rightarrow> current_list v h)"

section \<open>Pane layout\<close>

definition split_panes :: "direction \<Rightarrow> view_model \<Rightarrow> home \<Rightarrow> home \<times> view_model \<times> app_action list" where
  "split_panes dir v h =
     (let (v, h) = (if length (vm_panes v) = 1
            then (v\<lparr> vm_panes := vm_panes v @ [vm_panes v ! 0] \<rparr>,
                  h\<lparr> hm_pane_sel := (hm_pane_sel h)[1 := hm_pane_sel h ! 0] \<rparr>)
            else (v, h))
      in (h\<lparr> hm_active_pane := 1, hm_focus := FocusPane \<rparr>, v\<lparr> vm_split := Some dir \<rparr>, [AcRefreshLists]))"

definition close_pane :: "view_model \<Rightarrow> home \<Rightarrow> home \<times> view_model \<times> app_action list" where
  "close_pane v h =
     (if length (vm_panes v) \<le> 1 then (h, v, [])
      else (let keep = min (hm_active_pane h) (length (vm_panes v) - 1)
            in (h\<lparr> hm_pane_sel := [hm_pane_sel h ! keep, 0], hm_active_pane := 0 \<rparr>,
                v\<lparr> vm_panes := [vm_panes v ! keep], vm_split := None \<rparr>, [AcRefreshLists])))"

definition cycle_pane :: "view_model \<Rightarrow> home \<Rightarrow> home" where
  "cycle_pane v h =
     (let n = length (vm_panes v)
      in if 1 < n then h\<lparr> hm_focus := FocusPane, hm_active_pane := (hm_active_pane h + 1) mod n \<rparr> else h)"

definition resize :: "int \<Rightarrow> view_model \<Rightarrow> view_model" where
  "resize delta v = (if vm_split v \<noteq> None then v\<lparr> vm_ratio := max 10 (min 90 (vm_ratio v + delta)) \<rparr> else v)"

definition cycle_focus :: "view_model \<Rightarrow> home \<Rightarrow> home" where
  "cycle_focus v h =
     (if hm_focus h = FocusSidebar then h\<lparr> hm_focus := FocusPane, hm_active_pane := 0 \<rparr>
      else if hm_active_pane h = 0 \<and> vm_split v \<noteq> None then h\<lparr> hm_active_pane := 1 \<rparr>
      else h\<lparr> hm_focus := FocusSidebar \<rparr>)"

section \<open>Commands\<close>

definition send_opt :: "home \<Rightarrow> view_model \<Rightarrow> app_action option \<Rightarrow> home \<times> view_model \<times> app_action list" where
  "send_opt h v a = (h, v, case a of Some x \<Rightarrow> [x] | None \<Rightarrow> [])"

fun execute :: "home_cmd \<Rightarrow> view_model \<Rightarrow> home \<Rightarrow> home \<times> view_model \<times> app_action list" where
  "execute HcFocusSidebar v h = (h\<lparr> hm_focus := FocusSidebar \<rparr>, v, [])"
| "execute HcFocusPane v h = (h\<lparr> hm_focus := FocusPane \<rparr>, v, [])"
| "execute HcCycleFocus v h = (cycle_focus v h, v, [])"
| "execute HcSelectNext v h = (move_selection v 1 h, v, [])"
| "execute HcSelectPrev v h = (move_selection v (- 1) h, v, [])"
| "execute HcOpenSelected v h =
     (if hm_focus h = FocusSidebar then (case open_selected v h of (h, s) \<Rightarrow> (h, v, s)) else (h, v, []))"
| "execute HcSplitHorizontal v h = split_panes Horizontal v h"
| "execute HcSplitVertical v h = split_panes Vertical v h"
| "execute HcCyclePane v h = (cycle_pane v h, v, [])"
| "execute HcClosePane v h = close_pane v h"
| "execute HcGrowPane v h = (h, resize 5 v, [])"
| "execute HcShrinkPane v h = (h, resize (- 5) v, [])"
| "execute HcNewList v h = (h, v, [AcNewListModal])"
| "execute HcCycleSort v h = (h, v, [AcCycleSort])"
| "execute HcShare v h = send_opt h v (map_option AcShareModal (command_list v h))"
| "execute HcMembers v h = send_opt h v (map_option AcMembersModal (command_list v h))"
| "execute HcAddTodo v h = send_opt h v (map_option AcAddTodoModal (current_list v h))"
| "execute HcEditTodo v h = send_opt h v
     (if hm_focus h = FocusPane then map_option (\<lambda>(l, i). AcEditTodoModal l i) (selected_item v h) else None)"
| "execute HcToggleDone v h = send_opt h v
     (if hm_focus h = FocusPane then map_option (\<lambda>(l, i). AcToggleDone l i) (selected_item v h) else None)"
| "execute HcRename v h = send_opt h v (map_option (\<lambda>(l, n). AcRenameListModal l n) (selected_user_list v h))"
| "execute HcDelete v h = send_opt h v (case hm_focus h of
     FocusSidebar \<Rightarrow> map_option (\<lambda>(l, _). AcConfirmDelete (DelList l)) (selected_user_list v h)
   | FocusPane \<Rightarrow> map_option (\<lambda>(l, i). AcConfirmDelete (DelTodo l i)) (selected_item v h))"

definition hint :: "home_cmd keymap \<Rightarrow> (home_cmd \<times> string) list \<Rightarrow> string" where
  "hint km its = '' '' @ join_with '' '' (List.map_filter
      (\<lambda>(verb, label). map_option (\<lambda>k. k @ '':'' @ label) (first_key_for km verb)) its) @ '' ''"

definition rebuild_hints :: "home \<Rightarrow> home" where
  "rebuild_hints h = h\<lparr>
     hm_layout_hint := hint (hm_keymap h) [(HcSplitHorizontal, ''split''), (HcSplitVertical, ''stack''),
        (HcCyclePane, ''pane''), (HcClosePane, ''close'')],
     hm_command_hint := hint (hm_keymap h) [(HcNewList, ''new''), (HcAddTodo, ''add''), (HcEditTodo, ''edit''),
        (HcToggleDone, ''done''), (HcDelete, ''del''), (HcCycleSort, ''sort''), (HcShare, ''share''),
        (HcMembers, ''members'')] \<rparr>"

definition home_configure :: "key_bindings \<Rightarrow> home \<Rightarrow> home" where
  "home_configure kb h = rebuild_hints (h\<lparr> hm_keymap := compile_keymap (kb CHome) parse_home_cmd \<rparr>)"

definition home_key :: "key_event \<Rightarrow> view_model \<Rightarrow> home \<Rightarrow> home \<times> view_model \<times> app_action list" where
  "home_key key v h =
     (case resolve (hm_keymap h) (hm_pending h) key of (r, p) \<Rightarrow>
        (case r of Some cmd \<Rightarrow> execute cmd v (h\<lparr> hm_pending := p \<rparr>) | None \<Rightarrow> (h\<lparr> hm_pending := p \<rparr>, v, [])))"

definition home_update :: "app_action \<Rightarrow> home \<Rightarrow> home" where
  "home_update a h = (case a of
     AcToggleSidebar \<Rightarrow>
       (if hm_sidebar_visible h then h\<lparr> hm_sidebar_visible := False, hm_focus := FocusPane \<rparr>
        else h\<lparr> hm_sidebar_visible := True \<rparr>)
   | AcTick \<Rightarrow> h\<lparr> hm_pending := [] \<rparr>
   | _ \<Rightarrow> h)"

text \<open>The rows drawn as selected.\<close>

definition pane_highlight :: "view_model \<Rightarrow> home \<Rightarrow> nat \<Rightarrow> nat option" where
  "pane_highlight v h i = (case get_pane v i of
     Some p \<Rightarrow> (if pd_items p = [] then None else Some (min (hm_pane_sel h ! i) (length (pd_items p) - 1)))
   | None \<Rightarrow> None)"

definition sidebar_highlight :: "view_model \<Rightarrow> home \<Rightarrow> nat" where
  "sidebar_highlight v h = min (hm_sidebar_idx h) (sidebar_len v - 1)"

section \<open>The app's changes of the view model\<close>

definition open_view :: "view_target \<Rightarrow> nat \<Rightarrow> view_model \<Rightarrow> view_model" where
  "open_view target pane v =
     (if pane < length (vm_panes v)
      then v\<lparr> vm_panes := (vm_panes v)[pane := (vm_panes v ! pane)\<lparr> pd_target := Some target \<rparr>] \<rparr> else v)"

fun install_items :: "pane_data list \<Rightarrow> (list_id \<times> todo_item) list list \<Rightarrow> pane_data list" where
  "install_items (p # ps) (its # r) = p\<lparr> pd_items := its \<rparr> # install_items ps r"
| "install_items ps _ = ps"

definition install_snapshot :: "view_snapshot \<Rightarrow> view_model \<Rightarrow> view_model" where
  "install_snapshot s v = v\<lparr> vm_lists := vs_lists s, vm_panes := install_items (vm_panes v) (vs_panes s) \<rparr>"

definition repoint :: "list_id \<Rightarrow> view_model \<Rightarrow> view_model" where
  "repoint l v = v\<lparr> vm_panes := map (\<lambda>p. if pd_target p = Some (TargetList l)
     then p\<lparr> pd_target := Some (TargetMeta AllTasks) \<rparr> else p) (vm_panes v) \<rparr>"

definition cycle_sort :: "view_model \<Rightarrow> view_model" where
  "cycle_sort v = v\<lparr> vm_sort := sort_mode_next (vm_sort v) \<rparr>"

section \<open>The layout invariant\<close>

definition workspace_wf :: "view_model \<Rightarrow> home \<Rightarrow> bool" where
  "workspace_wf v h \<longleftrightarrow> length (hm_pane_sel h) = 2 \<and> 1 \<le> length (vm_panes v) \<and> length (vm_panes v) \<le> 2 \<and>
     (vm_split v \<noteq> None \<longleftrightarrow> length (vm_panes v) = 2) \<and> hm_active_pane h < length (vm_panes v) \<and>
     10 \<le> vm_ratio v \<and> vm_ratio v \<le> 90"

lemma length_install_items [simp]: "length (install_items ps its) = length ps"
  by (induction ps its rule: install_items.induct) auto

lemma workspace_new: "workspace_wf view_default home_new"
  by (simp add: workspace_wf_def view_default_def home_new_def)

lemmas layout_defs = workspace_wf_def cycle_focus_def move_selection_def open_selected_def split_panes_def
  close_pane_def cycle_pane_def resize_def send_opt_def

lemma execute_wf:
  assumes "workspace_wf v h" and "execute cmd v h = (h', v', s)"
  shows "workspace_wf v' h'"
proof (cases cmd)
  case HcSplitHorizontal
  then show ?thesis using assms by (cases "length (vm_panes v) = 1") (auto simp: layout_defs)
next
  case HcSplitVertical
  then show ?thesis using assms by (cases "length (vm_panes v) = 1") (auto simp: layout_defs)
next
  case HcClosePane
  then show ?thesis using assms by (cases "length (vm_panes v) \<le> 1") (auto simp: layout_defs Let_def)
next
  case HcCyclePane
  have "(hm_active_pane h + 1) mod length (vm_panes v) < length (vm_panes v)"
    using assms(1) by (intro mod_less_divisor) (auto simp: workspace_wf_def)
  then show ?thesis using assms HcCyclePane by (auto simp: layout_defs Let_def split: if_splits)
qed (use assms in \<open>auto simp: layout_defs Let_def split: if_splits panel.splits option.splits prod.splits\<close>)

lemma home_key_wf:
  assumes "workspace_wf v h" and "home_key key v h = (h', v', s)"
  shows "workspace_wf v' h'"
proof -
  have "workspace_wf v (h\<lparr> hm_pending := p \<rparr>)" for p using assms(1) by (simp add: workspace_wf_def)
  then show ?thesis using assms(2)
    by (auto simp: home_key_def split: prod.splits option.splits intro: execute_wf)
qed

lemma home_update_wf: "workspace_wf v h \<Longrightarrow> workspace_wf v (home_update a h)"
  by (auto simp: home_update_def workspace_wf_def split: app_action.split)

lemma home_configure_wf: "workspace_wf v h \<Longrightarrow> workspace_wf v (home_configure kb h)"
  by (simp add: home_configure_def rebuild_hints_def workspace_wf_def)

lemma view_ops_wf:
  "workspace_wf v h \<Longrightarrow> workspace_wf (open_view t i v) h" "workspace_wf v h \<Longrightarrow> workspace_wf (install_snapshot sn v) h"
  "workspace_wf v h \<Longrightarrow> workspace_wf (repoint l v) h" "workspace_wf v h \<Longrightarrow> workspace_wf (cycle_sort v) h"
  by (simp_all add: workspace_wf_def open_view_def install_snapshot_def repoint_def cycle_sort_def)

section \<open>Selection\<close>

lemma step_in_bound: "0 < len \<Longrightarrow> step_in len delta cur < len"
  by (simp add: step_in_def nat_less_iff)

lemma step_in_mod:
  assumes "cur < len"
  shows "step_in len 1 cur = (cur + 1) mod len" "step_in len (- 1) cur = (cur + len - 1) mod len"
proof -
  have m: "min cur (len - 1) = cur" using assms by simp
  show "step_in len 1 cur = (cur + 1) mod len"
    unfolding step_in_def m by (metis nat_int of_nat_1 of_nat_add zmod_int)
  have "(int cur + - 1) mod int len = (int cur + - 1 + int len) mod int len" by simp
  also have "int cur + - 1 + int len = int (cur + len - 1)" using assms by linarith
  finally show "step_in len (- 1) cur = (cur + len - 1) mod len"
    unfolding step_in_def m by (metis nat_int zmod_int)
qed

interpretation sidebar_ring: ring_selector hm_sidebar_idx "sidebar_len v" "move_selection v 1" "move_selection v (- 1)"
  "\<lambda>h. hm_focus h = FocusSidebar \<and> hm_sidebar_idx h < sidebar_len v" for v
  by unfold_locales (auto simp: move_selection_def Let_def step_in_mod)

text \<open>The highlighted row is not always the selected one.  The table highlights the last row
  whenever the stored selection is past the end, which happens when a snapshot brings fewer items
  (the last item was deleted or completed elsewhere); the commands read the stored selection, so
  although a row is highlighted, edit, toggle and delete then do nothing at all.\<close>

lemma highlight_without_selection:
  assumes "hm_focus h = FocusPane" and "get_pane v (hm_active_pane h) = Some p" and "pd_items p \<noteq> []"
    and "length (pd_items p) \<le> hm_pane_sel h ! hm_active_pane h"
  shows "pane_highlight v h (hm_active_pane h) = Some (length (pd_items p) - 1) \<and>
     execute HcEditTodo v h = (h, v, []) \<and> execute HcToggleDone v h = (h, v, []) \<and> execute HcDelete v h = (h, v, [])"
  using assms by (simp add: pane_highlight_def selected_item_def send_opt_def Let_def)

definition demo_pane :: "nat \<Rightarrow> pane_data" where
  "demo_pane n = \<lparr> pd_target = Some (TargetMeta AllTasks), pd_items = replicate n (fixed_repeat 1,
     \<lparr> ti_id = ''i'', ti_title = ''t'', ti_notes = [], ti_due = None, ti_priority = PNone, ti_done = False,
       ti_tags = [], ti_subtasks = [], ti_order_key = [] \<rparr>) \<rparr>"

end
