(* ===== verification/App.thy ===== *)
theory App
  imports Modal Home
begin

text \<open>
  The application (\<open>src/todoers/src/app.rs\<close>): terminal events, the auth gate, the dispatch of actions,
  and the replies of the store worker.  The unbounded action channel is the list \<open>ap_queue\<close>; the
  commands sent to the worker are recorded in \<open>ap_cmds\<close>, which is \<open>None\<close> until the data layer is
  built; an off-loop task is recorded in \<open>ap_tasks\<close> when it is spawned, and its result arrives
  later as actions (\<open>AppTasks\<close>).  What a frame shows is in \<open>Screens\<close>, the terminal in \<open>Terminal\<close>.
\<close>

section \<open>State\<close>

record device_unlock_config =
  du_enabled :: bool
  du_recipient :: "string option"
  du_identity :: "string option"

record app_config =
  cf_server_url :: string
  cf_device_unlock :: device_unlock_config
  cf_editing :: editing_mode
  cf_bindings :: key_bindings

datatype app_task =
    TaskDeviceUnlock
  | TaskRegister string string
  | TaskLogin string string
  | TaskLookup list_id string string

record 'ta app_env =
  ae_ui :: "'ta ui"
  ae_config :: app_config
  ae_dbg :: "client_error \<Rightarrow> string"

record 'ta app =
  ap_account :: "new_account option"
  ap_home :: home
  ap_should_quit :: bool
  ap_should_suspend :: bool
  ap_capturing :: bool
  ap_prev_mode :: app_mode
  ap_mode :: app_mode
  ap_modal :: "'ta modal option"
  ap_last_keys :: "key_event list"
  ap_global_keys :: "app_action keymap"
  ap_queue :: "app_action list"
  ap_footer :: app_mode
  ap_acct_keys :: "unlocked_keys option"
  ap_account_verified :: bool
  ap_account_checked :: bool
  ap_device_unlock_attempted :: bool
  ap_cmds :: "store_command list option"
  ap_pending_edit :: "(list_id \<times> todo_item) option"
  ap_pending_members :: "(list_id \<times> member list \<times> member_id) option"
  ap_view :: view_model
  ap_tasks :: "app_task list"

definition app_new :: "app_config \<Rightarrow> new_account option \<Rightarrow> unlocked_keys option \<Rightarrow> 'ta app" where
  "app_new cf account keys = \<lparr> ap_account = account, ap_home = home_new, ap_should_quit = False,
     ap_should_suspend = False, ap_capturing = False, ap_prev_mode = MHome, ap_mode = MHome, ap_modal = None,
     ap_last_keys = [], ap_global_keys = compile_keymap (cf_bindings cf CGlobal) parse_global_action,
     ap_queue = [], ap_footer = MHome, ap_acct_keys = keys, ap_account_verified = False,
     ap_account_checked = False, ap_device_unlock_attempted = False, ap_cmds = None, ap_pending_edit = None,
     ap_pending_members = None, ap_view = view_default, ap_tasks = [] \<rparr>"

definition is_global_chord :: "key_event \<Rightarrow> bool" where
  "is_global_chord k \<longleftrightarrow> m_control (k_mods k) \<or> m_alt (k_mods k)"

fun mode_captures_input :: "app_mode \<Rightarrow> bool" where
  "mode_captures_input MHome = False"
| "mode_captures_input MRegister = True"
| "mode_captures_input MLogin = True"

definition resolved_member :: "user_pubkeys \<Rightarrow> member" where
  "resolved_member dto = \<lparr> mem_id = uk_member_id dto, mem_identity_pub = uk_identity_pub dto,
     mem_signing_pub = uk_signing_pub dto, mem_role = Member \<rparr>"

definition send :: "app_action list \<Rightarrow> 'ta app \<Rightarrow> 'ta app" where
  "send acts a = a\<lparr> ap_queue := ap_queue a @ acts \<rparr>"

definition spawn :: "app_task \<Rightarrow> 'ta app \<Rightarrow> 'ta app" where
  "spawn t a = a\<lparr> ap_tasks := ap_tasks a @ [t] \<rparr>"

definition store_cmd :: "store_command \<Rightarrow> 'ta app \<Rightarrow> 'ta app" where
  "store_cmd c a = (case ap_cmds a of Some cs \<Rightarrow> a\<lparr> ap_cmds := Some (cs @ [c]) \<rparr> | None \<Rightarrow> a)"

definition send_set_view :: "'ta app \<Rightarrow> 'ta app" where
  "send_set_view a = store_cmd (SetView (map pd_target (vm_panes (ap_view a))) (vm_sort (ap_view a))) a"

definition session_member_id :: "'ta app \<Rightarrow> member_id" where
  "session_member_id a = (case ap_account a of Some acct \<Rightarrow> na_member_id acct
     | None \<Rightarrow> (case ap_acct_keys a of Some k \<Rightarrow> ul_member_id k | None \<Rightarrow> fixed_repeat 0))"

text \<open>The token to revoke on exit, if there is one.\<close>

definition logout_token :: "'ta app \<Rightarrow> string option" where
  "logout_token a = (case ap_acct_keys a of
     Some k \<Rightarrow> (if ul_token k = [] then None else Some (ul_token k)) | None \<Rightarrow> None)"

text \<open>The mode map only holds \<open>Home\<close>.\<close>

definition modes_contain :: "app_mode \<Rightarrow> bool" where "modes_contain m \<longleftrightarrow> m = MHome"

definition active_mode :: "'ta app \<Rightarrow> app_mode" where
  "active_mode a = (if modes_contain (ap_mode a) then ap_mode a
     else if modes_contain (ap_prev_mode a) then ap_prev_mode a else MHome)"

section \<open>Modals\<close>

definition open_modal :: "'ta app_env \<Rightarrow> 'ta modal \<Rightarrow> 'ta app \<Rightarrow> 'ta app" where
  "open_modal E m a =
     a\<lparr> ap_modal := Some (modal_configure (cf_bindings (ae_config E)) (cf_editing (ae_config E)) m) \<rparr>"

definition open_form_modal :: "'ta app_env \<Rightarrow> string \<Rightarrow> 'ta body \<Rightarrow> 'ta app \<Rightarrow> 'ta app" where
  "open_form_modal E title b a = send [AcStartCapture] (open_modal E (modal_form title b AcCloseModal) a)"

definition refresh_keys :: "'ta app \<Rightarrow> 'ta app" where
  "refresh_keys a = a\<lparr> ap_footer := ap_mode a \<rparr>"

definition handle_switch_mode :: "'ta app_env \<Rightarrow> app_mode \<Rightarrow> 'ta app \<Rightarrow> 'ta app" where
  "handle_switch_mode E m a =
     (let a = refresh_keys (a\<lparr> ap_prev_mode := ap_mode a, ap_mode := m \<rparr>)
      in a\<lparr> ap_home := home_configure (cf_bindings (ae_config E)) (ap_home a) \<rparr>)"

definition auth_chooser_text :: string where
  "auth_chooser_text = ''You're not signed in. Log in to an existing account, or register a new one.''"

definition open_auth_chooser :: "'ta app_env \<Rightarrow> 'ta app \<Rightarrow> 'ta app" where
  "open_auth_chooser E a =
     (let m = modal_new ''Welcome'' (BPrompt auth_chooser_text)
                [button_new ''Login'' AcLoginModal, button_new ''Register'' AcRegisterModal] AcQuit
      in open_modal E m (refresh_keys (a\<lparr> ap_prev_mode := ap_mode a, ap_mode := MHome \<rparr>)\<lparr> ap_capturing := False \<rparr>))"

definition open_unlock :: "'ta app_env \<Rightarrow> 'ta app \<Rightarrow> 'ta app" where
  "open_unlock E a =
     (let m = modal_form ''Unlock'' (BUnlock (unlock_new (ui_area (ae_ui E)))) AcAuthChooser
      in send [AcStartCapture] (open_modal E m (refresh_keys (a\<lparr> ap_prev_mode := ap_mode a, ap_mode := MHome \<rparr>))))"

definition open_register :: "'ta app_env \<Rightarrow> 'ta app \<Rightarrow> 'ta app" where
  "open_register E a =
     (let m = modal_form ''Register'' (BRegister (register_new (ui_area (ae_ui E)))) AcAuthChooser
      in send [AcStartCapture] (open_modal E m (refresh_keys (a\<lparr> ap_mode := MRegister \<rparr>))))"

definition open_login :: "'ta app_env \<Rightarrow> 'ta app \<Rightarrow> 'ta app" where
  "open_login E a =
     (let m = modal_form ''Login'' (BLogin (login_new (ui_area (ae_ui E)))) AcAuthChooser
      in send [AcStartCapture] (open_modal E m (refresh_keys (a\<lparr> ap_mode := MLogin \<rparr>))))"

definition close_modal :: "'ta app_env \<Rightarrow> 'ta app \<Rightarrow> 'ta app" where
  "close_modal E a = (let a = a\<lparr> ap_modal := None, ap_capturing := False \<rparr> in handle_switch_mode E (ap_prev_mode a) a)"

fun confirm_delete :: "delete_target \<Rightarrow> string \<times> app_action" where
  "confirm_delete (DelList l) = (''Delete this list and all of its todos? This cannot be undone.'', AcDeleteList l)"
| "confirm_delete (DelTodo l i) = (''Delete this todo?'', AcDeleteTodo l i)"

definition open_confirm_delete :: "'ta app_env \<Rightarrow> delete_target \<Rightarrow> 'ta app \<Rightarrow> 'ta app" where
  "open_confirm_delete E t a = (case confirm_delete t of (msg, del) \<Rightarrow>
     open_modal E (modal_new ''Confirm Delete'' (BPrompt msg)
       [button_new ''Delete'' del, button_new ''Cancel'' AcCloseModal] AcCloseModal) a)"

section \<open>Dispatch\<close>

text \<open>The actions on members and the sort order, and the dialogs that waited for the worker.\<close>

fun perform_sharing :: "'ta app_env \<Rightarrow> app_action \<Rightarrow> 'ta app \<Rightarrow> 'ta app" where
  "perform_sharing E (AcShareModal l) a = open_form_modal E ''Share List'' (BShare l (share_form_new (ui_area (ae_ui E)))) a"
| "perform_sharing E (AcShareList l u) a =
     spawn (TaskLookup l (case ap_acct_keys a of Some k \<Rightarrow> ul_token k | None \<Rightarrow> []) u) a"
| "perform_sharing E (AcAddResolvedMember l m) a = send [AcCloseModal] (store_cmd (AddMember l m) a)"
| "perform_sharing E (AcMembersModal l) a = store_cmd (FetchMembers l) a"
| "perform_sharing E (AcUnshare l m) a = send [AcCloseModal] (store_cmd (RemoveMember l m) a)"
| "perform_sharing E AcCycleSort a = send_set_view (a\<lparr> ap_view := cycle_sort (ap_view a) \<rparr>)"
| "perform_sharing E AcOpenEditReady a = (case ap_pending_edit a of
     Some (l, item) \<Rightarrow> open_form_modal E ''Edit Todo''
       (BTodo (todo_form_edit (ui_area (ae_ui E)) (ui_today (ae_ui E)) l item)) (a\<lparr> ap_pending_edit := None \<rparr>)
   | None \<Rightarrow> a)"
| "perform_sharing E AcOpenMembersReady a = (case ap_pending_members a of
     Some (l, ms, me) \<Rightarrow> open_modal E (modal_message ''Members'' (BMembers (members_new l ms me)))
       (a\<lparr> ap_pending_members := None \<rparr>)
   | None \<Rightarrow> a)"
| "perform_sharing E _ a = a"

text \<open>The actions on lists and todos.\<close>

fun perform_data :: "'ta app_env \<Rightarrow> app_action \<Rightarrow> 'ta app \<Rightarrow> 'ta app" where
  "perform_data E (AcOpenView t i) a = send_set_view (a\<lparr> ap_view := open_view t i (ap_view a) \<rparr>)"
| "perform_data E AcRefreshLists a = send_set_view a"
| "perform_data E AcNewListModal a = open_form_modal E ''New List'' (BList OpCreate (list_form_create (ui_area (ae_ui E)))) a"
| "perform_data E (AcRenameListModal l name) a =
     open_form_modal E ''Rename List'' (BList (OpRename l) (list_form_rename (ui_area (ae_ui E)) name)) a"
| "perform_data E (AcAddTodoModal l) a =
     open_form_modal E ''Add Todo'' (BTodo (todo_form_add (ui_area (ae_ui E)) (ui_today (ae_ui E)) l)) a"
| "perform_data E (AcEditTodoModal l i) a = store_cmd (FetchFullItem l i) a"
| "perform_data E (AcCreateList name) a = send [AcCloseModal] (store_cmd (CreateList name) a)"
| "perform_data E (AcRenameList l name) a = send [AcCloseModal] (store_cmd (RenameList l name) a)"
| "perform_data E (AcSaveTodo l item input) a = send [AcCloseModal]
     (store_cmd (case item of Some i \<Rightarrow> EditTodo l i input | None \<Rightarrow> AddTodo l input) a)"
| "perform_data E (AcToggleDone l i) a = store_cmd (ToggleDone l i) a"
| "perform_data E (AcConfirmDelete t) a = open_confirm_delete E t a"
| "perform_data E (AcDeleteList l) a =
     (let a = store_cmd (DeleteList l) a; a = a\<lparr> ap_view := repoint l (ap_view a) \<rparr>
      in send [AcCloseModal] (send_set_view a))"
| "perform_data E (AcDeleteTodo l i) a = send [AcCloseModal] (store_cmd (DeleteTodo l i) a)"
| "perform_data E act a = perform_sharing E act a"

text \<open>The other actions: the loop itself, the modes, the session, and the dialogs around it.\<close>

fun perform :: "'ta app_env \<Rightarrow> app_action \<Rightarrow> 'ta app \<Rightarrow> 'ta app" where
  "perform E AcTick a = a\<lparr> ap_last_keys := [] \<rparr>"
| "perform E AcQuit a = a\<lparr> ap_should_quit := True \<rparr>"
| "perform E AcSuspend a = a\<lparr> ap_should_suspend := True \<rparr>"
| "perform E AcResume a = a\<lparr> ap_should_suspend := False \<rparr>"
| "perform E (AcSetMode m) a = handle_switch_mode E m a"
| "perform E AcStartCapture a = a\<lparr> ap_capturing := True \<rparr>"
| "perform E AcStopCapture a = a\<lparr> ap_capturing := False \<rparr>"
| "perform E (AcKeys keys) a =
     (let a = a\<lparr> ap_acct_keys := Some keys \<rparr>
      in if ap_account a = None then a\<lparr> ap_account_checked := False \<rparr> else a)"
| "perform E AcUnlockModal a = open_unlock E a"
| "perform E AcDeviceUnlock a = spawn TaskDeviceUnlock a"
| "perform E (AcRegister u p) a = spawn (TaskRegister u p) a"
| "perform E (AcLogin u p) a = spawn (TaskLogin u p) a"
| "perform E (AcUnlock p) a = (case ap_account a of
     Some acct \<Rightarrow> spawn (TaskLogin (na_username acct) p) a
   | None \<Rightarrow> send [AcError ''No local account found; please register or log in.''] a)"
| "perform E AcHelpModal a = open_modal E (modal_message ''Help'' (BHelp (ap_mode a))) a"
| "perform E AcAuthChooser a = open_auth_chooser E a"
| "perform E AcRegisterModal a = open_register E a"
| "perform E AcLoginModal a = open_login E a"
| "perform E AcCloseModal a = close_modal E a"
| "perform E act a = perform_data E act a"

text \<open>After its own handling the action goes to the modal, or to the workspace when none is open.\<close>

definition forward_action :: "'ta app_env \<Rightarrow> app_action \<Rightarrow> 'ta app \<Rightarrow> 'ta app" where
  "forward_action E act a = (case ap_modal a of
     Some m \<Rightarrow> (case modal_update (ae_ui E) act m of
        (m, r, s) \<Rightarrow> send (s @ (case r of Some x \<Rightarrow> [x] | None \<Rightarrow> [])) (a\<lparr> ap_modal := Some m \<rparr>))
   | None \<Rightarrow> a\<lparr> ap_home := home_update act (ap_home a) \<rparr>)"

definition dispatch_action :: "'ta app_env \<Rightarrow> app_action \<Rightarrow> 'ta app \<Rightarrow> 'ta app" where
  "dispatch_action E act a = forward_action E act (perform E act a)"

text \<open>One turn dispatches what was queued at its start; the flag says whether to render.\<close>

definition handle_actions :: "'ta app_env \<Rightarrow> 'ta app \<Rightarrow> 'ta app \<times> bool" where
  "handle_actions E a = (fold (dispatch_action E) (ap_queue a) (a\<lparr> ap_queue := [] \<rparr>), AcRender \<in> set (ap_queue a))"

section \<open>Events\<close>

definition handle_key_event :: "key_event \<Rightarrow> 'ta app \<Rightarrow> 'ta app" where
  "handle_key_event key a =
     (if ap_capturing a \<and> \<not> is_global_chord key then a
      else case resolve (ap_global_keys a) (ap_last_keys a) key of
             (r, p) \<Rightarrow> send (case r of Some act \<Rightarrow> [act] | None \<Rightarrow> []) (a\<lparr> ap_last_keys := p \<rparr>))"

text \<open>What the environment answers on a tick: the local account, and whether the session and the sync
  engine could be built.\<close>

record tick_env =
  tk_account :: "client_error + new_account option"
  tk_session :: "client_error + unit"

definition load_account_step :: "tick_env \<Rightarrow> 'ta app \<Rightarrow> client_error + 'ta app" where
  "load_account_step W a =
     (if ap_account a \<noteq> None then Inr a
      else case tk_account W of Inl e \<Rightarrow> Inl e
           | Inr (Some acct) \<Rightarrow> Inr (a\<lparr> ap_account := Some acct \<rparr>)
           | Inr None \<Rightarrow> Inr a)"

definition init_session :: "tick_env \<Rightarrow> 'ta app \<Rightarrow> client_error + 'ta app" where
  "init_session W a =
     (if ap_cmds a \<noteq> None then Inr a
      else if ap_acct_keys a = None then Inr a
      else case tk_session W of Inl e \<Rightarrow> Inl e | Inr _ \<Rightarrow> Inr (send_set_view (a\<lparr> ap_cmds := Some [] \<rparr>)))"

definition auth_gate :: "'ta app_env \<Rightarrow> tick_env \<Rightarrow> 'ta app \<Rightarrow> client_error + 'ta app" where
  "auth_gate E W a =
     (if ap_account_verified a \<or> ap_modal a \<noteq> None then Inr a
      else case (if ap_account a = None \<and> \<not> ap_account_checked a
                 then load_account_step W (a\<lparr> ap_account_checked := True \<rparr>) else Inr a) of
        Inl e \<Rightarrow> Inl e
      | Inr a \<Rightarrow>
          (if ap_account a = None \<and> ap_acct_keys a = None then Inr (send [AcAuthChooser] a)
           else if ap_account a \<noteq> None \<and> ap_acct_keys a = None then
             Inr (if du_enabled (cf_device_unlock (ae_config E)) \<and> \<not> ap_device_unlock_attempted a
                  then send [AcDeviceUnlock] (a\<lparr> ap_device_unlock_attempted := True \<rparr>)
                  else if \<not> ap_device_unlock_attempted a then send [AcUnlockModal] a else a)
           else if ap_account a \<noteq> None \<and> ap_acct_keys a \<noteq> None then
             (case init_session W a of Inl e \<Rightarrow> Inl e | Inr a \<Rightarrow> Inr (a\<lparr> ap_account_verified := True \<rparr>))
           else Inr a))"

definition route_event :: "'ta app_env \<Rightarrow> tui_event \<Rightarrow> 'ta app \<Rightarrow> 'ta app" where
  "route_event E ev a = (case ap_modal a of
     Some m \<Rightarrow> (case modal_event (ae_ui E) ev m of
        (m, r, s) \<Rightarrow> send (s @ (case r of Some x \<Rightarrow> [x] | None \<Rightarrow> [])) (a\<lparr> ap_modal := Some m \<rparr>))
   | None \<Rightarrow> (case ev of
        EvKey k \<Rightarrow> (case home_key k (ap_view a) (ap_home a) of
           (h, v, s) \<Rightarrow> send s (a\<lparr> ap_home := h, ap_view := v \<rparr>))
      | _ \<Rightarrow> a))"

definition on_event :: "'ta app_env \<Rightarrow> tick_env \<Rightarrow> tui_event \<Rightarrow> 'ta app \<Rightarrow> client_error + 'ta app" where
  "on_event E W ev a =
     (case (case ev of
          EvQuit \<Rightarrow> Inr (send [AcQuit] a)
        | EvTick \<Rightarrow> (case auth_gate E W a of Inl e \<Rightarrow> Inl e | Inr a \<Rightarrow> Inr (send [AcTick] a))
        | EvRender \<Rightarrow> Inr (send [AcRender] a)
        | EvResize x y \<Rightarrow> Inr (send [AcResize x y] a)
        | EvKey k \<Rightarrow> Inr (if ap_modal a = None \<or> is_global_chord k then handle_key_event k a else a)
        | _ \<Rightarrow> Inr a) of
      Inl e \<Rightarrow> Inl e | Inr a \<Rightarrow> Inr (route_event E ev a))"

section \<open>Replies of the worker\<close>

fun handle_worker_msg :: "'ta app_env \<Rightarrow> worker_msg \<Rightarrow> 'ta app \<Rightarrow> 'ta app" where
  "handle_worker_msg E (MsgSnapshot s) a = send [AcRender] (a\<lparr> ap_view := install_snapshot s (ap_view a) \<rparr>)"
| "handle_worker_msg E (MsgFullItem (Some x)) a = send [AcOpenEditReady] (a\<lparr> ap_pending_edit := Some x \<rparr>)"
| "handle_worker_msg E (MsgFullItem None) a = a"
| "handle_worker_msg E (MsgMembers l ms) a =
     send [AcOpenMembersReady] (a\<lparr> ap_pending_members := Some (l, ms, session_member_id a) \<rparr>)"
| "handle_worker_msg E (MsgRefreshFailed e) a = send [AcError (''Worker error: refresh failed: '' @ ae_dbg E e)] a"
| "handle_worker_msg E (MsgError e) a = send [AcError (''Worker error: '' @ ae_dbg E e)] a"

section \<open>The end of a turn\<close>

text \<open>Suspend and come back, or leave the loop (\<open>True\<close>).\<close>

definition finish_turn :: "'ta app \<Rightarrow> 'ta app \<times> bool" where
  "finish_turn a =
     (if ap_should_suspend a then (send [AcResume, AcClearScreen] a, False)
      else (a, ap_should_quit a))"

section \<open>What every reachable state satisfies\<close>

definition modal_wf :: "'ta modal \<Rightarrow> bool" where
  "modal_wf m \<longleftrightarrow> body_wf (md_body m) \<and> md_focused m < length (md_buttons m)"

lemma unlock_list_wf [simp]:
  "body_wf (fst (wrap BUnlock x))" "body_wf (fst (wrap (BList op) y))" "body_wf (fst (wrap (BShare l) y))"
  "body_wf (fst (wrap BMembers z))"
  by (simp_all add: wrap_def split: prod.split)

lemma fst_wrap [simp]: "fst (wrap c r) = c (fst r)"
  by (simp add: wrap_def split: prod.split)

lemma body_key_wf: "body_wf b \<Longrightarrow> body_wf (fst (body_key U k b))"
  by (cases b) (simp_all add: login_key_def register_key_def form_key_wf todo_key_wf)

lemma body_paste_wf: "body_wf b \<Longrightarrow> body_wf (fst (body_paste U s b))"
  by (cases b) (simp_all add: login_wf register_wf todo_event_wf)

lemma body_update_wf: "body_wf b \<Longrightarrow> body_wf (fst (body_update U a b))"
  by (cases b) (simp_all add: login_wf register_wf todo_update_wf)

lemma body_configure_wf: "body_wf b \<Longrightarrow> body_wf (body_configure kb em b)"
  by (cases b) (simp_all add: login_wf register_wf todo_configure_wf)

lemma body_key_captures [simp]: "body_captures (fst (body_key U k b)) = body_captures b"
  by (cases b) simp_all

lemma modal_wf_pending [simp]: "modal_wf (m\<lparr> md_pending := p \<rparr>) = modal_wf m"
  by (simp add: modal_wf_def)

lemma body_zone_key_wf:
  assumes "modal_wf m"
  shows "modal_wf (fst (body_zone_key U k m))"
proof -
  obtain b a s where bk: "body_key U k (md_body m) = (b, a, s)" by (metis prod_cases3)
  have wf: "body_wf b" using assms body_key_wf [of "md_body m" U k] bk by (simp add: modal_wf_def)
  obtain b' a' s' where bu: "body_update U AcStopCapture b = (b', a', s')" by (metis prod_cases3)
  have "body_wf b'" using body_update_wf [OF wf, of U AcStopCapture] bu by simp
  then show ?thesis using assms bk bu wf
    by (cases a) (auto simp: body_zone_key_def modal_wf_def split: app_action.split)
qed

lemma run_modal_cmd_wf:
  assumes "modal_wf m"
  shows "modal_wf (fst (run_modal_cmd U cmd m))"
proof -
  have ok: "buttons_ok (length (md_buttons m)) m" using assms by (simp add: modal_wf_def buttons_ok_def)
  have body: "md_body (modal_focus_next m) = md_body m" "md_body (modal_focus_prev m) = md_body m"
    by (simp_all add: modal_focus_next_def modal_focus_prev_def)
  have "body_wf (fst (body_update U AcStartCapture (md_body m)))"
    using assms by (simp add: modal_wf_def body_update_wf)
  then show ?thesis using assms modal_focus_ok [OF ok] body
    by (cases cmd) (auto simp: run_modal_cmd_def modal_wf_def buttons_ok_def split: prod.split)
qed

lemma with_body_wf: "modal_wf m \<Longrightarrow> body_wf (fst r) \<Longrightarrow> modal_wf (fst (with_body m r))"
  by (simp add: with_body_def modal_wf_def)

lemma modal_event_wf: "modal_wf m \<Longrightarrow> modal_wf (fst (modal_event U ev m))"
proof -
  assume m: "modal_wf m"
  then have "body_wf (md_body m)" by (simp add: modal_wf_def)
  then have "modal_wf (fst (modal_key U k m))" for k
    using m by (auto simp: modal_key_def Let_def body_zone_key_wf run_modal_cmd_wf with_body_wf body_key_wf
        split: prod.split option.split)
  then show ?thesis using m \<open>body_wf (md_body m)\<close>
    by (auto simp: modal_event_def modal_mouse_def with_body_wf body_paste_wf split: tui_event.split)
qed

lemma modal_update_wf: "modal_wf m \<Longrightarrow> modal_wf (fst (modal_update U a m))"
  unfolding modal_update_def by (rule with_body_wf) (auto simp: body_update_wf modal_wf_def)

lemma modal_new_wf: "body_wf b \<Longrightarrow> bs \<noteq> [] \<Longrightarrow> modal_wf (modal_new t b bs e)"
  by (simp add: modal_wf_def modal_new_def)

lemma modal_configure_wf: "modal_wf m \<Longrightarrow> modal_wf (modal_configure kb em m)"
  by (simp add: modal_wf_def modal_configure_def body_configure_wf)

definition app_wf :: "'ta app \<Rightarrow> bool" where
  "app_wf a \<longleftrightarrow> (ap_cmds a \<noteq> None \<longrightarrow> ap_acct_keys a \<noteq> None) \<and>
     (ap_account_verified a \<longrightarrow> ap_account a \<noteq> None \<and> ap_cmds a \<noteq> None) \<and>
     workspace_wf (ap_view a) (ap_home a) \<and> (\<forall>m. ap_modal a = Some m \<longrightarrow> modal_wf m)"

lemma app_new_wf: "app_wf (app_new cf account keys)"
  by (simp add: app_wf_def app_new_def workspace_new)

lemma app_wf_simps [simp]:
  "app_wf (send s a) = app_wf a" "app_wf (spawn t a) = app_wf a" "app_wf (store_cmd c a) = app_wf a"
  "app_wf (refresh_keys a) = app_wf a" "app_wf (send_set_view a) = app_wf a"
  by (auto simp: app_wf_def send_def spawn_def store_cmd_def refresh_keys_def send_set_view_def split: option.split)

lemma app_wf_fields [simp]:
  "app_wf (a\<lparr> ap_last_keys := p \<rparr>) = app_wf a" "app_wf (a\<lparr> ap_should_quit := q \<rparr>) = app_wf a"
  "app_wf (a\<lparr> ap_should_suspend := q \<rparr>) = app_wf a" "app_wf (a\<lparr> ap_capturing := q \<rparr>) = app_wf a"
  "app_wf (a\<lparr> ap_prev_mode := x \<rparr>) = app_wf a" "app_wf (a\<lparr> ap_mode := x \<rparr>) = app_wf a"
  "app_wf (a\<lparr> ap_queue := y \<rparr>) = app_wf a" "app_wf (a\<lparr> ap_account_checked := q \<rparr>) = app_wf a"
  "app_wf (a\<lparr> ap_device_unlock_attempted := q \<rparr>) = app_wf a"
  "app_wf (a\<lparr> ap_pending_edit := z \<rparr>) = app_wf a" "app_wf (a\<lparr> ap_pending_members := w \<rparr>) = app_wf a"
  by (simp_all add: app_wf_def)

lemma open_modal_wf: "app_wf a \<Longrightarrow> modal_wf m \<Longrightarrow> app_wf (open_modal E m a)"
  by (simp add: app_wf_def open_modal_def modal_configure_wf)

lemma switch_mode_wf: "app_wf a \<Longrightarrow> app_wf (handle_switch_mode E m a)"
  by (simp add: app_wf_def handle_switch_mode_def refresh_keys_def home_configure_wf)

lemma app_wf_view: "app_wf a \<Longrightarrow> (\<And>h. workspace_wf (ap_view a) h \<Longrightarrow> workspace_wf v h) \<Longrightarrow> app_wf (a\<lparr> ap_view := v \<rparr>)"
  by (simp add: app_wf_def)

lemma app_wf_no_modal: "app_wf a \<Longrightarrow> app_wf (a\<lparr> ap_modal := None \<rparr>)"
  by (simp add: app_wf_def)

lemma form_modal_wf [simp]: "body_wf b \<Longrightarrow> modal_wf (modal_form t b c)"
  by (simp add: modal_form_def modal_new_wf)

lemma message_modal_wf [simp]: "body_wf b \<Longrightarrow> modal_wf (modal_message t b)"
  by (simp add: modal_message_def modal_new_wf)

lemma open_form_modal_wf: "app_wf a \<Longrightarrow> body_wf b \<Longrightarrow> app_wf (open_form_modal E t b a)"
  by (simp add: open_form_modal_def open_modal_wf)

lemma store_cmd_view [simp]: "ap_view (store_cmd c a) = ap_view a"
  by (simp add: store_cmd_def split: option.split)

lemma perform_wf:
  assumes "app_wf a"
  shows "app_wf (perform E act a)"
proof -
  note wf = assms open_modal_wf open_form_modal_wf switch_mode_wf app_wf_no_modal app_wf_view view_ops_wf modal_new_wf
    login_wf(1) register_wf(1) todo_new_wf
  show ?thesis
  proof (cases act)
    case (AcKeys keys)
    then show ?thesis using assms by (auto simp: app_wf_def Let_def)
  next
    case AcOpenEditReady
    then show ?thesis by (auto simp: wf split: option.split)
  next
    case AcOpenMembersReady
    then show ?thesis by (auto simp: wf split: option.split)
  next
    case (AcConfirmDelete t)
    then show ?thesis by (cases t) (simp_all add: open_confirm_delete_def wf)
  next
    case (AcUnlock p)
    then show ?thesis by (simp add: assms split: option.split)
  next
    case AcCloseModal
    then show ?thesis by (simp add: close_modal_def Let_def wf)
  next
    case (AcDeleteList l)
    have "app_wf (store_cmd (DeleteList l) a\<lparr> ap_view := repoint l (ap_view (store_cmd (DeleteList l) a)) \<rparr>)"
      using assms by (intro app_wf_view) (simp_all add: view_ops_wf)
    then show ?thesis using AcDeleteList by (simp add: Let_def)
  next
    case AcAuthChooser
    then show ?thesis by (simp add: open_auth_chooser_def Let_def wf)
  qed (simp_all add: wf Let_def open_unlock_def open_register_def open_login_def)
qed

lemma forward_wf: "app_wf a \<Longrightarrow> app_wf (forward_action E act a)"
proof (cases "ap_modal a")
  case None
  assume "app_wf a"
  then show ?thesis using None by (simp add: forward_action_def app_wf_def home_update_wf)
next
  case (Some m)
  assume a: "app_wf a"
  then have "modal_wf (fst (modal_update (ae_ui E) act m))" using Some by (simp add: app_wf_def modal_update_wf)
  then show ?thesis using a Some by (simp add: forward_action_def case_prod_beta) (simp add: app_wf_def)
qed

lemma dispatch_wf: "app_wf a \<Longrightarrow> app_wf (dispatch_action E act a)"
  by (simp add: dispatch_action_def forward_wf perform_wf)

lemma handle_actions_wf: "app_wf a \<Longrightarrow> app_wf (fst (handle_actions E a))"
  by (simp add: handle_actions_def fold_invariant_step dispatch_wf)

lemma handle_key_event_wf: "app_wf a \<Longrightarrow> app_wf (handle_key_event k a)"
  by (simp add: handle_key_event_def split: prod.split)

lemma app_wf_account: "app_wf a \<Longrightarrow> app_wf (a\<lparr> ap_account := Some x \<rparr>)"
  by (auto simp: app_wf_def)

lemma load_account_step_wf:
  "app_wf a \<Longrightarrow> load_account_step W a = Inr a' \<Longrightarrow> app_wf a'"
  by (auto simp: load_account_step_def app_wf_account split: if_splits sum.splits option.splits)

lemma init_view_wf:
  "(\<And>c. app_wf (a\<lparr> ap_cmds := Some [c], ap_account_verified := True \<rparr>)) \<Longrightarrow>
     app_wf (send_set_view (a\<lparr> ap_cmds := Some [] \<rparr>)\<lparr> ap_account_verified := True \<rparr>)"
  by (simp add: send_set_view_def store_cmd_def)

lemma init_session_wf:
  assumes "app_wf a" and "ap_acct_keys a \<noteq> None" and "ap_account a \<noteq> None" and "init_session W a = Inr a'"
  shows "app_wf (a'\<lparr> ap_account_verified := True \<rparr>)"
proof (cases "ap_cmds a")
  case None
  obtain k where "ap_acct_keys a = Some k" using assms(2) by blast
  then have "send_set_view (a\<lparr> ap_cmds := Some [] \<rparr>) = a'"
    using None assms(4) by (cases "tk_session W") (simp_all add: init_session_def)
  moreover have "app_wf (a\<lparr> ap_cmds := Some [c], ap_account_verified := True \<rparr>)" for c
    using assms(1-3) by (simp add: app_wf_def)
  ultimately show ?thesis by (metis (no_types) init_view_wf)
next
  case (Some cs)
  then show ?thesis using assms by (auto simp: init_session_def app_wf_def)
qed

lemma auth_gate_wf:
  assumes a: "app_wf a" and g: "auth_gate E W a = Inr a'"
  shows "app_wf a'"
proof (cases "ap_account_verified a \<or> ap_modal a \<noteq> None")
  case True
  then show ?thesis using a g by (auto simp: auth_gate_def)
next
  case False
  let ?load = "if ap_account a = None \<and> \<not> ap_account_checked a
     then load_account_step W (a\<lparr> ap_account_checked := True \<rparr>) else Inr a"
  obtain b where b: "?load = Inr b" using g False by (cases ?load) (auto simp: auth_gate_def)
  have wf: "app_wf b"
    using b a load_account_step_wf [of "a\<lparr> ap_account_checked := True \<rparr>" W b] by (simp split: if_splits)
  consider "ap_acct_keys b = None \<or> ap_account b = None" | "ap_acct_keys b \<noteq> None" "ap_account b \<noteq> None" by blast
  then show ?thesis
  proof cases
    case 1
    then show ?thesis using g False wf unfolding auth_gate_def b by (auto split: if_splits)
  next
    case 2
    then show ?thesis using g False init_session_wf [OF wf 2, of W] unfolding auth_gate_def b
      by (auto split: sum.splits)
  qed
qed

lemma route_event_wf: "app_wf a \<Longrightarrow> app_wf (route_event E ev a)"
proof (cases "ap_modal a")
  case None
  assume "app_wf a"
  then show ?thesis using None
    by (auto simp: route_event_def app_wf_def send_def split: tui_event.split prod.split intro: home_key_wf)
next
  case (Some m)
  assume a: "app_wf a"
  then have "modal_wf (fst (modal_event (ae_ui E) ev m))" using Some by (simp add: app_wf_def modal_event_wf)
  then show ?thesis using a Some by (simp add: route_event_def case_prod_beta) (simp add: app_wf_def)
qed

lemma on_event_wf:
  assumes "app_wf a" and "on_event E W ev a = Inr a'"
  shows "app_wf a'"
proof (cases "ev = EvTick")
  case True
  then obtain b where "auth_gate E W a = Inr b" "a' = route_event E ev (send [AcTick] b)"
    using assms(2) by (auto simp: on_event_def split: sum.splits)
  then show ?thesis using auth_gate_wf [OF assms(1)] by (auto intro!: route_event_wf)
next
  case False
  then show ?thesis using assms
    by (cases ev) (auto simp: on_event_def route_event_wf handle_key_event_wf split: if_splits)
qed

lemma worker_msg_wf: "app_wf a \<Longrightarrow> app_wf (handle_worker_msg E msg a)"
  by (cases "(E, msg, a)" rule: handle_worker_msg.cases) (simp_all add: app_wf_view view_ops_wf)

text \<open>The worker only replies once it runs: before that its channel does not exist (\<open>recv_opt\<close>).\<close>

inductive app_step :: "'ta app_env \<Rightarrow> 'ta app \<Rightarrow> 'ta app \<Rightarrow> bool" for E where
  event: "on_event E W ev a = Inr a' \<Longrightarrow> app_step E a a'"
| reply: "ap_cmds a \<noteq> None \<Longrightarrow> app_step E a (handle_worker_msg E msg a)"
| task_result: "app_step E a (send acts a)"
| turn: "app_step E a (fst (finish_turn (fst (handle_actions E a))))"

lemma app_step_wf: "app_step E a a' \<Longrightarrow> app_wf a \<Longrightarrow> app_wf a'"
  by (induction rule: app_step.induct)
    (auto simp: on_event_wf worker_msg_wf handle_actions_wf finish_turn_def)

definition app_start :: "'ta app_env \<Rightarrow> new_account option \<Rightarrow> unlocked_keys option \<Rightarrow> 'ta app" where
  "app_start E account keys =
     (let a = app_new (ae_config E) account keys
      in a\<lparr> ap_home := home_configure (cf_bindings (ae_config E)) (ap_home a) \<rparr>)"

lemma app_start_wf: "app_wf (app_start E account keys)"
  by (simp add: app_start_def Let_def app_wf_def app_new_def workspace_new home_configure_wf)

lemma app_reachable_wf: "(app_step E)\<^sup>*\<^sup>* (app_start E account keys) a \<Longrightarrow> app_wf a"
  by (induction rule: rtranclp_induct) (auto simp: app_start_wf app_step_wf)

text \<open>C15: The auth gate.  In every state the program reaches from its start, by terminal events,
  worker replies, results of off-loop tasks and turns of the action loop in any order: commands go to
  the store worker only once keys are unlocked, the account counts as verified only with a
  local account and a running data layer, the workspace layout stays consistent (one or two
  panes, a second one exactly when split, the active pane among them, the ratio within 10 and
  90), and an open dialog keeps its focus in range.\<close>

theorem app_invariant:
  assumes "(app_step E)\<^sup>*\<^sup>* (app_start E account keys) a"
  shows "(ap_cmds a \<noteq> None \<longrightarrow> ap_acct_keys a \<noteq> None) \<and>
     (ap_account_verified a \<longrightarrow> ap_account a \<noteq> None \<and> ap_cmds a \<noteq> None) \<and>
     workspace_wf (ap_view a) (ap_home a) \<and>
     (case ap_modal a of Some m \<Rightarrow> modal_wf m | None \<Rightarrow> True)"
  using app_reachable_wf [OF assms] by (auto simp: app_wf_def split: option.split)

section \<open>Routing of input\<close>

definition background :: "'ta app \<Rightarrow> home \<times> view_model \<times> key_event list \<times> store_command list option \<times> app_mode \<times> bool" where
  "background a = (ap_home a, ap_view a, ap_last_keys a, ap_cmds a, ap_mode a, ap_capturing a)"

fun overlay_input :: "tui_event \<Rightarrow> bool" where
  "overlay_input (EvKey k) = (\<not> is_global_chord k)"
| "overlay_input (EvPaste _) = True"
| "overlay_input (EvMouse _) = True"
| "overlay_input _ = False"

fun feed_events :: "'ta app_env \<Rightarrow> tick_env \<Rightarrow> tui_event list \<Rightarrow> 'ta app \<Rightarrow> client_error + 'ta app" where
  "feed_events E W [] a = Inr a"
| "feed_events E W (ev # evs) a = (case on_event E W ev a of Inl e \<Rightarrow> Inl e | Inr a \<Rightarrow> feed_events E W evs a)"

lemma overlay_event:
  assumes "ap_modal a = Some m" and "overlay_input ev"
  shows "\<exists>a' m'. on_event E W ev a = Inr a' \<and> ap_modal a' = Some m' \<and> background a' = background a"
  using assms
  by (cases ev) (auto simp: on_event_def route_event_def background_def send_def split: prod.split)

text \<open>C16: The background stays inert behind an overlay.  While a dialog is open, typing (without Ctrl
  or Alt), pasting and the mouse never fail, never close it by themselves, and touch neither the
  workspace, the view model, the buffer of global key sequences, the mode, the capture flag, nor
  the store worker: what the dialog emits only joins the action queue.\<close>

theorem overlay_exclusive:
  assumes "ap_modal a = Some m" and "list_all overlay_input evs"
  shows "\<exists>a' m'. feed_events E W evs a = Inr a' \<and> ap_modal a' = Some m' \<and> background a' = background a"
  using assms
proof (induction evs arbitrary: a m)
  case (Cons ev evs)
  obtain b n where b: "on_event E W ev a = Inr b" "ap_modal b = Some n" "background b = background a"
    using overlay_event [OF Cons.prems(1), of ev E W] Cons.prems(2) by auto
  then show ?case using Cons.IH [OF b(2)] Cons.prems(2) by auto
qed auto

lemma selected_item_pending: "selected_item v (h\<lparr> hm_pending := q \<rparr>) = selected_item v h"
  by (simp add: selected_item_def Let_def split: option.split)

text \<open>One key, two commands.  With no dialog open, a key goes both to the global bindings and to
  the workspace, and neither knows of the other: when the key completes a global sequence and is
  also bound in the workspace, both actions are emitted.  With the shipped bindings this
  is what \<open>space+e\<close> does: it toggles the sidebar and opens the selected todo for editing.\<close>

lemma key_fires_twice:
  assumes "ap_modal a = None" and "\<not> ap_capturing a"
    and "resolve (ap_global_keys a) (ap_last_keys a) k = (Some act, p)"
    and "resolve (hm_keymap (ap_home a)) (hm_pending (ap_home a)) k = (Some HcEditTodo, q)"
    and "hm_focus (ap_home a) = FocusPane" and "selected_item (ap_view a) (ap_home a) = Some (l, i)"
  shows "\<exists>a'. on_event E W (EvKey k) a = Inr a' \<and> ap_queue a' = ap_queue a @ [act, AcEditTodoModal l i]"
proof -
  have "selected_item (ap_view a) (ap_home a\<lparr> hm_pending := q \<rparr>) = Some (l, i)"
    using assms(6) by (simp add: selected_item_pending)
  then show ?thesis using assms
    by (simp add: on_event_def handle_key_event_def route_event_def home_key_def send_def send_opt_def)
qed

definition demo_config :: app_config where
  "demo_config = \<lparr> cf_server_url = ''http://127.0.0.1:8192'',
     cf_device_unlock = \<lparr> du_enabled = False, du_recipient = None, du_identity = None \<rparr>, cf_editing = Emacs,
     cf_bindings = [CGlobal \<mapsto> [([key_new (KChar 32) no_mods, key_new (KChar 101) no_mods], Full ''toggle_sidebar'' True)],
                    CHome \<mapsto> [([key_new (KChar 101) no_mods], Bare ''edit_todo'')]] \<rparr>"

definition demo_env :: "string list app_env" where
  "demo_env = \<lparr> ae_ui = demo_ui, ae_config = demo_config, ae_dbg = (\<lambda>_. ''error'') \<rparr>"

definition demo_tick :: tick_env where
  "demo_tick = \<lparr> tk_account = Inr None, tk_session = Inr () \<rparr>"

text \<open>After the space of \<open>space+e\<close> was typed over a workspace with a selected todo.\<close>

definition demo_app :: "string list app" where
  "demo_app =
     (let a = app_start demo_env None None
      in a\<lparr> ap_last_keys := [key_new (KChar 32) no_mods], ap_home := (ap_home a)\<lparr> hm_focus := FocusPane \<rparr>,
            ap_view := view_default\<lparr> vm_panes := [demo_pane 1] \<rparr> \<rparr>)"

lemma demo_app_sel:
  "ap_modal demo_app = None" "\<not> ap_capturing demo_app" "ap_last_keys demo_app = [key_new (KChar 32) no_mods]"
  "ap_global_keys demo_app = [([key_new (KChar 32) no_mods, key_new (KChar 101) no_mods], AcToggleSidebar)]"
  "hm_keymap (ap_home demo_app) = [([key_new (KChar 101) no_mods], HcEditTodo)]" "hm_pending (ap_home demo_app) = []"
  "hm_focus (ap_home demo_app) = FocusPane" "ap_queue demo_app = []"
  "selected_item (ap_view demo_app) (ap_home demo_app) = Some (fixed_repeat 1, ''i'')"
  by (simp_all add: demo_app_def app_start_def app_new_def demo_env_def demo_config_def home_configure_def
      rebuild_hints_def home_new_def compile_keymap_def parse_global_action_def parse_home_cmd_def Let_def
      selected_item_def get_pane_def demo_pane_def)

lemma overlay_exclusive_witness:
  "\<exists>a' m'. feed_events demo_env demo_tick [EvPaste ''x'', EvKey (key_new (KChar 101) no_mods)]
       (open_auth_chooser demo_env demo_app) = Inr a' \<and> ap_modal a' = Some m' \<and>
     background a' = background (open_auth_chooser demo_env demo_app)"
  by (rule overlay_exclusive)
    (simp_all add: open_auth_chooser_def Let_def open_modal_def is_global_chord_def key_new_def no_mods_def)

definition demo_account :: new_account where
  "demo_account = account_with (fixed_repeat 1) ''bob'' (fixed_repeat 2) (fixed_repeat 3) [] (fixed_repeat 4)"

lemma app_invariant_witness:
  "\<exists>a. (app_step demo_env)\<^sup>*\<^sup>* (app_start demo_env (Some demo_account) (Some demo_keys)) a \<and>
     ap_account_verified a \<and> ap_cmds a \<noteq> None \<and> workspace_wf (ap_view a) (ap_home a)"
proof -
  let ?a = "app_start demo_env (Some demo_account) (Some demo_keys)"
  have a: "ap_modal ?a = None" "ap_account ?a = Some demo_account" "ap_acct_keys ?a = Some demo_keys"
    "\<not> ap_account_verified ?a" "ap_cmds ?a = None"
    by (simp_all add: app_start_def app_new_def Let_def)
  let ?b = "route_event demo_env EvTick (send [AcTick]
     (send_set_view (?a\<lparr> ap_cmds := Some [] \<rparr>)\<lparr> ap_account_verified := True \<rparr>))"
  have "on_event demo_env demo_tick EvTick ?a = Inr ?b"
    using a by (simp add: on_event_def auth_gate_def init_session_def demo_tick_def)
  then have r: "(app_step demo_env)\<^sup>*\<^sup>* ?a ?b" by (intro r_into_rtranclp app_step.event)
  have "ap_modal (send [AcTick] (send_set_view (?a\<lparr> ap_cmds := Some [] \<rparr>)\<lparr> ap_account_verified := True \<rparr>)) = None"
    using a(1) by (simp add: send_def send_set_view_def store_cmd_def)
  then have "ap_account_verified ?b" by (simp add: route_event_def) (simp add: send_def)
  then show ?thesis using r app_invariant [OF r] by blast
qed

section \<open>Signing in\<close>

lemma modal_update_quiet:
  "act \<noteq> AcSubmitForm \<Longrightarrow> snd (modal_update U act m) = (None, [])"
proof -
  assume act: "act \<noteq> AcSubmitForm"
  have "snd (body_update U act b) = (None, [])" for b
    using act by (cases b; cases act) (simp_all add: wrap_def login_update_def register_update_def form_update_def
        unlock_update_def single_update_def todo_update_def)
  then show ?thesis by (simp add: modal_update_def with_body_def wrap_def split: prod.split) (metis prod.sel)
qed

lemma forward_quiet_modal:
  assumes "act \<noteq> AcSubmitForm" and "ap_modal a = Some m"
  shows "\<exists>m'. forward_action E act a = a\<lparr> ap_modal := Some m' \<rparr>"
proof -
  obtain m' where "modal_update (ae_ui E) act m = (m', None, [])"
    using modal_update_quiet [OF assms(1), of "ae_ui E" m] by (metis prod.collapse)
  then show ?thesis using assms(2) by (auto simp: forward_action_def send_def)
qed

text \<open>The results of a successful sign-in, in the order the task sends them.\<close>

definition login_actions :: "unlocked_keys \<Rightarrow> app_action list" where
  "login_actions k = [AcKeys k, AcStopCapture, AcCloseModal, AcSetMode MHome]"

lemma login_turn:
  assumes "ap_queue a = login_actions k" and "ap_modal a = Some m"
  obtains b where "fst (handle_actions E a) = b" "ap_acct_keys b = Some k" "ap_account b = ap_account a"
    "ap_account_checked b = (ap_account a \<noteq> None \<and> ap_account_checked a)" "ap_modal b = None" "\<not> ap_capturing b"
    "ap_mode b = MHome" "ap_cmds b = ap_cmds a" "ap_view b = ap_view a" "ap_queue b = []"
    "ap_account_verified b = ap_account_verified a"
proof -
  let ?a = "a\<lparr> ap_queue := [] \<rparr>"
  obtain m1 where m1: "dispatch_action E (AcKeys k) ?a = (perform E (AcKeys k) ?a)\<lparr> ap_modal := Some m1 \<rparr>"
    using forward_quiet_modal [of "AcKeys k" "perform E (AcKeys k) ?a" m E] assms(2) that
    unfolding dispatch_action_def by (cases "ap_account a = None") (simp_all add: Let_def, blast+)
  let ?b = "(perform E (AcKeys k) ?a)\<lparr> ap_modal := Some m1 \<rparr>"
  obtain m2 where m2: "dispatch_action E AcStopCapture ?b = ?b\<lparr> ap_capturing := False, ap_modal := Some m2 \<rparr>"
    using forward_quiet_modal [of AcStopCapture "perform E AcStopCapture ?b" m1 E] by (auto simp: dispatch_action_def)
  show ?thesis
    by (rule that [OF refl])
      (use assms m1 m2 in \<open>simp_all add: handle_actions_def login_actions_def Let_def\<close>,
       simp_all add: dispatch_action_def forward_action_def close_modal_def handle_switch_mode_def refresh_keys_def Let_def)
qed

lemma tick_quiet:
  "ap_modal a = None \<Longrightarrow> route_event E EvTick a = a"
  by (simp add: route_event_def)

text \<open>C17: Signing in opens the workspace.  The results of a successful sign-in, taken in one turn while the
  form is open, followed by one tick: the form is gone, the keyboard is free, the mode is the
  workspace, the data layer is started with the layout of the view model as its first command, and the account
  counts as verified.  It holds for any keys and any local account: nothing compares the member
  of the keys with the member of the account, so signing in as somebody else on a device that
  already has an account runs the session of one member over the store of the other.\<close>

theorem login_opens_workspace:
  assumes "ap_queue a = login_actions k" and "ap_modal a = Some m" and "ap_cmds a = None"
    and "\<not> ap_account_verified a" and "tk_session W = Inr u"
    and "case ap_account a of None \<Rightarrow> tk_account W = Inr (Some acct) | Some x \<Rightarrow> x = acct"
  shows "\<exists>b. on_event E W EvTick (fst (handle_actions E a)) = Inr b \<and> ap_account_verified b \<and>
     ap_acct_keys b = Some k \<and> ap_account b = Some acct \<and> ap_modal b = None \<and> \<not> ap_capturing b \<and>
     ap_mode b = MHome \<and> ap_cmds b = Some [SetView (map pd_target (vm_panes (ap_view a))) (vm_sort (ap_view a))]"
proof -
  obtain b where b: "fst (handle_actions E a) = b" "ap_acct_keys b = Some k" "ap_account b = ap_account a"
    "ap_account_checked b = (ap_account a \<noteq> None \<and> ap_account_checked a)" "ap_modal b = None" "\<not> ap_capturing b"
    "ap_mode b = MHome" "ap_cmds b = ap_cmds a" "ap_view b = ap_view a" "ap_account_verified b = ap_account_verified a"
    using login_turn [OF assms(1,2), of E] by metis
  show ?thesis using assms(3-6) b
    by (cases "ap_account a")
      (simp_all add: on_event_def auth_gate_def load_account_step_def init_session_def send_set_view_def store_cmd_def
        tick_quiet send_def)
qed

text \<open>C19: Signed in but not saved.  When keys arrive and the local account could not be written (the task
  reports the failed save and still delivers the keys), no later tick does anything: neither the
  chooser nor the unlock prompt comes back and the data layer is never started, however often
  the clock ticks.\<close>

theorem unsaved_login_hangs:
  assumes "ap_account a = None" and "ap_acct_keys a = Some k" and "ap_modal a = None" and "ap_cmds a = None"
    and "\<not> ap_account_verified a" and "tk_account W = Inr None"
  shows "\<exists>b. feed_events E W (replicate n EvTick) a = Inr b \<and> ap_queue b = ap_queue a @ replicate n AcTick \<and>
     ap_modal b = None \<and> ap_cmds b = None \<and> \<not> ap_account_verified b"
  using assms(1-5)
proof (induction n arbitrary: a)
  case (Suc n)
  let ?b = "send [AcTick] (a\<lparr> ap_account_checked := True \<rparr>)"
  have t: "on_event E W EvTick a = Inr ?b"
    using Suc.prems assms(6) by (auto simp: on_event_def auth_gate_def load_account_step_def tick_quiet send_def)
  have "ap_queue ?b = ap_queue a @ [AcTick]" by (simp add: send_def)
  moreover have "\<exists>c. feed_events E W (replicate n EvTick) ?b = Inr c \<and> ap_queue c = ap_queue ?b @ replicate n AcTick \<and>
      ap_modal c = None \<and> ap_cmds c = None \<and> \<not> ap_account_verified c"
    using Suc.prems by (intro Suc.IH) (simp_all add: send_def)
  ultimately show ?case using t by (auto simp: replicate_append_same)
qed simp

lemma forward_modes [simp]:
  "ap_mode (forward_action E act a) = ap_mode a" "ap_prev_mode (forward_action E act a) = ap_prev_mode a"
  "ap_footer (forward_action E act a) = ap_footer a" "ap_cmds (forward_action E act a) = ap_cmds a"
  "(ap_modal (forward_action E act a) = None) = (ap_modal a = None)"
  by (simp_all add: forward_action_def send_def split: option.split prod.split)

lemma perform_modes [simp]:
  "ap_mode (open_auth_chooser E a) = MHome" "ap_prev_mode (open_auth_chooser E a) = ap_mode a"
  "ap_mode (open_login E a) = MLogin" "ap_prev_mode (open_login E a) = ap_prev_mode a"
  "ap_mode (open_modal E m a) = ap_mode a" "ap_prev_mode (open_modal E m a) = ap_prev_mode a"
  "ap_mode (close_modal E a) = ap_prev_mode a" "ap_prev_mode (close_modal E a) = ap_mode a"
  "ap_mode (handle_switch_mode E md a) = md" "ap_prev_mode (handle_switch_mode E md a) = ap_mode a"
  "ap_footer (close_modal E a) = ap_prev_mode a" "ap_modal (close_modal E a) = None"
  "ap_modal (handle_switch_mode E md a) = ap_modal a"
  by (simp_all add: open_auth_chooser_def open_login_def open_modal_def close_modal_def handle_switch_mode_def
      refresh_keys_def send_def Let_def)

lemma keys_modes [simp]:
  "ap_mode (perform E (AcKeys k) a) = ap_mode a" "ap_prev_mode (perform E (AcKeys k) a) = ap_prev_mode a"
  by (simp_all add: Let_def)

text \<open>Modes after a cancelled sign-in.  Log in from the chooser, cancel, log in again, then open and
  close the help: the workspace is on screen with no dialog, and the mode, which selects the help text and
  the key footer, is the login mode.  The chooser stores the login mode as the mode to return to, and
  closing any later dialog returns to it.\<close>

lemma mode_after_cancelled_login:
  "let b = fold (dispatch_action E) ([AcAuthChooser, AcLoginModal, AcAuthChooser, AcLoginModal] @ login_actions k @
             [AcHelpModal, AcCloseModal]) a
   in ap_modal b = None \<and> active_mode b = MHome \<and> ap_mode b = MLogin \<and> ap_footer b = MLogin"
  by (simp add: Let_def login_actions_def dispatch_action_def active_mode_def modes_contain_def del: perform.simps(8))

text \<open>A late answer closes the wrong dialog.  When the lookup of a share finishes while some dialog is open,
  two turns later that dialog is gone, whatever it was and whatever was typed into it, and the
  member is added: the answer closes the open dialog without asking whether it is the
  share form.\<close>

lemma late_share_closes_dialog:
  assumes "ap_modal a = Some m" and "ap_cmds a = Some cs"
  shows "let b = fst (handle_actions E (fst (handle_actions E (a\<lparr> ap_queue := [AcAddResolvedMember l x] \<rparr>))))
     in ap_modal b = None \<and> ap_cmds b = Some (cs @ [AddMember l x])"
proof -
  let ?p = "perform E (AcAddResolvedMember l x) (a\<lparr> ap_queue := [] \<rparr>)"
  obtain m' where "dispatch_action E (AcAddResolvedMember l x) (a\<lparr> ap_queue := [] \<rparr>) = ?p\<lparr> ap_modal := Some m' \<rparr>"
    using forward_quiet_modal [of "AcAddResolvedMember l x" ?p m E] assms
    by (auto simp: dispatch_action_def store_cmd_def send_def)
  then show ?thesis using assms
    by (simp add: Let_def handle_actions_def store_cmd_def send_def)
      (simp add: dispatch_action_def close_modal_def handle_switch_mode_def refresh_keys_def Let_def)
qed

definition sign_in_open :: "string list app" where
  "sign_in_open = (open_login demo_env (app_start demo_env (Some demo_account) None))
     \<lparr> ap_queue := login_actions (demo_keys\<lparr> ul_member_id := fixed_repeat 9 \<rparr>) \<rparr>"

lemma login_opens_workspace_witness:
  "\<exists>b. on_event demo_env demo_tick EvTick (fst (handle_actions demo_env sign_in_open)) = Inr b \<and>
     ap_account_verified b \<and> session_member_id b = fixed_repeat 1 \<and>
     (\<exists>k. ap_acct_keys b = Some k \<and> ul_member_id k = fixed_repeat 9)"
proof -
  have a: "ap_queue sign_in_open = login_actions (demo_keys\<lparr> ul_member_id := fixed_repeat 9 \<rparr>)" "ap_cmds sign_in_open = None"
    "\<not> ap_account_verified sign_in_open" "tk_session demo_tick = Inr ()" "ap_account sign_in_open = Some demo_account"
    "ap_modal sign_in_open \<noteq> None"
    by (simp_all add: sign_in_open_def open_login_def open_modal_def app_start_def app_new_def refresh_keys_def send_def
        demo_tick_def Let_def)
  obtain m where m: "ap_modal sign_in_open = Some m" using a(6) by blast
  have c: "case ap_account sign_in_open of None \<Rightarrow> tk_account demo_tick = Inr (Some demo_account) | Some x \<Rightarrow> x = demo_account"
    using a(5) by simp
  show ?thesis
    using login_opens_workspace [OF a(1) m a(2-4) c, of demo_env]
    by (auto simp: session_member_id_def demo_account_def account_with_def)
qed

lemma unsaved_login_hangs_witness:
  "\<exists>b. feed_events demo_env demo_tick (replicate 3 EvTick) (app_start demo_env None (Some demo_keys)) = Inr b \<and>
     ap_queue b = replicate 3 AcTick \<and> ap_modal b = None \<and> ap_cmds b = None \<and> \<not> ap_account_verified b"
  using unsaved_login_hangs [of "app_start demo_env None (Some demo_keys)" demo_keys demo_tick demo_env 3]
  by (simp add: app_start_def app_new_def demo_tick_def Let_def)

end
