(* ===== verification/AppTasks.thy ===== *)
theory AppTasks
  imports App
begin

text \<open>
  The tasks \<open>app.rs\<close> spawns off the event loop: sign in, registration, password-less unlock, and the
  lookup of a member to share with.  Each runs against the network and the local store and
  reports back as actions.  Randomness and the outcome of each write are arguments, and so is the text
  of an error.
\<close>

record task_env =
  te_crypto :: crypto
  te_opaque :: opaque_client
  te_base :: string
  te_unlock :: device_unlock_config
  te_dbg :: "client_error \<Rightarrow> string"
  te_show :: "client_error \<Rightarrow> string"

text \<open>\<open>tr_account_write\<close> and \<open>tr_cache_write\<close> are the errors of the two writes, if they fail.\<close>

record task_rand =
  tr_start :: bytes
  tr_finish :: bytes
  tr_salt :: "16 fixed"
  tr_nonce :: nonce
  tr_device :: device_id
  tr_seed :: ed25519_signing
  tr_seal :: bytes
  tr_seal_nonce :: nonce
  tr_account_write :: "client_error option"
  tr_cache_write :: "client_error option"

section \<open>Signing in\<close>

text \<open>The first login on a device keeps a local account; a failure is reported and does not stop the login.\<close>

definition keep_account ::
    "task_env \<Rightarrow> task_rand \<Rightarrow> string \<Rightarrow> string \<Rightarrow> unlocked_keys \<Rightarrow> client_db \<Rightarrow> app_action list \<times> client_db" where
  "keep_account E R u pw keys db =
     (case build_local_account (te_crypto E) (tr_salt R) (tr_nonce R) u (ascii pw) keys of
        Inl e \<Rightarrow> ([AcError (''Logged in, but could not seal local account: '' @ te_show E e)], db)
      | Inr acct \<Rightarrow> (case tr_account_write R of
            Some e \<Rightarrow> ([AcError (''Logged in, but could not save account: '' @ te_show E e)], db)
          | None \<Rightarrow> ([], save_account acct db)))"

text \<open>Enrolling this device is best effort: failures are only logged.\<close>

definition enroll_step ::
    "'w transport \<Rightarrow> task_env \<Rightarrow> task_rand \<Rightarrow> string \<Rightarrow> unlocked_keys \<Rightarrow> client_db \<Rightarrow> 'w \<Rightarrow> client_db \<times> 'w" where
  "enroll_step T E R u keys db w =
     (if du_enabled (te_unlock E) \<and> ul_token keys \<noteq> [] \<and>
         \<not> (case load_device_cache db of Inr (Some _) \<Rightarrow> True | _ \<Rightarrow> False)
      then (case du_recipient (te_unlock E) of
          None \<Rightarrow> (db, w)
        | Some recipient \<Rightarrow>
            (case enroll_this_device T (te_crypto E) (te_opaque E) (te_base E) (tr_device R) (tr_seed R) (tr_seal R)
                    (tr_seal_nonce R) (ul_token keys) recipient keys u w of
               (Inr (dev, blob), w) \<Rightarrow> (if tr_cache_write R = None then save_device_cache dev blob db else db, w)
             | (Inl _, w) \<Rightarrow> (db, w)))
      else (db, w))"

definition login_task ::
    "'w transport \<Rightarrow> task_env \<Rightarrow> task_rand \<Rightarrow> string \<Rightarrow> string \<Rightarrow> client_db \<Rightarrow> 'w \<Rightarrow> app_action list \<times> client_db \<times> 'w" where
  "login_task T E R u pw db w =
     (case login_call T (te_crypto E) (te_opaque E) (te_dbg E) (te_base E) (tr_start R) (tr_finish R) u (ascii pw)
             (load_account db) w of
        (Inl e, w) \<Rightarrow> ([AcError (''Login failed: '' @ te_show E e)], db, w)
      | (Inr keys, w) \<Rightarrow>
          (let (errs, db) = (if load_account db = None then keep_account E R u pw keys db else ([], db));
               (db, w) = enroll_step T E R u keys db w
           in (errs @ login_actions keys, db, w)))"

section \<open>The other tasks\<close>

definition register_task ::
    "'w transport \<Rightarrow> task_env \<Rightarrow> register_rand \<Rightarrow> client_error option \<Rightarrow> string \<Rightarrow> string \<Rightarrow> client_db \<Rightarrow> 'w
      \<Rightarrow> app_action list \<times> client_db \<times> 'w" where
  "register_task T E R wr u pw db w =
     (case register_call T (te_crypto E) (te_opaque E) (te_base E) R u (ascii pw) w of
        (Inl e, w) \<Rightarrow> ([AcError (''Registration failed: '' @ te_show E e)], db, w)
      | (Inr acct, w) \<Rightarrow> (case wr of
            Some e \<Rightarrow> ([AcError (''Could not save account: '' @ te_show E e)], db, w)
          | None \<Rightarrow> ([AcStopCapture, AcLogin u pw], save_account acct db, w)))"

text \<open>\<open>identity_file\<close> reads the configured identity; it is only consulted when one is configured.\<close>

definition device_unlock_task ::
    "'w transport \<Rightarrow> task_env \<Rightarrow> (string \<Rightarrow> string option) \<Rightarrow> client_db \<Rightarrow> 'w \<Rightarrow> app_action list \<times> client_db \<times> 'w" where
  "device_unlock_task T E files db w =
     (let fail = (\<lambda>msg w. ([AcError (''Device unlock failed: '' @ msg), AcUnlockModal], db, w)) in
      case load_device_cache db of
        Inl e \<Rightarrow> fail (te_show E e) w
      | Inr None \<Rightarrow> fail ''no device cache on this device'' w
      | Inr (Some (dev, blob)) \<Rightarrow> (case du_identity (te_unlock E) of
            None \<Rightarrow> fail ''no device-unlock identity configured'' w
          | Some path \<Rightarrow>
              (case unlock_via_device T (te_crypto E) (te_opaque E) (te_base E) (files path) dev blob w of
                 (Inl e, w) \<Rightarrow> fail (te_show E e) w
               | (Inr keys, w) \<Rightarrow> ([AcKeys keys, AcSetMode MHome], db, w))))"

definition lookup_task ::
    "'w transport \<Rightarrow> task_env \<Rightarrow> list_id \<Rightarrow> string \<Rightarrow> string \<Rightarrow> 'w \<Rightarrow> app_action list \<times> 'w" where
  "lookup_task T E l token u w = (case lookup_pubkeys T (te_base E) token u w of
     (Inr dto, w) \<Rightarrow> ([AcAddResolvedMember l (resolved_member dto)], w)
   | (Inl e, w) \<Rightarrow> ([AcError (''Share failed: '' @ te_show E e)], w))"

section \<open>A first login works offline afterwards\<close>

lemma load_saved [simp]: "load_account (save_account acct db) = Some acct"
  by (simp add: load_account_def save_account_def)

lemma load_cached [simp]: "load_account (save_device_cache dev blob db) = load_account db"
  by (cases "cd_account db") (simp_all add: load_account_def save_device_cache_def)

lemma enroll_keeps_account [simp]: "load_account (fst (enroll_step T E R u keys db w)) = load_account db"
  by (simp add: enroll_step_def split: option.split prod.split sum.split)

lemma enroll_offline: "ul_token keys = [] \<Longrightarrow> enroll_step T E R u keys db w = (db, w)"
  by (simp add: enroll_step_def)

lemma offline_online_login:
  "\<exists>e. online_login (\<lambda>rq w. (None, w)) C Q base r1 r2 u pw w = (Inl e, w)"
  by (simp add: online_login_def sbind_def pure_def login_begin_def start_login_def decode_def split: option.split)

text \<open>C18: The first login makes later ones independent of the server.  On a device with no account, a
  login that succeeds online reports exactly the keys, in the order that opens the workspace, and leaves
  a local account; when the server is then unreachable, the same password signs in from that account, with the
  same identity and no session token, under any user name, and leaves the store as it was.\<close>

theorem first_login_works_offline:
  assumes "crypto_ok (te_crypto E)" and "load_account db = None" and "tr_account_write R = None"
    and "fst (online_login T (te_crypto E) (te_opaque E) (te_base E) (tr_start R) (tr_finish R) u (ascii pw) w) = Inr keys"
    and "build_local_account (te_crypto E) (tr_salt R) (tr_nonce R) u (ascii pw) keys = Inr acct"
  shows "\<exists>db' w'. login_task T E R u pw db w = (login_actions keys, db', w') \<and> load_account db' = Some acct \<and>
     login_task (\<lambda>rq w. (None, w)) E R' u' pw db' v = (login_actions (keys\<lparr> ul_token := [] \<rparr>), db', v)"
proof -
  obtain w1 where on: "online_login T (te_crypto E) (te_opaque E) (te_base E) (tr_start R) (tr_finish R) u (ascii pw) w = (Inr keys, w1)"
    using assms(4) by (metis prod.collapse)
  obtain db' w' where en: "enroll_step T E R u keys (save_account acct db) w1 = (db', w')" by (metis prod.collapse)
  have t: "login_task T E R u pw db w = (login_actions keys, db', w')"
    using assms(2,3,5) on en by (simp add: login_task_def login_call_online keep_account_def)
  have acct: "load_account db' = Some acct"
    using enroll_keeps_account [of T E R u keys "save_account acct db" w1] en by simp
  obtain e where off: "online_login (\<lambda>rq w. (None, w)) (te_crypto E) (te_opaque E) (te_base E) (tr_start R') (tr_finish R')
      u' (ascii pw) v = (Inl e, v)"
    using offline_online_login [of "te_crypto E" "te_opaque E" "te_base E" "tr_start R'" "tr_finish R'" u' "ascii pw" v] ..
  have "login_task (\<lambda>rq w. (None, w)) E R' u' pw db' v = (login_actions (keys\<lparr> ul_token := [] \<rparr>), db', v)"
    using build_local_account_unlocks [OF assms(1,5)] acct
    by (simp add: login_task_def login_call_online off local_unlock_def enroll_offline)
  then show ?thesis using t acct by blast
qed

definition demo_server :: "unit transport" where
  "demo_server rq w = (case rq_body rq of
     Some (BodyLoginStart _ _) \<Rightarrow> (Some (200, RespLoginStart (fixed_repeat 1) [8]), w)
   | Some (BodyLoginFinish _ _) \<Rightarrow> (Some (200, RespLoginFinish
        \<lparr> lf_token = ''t'', lf_member_id = fixed_repeat 1, lf_identity_pub = fixed_repeat 2, lf_signing_pub = fixed_repeat 3,
          lf_wrapped_secret_keys = wrap_secret_keys toy_crypto (fixed_repeat 4)
            (derive_escrow_key toy_crypto [112, 119, 8]) (fixed_repeat 2) (fixed_repeat 3) \<rparr>), w)
   | _ \<Rightarrow> (None, w))"

definition demo_task_env :: task_env where
  "demo_task_env = \<lparr> te_crypto = toy_crypto, te_opaque = toy_opaque, te_base = ''u'',
     te_unlock = \<lparr> du_enabled = False, du_recipient = None, du_identity = None \<rparr>, te_dbg = (\<lambda>_. ''e''), te_show = (\<lambda>_. ''e'') \<rparr>"

definition demo_task_rand :: task_rand where
  "demo_task_rand = \<lparr> tr_start = [], tr_finish = [], tr_salt = fixed_repeat 4, tr_nonce = fixed_repeat 5, tr_device = fixed_repeat 6,
     tr_seed = fixed_repeat 7, tr_seal = [], tr_seal_nonce = fixed_repeat 8, tr_account_write = None, tr_cache_write = None \<rparr>"

lemma demo_task_sel:
  "te_crypto demo_task_env = toy_crypto" "te_opaque demo_task_env = toy_opaque" "te_base demo_task_env = ''u''"
  "tr_start demo_task_rand = []" "tr_finish demo_task_rand = []" "tr_account_write demo_task_rand = None"
  "tr_salt demo_task_rand = fixed_repeat 4" "tr_nonce demo_task_rand = fixed_repeat 5"
  by (simp_all add: demo_task_env_def demo_task_rand_def)

lemma first_login_works_offline_witness:
  "\<exists>db' w'. login_task demo_server demo_task_env demo_task_rand ''ann'' ''pw'' db_empty () = (login_actions demo_keys, db', w') \<and>
     login_task (\<lambda>rq w. (None, w)) demo_task_env demo_task_rand ''bob'' ''pw'' db' () =
       (login_actions (demo_keys\<lparr> ul_token := [] \<rparr>), db', ())"
proof -
  have pw: "ascii ''pw'' = [112, 119]" by code_simp
  have open_escrow: "unwrap_secret_keys toy_crypto m (wrap_secret_keys toy_crypto n m i s) = Inr (i, s)" for m n i s
    using wrap_unwrap_Inr [OF toy_crypto_ok] by blast
  have on: "fst (online_login demo_server (te_crypto demo_task_env) (te_opaque demo_task_env) (te_base demo_task_env)
      (tr_start demo_task_rand) (tr_finish demo_task_rand) ''ann'' (ascii ''pw'') ()) = Inr demo_keys"
    by (simp add: demo_task_sel pw open_escrow online_login_def sbind_def pure_def login_begin_def start_login_def finish_login_def
        decode_def req_def demo_server_def error_for_status_def login_finish_step_def unlock_from_escrow_def toy_opaque_def demo_keys_def)
  obtain acct where acct: "build_local_account (te_crypto demo_task_env) (tr_salt demo_task_rand) (tr_nonce demo_task_rand)
      ''ann'' (ascii ''pw'') demo_keys = Inr acct"
    by (simp add: demo_task_sel pw build_local_account_def local_copy_def derive_local_master_def)
       (simp add: toy_crypto_def kdf_iters_def)
  have env: "crypto_ok (te_crypto demo_task_env)" "load_account db_empty = None"
    by (simp_all add: demo_task_sel toy_crypto_ok load_account_def db_empty_def)
  show ?thesis
    using first_login_works_offline [where R' = demo_task_rand and u' = "''bob''" and v = "()", OF env demo_task_sel(6) on acct]
    by blast
qed

end
