(* ===== verification/Display.thy ===== *)
theory Display
  imports App
begin

text \<open>
  What the interface shows beside the components: the key footer (\<open>components/keys.rs\<close>), the help text
  (\<open>components/help.rs\<close>) and the error bar (\<open>components/errorbar.rs\<close>), up to the texts; their drawing is in \<open>Screens\<close>.  A hash set or map is iterated in an order the code does not fix, which is the parameter \<open>ord\<close>.
\<close>

section \<open>The key footer\<close>

definition surface_contexts :: "app_mode \<Rightarrow> key_context list" where
  "surface_contexts m = [CGlobal, context_of_mode m]"

definition surface_entries :: "key_bindings \<Rightarrow> app_mode \<Rightarrow> (key_event list \<times> command_spec) list" where
  "surface_entries kb m = concat (map (\<lambda>c. case kb c of Some es \<Rightarrow> es | None \<Rightarrow> []) (surface_contexts m))"

text \<open>One entry per command label, with the set of the keys of its bindings.\<close>

definition add_shown :: "key_event list \<times> command_spec \<Rightarrow> (string \<times> string list) list \<Rightarrow> (string \<times> string list) list" where
  "add_shown e groups =
     (if spec_show (snd e) then
        fold (\<lambda>k g. let l = command_label (spec_command (snd e)); old = (case map_of g l of Some ks \<Rightarrow> ks | None \<Rightarrow> [])
                    in AList.update l (List.insert (key_event_to_string k) old) g) (fst e) groups
      else groups)"

definition footer_keys :: "(string list \<Rightarrow> string list) \<Rightarrow> key_bindings \<Rightarrow> app_mode \<Rightarrow> (string \<times> string) list" where
  "footer_keys ord kb m =
     fold (\<lambda>(l, ks) shown. AList.update (join_with ''/'' (ord ks)) l shown)
       (fold add_shown (surface_entries kb m) []) []"

section \<open>The help text\<close>

text \<open>\<open>code_text\<close> prints a key code and \<open>rare\<close> the modifiers that no binding can name.\<close>

definition key_label :: "(key_code \<Rightarrow> string) \<Rightarrow> (key_event \<Rightarrow> string) \<Rightarrow> key_event \<Rightarrow> string" where
  "key_label code_text rare k =
     (if m_control (k_mods k) then ''Ctrl+'' else []) @ (if m_alt (k_mods k) then ''Alt+'' else []) @
     (if m_shift (k_mods k) then ''Shift+'' else []) @ rare k @ code_text (k_code k)"

definition add_help ::
    "(key_event \<Rightarrow> string) \<Rightarrow> key_event list \<times> command_spec \<Rightarrow> (string \<times> string list) list \<Rightarrow> (string \<times> string list) list" where
  "add_help label e groups =
     fold (\<lambda>k g. let l = command_label (spec_command (snd e)); old = (case map_of g l of Some ks \<Rightarrow> ks | None \<Rightarrow> [])
                 in AList.update l (old @ [label k]) g) (fst e) groups"

definition help_keys ::
    "((string \<times> string list) list \<Rightarrow> (string \<times> string list) list) \<Rightarrow> (key_event \<Rightarrow> string) \<Rightarrow> key_bindings \<Rightarrow> app_mode
      \<Rightarrow> (string \<times> string) list" where
  "help_keys ord label kb m =
     fold (\<lambda>(l, ks) shown. AList.update (join_with ''/'' ks) l shown)
       (ord (fold (add_help label) (surface_entries kb m) [])) []"

definition help_placement :: "(string \<times> string) list \<Rightarrow> nat" where
  "help_placement rows = (length rows + 2) mod 2 ^ 16"

definition help_rows :: "(string \<times> string) list \<Rightarrow> (string \<times> string) list" where
  "help_rows rows = sort_key snd rows"

lemma add_help_append:
  "add_help label (ks @ ks', c) g = add_help label (ks', c) (add_help label (ks, c) g)"
  by (simp add: add_help_def)

text \<open>A sequence reads like alternatives.  In the help text, a command bound to a sequence of keys is listed
  exactly as if each key of the sequence were bound to it alone: \<open>space+e\<close> is shown as \<open>space/e\<close>.\<close>

lemma help_splits_sequences:
  assumes "kb CGlobal = Some (es @ (ks @ ks', c) # es')" and "kb' = kb(CGlobal \<mapsto> es @ (ks, c) # (ks', c) # es')"
    and "context_of_mode m \<noteq> CGlobal"
  shows "help_keys ord label kb' m = help_keys ord label kb m"
  using assms by (simp add: help_keys_def surface_entries_def surface_contexts_def add_help_append)

section \<open>The error bar\<close>

text \<open>Times are milliseconds of one clock.\<close>

record error_bar =
  eb_show :: bool
  eb_text :: string
  eb_duration :: nat
  eb_show_time :: nat
  eb_history :: "string list"

definition error_bar_new :: "nat \<Rightarrow> error_bar" where
  "error_bar_new now = \<lparr> eb_show = False, eb_text = [], eb_duration = 0, eb_show_time = now, eb_history = [] \<rparr>"

definition show_error :: "nat \<Rightarrow> string \<Rightarrow> nat \<Rightarrow> error_bar \<Rightarrow> error_bar" where
  "show_error now msg d b = b\<lparr> eb_text := msg, eb_duration := d, eb_show_time := now, eb_show := True \<rparr>"

definition clear_error :: "error_bar \<Rightarrow> error_bar" where
  "clear_error b = b\<lparr> eb_show := False, eb_history := eb_history b @ [eb_text b], eb_text := [], eb_duration := 0 \<rparr>"

definition is_showing :: "nat \<Rightarrow> error_bar \<Rightarrow> bool" where
  "is_showing now b \<longleftrightarrow> eb_show b \<and> now - eb_show_time b \<le> eb_duration b"

definition error_update :: "nat \<Rightarrow> app_action \<Rightarrow> error_bar \<Rightarrow> error_bar" where
  "error_update now a b = (case a of
     AcClearScreen \<Rightarrow> clear_error b
   | AcTick \<Rightarrow> (if eb_show b \<and> eb_duration b \<le> now - eb_show_time b then clear_error b else b)
   | AcError e \<Rightarrow> show_error now e 5000 b
   | _ \<Rightarrow> b)"

definition error_placement :: "nat \<Rightarrow> error_bar \<Rightarrow> nat" where
  "error_placement now b = (if is_showing now b then 2 else 0)"

fun error_quiet :: "app_action \<Rightarrow> bool" where
  "error_quiet AcClearScreen = False"
| "error_quiet (AcError _) = False"
| "error_quiet _ = True"

text \<open>An error stays for five seconds: through any actions before that other than a newer error or a cleared screen
  it is shown, and the first tick from then on removes it.\<close>

lemma error_lifetime:
  assumes "list_all (\<lambda>(t, a). t0 \<le> t \<and> t < t0 + 5000 \<and> error_quiet a) acts" and "t0 \<le> t" and "t \<le> t0 + 5000" and "t0 + 5000 \<le> t'"
  shows "let b = fold (\<lambda>(t, a). error_update t a) acts (error_update t0 (AcError e) b0)
     in eb_text b = e \<and> error_placement t b = 2 \<and>
        error_placement t' (error_update t' AcTick b) = 0 \<and> last (eb_history (error_update t' AcTick b)) = e"
proof -
  have step: "error_update t a (show_error t0 e 5000 b0) = show_error t0 e 5000 b0"
    if "t0 \<le> t" "t < t0 + 5000" "error_quiet a" for t a
    using that by (cases a) (auto simp: error_update_def show_error_def)
  have "fold (\<lambda>(t, a). error_update t a) acts (show_error t0 e 5000 b0) = show_error t0 e 5000 b0"
    using assms(1) by (induction acts) (auto simp: step)
  then show ?thesis using assms(2-4)
    by (simp add: error_update_def error_placement_def is_showing_def show_error_def clear_error_def) arith
qed

end
