(* ===== verification/Styles.thy ===== *)
theory Styles
  imports Keymap
begin

text \<open>
  Colour and style strings of the configuration (\<open>parse_style\<close>, \<open>process_color_string\<close> and
  \<open>parse_color\<close> of \<open>src/todoers/src/config.rs\<close>) on ASCII text.  Colour indices are \<open>u8\<close>: the
  flag \<open>checked\<close> says whether the build checks arithmetic (debug profile: an overflow panics) or
  wraps (release profile).  A panic is an \<open>Inl\<close>.
\<close>

datatype panic = Overflow | OutOfBounds

section \<open>String primitives\<close>

fun find_str :: "string \<Rightarrow> string \<Rightarrow> nat option" where
  "find_str p [] = (if p = [] then Some 0 else None)"
| "find_str p (c # s) = (if starts_with (c # s) p then Some 0 else map_option Suc (find_str p s))"

definition contains :: "string \<Rightarrow> string \<Rightarrow> bool" where
  "contains s p \<longleftrightarrow> find_str p s \<noteq> None"

text \<open>\<open>str::replace\<close> of a non-empty pattern, left to right without overlaps.\<close>

function str_replace :: "string \<Rightarrow> string \<Rightarrow> string \<Rightarrow> string" where
  "str_replace p r [] = []"
| "str_replace p r (c # s) =
     (if p \<noteq> [] \<and> starts_with (c # s) p then r @ str_replace p r (drop (length p) (c # s))
      else c # str_replace p r s)"
  by pat_completeness auto

termination by (relation "measure (\<lambda>(p, r, s). length s)") (auto simp: neq_Nil_conv)

function trim_start_matches :: "string \<Rightarrow> string \<Rightarrow> string" where
  "trim_start_matches p s =
     (if p \<noteq> [] \<and> starts_with s p then trim_start_matches p (drop (length p) s) else s)"
  by pat_completeness auto

termination
  by (relation "measure (\<lambda>(p, s). length s)") (auto simp: neq_Nil_conv dest!: starts_with_length)

declare trim_start_matches.simps [simp del]

text \<open>\<open>str::parse::<u8>\<close>: an optional plus sign, at least one digit, nothing else, at most 255.\<close>

definition parse_u8 :: "string \<Rightarrow> byte option" where
  "parse_u8 s =
     (let d = (case s of c # r \<Rightarrow> if c = CHR ''+'' then r else s | [] \<Rightarrow> [])
      in if d \<noteq> [] \<and> list_all digit_char d \<and> dval d \<le> 255 then Some (of_nat (dval d)) else None)"

definition u8_or_default :: "byte option \<Rightarrow> byte" where
  "u8_or_default p = (case p of Some b \<Rightarrow> b | None \<Rightarrow> 0)"

text \<open>The result of a \<open>u8\<close> operation whose exact value is \<open>n\<close>.\<close>

definition u8_result :: "bool \<Rightarrow> nat \<Rightarrow> panic + byte" where
  "u8_result checked n = (if checked \<and> 255 < n then Inl Overflow else Inr (of_nat n))"

definition u8_add :: "bool \<Rightarrow> byte \<Rightarrow> byte \<Rightarrow> panic + byte" where
  "u8_add checked a b = u8_result checked (unat a + unat b)"

definition u8_mul :: "bool \<Rightarrow> byte \<Rightarrow> byte \<Rightarrow> panic + byte" where
  "u8_mul checked a b = u8_result checked (unat a * unat b)"

definition digit_or_default :: "char \<Rightarrow> byte" where
  "digit_or_default c = (if digit_char c then of_nat (of_char c - 48) else 0)"

section \<open>Colours\<close>

definition named_colors :: "(string \<times> byte) list" where
  "named_colors = [(''bold black'', 8), (''bold red'', 9), (''bold green'', 10), (''bold yellow'', 11),
     (''bold blue'', 12), (''bold magenta'', 13), (''bold cyan'', 14), (''bold white'', 15),
     (''black'', 0), (''red'', 1), (''green'', 2), (''yellow'', 3), (''blue'', 4), (''magenta'', 5),
     (''cyan'', 6), (''white'', 7)]"

definition rgb_index :: "bool \<Rightarrow> byte \<Rightarrow> byte \<Rightarrow> byte \<Rightarrow> panic + byte" where
  "rgb_index checked red green blue =
     (case u8_mul checked red 36 of Inl e \<Rightarrow> Inl e | Inr r \<Rightarrow>
     (case u8_add checked 16 r of Inl e \<Rightarrow> Inl e | Inr a \<Rightarrow>
     (case u8_mul checked green 6 of Inl e \<Rightarrow> Inl e | Inr g \<Rightarrow>
     (case u8_add checked a g of Inl e \<Rightarrow> Inl e | Inr b \<Rightarrow> u8_add checked b blue))))"

text \<open>A colour is its index.  \<open>c.wrapping_shl(8)\<close> on a \<open>u8\<close> shifts by \<open>8 mod 8 = 0\<close>.\<close>

definition parse_color :: "bool \<Rightarrow> string \<Rightarrow> panic + byte option" where
  "parse_color checked s0 =
     (let s = trim s0 in
      if contains s ''bright color'' then
        Inr (Some (push_bit (8 mod 8)
          (u8_or_default (parse_u8 (trim_start_matches ''color'' (trim_start_matches ''bright '' s))))))
      else if contains s ''color'' then
        Inr (Some (u8_or_default (parse_u8 (trim_start_matches ''color'' s))))
      else if contains s ''gray'' then
        (case u8_add checked 232 (u8_or_default (parse_u8 (trim_start_matches ''gray'' s))) of
           Inl e \<Rightarrow> Inl e | Inr c \<Rightarrow> Inr (Some c))
      else if contains s ''rgb'' then
        (if length s < 6 then Inl OutOfBounds
         else case rgb_index checked (digit_or_default (s ! 3)) (digit_or_default (s ! 4))
                     (digit_or_default (s ! 5)) of
                Inl e \<Rightarrow> Inl e | Inr c \<Rightarrow> Inr (Some c))
      else Inr (map_of named_colors s))"

section \<open>Styles\<close>

record text_modifier =
  t_underlined :: bool
  t_bold :: bool
  t_reversed :: bool

record text_style =
  st_fg :: "byte option"
  st_bg :: "byte option"
  st_add :: text_modifier

definition process_color_string :: "string \<Rightarrow> string \<times> text_modifier" where
  "process_color_string s =
     (str_replace ''inverse '' [] (str_replace ''underline '' [] (str_replace ''bold '' []
        (str_replace ''bright '' [] (str_replace ''grey'' ''gray'' s)))),
      \<lparr> t_underlined = contains s ''underline'', t_bold = contains s ''bold'',
        t_reversed = contains s ''inverse'' \<rparr>)"

definition parse_style :: "bool \<Rightarrow> string \<Rightarrow> panic + text_style" where
  "parse_style checked line =
     (let i = (case find_str ''on '' (to_lowercase line) of Some i \<Rightarrow> i | None \<Rightarrow> length line);
          (fc, fm) = process_color_string (take i line);
          (bc, bm) = process_color_string (str_replace ''on '' [] (drop i line))
      in case parse_color checked fc of Inl e \<Rightarrow> Inl e | Inr fg \<Rightarrow>
         (case parse_color checked bc of Inl e \<Rightarrow> Inl e | Inr bg \<Rightarrow>
            Inr \<lparr> st_fg = fg, st_bg = bg,
                  st_add = \<lparr> t_underlined = (t_underlined fm \<or> t_underlined bm),
                             t_bold = (t_bold fm \<or> t_bold bm),
                             t_reversed = (t_reversed fm \<or> t_reversed bm) \<rparr> \<rparr>))"

lemma contains_head: "contains s (c # p) \<Longrightarrow> c \<in> set s"
  unfolding contains_def by (induction s) (auto split: if_splits)

lemma contains_prefix: "p \<noteq> [] \<Longrightarrow> contains (p @ s) p"
  by (cases p) (simp_all add: contains_def starts_with_def)

lemma trim_no_space: "list_all (\<lambda>c. \<not> is_space c) s \<Longrightarrow> trim s = s"
proof -
  assume a: "list_all (\<lambda>c. \<not> is_space c) s"
  have "dropWhile is_space t = t" if "list_all (\<lambda>c. \<not> is_space c) t" for t
    using that by (cases t) auto
  then show ?thesis using a by (simp add: trim_def)
qed

lemma digit_not_space: "digit_char c \<Longrightarrow> \<not> is_space c"
  by (auto simp: digit_char_def is_space_def)

lemma digit_not_letter: "digit_char c \<Longrightarrow> c \<noteq> CHR ''c'' \<and> c \<noteq> CHR ''b'' \<and> c \<noteq> CHR ''g'' \<and> c \<noteq> CHR ''+''"
  by (auto simp: digit_char_def)

lemma dec_str_not_Nil [simp]: "dec_str n \<noteq> []"
  by (subst dec_str.simps) simp

lemma parse_u8_dec_str: "parse_u8 (dec_str n) = (if n \<le> 255 then Some (of_nat n) else None)"
proof -
  note d = dec_str_digits [of n]
  then obtain c r where c: "dec_str n = c # r" "c \<noteq> CHR ''+''"
    using digit_not_letter by (cases "dec_str n") auto
  then have "(case dec_str n of c # r \<Rightarrow> if c = CHR ''+'' then r else dec_str n | [] \<Rightarrow> []) = dec_str n"
    by simp
  then show ?thesis using d by (simp add: parse_u8_def)
qed

text \<open>Gray levels.  The configuration string made of \<open>gray\<close> and a decimal number is the palette
  index 232 plus the number up to 23.  From 24 to 255 the addition leaves the byte: a build that
  checks arithmetic panics while it reads the configuration, and one that does not wraps around
  to the colour 24 below the number.  A number above 255 does not parse and gives index 232.\<close>

lemma gray_level:
  "parse_color checked (''gray'' @ dec_str n) =
     (if n \<le> 23 then Inr (Some (of_nat (232 + n)))
      else if n \<le> 255 then (if checked then Inl Overflow else Inr (Some (of_nat (n - 24))))
      else Inr (Some 232))"
proof -
  let ?s = "''gray'' @ dec_str n"
  note d = dec_str_digits [of n, THEN conjunct1]
  have no: "CHR ''c'' \<notin> set ?s" "CHR ''b'' \<notin> set ?s"
    using d digit_not_letter by (auto simp: list_all_iff)
  have "trim ?s = ?s"
    using d by (intro trim_no_space) (auto simp: list_all_iff is_space_def digit_char_def)
  moreover have "\<not> contains ?s ''bright color''" "\<not> contains ?s ''color''"
    using no contains_head by blast+
  moreover have "contains ?s ''gray''" by (rule contains_prefix) simp
  moreover have "trim_start_matches ''gray'' ?s = dec_str n"
  proof -
    have "\<not> starts_with (dec_str n) ''gray''"
      using d digit_not_letter by (cases "dec_str n") auto
    then show ?thesis by (simp add: trim_start_matches.simps)
  qed
  moreover have "(of_nat (232 + n) :: byte) = of_nat (n - 24)" if "24 \<le> n"
  proof -
    have "232 + n = 256 + (n - 24)" using that by simp
    then have "(of_nat (232 + n) :: byte) = of_nat 256 + of_nat (n - 24)" by (metis of_nat_add)
    then show ?thesis by simp
  qed
  ultimately show ?thesis
    unfolding parse_color_def Let_def
    by (auto simp: parse_u8_dec_str u8_or_default_def u8_add_def u8_result_def unat_of_nat)
qed

end
