(* ===== verification/Locations.thy ===== *)
theory Locations
  imports Styles App
begin

text \<open>
  Where the client keeps its files, and what it is configured with: the choice of the data and
  configuration directories (\<open>src/todoers-client/src/lib.rs\<close>, \<open>src/todoers/src/config.rs\<close>), the log
  file (\<open>logging.rs\<close>), the merge of the user's settings with the shipped ones, and the device vault key
  written by \<open>todoers keygen\<close> (\<open>todoers-client/src/crypto.rs\<close>).  The \<open>directories\<close> crate and the
  environment are the record \<open>host\<close>; the reading of the configuration files is an argument.
\<close>

section \<open>The host and the disk\<close>

record base_dirs =
  bd_state :: "string option"
  bd_config :: string

record project_dirs =
  pd_data_local :: string
  pd_config_local :: string

text \<open>\<open>ho_writable\<close> tells where the process may create files and directories, \<open>ho_filter_ok\<close> which texts are log filters.\<close>

record host =
  ho_env :: "string \<Rightarrow> string option"
  ho_home :: "string option"
  ho_base :: "base_dirs option"
  ho_project :: "string \<Rightarrow> string \<Rightarrow> string \<Rightarrow> project_dirs option"
  ho_windows :: bool
  ho_writable :: "string \<Rightarrow> bool"
  ho_filter_ok :: "string \<Rightarrow> bool"

text \<open>\<open>dk_private\<close> are the files only their owner can read.  The pragmas a database file was created with stand for the cipher settings it is encrypted under.\<close>

record disk =
  dk_dirs :: "string set"
  dk_files :: "string \<rightharpoonup> bytes"
  dk_private :: "string set"
  dk_dbs :: "string \<rightharpoonup> (string \<times> string) list \<times> client_db"

definition is_file :: "disk \<Rightarrow> string \<Rightarrow> bool" where
  "is_file d p \<longleftrightarrow> dk_files d p \<noteq> None \<or> dk_dbs d p \<noteq> None"

definition disk_exists :: "disk \<Rightarrow> string \<Rightarrow> bool" where
  "disk_exists d p \<longleftrightarrow> p \<in> dk_dirs d \<or> is_file d p"

definition path_join :: "string \<Rightarrow> string \<Rightarrow> string" where
  "path_join p q =
     (if q \<noteq> [] \<and> hd q = CHR ''/'' then q
      else if p = [] \<or> last p = CHR ''/'' then p @ q
      else p @ ''/'' @ q)"

text \<open>A directory with the directories above it.\<close>

definition ancestors :: "string \<Rightarrow> string list" where
  "ancestors p = p # map (\<lambda>i. take i p) (filter (\<lambda>i. p ! i = CHR ''/'') [1..<length p])"

text \<open>\<open>None\<close> is an I/O error: the place is not writable, or a file is in the way.\<close>

definition create_dir_all :: "host \<Rightarrow> string \<Rightarrow> disk \<Rightarrow> disk option" where
  "create_dir_all Ho p d =
     (if p \<in> dk_dirs d then Some d
      else if list_ex (is_file d) (ancestors p) \<or> \<not> ho_writable Ho p then None
      else Some (d\<lparr> dk_dirs := dk_dirs d \<union> set (ancestors p) \<rparr>))"

definition write_file :: "string \<Rightarrow> bytes \<Rightarrow> disk \<Rightarrow> disk" where
  "write_file p bs d = d\<lparr> dk_files := (dk_files d)(p \<mapsto> bs) \<rparr>"

definition existing :: "disk \<Rightarrow> string option \<Rightarrow> string option" where
  "existing d po = (case po of Some p \<Rightarrow> if disk_exists d p then Some p else None | None \<Rightarrow> None)"

definition pkg_name :: string where "pkg_name = ''todoers''"

definition user_data_dir :: "string \<Rightarrow> string" where
  "user_data_dir home = path_join (path_join (path_join home ''.local'') ''state'') ''todoers''"

definition data_project_dir :: "host \<Rightarrow> project_dirs option" where
  "data_project_dir Ho = ho_project Ho '''' '''' ''todoers''"

definition get_data_dir :: "host \<Rightarrow> disk \<Rightarrow> string" where
  "get_data_dir Ho d =
     (case ho_env Ho ''TODOERS_DATA'' of
        Some s \<Rightarrow> s
      | None \<Rightarrow>
     (case existing d (map_option user_data_dir (ho_home Ho)) of
        Some user \<Rightarrow> user
      | None \<Rightarrow>
     (case existing d (Option.bind (ho_base Ho) bd_state) of
        Some base \<Rightarrow> base
      | None \<Rightarrow>
     (case data_project_dir Ho of
        Some p \<Rightarrow> pd_data_local p
      | None \<Rightarrow> path_join ''.'' ''.data''))))"

definition project_name :: string where "project_name = ''TODOERS''"

definition config_folder :: "host \<Rightarrow> string option" where
  "config_folder Ho = ho_env Ho (project_name @ ''_CONFIG'')"

definition config_project_dir :: "host \<Rightarrow> project_dirs option" where
  "config_project_dir Ho = ho_project Ho ''com'' ''annieehler'' pkg_name"

definition get_config_dir :: "host \<Rightarrow> disk \<Rightarrow> string" where
  "get_config_dir Ho d =
     (case config_folder Ho of
        Some s \<Rightarrow> s
      | None \<Rightarrow>
     (case existing d (map_option (\<lambda>h. path_join (path_join h ''.config'') pkg_name) (ho_home Ho)) of
        Some user \<Rightarrow> user
      | None \<Rightarrow>
     (case existing d (map_option (\<lambda>b. path_join (bd_config b) pkg_name) (ho_base Ho)) of
        Some base \<Rightarrow> base
      | None \<Rightarrow>
     (case config_project_dir Ho of
        Some p \<Rightarrow> pd_config_local p
      | None \<Rightarrow> path_join ''.'' ''.config''))))"

section \<open>The log\<close>

text \<open>The filter of the log: \<open>RUST_LOG\<close> when it is set and valid, else \<open>TODOERS_LOG_LEVEL\<close>, which must be valid
  when it is set; with neither, the default level.\<close>

datatype log_error = LogIo | BadFilter

record log_setup =
  lg_file :: string
  lg_filter :: "string option"
  lg_console :: bool

definition level_filter :: "host \<Rightarrow> log_error + string option" where
  "level_filter Ho =
     (case ho_env Ho (project_name @ ''_LOG_LEVEL'') of
        None \<Rightarrow> Inr None
      | Some g \<Rightarrow> if ho_filter_ok Ho g then Inr (Some g) else Inl BadFilter)"

definition log_filter :: "host \<Rightarrow> log_error + string option" where
  "log_filter Ho =
     (case ho_env Ho ''RUST_LOG'' of
        None \<Rightarrow> level_filter Ho
      | Some f \<Rightarrow> if ho_filter_ok Ho f then Inr (Some f) else level_filter Ho)"

text \<open>The log file is created or truncated before the filter is read.\<close>

definition logging_init :: "host \<Rightarrow> disk \<Rightarrow> (log_error + log_setup) \<times> disk" where
  "logging_init Ho d =
     (let directory = get_data_dir Ho d in
      case create_dir_all Ho directory d of
        None \<Rightarrow> (Inl LogIo, d)
      | Some d \<Rightarrow>
          (let log_path = path_join directory (pkg_name @ ''.log'') in
           if log_path \<in> dk_dirs d \<or> \<not> ho_writable Ho log_path then (Inl LogIo, d)
           else (let d = write_file log_path [] d in
             case log_filter Ho of
               Inl e \<Rightarrow> (Inl e, d)
             | Inr f \<Rightarrow> (Inr \<lparr> lg_file = log_path, lg_filter = f,
                                 lg_console = (ho_env Ho ''TODOERS_TOKIO_CONSOLE'' = Some ''1'') \<rparr>, d))))"

section \<open>Settings\<close>

datatype icon_type = NerdFonts | Emojis | Basic

definition icon_type_default :: "host \<Rightarrow> icon_type" where
  "icon_type_default Ho = (if ho_windows Ho then Emojis else NerdFonts)"

fun icon_type_of :: "string \<Rightarrow> icon_type option" where
  "icon_type_of s =
     (if s = ''nerd-fonts'' then Some NerdFonts
      else if s = ''emojis'' then Some Emojis
      else if s = ''basic'' then Some Basic else None)"

definition editing_mode_of :: "string \<Rightarrow> editing_mode option" where
  "editing_mode_of s = (if s = ''emacs'' then Some Emacs else if s = ''vim'' then Some Vim else None)"

definition default_server_url :: string where
  "default_server_url = ''http://127.0.0.1:8192''"

type_synonym styles = "app_mode \<rightharpoonup> (string \<rightharpoonup> text_style)"

text \<open>The configuration: the part the application reads (\<open>app_config\<close>), the data directory, the icons and the styles.\<close>

record config = app_config +
  cg_data_dir :: string
  cg_icon_type :: icon_type
  cg_styles :: styles

text \<open>What the configuration files say once they are merged, an absent key being \<open>None\<close>: the input of the deserializer.\<close>

record raw_unlock =
  ru_enabled :: "bool option"
  ru_recipient :: "string option"
  ru_identity :: "string option"

record raw_config =
  rc_data_dir :: "string option"
  rc_server_url :: "string option"
  rc_icon_type :: "string option"
  rc_device_unlock :: "raw_unlock option"
  rc_editing_mode :: "string option"
  rc_keybindings :: "(key_context \<times> (string \<times> command_spec) list) list"
  rc_styles :: "(app_mode \<times> (string \<times> string) list) list"

datatype config_error = BadSetting string | ConfigPanic

definition unlock_of_raw :: "raw_unlock option \<Rightarrow> device_unlock_config" where
  "unlock_of_raw r =
     (case r of
        None \<Rightarrow> \<lparr> du_enabled = False, du_recipient = None, du_identity = None \<rparr>
      | Some u \<Rightarrow> \<lparr> du_enabled = (case ru_enabled u of Some b \<Rightarrow> b | None \<Rightarrow> False),
                   du_recipient = ru_recipient u, du_identity = ru_identity u \<rparr>)"

text \<open>The sections of the key map are converted one by one; a key that does not parse is a panic.\<close>

definition bindings_of_raw :: "(key_context \<times> (string \<times> command_spec) list) list \<Rightarrow> config_error + key_bindings" where
  "bindings_of_raw raw =
     (case collect_results (map (\<lambda>(ctx, kvs). map_sum id (Pair ctx) (convert_section kvs)) raw) of
        Inl _ \<Rightarrow> Inl ConfigPanic
      | Inr ss \<Rightarrow> Inr (map_of ss))"

text \<open>\<open>checked\<close> tells whether the build checks arithmetic, which is when a style can panic.\<close>

definition styles_of_raw :: "bool \<Rightarrow> (app_mode \<times> (string \<times> string) list) list \<Rightarrow> config_error + styles" where
  "styles_of_raw checked raw =
     (case collect_results (map (\<lambda>(mode, kvs).
          map_sum id (\<lambda>es. (mode, map_of es))
            (collect_results (map (\<lambda>(s, style). map_sum id (Pair s) (parse_style checked style)) kvs))) raw) of
        Inl _ \<Rightarrow> Inl ConfigPanic
      | Inr ss \<Rightarrow> Inr (map_of ss))"

definition setting :: "('s \<Rightarrow> 'a option) \<Rightarrow> 'a \<Rightarrow> string \<Rightarrow> 's option \<Rightarrow> config_error + 'a" where
  "setting parse dflt name s =
     (case s of None \<Rightarrow> Inr dflt
      | Some s \<Rightarrow> (case parse s of Some x \<Rightarrow> Inr x | None \<Rightarrow> Inl (BadSetting name)))"

definition config_of_raw :: "host \<Rightarrow> bool \<Rightarrow> raw_config \<Rightarrow> config_error + config" where
  "config_of_raw Ho checked r =
     (case setting icon_type_of (icon_type_default Ho) ''icon_type'' (rc_icon_type r) of
        Inl e \<Rightarrow> Inl e
      | Inr icons \<Rightarrow>
     (case setting editing_mode_of Emacs ''editing_mode'' (rc_editing_mode r) of
        Inl e \<Rightarrow> Inl e
      | Inr editing \<Rightarrow>
     (case bindings_of_raw (rc_keybindings r) of
        Inl e \<Rightarrow> Inl e
      | Inr bindings \<Rightarrow>
     (case styles_of_raw checked (rc_styles r) of
        Inl e \<Rightarrow> Inl e
      | Inr styles \<Rightarrow>
          Inr \<lparr> cf_server_url = (case rc_server_url r of Some u \<Rightarrow> u | None \<Rightarrow> default_server_url),
                cf_device_unlock = unlock_of_raw (rc_device_unlock r), cf_editing = editing, cf_bindings = bindings,
                cg_data_dir = (case rc_data_dir r of Some p \<Rightarrow> p | None \<Rightarrow> []),
                cg_icon_type = icons, cg_styles = styles \<rparr>))))"

definition merge_styles :: "styles \<Rightarrow> styles \<Rightarrow> styles" where
  "merge_styles ds user = (\<lambda>mode. case ds mode of
     None \<Rightarrow> user mode
   | Some dm \<Rightarrow> Some (dm ++ (case user mode of None \<Rightarrow> Map.empty | Some um \<Rightarrow> um)))"

text \<open>A leading tilde of the identity path is the home directory.\<close>

definition expand_home :: "host \<Rightarrow> string \<Rightarrow> string" where
  "expand_home Ho p =
     (if take 1 p = ''~'' then (case ho_home Ho of Some h \<Rightarrow> h @ drop 1 p | None \<Rightarrow> p) else p)"

datatype file_format = FmtJson5 | FmtJson | FmtYaml | FmtToml | FmtIni

definition config_files :: "(string \<times> file_format) list" where
  "config_files = [(''config.json5'', FmtJson5), (''config.json'', FmtJson),
     (''config.yaml'', FmtYaml), (''config.toml'', FmtToml), (''config.ini'', FmtIni)]"

type_synonym config_builder =
  "(string \<times> string) list \<Rightarrow> (file_format \<times> bytes option) list \<Rightarrow> string + raw_config"

text \<open>\<open>build\<close> merges the defaults and the files, a later file over an earlier one; \<open>shipped\<close> are the
  built-in key bindings and styles.\<close>

definition config_new :: "host \<Rightarrow> config_builder \<Rightarrow> bool \<Rightarrow> key_bindings \<Rightarrow> styles \<Rightarrow> disk \<Rightarrow> config_error + config" where
  "config_new Ho build checked shipped_keys shipped_styles d =
     (let data_dir = get_data_dir Ho d;
          config_dir = get_config_dir Ho d;
          sources = map (\<lambda>(file, format). (format, dk_files d (path_join config_dir file))) config_files
      in case build [(''data_dir'', data_dir), (''config_dir'', config_dir)] sources of
           Inl e \<Rightarrow> Inl (BadSetting e)
         | Inr raw \<Rightarrow>
             map_sum id (\<lambda>cfg. cfg\<lparr>
                 cf_bindings := merge_bindings shipped_keys (cf_bindings cfg),
                 cg_styles := merge_styles shipped_styles (cg_styles cfg),
                 cf_device_unlock := (cf_device_unlock cfg)\<lparr> du_identity :=
                   map_option (expand_home Ho) (du_identity (cf_device_unlock cfg)) \<rparr> \<rparr>)
               (config_of_raw Ho checked raw))"

definition config_found :: "host \<Rightarrow> disk \<Rightarrow> bool" where
  "config_found Ho d = list_ex (\<lambda>(file, _). disk_exists d (path_join (get_config_dir Ho d) file)) config_files"

section \<open>The device vault key\<close>

definition key_contents :: string where
  "key_contents =
     ''# This is your device vault key. Keep it secret and safe!'' @ [CHR 0x0A] @
     ''# It protects the cached keys that unlock your todo lists on this device.'' @ [CHR 0x0A] @
     ''# Anyone with access to this file can impersonate you on this device.''"

text \<open>\<open>hex\<close> encodes bytes as text and \<open>sk\<close> is the fresh secret.  The file is created for its owner only, and never in the
  place of another.  \<open>written\<close> is the number of bytes after which the write fails, if it does.\<close>

definition keygen ::
    "crypto \<Rightarrow> (bytes \<Rightarrow> string) \<Rightarrow> host \<Rightarrow> 32 fixed \<Rightarrow> nat option \<Rightarrow> string \<Rightarrow> string option \<Rightarrow> disk \<Rightarrow> (client_error + string) \<times> disk" where
  "keygen C hex Ho sk written output_path header d =
     (let encoded_secret = hex (as_slice sk);
          encoded_public = hex (c_kem_public C sk)
      in if disk_exists d output_path \<or> \<not> ho_writable Ho output_path
         then (Inl (DeviceVault ''failed to create device vault key''), d)
         else (let d = (if ho_windows Ho then d else d\<lparr> dk_private := insert output_path (dk_private d) \<rparr>);
                   contents = (case header of
                     Some c \<Rightarrow> c @ [CHR 0x0A] @ encoded_secret @ [CHR 0x0A]
                   | None \<Rightarrow> encoded_secret @ [CHR 0x0A])
               in case written of
                    Some n \<Rightarrow> (Inl (DeviceVault ''failed to write device vault key''), write_file output_path (take n (ascii contents)) d)
                  | None \<Rightarrow> (Inr encoded_public, write_file output_path (ascii contents) d)))"

text \<open>\<open>read_to_string\<close> of a file of ASCII text.\<close>

definition read_text :: "disk \<Rightarrow> string \<Rightarrow> string option" where
  "read_text d p = map_option (map (\<lambda>b. char_of (unat b))) (dk_files d p)"


section \<open>Lemmas: the places\<close>

text \<open>The directories whose existence decides where the files are.\<close>

definition dir_candidates :: "host \<Rightarrow> string set" where
  "dir_candidates Ho = set_option (map_option user_data_dir (ho_home Ho)) \<union>
     set_option (Option.bind (ho_base Ho) bd_state) \<union>
     set_option (map_option (\<lambda>h. path_join (path_join h ''.config'') pkg_name) (ho_home Ho)) \<union>
     set_option (map_option (\<lambda>b. path_join (bd_config b) pkg_name) (ho_base Ho))"

lemma existing_cong: "(\<And>p. p \<in> set_option po \<Longrightarrow> disk_exists d' p = disk_exists d p) \<Longrightarrow> existing d' po = existing d po"
  by (cases po) (auto simp: existing_def)

lemma dirs_cong:
  assumes "\<And>p. p \<in> dir_candidates Ho \<Longrightarrow> disk_exists d' p = disk_exists d p"
  shows "get_data_dir Ho d' = get_data_dir Ho d" and "get_config_dir Ho d' = get_config_dir Ho d"
proof -
  have e: "existing d' po = existing d po" if "set_option po \<subseteq> dir_candidates Ho" for po
    by (rule existing_cong) (use assms that in blast)
  show "get_data_dir Ho d' = get_data_dir Ho d" "get_config_dir Ho d' = get_config_dir Ho d"
    unfolding get_data_dir_def get_config_dir_def by (subst (1 2) e; force simp: dir_candidates_def)+
qed

text \<open>Disks only grow.\<close>

definition grows :: "disk \<Rightarrow> disk \<Rightarrow> bool" where
  "grows d d' \<longleftrightarrow> dk_dirs d \<subseteq> dk_dirs d' \<and> (\<forall>p. is_file d p \<longrightarrow> is_file d' p)"

lemma grows_refl [simp]: "grows d d" by (simp add: grows_def)

lemma grows_trans: "grows d d' \<Longrightarrow> grows d' d'' \<Longrightarrow> grows d d''" by (auto simp: grows_def)

lemma grows_exists: "grows d d' \<Longrightarrow> disk_exists d p \<Longrightarrow> disk_exists d' p" by (auto simp: grows_def disk_exists_def)

lemma grows_write [simp]: "grows d (write_file p bs d)" by (auto simp: grows_def write_file_def is_file_def)

lemma write_file_simps [simp]: "dk_dirs (write_file p bs d) = dk_dirs d" "dk_dbs (write_file p bs d) = dk_dbs d"
  "dk_files (write_file p bs d) = (dk_files d)(p \<mapsto> bs)"
  by (simp_all add: write_file_def)

lemma self_ancestor [simp]: "p \<in> set (ancestors p)" by (simp add: ancestors_def)

lemma create_dir_all_ok:
  assumes "create_dir_all Ho p d = Some d'"
  shows "grows d d'" "p \<in> dk_dirs d'" "dk_files d' = dk_files d" "dk_dbs d' = dk_dbs d" "is_file d q \<Longrightarrow> q \<in> dk_dirs d' \<Longrightarrow> q \<in> dk_dirs d"
  using assms by (auto simp: create_dir_all_def grows_def is_file_def list_ex_iff split: if_splits)

lemma create_dir_again [simp]: "p \<in> dk_dirs d \<Longrightarrow> create_dir_all Ho p d = Some d" by (simp add: create_dir_all_def)

lemma path_join_ends: "q \<noteq> [] \<Longrightarrow> hd q \<noteq> CHR ''/'' \<Longrightarrow> \<exists>r. path_join p q = r @ q"
  by (auto simp: path_join_def)

lemma path_join_other:
  assumes "q \<noteq> []" "hd q \<noteq> CHR ''/''" "q' \<noteq> []" "hd q' \<noteq> CHR ''/''"
    and "n \<le> length q" "n \<le> length q'" "take n (rev q) \<noteq> take n (rev q')"
  shows "path_join p q \<noteq> path_join p' q'"
proof
  assume eq: "path_join p q = path_join p' q'"
  obtain r r' where "path_join p q = r @ q" "path_join p' q' = r' @ q'" using path_join_ends assms by meson
  then have "take n (rev (r @ q)) = take n (rev (r' @ q'))" using eq by simp
  then show False using assms(5-7) by simp
qed

section \<open>Lemmas: the vault key\<close>

definition hex_ok :: "crypto \<Rightarrow> (bytes \<Rightarrow> string) \<Rightarrow> bool" where
  "hex_ok C hex \<longleftrightarrow> (\<forall>bs. c_hex_decode C (hex bs) = Some bs \<and> length (hex bs) = 2 * length bs \<and>
     set (hex bs) \<subseteq> set ''0123456789abcdef'')"

lemma unat_ascii_char: "char_of (unat (of_nat (of_char c) :: byte)) = c"
proof -
  have "(of_char c :: nat) < 2 ^ 8" using nat_of_char_less_256 [of c] by simp
  then have "unat (of_nat (of_char c) :: byte) = of_char c" by (simp add: unat_of_nat take_bit_eq_mod)
  then show ?thesis by simp
qed

lemma text_of_ascii: "map (\<lambda>b. char_of (unat b)) (ascii s) = s"
  by (simp add: ascii_def unat_ascii_char comp_def)

lemma lines_from_line: "CHR 0x0A \<notin> set l \<Longrightarrow> lines_from cur (l @ [CHR 0x0A] @ t) = (cur @ l) # lines_from [] t"
  by (induction l arbitrary: cur) auto

lemma trim_solid: "(\<forall>c\<in>set s. \<not> is_space c) \<Longrightarrow> trim s = s"
proof -
  assume "\<forall>c\<in>set s. \<not> is_space c"
  then have "dropWhile is_space s = s" "dropWhile is_space (rev s) = rev s"
    by (simp_all add: dropWhile_eq_self_iff flip: in_set_conv_nth) (metis hd_in_set list.set_sel(1) set_rev rev_is_Nil_conv)+
  then show ?thesis by (simp add: trim_def)
qed

lemma hex_text:
  assumes "hex_ok C hex" and "bs \<noteq> []"
  shows "CHR 0x0A \<notin> set (hex bs)" "trim (hex bs) = hex bs" "hex bs \<noteq> []" "hd (hex bs) \<noteq> CHR ''#''"
proof -
  have s: "set (hex bs) \<subseteq> set ''0123456789abcdef''" using assms(1) by (simp add: hex_ok_def)
  show ne: "hex bs \<noteq> []" using assms by (auto simp: hex_ok_def) (metis length_0_conv mult_is_0 zero_neq_numeral)
  have "x \<notin> set (hex bs)" if "x \<notin> set ''0123456789abcdef''" for x using s that by blast
  then show "CHR 0x0A \<notin> set (hex bs)" by simp
  show "hd (hex bs) \<noteq> CHR ''#''" using s hd_in_set [OF ne] by auto
  show "trim (hex bs) = hex bs" by (rule trim_solid) (use s in \<open>auto simp: is_space_def\<close>)
qed

lemma key_line_keygen:
  assumes "hex_ok C hex" and "bs \<noteq> []"
  shows "key_line (key_contents @ [CHR 0x0A] @ hex bs @ [CHR 0x0A]) = Some (hex bs)"
proof -
  note h = hex_text [OF assms]
  have nl: "CHR 0x0A \<notin> set ''# This is your device vault key. Keep it secret and safe!''"
    "CHR 0x0A \<notin> set ''# It protects the cached keys that unlock your todo lists on this device.''"
    "CHR 0x0A \<notin> set ''# Anyone with access to this file can impersonate you on this device.''"
    by simp_all
  have "str_lines (key_contents @ [CHR 0x0A] @ hex bs @ [CHR 0x0A]) =
     [''# This is your device vault key. Keep it secret and safe!'',
      ''# It protects the cached keys that unlock your todo lists on this device.'',
      ''# Anyone with access to this file can impersonate you on this device.'', hex bs]"
    unfolding str_lines_def key_contents_def append_assoc
    by (subst lines_from_line [OF nl(1)], subst lines_from_line [OF nl(2)], subst lines_from_line [OF nl(3)])
      (use lines_from_line [OF h(1), of "[]" "[]"] in simp)
  moreover have "trim ''# This is your device vault key. Keep it secret and safe!'' = ''# This is your device vault key. Keep it secret and safe!''"
    "trim ''# It protects the cached keys that unlock your todo lists on this device.'' = ''# It protects the cached keys that unlock your todo lists on this device.''"
    "trim ''# Anyone with access to this file can impersonate you on this device.'' = ''# Anyone with access to this file can impersonate you on this device.''"
    by code_simp+
  ultimately show ?thesis by (simp add: key_line_def h)
qed

text \<open>C33: A vault key opens what is sealed to it, and is never replaced.  What \<open>keygen\<close> writes is a file only its owner
  can read (on Unix), from which the device vault finds the secret under the comment lines: whatever is sealed to the
  public key it printed, the file opens.  Generating again at the same path, with whatever secret and header, fails
  and leaves the disk as it was.\<close>

theorem keygen_key_opens:
  assumes "crypto_ok C" and "hex_ok C hex" and "keygen C hex Ho sk written path (Some key_contents) d = (Inr pub, d')"
  shows "\<exists>identity. read_text d' path = Some identity \<and> (path \<in> dk_private d' \<or> ho_windows Ho) \<and>
     (\<forall>rnd nonce plain. \<exists>blob. device_seal C rnd nonce pub plain = Inr blob \<and> device_open C identity blob = Inr plain) \<and>
     (\<forall>sk' written' header. keygen C hex Ho sk' written' path header d' =
        (Inl (DeviceVault ''failed to create device vault key''), d'))"
proof -
  let ?identity = "key_contents @ [CHR 0x0A] @ hex (as_slice sk) @ [CHR 0x0A]"
  have pub: "pub = hex (c_kem_public C sk)" and d': "dk_files d' path = Some (ascii ?identity)" "path \<in> dk_private d' \<or> ho_windows Ho"
    using assms(3) by (auto simp: keygen_def Let_def write_file_def split: if_splits option.splits)
  have sk: "as_slice sk \<noteq> []" using length_as_slice [of sk] by (cases "as_slice sk") simp_all
  have "pub \<noteq> [] \<Longrightarrow> trim pub = pub"
    by (rule trim_solid) (use assms(2) pub in \<open>force simp: hex_ok_def is_space_def\<close>)
  then have "trim pub = pub" by (cases "pub = []") (simp_all add: trim_def)
  then have p: "c_hex_decode C (trim pub) = Some (c_kem_public C sk)" "c_hex_decode C (hex (as_slice sk)) = Some (as_slice sk)"
    using assms(2) pub by (simp_all add: hex_ok_def)
  have "\<exists>blob. device_seal C rnd nonce pub plain = Inr blob \<and> device_open C ?identity blob = Inr plain" for rnd nonce plain
    using device_vault_opens [OF assms(1) p(1) key_line_keygen [OF assms(2) sk] p(2), of rnd nonce plain] by blast
  moreover have "read_text d' path = Some ?identity" by (simp add: read_text_def d'(1) text_of_ascii)
  moreover have "disk_exists d' path" using d'(1) by (simp add: disk_exists_def is_file_def)
  ultimately show ?thesis using d'(2) by (auto simp: keygen_def Let_def)
qed


lemma byte_less: "unat (b :: byte) < 256"
  using unsigned_less [of b] by simp

text \<open>Lower-case hexadecimal, to instantiate the codec.\<close>

definition hex_digits :: string where "hex_digits = ''0123456789abcdef''"

definition plain_hex :: "bytes \<Rightarrow> string" where
  "plain_hex bs = concat (map (\<lambda>b. [hex_digits ! (unat b div 16), hex_digits ! (unat b mod 16)]) bs)"

definition digit_value :: "char \<Rightarrow> nat" where
  "digit_value c = length (takeWhile (\<lambda>x. x \<noteq> c) hex_digits)"

fun plain_unhex :: "string \<Rightarrow> bytes option" where
  "plain_unhex [] = Some []"
| "plain_unhex [_] = None"
| "plain_unhex (a # b # s) =
     (if digit_value a < 16 \<and> digit_value b < 16
      then map_option (Cons (of_nat (16 * digit_value a + digit_value b))) (plain_unhex s) else None)"

lemma digit_value_nth: "n < 16 \<Longrightarrow> digit_value (hex_digits ! n) = n"
proof -
  have "\<forall>n\<in>set [0..<16]. digit_value (hex_digits ! n) = n" by code_simp
  then show "n < 16 \<Longrightarrow> digit_value (hex_digits ! n) = n" by simp
qed

lemma plain_unhex_hex: "plain_unhex (plain_hex bs) = Some bs"
proof (induction bs)
  case (Cons b bs)
  have "unat b < 256" by (rule byte_less)
  then have "digit_value (hex_digits ! (unat b div 16)) = unat b div 16" "unat b div 16 < 16" by (auto intro!: digit_value_nth)
  moreover have "16 * (unat b div 16) + unat b mod 16 = unat b" by simp
  ultimately show ?case using Cons by (simp add: plain_hex_def digit_value_nth del: of_nat_add of_nat_mult)
qed (simp add: plain_hex_def)

definition hex_crypto :: crypto where
  "hex_crypto = toy_crypto\<lparr> c_hex_decode := plain_unhex \<rparr>"

lemma hex_crypto_ok: "crypto_ok hex_crypto"
  using toy_crypto_ok by (simp add: hex_crypto_def crypto_ok_def aead_ok_def sign_ok_def seal_ok_def kem_ok_def)

lemma plain_hex_ok: "hex_ok hex_crypto plain_hex"
proof -
  have "hex_digits ! (unat (b :: byte) div 16) \<in> set hex_digits" "hex_digits ! (unat b mod 16) \<in> set hex_digits" for b
  proof -
    have "unat b < 256" by (rule byte_less)
    moreover have "length hex_digits = 16" by (simp add: hex_digits_def)
    ultimately show "hex_digits ! (unat b div 16) \<in> set hex_digits" "hex_digits ! (unat b mod 16) \<in> set hex_digits"
      by (auto intro!: nth_mem)
  qed
  then have "set (plain_hex bs) \<subseteq> set hex_digits" for bs by (auto simp: plain_hex_def)
  moreover have "length (plain_hex bs) = 2 * length bs" for bs by (induction bs) (simp_all add: plain_hex_def)
  ultimately show ?thesis by (simp add: hex_ok_def hex_crypto_def plain_unhex_hex hex_digits_def)
qed

definition demo_host :: host where
  "demo_host = \<lparr> ho_env = Map.empty, ho_home = Some ''/home/ann'',
     ho_base = Some \<lparr> bd_state = Some ''/home/ann/.local/state'', bd_config = ''/home/ann/.config'' \<rparr>,
     ho_project = (\<lambda>_ _ _. Some \<lparr> pd_data_local = ''/home/ann/.local/share/todoers'', pd_config_local = ''/home/ann/.config/todoers'' \<rparr>),
     ho_windows = False, ho_writable = (\<lambda>_. True), ho_filter_ok = (\<lambda>_. True) \<rparr>"

definition demo_disk :: disk where
  "demo_disk = \<lparr> dk_dirs = {''/home/ann''}, dk_files = Map.empty, dk_private = {}, dk_dbs = Map.empty \<rparr>"

lemma keygen_key_opens_witness:
  "\<exists>pub d' identity blob. keygen hex_crypto plain_hex demo_host (fixed_repeat 7) None ''/home/ann/key'' (Some key_contents) demo_disk = (Inr pub, d') \<and>
     read_text d' ''/home/ann/key'' = Some identity \<and> device_seal hex_crypto [] (fixed_repeat 1) pub [1, 2] = Inr blob \<and>
     device_open hex_crypto identity blob = Inr [1, 2]"
proof -
  obtain pub d' where k: "keygen hex_crypto plain_hex demo_host (fixed_repeat 7) None ''/home/ann/key'' (Some key_contents) demo_disk = (Inr pub, d')"
    by (simp add: keygen_def Let_def demo_disk_def demo_host_def disk_exists_def is_file_def)
  show ?thesis using keygen_key_opens [OF hex_crypto_ok plain_hex_ok k] k by blast
qed

end
