(* ===== verification/Screens.thy ===== *)
theory Screens
  imports Display Locations
begin

text \<open>
  What a frame shows (the \<open>draw\<close> and \<open>placement\<close> functions of \<open>src/todoers/src/components/*.rs\<close> and \<open>render\<close>
  of \<open>app.rs\<close>).  A drawing is a value: the tree of the widgets handed to the terminal library, with their texts,
  styles, selected rows and the sizes asked for; the alignment of a line and margins are left out.  Turning sizes into
  cells is left to the library; the areas it gives to the buttons of a dialog are an argument, because a mouse click is matched against them later.
\<close>

section \<open>Widgets\<close>

datatype colour = Black | Red | Green | Yellow | Blue | Cyan | Gray | DarkGray

datatype attr = Bold | Dim | Italic | Underlined | Reversed | CrossedOut

record look =
  lk_fg :: "colour option"
  lk_bg :: "colour option"
  lk_attrs :: "attr list"

definition default_look :: look where
  "default_look = \<lparr> lk_fg = None, lk_bg = None, lk_attrs = [] \<rparr>"

abbreviation fg :: "colour \<Rightarrow> look" where "fg c \<equiv> default_look\<lparr> lk_fg := Some c \<rparr>"

type_synonym span = "string \<times> look"

datatype extent = Length nat | Fill nat | Percentage nat

record block =
  bk_title :: string
  bk_bottom :: string
  bk_border :: look

record marker =
  mk_look :: look
  mk_symbol :: string
  mk_row :: "nat option"

datatype 'ta widget =
    Blank
  | ListBox block "span list" marker
  | TableBox block "span list" "extent list" "span list list" marker
  | CalendarBox block int "(int \<times> look) list"
  | FieldBox block look 'ta
  | ButtonBox look span
  | Lines "span list list"
  | Rule span
  | Across "(extent \<times> 'ta widget) list"
  | Down "(extent \<times> 'ta widget) list"
  | Centred extent extent "'ta widget"

text \<open>Characters outside ASCII, by their UTF-8 bytes.\<close>

definition utf8 :: "nat list \<Rightarrow> string" where "utf8 = map char_of"

definition glyph_bar :: string where "glyph_bar = utf8 [0xE2, 0x96, 0x8C]"
definition glyph_check :: string where "glyph_check = utf8 [0xE2, 0x9C, 0x93]"
definition glyph_dash :: string where "glyph_dash = utf8 [0xE2, 0x80, 0x94]"
definition glyph_dot :: string where "glyph_dot = utf8 [0xC2, 0xB7]"
definition glyph_dots :: string where "glyph_dots = utf8 [0xE2, 0x80, 0xA6]"
definition glyph_left :: string where "glyph_left = utf8 [0xE2, 0x86, 0x90]"
definition glyph_right :: string where "glyph_right = utf8 [0xE2, 0x86, 0x92]"
definition glyph_up :: string where "glyph_up = utf8 [0xE2, 0x86, 0x91]"
definition glyph_down :: string where "glyph_down = utf8 [0xE2, 0x86, 0x93]"
definition glyph_line :: string where "glyph_line = utf8 [0xE2, 0x94, 0x80]"
definition glyph_star :: string where "glyph_star = utf8 [0xE2, 0x98, 0x85]"

text \<open>What the drawing takes from outside: the texts of a date and of a rate, hexadecimal, the width of the
  library's calendar, the configured icons, and the rows of the help dialog of a mode.\<close>

record draw_env =
  de_date :: "int \<Rightarrow> string"
  de_rate :: "nat \<times> nat \<Rightarrow> string"
  de_hex :: "bytes \<Rightarrow> string"
  de_calendar_width :: nat
  de_icons :: icon_type
  de_help :: "app_mode \<Rightarrow> (string \<times> string) list"

section \<open>The workspace\<close>

fun list_icon :: "icon_type \<Rightarrow> string" where
  "list_icon NerdFonts = utf8 [0xEF, 0x83, 0x8A]"
| "list_icon Emojis = utf8 [0xF0, 0x9F, 0x93, 0x8B]"
| "list_icon Basic = ''L''"

definition border_style :: "bool \<Rightarrow> look" where
  "border_style focused = (if focused then fg Yellow else fg DarkGray)"

definition highlight_style :: "bool \<Rightarrow> look" where
  "highlight_style focused =
     (if focused then \<lparr> lk_fg = Some Black, lk_bg = Some Yellow, lk_attrs = [Bold] \<rparr>
      else default_look\<lparr> lk_attrs := [Reversed, Dim] \<rparr>)"

fun priority_label :: "priority \<Rightarrow> string" where
  "priority_label PNone = glyph_dash"
| "priority_label Low = ''low''"
| "priority_label Med = ''med''"
| "priority_label High = ''high''"

fun priority_style :: "priority \<Rightarrow> look" where
  "priority_style High = (fg Red)\<lparr> lk_attrs := [Bold] \<rparr>"
| "priority_style Med = fg Yellow"
| "priority_style Low = fg Blue"
| "priority_style PNone = fg DarkGray"

definition list_row :: "icon_type \<Rightarrow> list_summary \<Rightarrow> span" where
  "list_row icons l = ('' '' @ list_icon icons @ '' '' @ ls_name l @
     (if ls_open_count l > 0 then '' ('' @ decimal (ls_open_count l) @ '')'' else []), default_look)"

definition sidebar_rows :: "icon_type \<Rightarrow> view_model \<Rightarrow> span list" where
  "sidebar_rows icons v =
     map (\<lambda>m. ('' '' @ glyph_star @ '' '' @ meta_list_label m, (fg Cyan)\<lparr> lk_attrs := [Italic] \<rparr>)) meta_list_all @
     map (list_row icons) (vm_lists v)"

definition draw_sidebar :: "icon_type \<Rightarrow> view_model \<Rightarrow> home \<Rightarrow> 'ta widget" where
  "draw_sidebar icons v h =
     (let focused = hm_focus h = FocusSidebar in
      ListBox \<lparr> bk_title = ''Lists'', bk_bottom = hm_layout_hint h, bk_border = border_style focused \<rparr>
        (sidebar_rows icons v)
        \<lparr> mk_look = highlight_style focused, mk_symbol = glyph_bar, mk_row = Some (sidebar_highlight v h) \<rparr>)"

definition pane_title :: "view_model \<Rightarrow> pane_data \<Rightarrow> string" where
  "pane_title v p =
     (case pd_target p of
        Some (TargetMeta m) \<Rightarrow> meta_list_label m
      | Some (TargetList l) \<Rightarrow> (case find (\<lambda>s. ls_id s = l) (vm_lists v) of Some s \<Rightarrow> ls_name s | None \<Rightarrow> ''List'')
      | None \<Rightarrow> ''Todoers'')
     @ ''  '' @ glyph_dot @ ''  sort: '' @ sort_mode_label (vm_sort v)"

definition pane_row :: "(int \<Rightarrow> string) \<Rightarrow> todo_item \<Rightarrow> span list" where
  "pane_row date it =
     [(if ti_done it then glyph_check else '' '', default_look),
      (priority_label (ti_priority it), priority_style (ti_priority it)),
      (ti_title it, if ti_done it then (fg DarkGray)\<lparr> lk_attrs := [CrossedOut] \<rparr> else default_look),
      (case ti_due it of Some d \<Rightarrow> date (odt_day d) | None \<Rightarrow> [], fg DarkGray)]"

definition draw_pane :: "(int \<Rightarrow> string) \<Rightarrow> view_model \<Rightarrow> home \<Rightarrow> nat \<Rightarrow> 'ta widget" where
  "draw_pane date v h idx = (case get_pane v idx of
     None \<Rightarrow> Blank
   | Some p \<Rightarrow>
       (let focused = hm_focus h = FocusPane \<and> hm_active_pane h = idx;
            head = default_look\<lparr> lk_attrs := [Bold, Dim] \<rparr> in
        TableBox \<lparr> bk_title = pane_title v p, bk_bottom = hm_command_hint h, bk_border = border_style focused \<rparr>
          (map (\<lambda>t. (t, head)) ['''', ''!'', ''Task'', ''Due''])
          [Length 1, Length 4, Fill 1, Length 12]
          (map (\<lambda>(_, it). pane_row date it) (pd_items p))
          \<lparr> mk_look = highlight_style focused, mk_symbol = glyph_bar, mk_row = pane_highlight v h idx \<rparr>))"

definition draw_panes :: "(int \<Rightarrow> string) \<Rightarrow> view_model \<Rightarrow> home \<Rightarrow> 'ta widget" where
  "draw_panes date v h =
     (let ratio = nat (max 10 (min 90 (vm_ratio v)));
          both = [(Percentage ratio, draw_pane date v h 0), (Percentage (100 - ratio), draw_pane date v h 1)] in
      case vm_split v of
        None \<Rightarrow> draw_pane date v h 0
      | Some Horizontal \<Rightarrow> Across both
      | Some Vertical \<Rightarrow> Down both)"

definition draw_home :: "draw_env \<Rightarrow> view_model \<Rightarrow> home \<Rightarrow> 'ta widget" where
  "draw_home D v h =
     (if hm_sidebar_visible h
      then Across [(Length 35, draw_sidebar (de_icons D) v h), (Fill 1, draw_panes (de_date D) v h)]
      else draw_panes (de_date D) v h)"

section \<open>Dialogs\<close>

definition field_rows :: nat where "field_rows = 3"

definition draw_field :: "'ta text_input \<Rightarrow> 'ta widget" where
  "draw_field t = Centred (Percentage 80) (Length field_rows)
     (FieldBox \<lparr> bk_title = fi_label t, bk_bottom = [], bk_border = fg (if fi_capturing t then Yellow else Gray) \<rparr>
       (if \<not> fi_capturing t then default_look
        else if fi_editing t = Vim \<and> v_mode (fi_vim t) \<noteq> Insert
        then \<lparr> lk_fg = Some Black, lk_bg = Some Green, lk_attrs = [] \<rparr>
        else default_look\<lparr> lk_attrs := [Reversed] \<rparr>)
       (v_area (fi_vim t)))"

definition status_line :: "(bool \<times> string) \<Rightarrow> string option \<Rightarrow> string \<Rightarrow> 'ta widget" where
  "status_line busy err help = Lines [[
     if fst busy then (snd busy, fg Yellow)
     else case err of Some e \<Rightarrow> (e, fg Red) | None \<Rightarrow> (help, fg DarkGray)]]"

definition draw_fields :: "'ta text_input list \<Rightarrow> 'ta widget \<Rightarrow> 'ta widget" where
  "draw_fields fs status = Down (map (\<lambda>t. (Fill 1, draw_field t)) fs @ [(Length 1, status)])"

definition arrows_hint :: "string \<Rightarrow> string" where
  "arrows_hint tail = ''Tab/'' @ glyph_up @ glyph_down @ '' move '' @ glyph_dot @ tail"

definition draw_login :: "'ta fields_form \<Rightarrow> 'ta widget" where
  "draw_login f = draw_fields (ff_fields f) (status_line (ff_busy f, ''Signing in'' @ glyph_dots) (ff_error f)
     (arrows_hint ('' Enter next '' @ glyph_dot @ '' Esc clear'')))"

definition draw_register :: "'ta fields_form \<Rightarrow> 'ta widget" where
  "draw_register f = draw_fields (ff_fields f) (status_line (ff_busy f, ''Registering'' @ glyph_dots) (ff_error f)
     (arrows_hint ('' Enter submit '' @ glyph_dot @ '' Esc clear'')))"

definition draw_unlock :: "'ta unlock_form \<Rightarrow> 'ta widget" where
  "draw_unlock f = draw_fields [uf_password f] (status_line (uf_busy f, ''Unlocking'' @ glyph_dots) (uf_error f)
     (arrows_hint ('' Enter submit '' @ glyph_dot @ '' Esc clear'')))"

definition draw_list_form :: "'ta single_form \<Rightarrow> 'ta widget" where
  "draw_list_form f = draw_fields [sf_field f]
     (status_line (False, []) (sf_error f) (''Enter to submit '' @ glyph_dot @ '' Esc to cancel''))"

definition draw_share_form :: "'ta single_form \<Rightarrow> 'ta widget" where
  "draw_share_form f = draw_fields [sf_field f]
     (status_line (False, []) (sf_error f) (''Enter to share '' @ glyph_dot @ '' Esc to cancel''))"

definition selected_look :: look where
  "selected_look = \<lparr> lk_fg = Some Black, lk_bg = Some Yellow, lk_attrs = [Bold] \<rparr>"

definition member_row :: "(bytes \<Rightarrow> string) \<Rightarrow> member_id \<Rightarrow> member \<Rightarrow> span" where
  "member_row hex me m =
     ('' '' @ (case mem_role m of Owner \<Rightarrow> ''owner '' | Member \<Rightarrow> ''member'') @ ''  '' @
      take 8 (hex (as_slice (mem_id m))) @ glyph_dots @ (if mem_id m = me then ''  (you)'' else []), default_look)"

definition draw_members :: "(bytes \<Rightarrow> string) \<Rightarrow> members \<Rightarrow> 'ta widget" where
  "draw_members hex m =
     ListBox \<lparr> bk_title = ''Members'',
         bk_bottom = (case all_keys_for (mb_keymap m) MbUnshare of Some keys \<Rightarrow> '' '' @ keys @ '': remove '' | None \<Rightarrow> []),
         bk_border = default_look \<rparr>
       (map (member_row hex (mb_me m)) (mb_members m))
       \<lparr> mk_look = selected_look, mk_symbol = [],
         mk_row = (if mb_members m = [] then None else Some (min (mb_selected m) (length (mb_members m) - 1))) \<rparr>"

definition draw_help :: "(string \<times> string) list \<Rightarrow> 'ta widget" where
  "draw_help keys = Lines (map (\<lambda>(ks, act).
     [(ks, (fg Yellow)\<lparr> lk_attrs := [Bold] \<rparr>), ('' '' @ glyph_dash @ '' '', default_look\<lparr> lk_attrs := [Dim] \<rparr>),
      (act, (fg Cyan)\<lparr> lk_attrs := [Bold] \<rparr>)]) (help_rows keys))"

subsection \<open>The todo form\<close>

definition priorities :: "priority list" where "priorities = [PNone, Low, Med, High]"

definition CAL_HEIGHT :: nat where "CAL_HEIGHT = 1 + 1 + 6 + 2"
definition PRIO_HEIGHT :: nat where "PRIO_HEIGHT = length priorities + 2"

definition todo_help_text :: "'ta todo_form \<Rightarrow> string" where
  "todo_help_text f =
     (if tf_focused f = DUE then glyph_left @ glyph_right @ '' day '' @ glyph_dot @ '' '' @ glyph_up @ glyph_down @
        '' week '' @ glyph_dot @ '' PgUp/Dn month '' @ glyph_dot @ '' Space toggle due '' @ glyph_dot @
        '' Tab move '' @ glyph_dot @ '' Esc cancel''
      else if tf_focused f = PRIORITY then glyph_left @ glyph_right @ '' / space change priority '' @ glyph_dot @
        '' Tab move '' @ glyph_dot @ '' Enter submit '' @ glyph_dot @ '' Esc cancel''
      else arrows_hint ('' Enter next '' @ glyph_dot @ '' Esc cancel''))"

definition draw_calendar :: "(int \<Rightarrow> string) \<Rightarrow> 'ta todo_form \<Rightarrow> 'ta widget" where
  "draw_calendar date f =
     (let focused = tf_focused f = DUE in
      CalendarBox \<lparr> bk_title = (if tf_due_enabled f then ''Due: '' @ date (tf_due_cursor f) else ''Due: none''),
          bk_bottom = [], bk_border = fg (if focused then Yellow else DarkGray) \<rparr>
        (tf_due_cursor f)
        (if tf_due_enabled f then [(tf_due_cursor f, selected_look)]
         else if focused then [(tf_due_cursor f, (fg Yellow)\<lparr> lk_attrs := [Underlined] \<rparr>)] else []))"

definition draw_priority :: "'ta todo_form \<Rightarrow> 'ta widget" where
  "draw_priority f =
     ListBox \<lparr> bk_title = ''Priority'', bk_bottom = [],
         bk_border = fg (if tf_focused f = PRIORITY then Yellow else DarkGray) \<rparr>
       (map (\<lambda>p. ('' '' @ priority_label p, default_look)) priorities)
       \<lparr> mk_look = selected_look, mk_symbol = [], mk_row = Some (nat (priority_rank (tf_priority f))) \<rparr>"

definition draw_todo_form :: "draw_env \<Rightarrow> 'ta todo_form \<Rightarrow> 'ta widget" where
  "draw_todo_form D f =
     (let w = min (de_calendar_width D + 2) (2 ^ 16 - 1) in
      Down (map (\<lambda>t. (Fill 1, draw_field t)) (tf_fields f) @
        [(Length (max CAL_HEIGHT PRIO_HEIGHT),
            Across [(Fill 3, Blank), (Length w, draw_calendar (de_date D) f), (Fill 2, Blank),
              (Length w, draw_priority f), (Fill 3, Blank)]),
         (Length 1, status_line (False, []) (tf_error f) (todo_help_text f))]))"

subsection \<open>The dialog around a body\<close>

text \<open>Heights are \<open>u16\<close>, of a release build.\<close>

fun body_height :: "draw_env \<Rightarrow> 'ta body \<Rightarrow> nat" where
  "body_height D (BPrompt _) = 2"
| "body_height D (BHelp m) = help_placement (de_help D m)"
| "body_height D (BMembers m) = min 10 (max 1 (length (mb_members m) mod 2 ^ 16)) + 2"
| "body_height D (BLogin _) = 9"
| "body_height D (BRegister _) = 13"
| "body_height D (BUnlock _) = 13"
| "body_height D (BList _ _) = 5"
| "body_height D (BShare _ _) = 5"
| "body_height D (BTodo _) = 3 * 3 + CAL_HEIGHT + 1"

fun draw_body :: "draw_env \<Rightarrow> 'ta body \<Rightarrow> 'ta widget" where
  "draw_body D (BPrompt s) = Lines [[(s, default_look)]]"
| "draw_body D (BHelp m) = draw_help (de_help D m)"
| "draw_body D (BMembers m) = draw_members (de_hex D) m"
| "draw_body D (BLogin f) = draw_login f"
| "draw_body D (BRegister f) = draw_register f"
| "draw_body D (BUnlock f) = draw_unlock f"
| "draw_body D (BList op f) = draw_list_form f"
| "draw_body D (BShare l f) = draw_share_form f"
| "draw_body D (BTodo f) = draw_todo_form D f"

definition draw_button :: "button \<Rightarrow> 'ta widget" where
  "draw_button b =
     (if bt_focused b then ButtonBox ((fg Yellow)\<lparr> lk_attrs := [Bold] \<rparr>)
        (bt_label b, default_look\<lparr> lk_attrs := [Bold, Reversed] \<rparr>)
      else ButtonBox (fg Gray) (bt_label b, default_look))"

definition button_row :: nat where "button_row = 3"

record 'ta dialog =
  dg_width :: extent
  dg_height :: nat
  dg_block :: block
  dg_content :: "'ta widget"

definition dialog_of :: "draw_env \<Rightarrow> 'ta modal \<Rightarrow> 'ta dialog" where
  "dialog_of D m = \<lparr> dg_width = Percentage 60,
     dg_height = (body_height D (md_body m) + button_row + 2) mod 2 ^ 16,
     dg_block = \<lparr> bk_title = md_title m, bk_bottom = [], bk_border = fg Yellow \<rparr>,
     dg_content = Down [(Fill 1, draw_body D (md_body m)),
       (Length button_row, Across (map (\<lambda>b. (Length 12, draw_button b)) (md_buttons m)))] \<rparr>"

text \<open>Drawing the buttons also tells them where they are: \<open>areas\<close> are the slots of the row.\<close>

definition place_buttons :: "(nat \<times> nat \<Rightarrow> bool) list \<Rightarrow> 'ta modal \<Rightarrow> 'ta modal" where
  "place_buttons areas m = m\<lparr> md_buttons :=
     map (\<lambda>(i, b). if i < length areas then b\<lparr> bt_area := areas ! i \<rparr> else b) (enumerate 0 (md_buttons m)) \<rparr>"

section \<open>The frame\<close>

definition draw_error :: "error_bar \<Rightarrow> 'ta widget" where
  "draw_error b = Lines [[(eb_text b, fg Red)]]"

definition draw_footer :: "(string \<times> string) list \<Rightarrow> 'ta widget" where
  "draw_footer keys = Down
     [(Length 1, Rule (glyph_line, fg DarkGray)),
      (Length 1, Across (map (\<lambda>(ks, act). (Fill 1, Across
         [(Fill 2, Lines [[(ks, (fg Yellow)\<lparr> lk_attrs := [Bold] \<rparr>)]]),
          (Length 3, Lines [[('' - '', default_look\<lparr> lk_attrs := [Dim] \<rparr>)]]),
          (Fill 3, Lines [[(act, (fg Cyan)\<lparr> lk_attrs := [Bold] \<rparr>)]])])) keys))]"

text \<open>The label of the editing mode, with the column and the width of its place at the right end of the footer.\<close>

definition mode_label :: "nat \<Rightarrow> nat \<Rightarrow> editor_mode \<Rightarrow> string \<times> nat \<times> nat" where
  "mode_label right width m =
     (let label = ''-- '' @ editor_mode_label m @ '' --''; w = min (length label mod 2 ^ 16) width in (label, right - w, w))"

definition active_editor_mode :: "'ta app \<Rightarrow> editor_mode option" where
  "active_editor_mode a = (case ap_modal a of Some m \<Rightarrow> modal_editor_mode m | None \<Rightarrow> None)"

text \<open>The counter of ticks and frames: how many came since the last time the rate was taken, when that was (in
  nanoseconds), and the rate, as the number of events and the time they took.\<close>

record meter =
  mt_count :: nat
  mt_last :: nat
  mt_rate :: "nat \<times> nat"

definition meter_new :: "nat \<Rightarrow> meter" where
  "meter_new now = \<lparr> mt_count = 0, mt_last = now, mt_rate = (0, 1) \<rparr>"

definition meter_tick :: "nat \<Rightarrow> meter \<Rightarrow> meter" where
  "meter_tick now t =
     (let n = (mt_count t + 1) mod 2 ^ 32; elapsed = now - mt_last t in
      if 10 ^ 9 \<le> elapsed then \<lparr> mt_count = 0, mt_last = now, mt_rate = (n, elapsed) \<rparr> else t\<lparr> mt_count := n \<rparr>)"

record fps =
  fp_ticks :: meter
  fp_frames :: meter

definition fps_new :: "nat \<Rightarrow> fps" where
  "fps_new now = \<lparr> fp_ticks = meter_new now, fp_frames = meter_new now \<rparr>"

definition fps_update :: "nat \<Rightarrow> app_action \<Rightarrow> fps \<Rightarrow> fps" where
  "fps_update now act c = (case act of
     AcTick \<Rightarrow> c\<lparr> fp_ticks := meter_tick now (fp_ticks c) \<rparr>
   | AcRender \<Rightarrow> c\<lparr> fp_frames := meter_tick now (fp_frames c) \<rparr>
   | _ \<Rightarrow> c)"

definition draw_fps :: "(nat \<times> nat \<Rightarrow> string) \<Rightarrow> fps \<Rightarrow> 'ta widget" where
  "draw_fps rate c = Lines [[(rate (mt_rate (fp_ticks c)) @ '' ticks/sec, '' @ rate (mt_rate (fp_frames c)) @ '' FPS'',
     default_look\<lparr> lk_attrs := [Dim] \<rparr>)]]"

record 'ta frame =
  fr_rows :: "extent list"
  fr_body :: "'ta widget option"
  fr_dialog :: "'ta dialog option"
  fr_error :: "'ta widget"
  fr_footer :: "'ta widget"
  fr_mode :: "(string \<times> nat \<times> nat) option"
  fr_fps :: "'ta widget"

text \<open>\<open>right\<close> and \<open>width\<close> are those of the footer, \<open>keys\<close> the entries it shows.  \<open>Home\<close> is the only component of
  the mode map.\<close>

definition render ::
    "draw_env \<Rightarrow> nat \<Rightarrow> error_bar \<Rightarrow> (string \<times> string) list \<Rightarrow> nat \<Rightarrow> nat \<Rightarrow> fps \<Rightarrow> 'ta app \<Rightarrow> 'ta frame" where
  "render D now bar keys right width c a =
     \<lparr> fr_rows = [Fill 1, Length (error_placement now bar), Length 2],
       fr_body = (if ap_modal a = None \<or> ap_account_verified a then Some (draw_home D (ap_view a) (ap_home a)) else None),
       fr_dialog = map_option (dialog_of D) (ap_modal a),
       fr_error = draw_error bar,
       fr_footer = draw_footer keys,
       fr_mode = map_option (mode_label right width) (active_editor_mode a),
       fr_fps = draw_fps (de_rate D) c \<rparr>"

section \<open>What is highlighted is what is acted on\<close>

text \<open>The item of row \<open>r\<close> in pane \<open>i\<close>, as the screen shows it.\<close>

definition shown_row :: "'ta widget \<Rightarrow> (nat \<times> span list) option" where
  "shown_row w = (case w of
     TableBox _ _ _ rows m \<Rightarrow> map_option (\<lambda>r. (r, rows ! r)) (mk_row m)
   | ListBox _ rows m \<Rightarrow> map_option (\<lambda>r. (r, [rows ! r])) (mk_row m)
   | _ \<Rightarrow> None)"

lemma shown_pane_row:
  assumes "selected_item v h = Some (l, i)"
  shows "\<exists>p r it. get_pane v (hm_active_pane h) = Some p \<and> r < length (pd_items p) \<and> pd_items p ! r = (l, it) \<and> ti_id it = i \<and>
     shown_row (draw_pane date v h (hm_active_pane h)) = Some (r, pane_row date it)"
  using assms
  by (auto simp: selected_item_def draw_pane_def shown_row_def pane_highlight_def Let_def min_def
      split: option.splits if_splits prod.splits)

lemma shown_sidebar_row:
  assumes "selected_user_list v h = Some (l, name)"
  shows "\<exists>r s. s \<in> set (vm_lists v) \<and> ls_id s = l \<and> ls_name s = name \<and>
     shown_row (draw_sidebar icons v h) = Some (r, [list_row icons s])"
proof -
  let ?i = "hm_sidebar_idx h - length meta_list_all"
  have r: "length meta_list_all \<le> hm_sidebar_idx h" "?i < length (vm_lists v)"
    "ls_id (vm_lists v ! ?i) = l" "ls_name (vm_lists v ! ?i) = name"
    using assms by (auto simp: selected_user_list_def Let_def split: if_splits)
  then have "sidebar_highlight v h = hm_sidebar_idx h" by (simp add: sidebar_highlight_def sidebar_len_def)
  moreover have "sidebar_rows icons v ! hm_sidebar_idx h = list_row icons (vm_lists v ! ?i)"
    using r by (simp add: sidebar_rows_def nth_append)
  ultimately show ?thesis using r
    by (intro exI [of _ "hm_sidebar_idx h"] exI [of _ "vm_lists v ! ?i"]) (simp add: draw_sidebar_def shown_row_def Let_def)
qed

lemmas send_defs = send_opt_def open_selected_def split_panes_def close_pane_def

lemma some_eq_map_option: "Some x = map_option f y \<longleftrightarrow> (\<exists>z. y = Some z \<and> x = f z)"
  by (cases y) auto

lemma execute_item_action:
  assumes "act \<in> set (snd (snd (execute cmd v h)))"
    and "act \<in> {AcEditTodoModal l i, AcToggleDone l i, AcConfirmDelete (DelTodo l i)}"
  shows "hm_focus h = FocusPane \<and> selected_item v h = Some (l, i)"
  using assms
  by (cases cmd) (auto simp: send_defs some_eq_map_option Let_def split: option.splits if_splits prod.splits panel.splits)

lemma execute_list_action:
  assumes "act \<in> set (snd (snd (execute cmd v h)))"
    and "act \<in> {AcRenameListModal l name, AcConfirmDelete (DelList l)}"
  shows "\<exists>n. selected_user_list v h = Some (l, n)"
  using assms
  by (cases cmd) (auto simp: send_defs some_eq_map_option Let_def split: option.splits if_splits prod.splits panel.splits dest: sym [of _ "selected_user_list v h"])

text \<open>Whatever command is run: an edit, toggle or deletion of a todo is about the item of the row highlighted in the focused
  pane, and a renaming or deletion of a list is about the list of the row highlighted in the sidebar.\<close>

lemma acts_on_shown_row:
  assumes "act \<in> set (snd (snd (execute cmd v h)))"
  shows "(act \<in> {AcEditTodoModal l i, AcToggleDone l i, AcConfirmDelete (DelTodo l i)} \<longrightarrow>
       hm_focus h = FocusPane \<and>
       (\<exists>p r it. get_pane v (hm_active_pane h) = Some p \<and> r < length (pd_items p) \<and> pd_items p ! r = (l, it) \<and> ti_id it = i \<and>
          shown_row (draw_pane date v h (hm_active_pane h)) = Some (r, pane_row date it))) \<and>
     (act \<in> {AcRenameListModal l name, AcConfirmDelete (DelList l)} \<longrightarrow>
       (\<exists>r s. s \<in> set (vm_lists v) \<and> ls_id s = l \<and>
          shown_row (draw_sidebar icons v h) = Some (r, [list_row icons s])))"
proof (intro conjI impI)
  assume "act \<in> {AcEditTodoModal l i, AcToggleDone l i, AcConfirmDelete (DelTodo l i)}"
  with assms have *: "hm_focus h = FocusPane" "selected_item v h = Some (l, i)" using execute_item_action by blast+
  show "hm_focus h = FocusPane" by (rule *)
  show "\<exists>p r it. get_pane v (hm_active_pane h) = Some p \<and> r < length (pd_items p) \<and> pd_items p ! r = (l, it) \<and> ti_id it = i \<and>
      shown_row (draw_pane date v h (hm_active_pane h)) = Some (r, pane_row date it)"
    by (rule shown_pane_row [OF *(2)])
next
  assume "act \<in> {AcRenameListModal l name, AcConfirmDelete (DelList l)}"
  with assms obtain n where "selected_user_list v h = Some (l, n)" by (blast dest: execute_list_action)
  then show "\<exists>r s. s \<in> set (vm_lists v) \<and> ls_id s = l \<and> shown_row (draw_sidebar icons v h) = Some (r, [list_row icons s])"
    using shown_sidebar_row [of v h l n icons] by blast
qed

section \<open>A click presses the button drawn under it\<close>

lemma place_button_nth:
  assumes "i < length (md_buttons m)" and "length areas = length (md_buttons m)"
  shows "md_buttons (place_buttons areas m) ! i = (md_buttons m ! i)\<lparr> bt_area := areas ! i \<rparr>"
  using assms by (simp add: place_buttons_def nth_enumerate_eq)

lemma first_some_nth:
  assumes "i < length xs" and "f (xs ! i) = Some y" and "\<And>j. j < i \<Longrightarrow> f (xs ! j) = None"
  shows "first_some f xs = Some y"
  using assms
proof (induction xs arbitrary: i)
  case (Cons x xs)
  show ?case
  proof (cases i)
    case (Suc k)
    then show ?thesis using Cons.IH [of k] Cons.prems Cons.prems(3) [of 0] Cons.prems(3) [of "Suc _"] by force
  qed (use Cons.prems in simp)
qed simp

lemma first_some_none: "(\<And>x. x \<in> set xs \<Longrightarrow> f x = None) \<Longrightarrow> first_some f xs = None"
  by (induction xs) simp_all

definition click_at :: "nat \<Rightarrow> nat \<Rightarrow> tui_event" where
  "click_at column row = EvMouse \<lparr> ms_kind = MouseDownLeft, ms_column = column, ms_row = row \<rparr>"

lemma click_presses_drawn_button:
  assumes "length areas = length (md_buttons m)" and "i < length areas" and "(areas ! i) (x, y)"
    and "\<And>j. j < length areas \<Longrightarrow> (areas ! j) (x, y) \<Longrightarrow> j = i"
  shows "modal_event U (click_at x y) (place_buttons areas m) =
     (place_buttons areas m, Some (bt_action (md_buttons m ! i)), [])"
proof -
  have n: "length (md_buttons (place_buttons areas m)) = length areas" using assms(1) by (simp add: place_buttons_def)
  have "first_some (button_mouse \<lparr> ms_kind = MouseDownLeft, ms_column = x, ms_row = y \<rparr>) (md_buttons (place_buttons areas m))
      = Some (bt_action (md_buttons m ! i))"
  proof (rule first_some_nth [of i])
    fix j assume "j < i"
    then have "j < length areas" "\<not> (areas ! j) (x, y)" using assms(2) assms(4) [of j] by auto
    then show "button_mouse \<lparr> ms_kind = MouseDownLeft, ms_column = x, ms_row = y \<rparr> (md_buttons (place_buttons areas m) ! j) = None"
      using assms(1) by (simp add: place_button_nth button_mouse_def)
  qed (use assms(1-3) n in \<open>simp_all add: place_button_nth button_mouse_def\<close>)
  then show ?thesis by (simp add: modal_event_def click_at_def modal_mouse_def)
qed

section \<open>Nothing is shown before the unlock\<close>

definition bare :: "view_model \<Rightarrow> bool" where
  "bare v \<longleftrightarrow> vm_lists v = [] \<and> (\<forall>p\<in>set (vm_panes v). pd_items p = [])"

lemma bare_default: "bare view_default"
  by (simp add: bare_def view_default_def)

lemma bare_ops:
  assumes "bare v"
  shows "bare (open_view t i v)" and "bare (repoint l v)" and "bare (cycle_sort v)"
proof -
  show "bare (open_view t i v)" using assms by (auto simp: bare_def open_view_def dest!: set_update_subset_insert [THEN subsetD])
  show "bare (repoint l v)" "bare (cycle_sort v)" using assms by (auto simp: bare_def repoint_def cycle_sort_def)
qed

lemma bare_execute: "bare v \<Longrightarrow> bare (fst (snd (execute cmd v h)))"
  by (cases cmd) (auto simp: bare_def send_opt_def open_selected_def split_panes_def close_pane_def resize_def Let_def
      dest!: in_set_takeD split: option.splits if_splits prod.splits panel.splits)

lemma bare_home_key: "home_key k v h = (h', v', s) \<Longrightarrow> bare v \<Longrightarrow> bare v'"
  using bare_execute [of v] by (auto simp: home_key_def split: prod.splits option.splits) (metis fst_conv snd_conv)

text \<open>Without a running data layer the view holds nothing.\<close>

definition unfed :: "'ta app \<Rightarrow> bool" where
  "unfed a \<longleftrightarrow> (ap_cmds a = None \<longrightarrow> bare (ap_view a))"

lemma unfed_simps [simp]:
  "unfed (send s a) = unfed a" "unfed (spawn t a) = unfed a" "unfed (store_cmd c a) = unfed a"
  "unfed (refresh_keys a) = unfed a" "unfed (send_set_view a) = unfed a"
  "unfed (open_modal E m a) = unfed a" "unfed (handle_switch_mode E md a) = unfed a"
  by (auto simp: unfed_def send_def spawn_def store_cmd_def refresh_keys_def send_set_view_def open_modal_def
      handle_switch_mode_def Let_def split: option.split)

lemma unfed_fields [simp]:
  "unfed (a\<lparr> ap_modal := m \<rparr>) = unfed a" "unfed (a\<lparr> ap_home := h \<rparr>) = unfed a"
  "unfed (a\<lparr> ap_last_keys := ks \<rparr>) = unfed a" "unfed (a\<lparr> ap_should_quit := q \<rparr>) = unfed a"
  "unfed (a\<lparr> ap_should_suspend := q \<rparr>) = unfed a" "unfed (a\<lparr> ap_capturing := q \<rparr>) = unfed a"
  "unfed (a\<lparr> ap_mode := x \<rparr>) = unfed a" "unfed (a\<lparr> ap_prev_mode := x \<rparr>) = unfed a"
  "unfed (a\<lparr> ap_queue := y \<rparr>) = unfed a" "unfed (a\<lparr> ap_acct_keys := z \<rparr>) = unfed a"
  "unfed (a\<lparr> ap_account := u \<rparr>) = unfed a" "unfed (a\<lparr> ap_account_checked := q \<rparr>) = unfed a"
  "unfed (a\<lparr> ap_account_verified := q \<rparr>) = unfed a"
  "unfed (a\<lparr> ap_device_unlock_attempted := q \<rparr>) = unfed a"
  "unfed (a\<lparr> ap_pending_edit := pe \<rparr>) = unfed a" "unfed (a\<lparr> ap_pending_members := pm \<rparr>) = unfed a"
  by (simp_all add: unfed_def)

lemma unfed_view: "unfed a \<Longrightarrow> (bare (ap_view a) \<Longrightarrow> bare v) \<Longrightarrow> unfed (a\<lparr> ap_view := v \<rparr>)"
  by (simp add: unfed_def)

lemma unfed_dialogs [simp]:
  "unfed (open_form_modal E t b a) = unfed a" "unfed (open_unlock E a) = unfed a" "unfed (open_auth_chooser E a) = unfed a"
  "unfed (open_register E a) = unfed a" "unfed (open_login E a) = unfed a" "unfed (close_modal E a) = unfed a"
  "unfed (open_confirm_delete E d a) = unfed a"
  by (simp_all add: open_form_modal_def open_unlock_def open_auth_chooser_def open_register_def open_login_def
      close_modal_def open_confirm_delete_def Let_def split: prod.split)

lemma unfed_perform: "unfed a \<Longrightarrow> unfed (perform E act a)"
  by (cases act) (auto simp: Let_def bare_ops intro!: unfed_view split: option.split)

lemma unfed_dispatch: "unfed a \<Longrightarrow> unfed (dispatch_action E act a)"
  by (auto simp: dispatch_action_def forward_action_def unfed_perform split: option.split prod.split)

lemma unfed_turn: "unfed a \<Longrightarrow> unfed (fst (finish_turn (fst (handle_actions E a))))"
proof -
  assume a: "unfed a"
  have "unfed (fold (dispatch_action E) q b)" if "unfed b" for q b
    using that by (induction q arbitrary: b) (simp_all add: unfed_dispatch)
  then have "unfed (fst (handle_actions E a))" using a by (simp add: handle_actions_def)
  then show ?thesis by (simp add: finish_turn_def)
qed

lemma unfed_gate: "auth_gate E W a = Inr a' \<Longrightarrow> unfed a \<Longrightarrow> unfed a'"
  by (auto simp: auth_gate_def load_account_step_def init_session_def unfed_def send_def send_set_view_def store_cmd_def
      split: if_splits sum.splits option.splits)

lemma unfed_route: "unfed a \<Longrightarrow> unfed (route_event E ev a)"
  by (auto simp: route_event_def intro!: unfed_view split: option.split prod.split tui_event.split dest: bare_home_key)

lemma unfed_event: "on_event E W ev a = Inr a' \<Longrightarrow> unfed a \<Longrightarrow> unfed a'"
  by (auto simp: on_event_def handle_key_event_def unfed_gate intro!: unfed_route
      split: tui_event.splits sum.splits if_splits prod.splits)

lemma unfed_step: "app_step E a a' \<Longrightarrow> unfed a \<Longrightarrow> unfed a'"
proof (induction rule: app_step.induct)
  case (reply a msg)
  then show ?case by (cases "(E, msg, a)" rule: handle_worker_msg.cases) (auto simp: unfed_def send_def)
qed (auto intro: unfed_event unfed_turn)

lemma unfed_reachable: "(app_step E)\<^sup>*\<^sup>* (app_start E account keys) a \<Longrightarrow> unfed a"
proof (induction rule: rtranclp_induct)
  case base
  show ?case by (simp add: app_start_def unfed_def app_new_def bare_default Let_def)
qed (rule unfed_step)

definition erase :: "view_model \<Rightarrow> view_model" where
  "erase v = v\<lparr> vm_lists := [], vm_panes := map (\<lambda>p. p\<lparr> pd_items := [] \<rparr>) (vm_panes v) \<rparr>"

lemma erase_bare: "bare v \<Longrightarrow> erase v = v"
  by (cases v) (auto simp: bare_def erase_def intro!: map_idI)

text \<open>C20: Nothing of the account is on the screen before the unlock.  In every state the program reaches
  while it has no keys, by any events, results of tasks and turns in any order, a frame draws the workspace only
  without a dialog, and then it is the workspace of a view without lists and without items.\<close>

theorem locked_screen:
  assumes "(app_step E)\<^sup>*\<^sup>* (app_start E account None) a" and "ap_acct_keys a = None"
  shows "fr_body (render D now bar keys right width c a) =
     (if ap_modal a = None then Some (draw_home D (erase (ap_view a)) (ap_home a)) else None)"
proof -
  have wf: "app_wf a" by (rule app_reachable_wf [OF assms(1)])
  have "ap_cmds a = None" "\<not> ap_account_verified a" using wf assms(2) by (auto simp: app_wf_def)
  moreover from this have "bare (ap_view a)" using unfed_reachable [OF assms(1)] by (simp add: unfed_def)
  ultimately show ?thesis by (simp add: render_def erase_bare)
qed

definition demo_draw :: draw_env where
  "demo_draw = \<lparr> de_date = (\<lambda>_. ''2026-01-01''), de_rate = (\<lambda>_. ''0.00''), de_hex = map (\<lambda>_. CHR ''0''), de_calendar_width = 22,
     de_icons = Basic, de_help = (\<lambda>_. []) \<rparr>"

lemma locked_screen_witness:
  "\<exists>a :: string list app. (app_step demo_env)\<^sup>*\<^sup>* (app_start demo_env (Some demo_account) None) a \<and> ap_queue a = [AcUnlockModal, AcTick] \<and>
     fr_body (render demo_draw 0 (error_bar_new 0) [] 80 80 (fps_new 0) a) = Some (draw_home demo_draw view_default (ap_home a))"
proof -
  let ?a = "app_start demo_env (Some demo_account) None :: string list app"
  have a: "ap_modal ?a = None" "ap_account ?a = Some demo_account" "ap_acct_keys ?a = None" "ap_queue ?a = []"
    "\<not> ap_account_verified ?a" "\<not> ap_device_unlock_attempted ?a" "ap_view ?a = view_default"
    by (simp_all add: app_start_def app_new_def Let_def)
  let ?b = "send [AcTick] (send [AcUnlockModal] ?a)"
  have "on_event demo_env demo_tick EvTick ?a = Inr ?b"
    using a by (simp add: on_event_def auth_gate_def demo_env_def demo_config_def route_event_def send_def)
  then have r: "(app_step demo_env)\<^sup>*\<^sup>* ?a ?b" by (intro r_into_rtranclp app_step.event)
  have b: "ap_acct_keys ?b = None" "ap_modal ?b = None" "erase (ap_view ?b) = view_default" "ap_queue ?b = [AcUnlockModal, AcTick]"
    using a erase_bare [OF bare_default] by (simp_all add: send_def)
  show ?thesis
    using r b locked_screen [OF r b(1), of demo_draw 0 "error_bar_new 0" "[]" 80 80 "fps_new 0"]
    by (intro exI [of _ ?b]) simp
qed

section \<open>Dialogs fit\<close>

text \<open>The rows a widget needs to be seen in full: a field has a border, a list shows all its rows, and a calendar
  month has up to six weeks.\<close>

fun rows_needed :: "'ta widget \<Rightarrow> nat" where
  "rows_needed Blank = 0"
| "rows_needed (ListBox _ rows _) = length rows + 2"
| "rows_needed (TableBox _ _ _ rows _) = length rows + 3"
| "rows_needed (CalendarBox _ _ _) = CAL_HEIGHT"
| "rows_needed (FieldBox _ _ _) = field_rows"
| "rows_needed (ButtonBox _ _) = button_row"
| "rows_needed (Lines ls) = length ls"
| "rows_needed (Rule _) = 1"
| "rows_needed (Across ws) = fold max (map (\<lambda>w. rows_needed (snd w)) ws) 0"
| "rows_needed (Centred _ h w) = (case h of Length n \<Rightarrow> n | _ \<Rightarrow> rows_needed w)"
| "rows_needed (Down ws) = sum_list (map (\<lambda>w. rows_needed (snd w)) ws)"

lemma rows_needed_fields [simp]:
  "rows_needed (draw_field t) = 3" "rows_needed (status_line b e h) = 1"
  "rows_needed (draw_fields fs st) = 3 * length fs + rows_needed st"
proof -
  show f: "rows_needed (draw_field t) = 3" for t by (simp add: draw_field_def field_rows_def)
  show "rows_needed (status_line b e h) = 1" by (simp add: status_line_def)
  show "rows_needed (draw_fields fs st) = 3 * length fs + rows_needed st"
    by (simp add: draw_fields_def o_def f sum_list_triv)
qed

lemma length_help_rows [simp]: "length (help_rows rows) = length rows"
  by (simp add: help_rows_def)

text \<open>Every dialog is high enough for its body: with at most ten members and fewer help lines than \<open>u16\<close> can count,
  no field, row or status line is cut off.\<close>

lemma dialog_fits:
  assumes "body_wf b" and "\<And>m. b = BMembers m \<Longrightarrow> length (mb_members m) \<le> 10"
    and "\<And>m. b = BHelp m \<Longrightarrow> length (de_help D m) < 2 ^ 16 - 2"
  shows "rows_needed (draw_body D b) \<le> body_height D b"
  using assms
  by (cases b) (auto simp: draw_login_def draw_register_def draw_unlock_def draw_list_form_def draw_share_form_def
      draw_members_def draw_help_def draw_todo_form_def draw_calendar_def draw_priority_def form_wf_def todo_wf_def
      CAL_HEIGHT_def PRIO_HEIGHT_def priorities_def help_placement_def Let_def o_def sum_list_triv)

section \<open>The hint of the sign-in forms\<close>

text \<open>The status line of the sign-in form offers \<open>Esc\<close> to clear it.  The dialog takes the key first: it leaves the form
  as it is and goes back to the chooser.\<close>

lemma escape_hint:
  assumes "\<not> ff_busy f" and "ff_error f = None" and "k_code k = KEsc" and "\<not> body_consumes_escape (BLogin f)"
    and "m = modal_form ''Login'' (BLogin f) AcAuthChooser"
  shows "draw_login f = draw_fields (ff_fields f)
       (Lines [[(arrows_hint ('' Enter next '' @ glyph_dot @ '' Esc clear''), fg DarkGray)]]) \<and>
     modal_event U (EvKey k) m = (m, Some AcAuthChooser, [])"
  using assms
  by (simp add: draw_login_def status_line_def modal_event_def modal_key_def modal_form_def modal_new_def)

section \<open>The counter\<close>

lemma meter_window:
  assumes "\<forall>t\<in>set ts. t - mt_last m < 10 ^ 9" and "mt_count m + length ts < 2 ^ 32 - 1" and "mt_last m + 10 ^ 9 \<le> now"
  shows "meter_tick now (fold meter_tick ts m) =
     \<lparr> mt_count = 0, mt_last = now, mt_rate = (mt_count m + length ts + 1, now - mt_last m) \<rparr>"
proof -
  have "fold meter_tick ts m = m\<lparr> mt_count := mt_count m + length ts \<rparr>"
    using assms(1,2)
  proof (induction ts arbitrary: m)
    case (Cons t ts)
    have "meter_tick t m = m\<lparr> mt_count := mt_count m + 1 \<rparr>" using Cons.prems by (simp add: meter_tick_def)
    then show ?case using Cons.IH [of "m\<lparr> mt_count := mt_count m + 1 \<rparr>"] Cons.prems by simp
  qed simp
  then show ?thesis using assms(2,3) by (simp add: meter_tick_def Let_def)
qed

end
