(* ===== verification/Terminal.thy ===== *)
theory Terminal
  imports UiAction
begin

text \<open>
  The terminal driver (\<open>src/todoers/src/tui.rs\<close>): which terminal events become events of the
  program, the task that reads them, the state of the terminal over start, suspension and exit,
  and the panic hook (\<open>error.rs\<close>).
  Time is what the task's \<open>select!\<close> yields; the terminal is the set of modes the program switches.
\<close>

section \<open>Reading events\<close>

datatype key_kind = Press | Repeat | Release

datatype ct_event = CtKey key_event key_kind | CtMouse mouse_event | CtResize nat nat | CtFocusLost | CtFocusGained | CtPaste string

fun translate :: "ct_event \<Rightarrow> tui_event option" where
  "translate (CtKey k kind) = (if kind = Press \<or> kind = Repeat then Some (EvKey k) else None)"
| "translate (CtMouse m) = Some (EvMouse m)"
| "translate (CtResize x y) = Some (EvResize x y)"
| "translate CtFocusLost = Some EvFocusLost"
| "translate CtFocusGained = Some EvFocusGained"
| "translate (CtPaste s) = Some (EvPaste s)"

datatype wakeup = Cancelled | TickDue | RenderDue | Arrived ct_event | StreamError | StreamEnded

text \<open>The events sent, in order; the receiver lives as long as the task is not cancelled.\<close>

fun event_loop :: "wakeup list \<Rightarrow> tui_event list" where
  "event_loop [] = []"
| "event_loop (Cancelled # _) = []"
| "event_loop (StreamEnded # _) = []"
| "event_loop (TickDue # ws) = EvTick # event_loop ws"
| "event_loop (RenderDue # ws) = EvRender # event_loop ws"
| "event_loop (StreamError # ws) = EvError # event_loop ws"
| "event_loop (Arrived ev # ws) = (case translate ev of Some e \<Rightarrow> [e] | None \<Rightarrow> []) @ event_loop ws"

definition event_task :: "wakeup list \<Rightarrow> tui_event list" where
  "event_task ws = EvInit # event_loop ws"

section \<open>The terminal\<close>

record term_modes =
  tm_raw :: bool
  tm_alternate :: bool
  tm_cursor_hidden :: bool
  tm_mouse :: bool
  tm_paste :: bool

definition shell_modes :: term_modes where
  "shell_modes = \<lparr> tm_raw = False, tm_alternate = False, tm_cursor_hidden = False, tm_mouse = False, tm_paste = False \<rparr>"

text \<open>\<open>tu_loops\<close> counts the tasks that are reading the terminal, \<open>tu_started\<close> all that were ever started.\<close>

record tui =
  tu_modes :: term_modes
  tu_loops :: nat
  tu_started :: nat
  tu_use_mouse :: bool
  tu_use_paste :: bool

definition tui_new :: tui where
  "tui_new = \<lparr> tu_modes = shell_modes, tu_loops = 0, tu_started = 0, tu_use_mouse = False, tu_use_paste = False \<rparr>"

definition acquire_terminal :: "tui \<Rightarrow> tui" where
  "acquire_terminal t = t\<lparr> tu_modes := \<lparr> tm_raw = True, tm_alternate = True, tm_cursor_hidden = True,
     tm_mouse = (tu_use_mouse t \<or> tm_mouse (tu_modes t)), tm_paste = (tu_use_paste t \<or> tm_paste (tu_modes t)) \<rparr> \<rparr>"

definition restore_terminal :: "tui \<Rightarrow> tui" where
  "restore_terminal t =
     (if tm_raw (tu_modes t) then t\<lparr> tu_modes := \<lparr> tm_raw = False, tm_alternate = False, tm_cursor_hidden = False,
        tm_mouse = (\<not> tu_use_mouse t \<and> tm_mouse (tu_modes t)), tm_paste = (\<not> tu_use_paste t \<and> tm_paste (tu_modes t)) \<rparr> \<rparr>
      else t)"

text \<open>Starting cancels the running task first.\<close>

definition start_loop :: "tui \<Rightarrow> tui" where
  "start_loop t = t\<lparr> tu_loops := 1, tu_started := tu_started t + 1 \<rparr>"

definition stop_loop :: "tui \<Rightarrow> tui" where
  "stop_loop t = t\<lparr> tu_loops := 0 \<rparr>"

definition tui_enter :: "tui \<Rightarrow> tui" where "tui_enter t = start_loop (acquire_terminal t)"
definition tui_exit :: "tui \<Rightarrow> tui" where "tui_exit t = restore_terminal (stop_loop t)"
definition tui_suspend :: "tui \<Rightarrow> tui" where "tui_suspend t = restore_terminal t"
definition tui_resume :: "tui \<Rightarrow> tui" where "tui_resume t = acquire_terminal t"

text \<open>The polls of the task that is being stopped: it is aborted after fifty of them, and after a hundred the wait
  is given up.  \<open>finishes n\<close> says whether the task is finished at poll \<open>n\<close>.\<close>

definition stop_polls :: "(nat \<Rightarrow> bool) \<Rightarrow> nat" where
  "stop_polls finishes = (case find finishes [0..<101] of Some n \<Rightarrow> n | None \<Rightarrow> 101)"

datatype tui_op = OpSuspend | OpResume | OpExit

fun tui_apply :: "tui_op \<Rightarrow> tui \<Rightarrow> tui" where
  "tui_apply OpSuspend t = tui_suspend t"
| "tui_apply OpResume t = tui_resume t"
| "tui_apply OpExit t = tui_exit t"

definition tui_ok :: "tui \<Rightarrow> bool" where
  "tui_ok t \<longleftrightarrow> (tu_modes t = shell_modes \<or>
     tu_modes t = \<lparr> tm_raw = True, tm_alternate = True, tm_cursor_hidden = True, tm_mouse = tu_use_mouse t, tm_paste = tu_use_paste t \<rparr>) \<and>
     tu_loops t \<le> 1 \<and> tu_started t = 1"

lemma tui_op_ok: "tui_ok t \<Longrightarrow> tui_ok (tui_apply x t)"
  by (cases x) (auto simp: tui_ok_def tui_suspend_def tui_resume_def tui_exit_def acquire_terminal_def restore_terminal_def
      stop_loop_def shell_modes_def)

lemma tui_ops_ok: "tui_ok t \<Longrightarrow> tui_ok (fold tui_apply ops t)"
  by (induction ops arbitrary: t) (simp_all add: tui_op_ok)

text \<open>The terminal is given back.  Whatever suspensions, returns and exits follow the start, with or without
  mouse and paste modes, the exit at the end leaves the terminal as the shell had it, no
  reader running, and never more than the one reader of the start was started.\<close>

lemma terminal_given_back:
  "let t = tui_exit (fold tui_apply ops (tui_enter (tui_new\<lparr> tu_use_mouse := m, tu_use_paste := p \<rparr>)))
   in tu_modes t = shell_modes \<and> tu_loops t = 0 \<and> tu_started t = 1"
proof -
  have "tui_ok (tui_enter (tui_new\<lparr> tu_use_mouse := m, tu_use_paste := p \<rparr>))"
    by (simp add: tui_ok_def tui_enter_def acquire_terminal_def start_loop_def tui_new_def shell_modes_def)
  from tui_ops_ok [OF this, of ops] show ?thesis
    by (auto simp: Let_def tui_ok_def tui_exit_def restore_terminal_def stop_loop_def shell_modes_def)
qed

section \<open>The panic hook\<close>

text \<open>The hook of \<open>error.rs\<close> restores the terminal through a driver of its own, made with the mouse and paste modes
  off, and ends the process; \<open>can_make\<close> says whether the terminal library made that driver.  The modes belong to the
  terminal, so the new driver finds those the program had set.  The result is the terminal and the exit code.\<close>

definition panic_hook :: "bool \<Rightarrow> term_modes \<Rightarrow> term_modes \<times> int" where
  "panic_hook can_make modes = (if can_make then tu_modes (tui_exit (tui_new\<lparr> tu_modes := modes \<rparr>)) else modes, 1)"

lemma tui_op_flags: "tu_use_mouse (tui_apply x t) = tu_use_mouse t" "tu_use_paste (tui_apply x t) = tu_use_paste t"
  by (cases x; simp add: tui_suspend_def tui_resume_def tui_exit_def acquire_terminal_def restore_terminal_def stop_loop_def)+

lemma tui_ops_flags:
  "tu_use_mouse (fold tui_apply ops t) = tu_use_mouse t \<and> tu_use_paste (fold tui_apply ops t) = tu_use_paste t"
  by (induction ops arbitrary: t) (simp_all add: tui_op_flags)

lemma entered:
  "tui_ok (tui_enter (tui_new\<lparr> tu_use_mouse := m, tu_use_paste := p \<rparr>))"
  "tu_use_mouse (tui_enter (tui_new\<lparr> tu_use_mouse := m, tu_use_paste := p \<rparr>)) = m"
  "tu_use_paste (tui_enter (tui_new\<lparr> tu_use_mouse := m, tu_use_paste := p \<rparr>)) = p"
  by (simp_all add: tui_ok_def tui_enter_def acquire_terminal_def start_loop_def tui_new_def shell_modes_def)

lemma panic_of_ok:
  assumes "tui_ok t"
  shows "panic_hook True (tu_modes t) =
     (if tm_raw (tu_modes t) then shell_modes\<lparr> tm_mouse := tu_use_mouse t, tm_paste := tu_use_paste t \<rparr> else shell_modes, 1)"
  using assms
  by (auto simp: tui_ok_def panic_hook_def tui_exit_def restore_terminal_def stop_loop_def tui_new_def shell_modes_def)

text \<open>C39: A panic does not give back all that an exit gives back.  Whatever suspensions, returns and exits follow the
  start of the terminal driver, an exit leaves the terminal as the shell had it with no reader running.  A panic at the same moment
  ends the process with code 1; while the program holds the terminal, the hook leaves raw mode and the alternate screen and
  shows the cursor, but the mouse and paste modes stay exactly as the driver had been configured, and the application
  configures both on.  While the program does not hold the terminal (it is suspended), the hook changes nothing.\<close>

theorem panic_keeps_capture:
  "let t = fold tui_apply ops (tui_enter (tui_new\<lparr> tu_use_mouse := m, tu_use_paste := p \<rparr>))
   in tu_modes (tui_exit t) = shell_modes \<and> tu_loops (tui_exit t) = 0 \<and>
      panic_hook True (tu_modes t) =
        (if tm_raw (tu_modes t) then shell_modes\<lparr> tm_mouse := m, tm_paste := p \<rparr> else shell_modes, 1)"
  using terminal_given_back [where ops = ops and m = m and p = p]
    panic_of_ok [OF tui_ops_ok [OF entered(1) [where m = m and p = p], where ops = ops]] tui_ops_flags
  by (simp add: Let_def entered)

lemma panic_outside: "\<not> tm_raw modes \<Longrightarrow> panic_hook c modes = (modes, 1)"
  by (simp add: panic_hook_def tui_exit_def restore_terminal_def stop_loop_def tui_new_def)

lemma stop_polls_bounded: "stop_polls finishes \<le> 101"
proof -
  have "find finishes [0..<101] = Some n \<Longrightarrow> n < 101" for n
    by (metis atLeastLessThan_iff find_Some_iff nth_mem set_upt)
  then show ?thesis by (fastforce simp: stop_polls_def split: option.split)
qed

end
