(* ===== verification/Envelope.thy ===== *)
theory Envelope
  imports ClientCrypto
begin

text \<open>
  The SQLCipher key envelope and the recovery key (\<open>todoers-client/src/sqlcipher.rs\<close>, with the
  recipients of \<open>todoers-client/src/device_key/mod.rs\<close> and the recovery prompt of
  \<open>todoers/src/main.rs\<close>).  The database key is wrapped for a device recipient (KEM, key in the OS
  keyring) and for a password recipient (Argon2id).  HKDF-SHA512 is a parameter beside \<open>crypto\<close>; the
  keyring is a map; random values are arguments; UUIDs are strings.
\<close>

unbundle bit_operations_syntax

definition envelope_version :: "string" where "envelope_version = ''1''"
definition device_label :: string where "device_label = ''device-xwing-sqlcipher-kek-v1''"
definition password_label :: string where "password_label = ''password-sqlcipher-kek-v1''"

section \<open>Cipher settings\<close>

datatype db_cipher_kdf = Pbkdf2HmacSha512 | Pbkdf2HmacSha256 | Pbkdf2HmacSha1

fun kdf_serde_name :: "db_cipher_kdf \<Rightarrow> string" where
  "kdf_serde_name Pbkdf2HmacSha512 = ''PBKDF2_HMAC_SHA512''"
| "kdf_serde_name Pbkdf2HmacSha256 = ''PBKDF2_HMAC_SHA256''"
| "kdf_serde_name Pbkdf2HmacSha1 = ''PBKDF2_HMAC_SHA1''"

fun kdf_pragma :: "db_cipher_kdf \<Rightarrow> string" where
  "kdf_pragma Pbkdf2HmacSha512 = ''PBKDF2_HMAC_SHA512''"
| "kdf_pragma Pbkdf2HmacSha256 = ''PBKDF2HMAC_SHA256''"
| "kdf_pragma Pbkdf2HmacSha1 = ''PBKDF2_HMAC_SHA1''"

datatype db_cipher_hmac = HmacSha512 | HmacSha256 | HmacSha1

fun hmac_pragma :: "db_cipher_hmac \<Rightarrow> string" where
  "hmac_pragma HmacSha512 = ''HMAC_SHA512''"
| "hmac_pragma HmacSha256 = ''HMAC_SHA256''"
| "hmac_pragma HmacSha1 = ''HMAC_SHA1''"

record db_cipher =
  dc_kdf_iter :: nat
  dc_page_size :: nat
  dc_hmac :: db_cipher_hmac
  dc_kdf :: db_cipher_kdf
  dc_salt :: "16 fixed"

section \<open>Recipients and the envelope\<close>

datatype device_backend = MacosKeychain | LinuxSecretService | LinuxTpm2 | WindowsCredentialManager

record device_recipient =
  dr_id :: string
  dr_label :: string
  dr_backend :: device_backend
  dr_encapsulation_key :: bytes
  dr_kem_ciphertext :: bytes
  dr_wrapped_key :: bytes
  dr_nonce :: nonce
  dr_kek_salt :: "16 fixed"

record password_recipient =
  pr_id :: string
  pr_label :: string
  pr_argon2_salt :: "16 fixed"
  pr_memory_kib :: nat
  pr_time_cost :: nat
  pr_parallelism :: nat
  pr_wrapped_key :: bytes
  pr_nonce :: nonce
  pr_kek_salt :: "16 fixed"

datatype recipient_envelope = DeviceXWing device_recipient | Password password_recipient

record key_envelope =
  ke_version :: nat
  ke_database_id :: string
  ke_cipher :: db_cipher
  ke_recipients :: "recipient_envelope list"

record device_store =
  ds_backend :: device_backend
  ds_keys :: "string \<rightharpoonup> bytes"

type_synonym hkdf = "bytes \<Rightarrow> bytes \<Rightarrow> bytes \<Rightarrow> 32 fixed"

section \<open>Key derivation and wrapping\<close>

definition hash_password ::
    "crypto \<Rightarrow> string \<Rightarrow> 16 fixed \<Rightarrow> nat \<Rightarrow> nat \<Rightarrow> nat \<Rightarrow> client_error + 32 fixed" where
  "hash_password C password salt m_cost t_cost p_cost =
     ok_or Argon2 (c_argon2 C (ascii password) (as_slice salt) m_cost t_cost p_cost)"

definition derive_kek_from_secret ::
    "hkdf \<Rightarrow> (16 fixed) option \<Rightarrow> 16 fixed \<Rightarrow> 32 fixed \<Rightarrow> string \<Rightarrow> string \<Rightarrow> 16 fixed \<times> 32 fixed" where
  "derive_kek_from_secret H salt fresh_salt secret database_id purpose =
     (let s = (case salt of Some s \<Rightarrow> s | None \<Rightarrow> fresh_salt);
          info = ascii ''todoers/'' @ ascii purpose @ ascii ''/'' @ ascii database_id
      in (s, H (as_slice s) (as_slice secret) info))"

definition recipient_aad :: "string \<Rightarrow> string \<Rightarrow> string \<Rightarrow> bytes" where
  "recipient_aad database_id recipient_id label =
     ascii (''todoers-envelope-v'' @ envelope_version @ ''/'' @ database_id @ ''/'' @ recipient_id @ ''/'' @ label)"

definition aead_encrypt :: "crypto \<Rightarrow> 32 fixed \<Rightarrow> nonce \<Rightarrow> bytes \<Rightarrow> bytes \<Rightarrow> bytes" where
  "aead_encrypt C kek nonce plaintext data = c_aead_enc C kek nonce plaintext data"

definition aead_decrypt :: "crypto \<Rightarrow> 32 fixed \<Rightarrow> nonce \<Rightarrow> bytes \<Rightarrow> bytes \<Rightarrow> client_error + bytes" where
  "aead_decrypt C kek nonce ciphertext data = ok_or ChaCha (c_aead_dec C kek nonce ciphertext data)"

text \<open>The random values that creating an envelope draws.\<close>

record envelope_rand =
  er_sqlcipher_key :: "32 fixed"
  er_device_id :: string
  er_device_sk :: "32 fixed"
  er_encap :: bytes
  er_device_kek_salt :: "16 fixed"
  er_device_nonce :: nonce
  er_password_id :: string
  er_argon2_salt :: "16 fixed"
  er_password_kek_salt :: "16 fixed"
  er_password_nonce :: nonce
  er_cipher_salt :: "16 fixed"

definition create_device_xwing_recipient ::
    "crypto \<Rightarrow> hkdf \<Rightarrow> envelope_rand \<Rightarrow> string \<Rightarrow> 32 fixed \<Rightarrow> device_backend \<Rightarrow> recipient_envelope \<times> bytes" where
  "create_device_xwing_recipient C H R database_id sqlcipher_key backend =
     (let ek = c_kem_public C (er_device_sk R);
          (kem_ciphertext, shared_secret) = c_encapsulate C ek (er_encap R);
          (kek_salt, kek) = derive_kek_from_secret H None (er_device_kek_salt R) shared_secret database_id device_label;
          aad = recipient_aad database_id (er_device_id R) device_label;
          wrapped_key = aead_encrypt C kek (er_device_nonce R) (as_slice sqlcipher_key) aad
      in (DeviceXWing \<lparr> dr_id = er_device_id R, dr_label = device_label, dr_backend = backend,
            dr_encapsulation_key = ek, dr_kem_ciphertext = kem_ciphertext, dr_wrapped_key = wrapped_key,
            dr_nonce = er_device_nonce R, dr_kek_salt = kek_salt \<rparr>,
          as_slice (er_device_sk R)))"

definition create_password_recipient ::
    "crypto \<Rightarrow> hkdf \<Rightarrow> envelope_rand \<Rightarrow> string \<Rightarrow> string \<Rightarrow> 32 fixed \<Rightarrow> client_error + recipient_envelope" where
  "create_password_recipient C H R database_id password sqlcipher_key =
     (case hash_password C password (er_argon2_salt R) 65536 3 1 of
        Inl e \<Rightarrow> Inl e
      | Inr derived_key \<Rightarrow>
          (let (kek_salt, kek) = derive_kek_from_secret H None (er_password_kek_salt R) derived_key database_id password_label;
               aad = recipient_aad database_id (er_password_id R) password_label;
               wrapped_key = aead_encrypt C kek (er_password_nonce R) (as_slice sqlcipher_key) aad
           in Inr (Password \<lparr> pr_id = er_password_id R, pr_label = password_label,
                pr_argon2_salt = er_argon2_salt R, pr_memory_kib = 65536, pr_time_cost = 3,
                pr_parallelism = 1, pr_wrapped_key = wrapped_key, pr_nonce = er_password_nonce R,
                pr_kek_salt = kek_salt \<rparr>)))"

definition create_new_database_keys ::
    "crypto \<Rightarrow> hkdf \<Rightarrow> envelope_rand \<Rightarrow> device_store \<Rightarrow> string \<Rightarrow> string
       \<Rightarrow> client_error + (key_envelope \<times> device_store)" where
  "create_new_database_keys C H R store database_id password =
     (let key = er_sqlcipher_key R;
          (device_recipient, sk) = create_device_xwing_recipient C H R database_id key (ds_backend store);
          store' = store\<lparr> ds_keys := (ds_keys store)(database_id \<mapsto> sk) \<rparr>
      in case create_password_recipient C H R database_id password key of
           Inl e \<Rightarrow> Inl e
         | Inr password_recipient \<Rightarrow>
             Inr (\<lparr> ke_version = 1, ke_database_id = database_id,
                    ke_cipher = \<lparr> dc_kdf_iter = 256000, dc_page_size = 4096, dc_hmac = HmacSha512,
                                  dc_kdf = Pbkdf2HmacSha512, dc_salt = er_cipher_salt R \<rparr>,
                    ke_recipients = [device_recipient, password_recipient] \<rparr>, store'))"

section \<open>Unlocking\<close>

fun find_password :: "recipient_envelope list \<Rightarrow> password_recipient option" where
  "find_password [] = None"
| "find_password (Password p # rs) = Some p"
| "find_password (DeviceXWing d # rs) = find_password rs"

fun find_device :: "device_backend \<Rightarrow> recipient_envelope list \<Rightarrow> device_recipient option" where
  "find_device b [] = None"
| "find_device b (DeviceXWing d # rs) = (if dr_backend d = b then Some d else find_device b rs)"
| "find_device b (Password p # rs) = find_device b rs"

definition key_of_plaintext :: "bytes \<Rightarrow> client_error + 32 fixed" where
  "key_of_plaintext bs = map_err (\<lambda>_. InvalidKeyLength) (fixed_try_from bs)"

definition unlock_with_password :: "crypto \<Rightarrow> hkdf \<Rightarrow> key_envelope \<Rightarrow> string \<Rightarrow> client_error + 32 fixed" where
  "unlock_with_password C H env password =
     (case find_password (ke_recipients env) of
        None \<Rightarrow> Inl NoPassword
      | Some r \<Rightarrow>
          (case hash_password C password (pr_argon2_salt r) (pr_memory_kib r) (pr_time_cost r) (pr_parallelism r) of
             Inl e \<Rightarrow> Inl e
           | Inr shared_secret \<Rightarrow>
               (let (_, kek) = derive_kek_from_secret H (Some (pr_kek_salt r)) (pr_kek_salt r) shared_secret (ke_database_id env) (pr_label r);
                    aad = recipient_aad (ke_database_id env) (pr_id r) (pr_label r)
                in case aead_decrypt C kek (pr_nonce r) (pr_wrapped_key r) aad of
                     Inl e \<Rightarrow> Inl e
                   | Inr plaintext \<Rightarrow> key_of_plaintext plaintext)))"

definition unlock_with_device :: "crypto \<Rightarrow> hkdf \<Rightarrow> device_store \<Rightarrow> key_envelope \<Rightarrow> client_error + 32 fixed" where
  "unlock_with_device C H store env =
     (case find_device (ds_backend store) (ke_recipients env) of
        None \<Rightarrow> Inl NoDevRecipient
      | Some r \<Rightarrow>
          (case ds_keys store (ke_database_id env) of
             None \<Rightarrow> Inl KeyStore
           | Some key_bytes \<Rightarrow>
               (case key_of_plaintext key_bytes of
                  Inl e \<Rightarrow> Inl e
                | Inr sk \<Rightarrow>
                    (let shared_secret = c_decapsulate C sk (dr_kem_ciphertext r);
                         (_, kek) = derive_kek_from_secret H (Some (dr_kek_salt r)) (dr_kek_salt r) shared_secret (ke_database_id env) (dr_label r);
                         aad = recipient_aad (ke_database_id env) (dr_id r) (dr_label r)
                     in case aead_decrypt C kek (dr_nonce r) (dr_wrapped_key r) aad of
                          Inl e \<Rightarrow> Inl e
                        | Inr plaintext \<Rightarrow> key_of_plaintext plaintext))))"

section \<open>The recovery key\<close>

definition crockford :: string where
  "crockford = ''0123456789ABCDEFGHJKMNPQRSTVWXYZ''"

definition crock :: "32 word \<Rightarrow> char" where
  "crock w = crockford ! unat (w AND 0x1f)"

text \<open>The inner \<open>while bits >= 5\<close> loop.\<close>

function drain_bits :: "32 word \<Rightarrow> nat \<Rightarrow> string \<Rightarrow> nat \<times> string" where
  "drain_bits acc bits out =
     (if 5 \<le> bits then drain_bits acc (bits - 5) (out @ [crock (drop_bit (bits - 5) acc)])
      else (bits, out))"
  by pat_completeness auto
termination by (relation "measure (\<lambda>(acc, bits, out). bits)") auto

declare drain_bits.simps [simp del]

fun encode_loop :: "bytes \<Rightarrow> 32 word \<Rightarrow> nat \<Rightarrow> string \<Rightarrow> 32 word \<times> nat \<times> string" where
  "encode_loop [] acc bits out = (acc, bits, out)"
| "encode_loop (b # bs) acc bits out =
     (let acc' = push_bit 8 acc OR ucast b;
          (bits', out') = drain_bits acc' (bits + 8) out
      in encode_loop bs acc' bits' out')"

definition base32_encode :: "bytes \<Rightarrow> string" where
  "base32_encode bs =
     (let (acc, bits, out) = encode_loop bs 0 0 []
      in if 0 < bits then out @ [crock (push_bit (5 - bits) acc)] else out)"

function chunks4 :: "string \<Rightarrow> string list" where
  "chunks4 s = (if s = [] then [] else take 4 s # chunks4 (drop 4 s))"
  by pat_completeness auto
termination by (relation "measure length") (auto simp: neq_Nil_conv)

declare chunks4.simps [simp del]

fun join :: "string \<Rightarrow> string list \<Rightarrow> string" where
  "join sep [] = []"
| "join sep [s] = s"
| "join sep (s # t # ts) = s @ sep @ join sep (t # ts)"

definition generate_recovery_key :: "16 fixed \<Rightarrow> string" where
  "generate_recovery_key rnd = join ''-'' (chunks4 (base32_encode (as_slice rnd)))"

definition is_alnum :: "char \<Rightarrow> bool" where
  "is_alnum c \<longleftrightarrow> (CHR ''0'' \<le> c \<and> c \<le> CHR ''9'') \<or> (CHR ''a'' \<le> c \<and> c \<le> CHR ''z'') \<or> (CHR ''A'' \<le> c \<and> c \<le> CHR ''Z'')"

definition upper_char :: "char \<Rightarrow> char" where
  "upper_char c = (if CHR ''a'' \<le> c \<and> c \<le> CHR ''z'' then char_of (of_char c - 32 :: nat) else c)"

definition canonical :: "string \<Rightarrow> string" where
  "canonical s = map upper_char (filter is_alnum s)"

section \<open>First run and recovery\<close>

text \<open>The envelope file: \<open>None\<close> when it does not exist yet.  \<open>read\<close> and the JSON codec are parameters.\<close>

definition load_or_create_envelope ::
    "crypto \<Rightarrow> hkdf \<Rightarrow> envelope_rand \<Rightarrow> string \<Rightarrow> 16 fixed \<Rightarrow> (bytes \<Rightarrow> key_envelope option) \<Rightarrow> (key_envelope \<Rightarrow> bytes)
       \<Rightarrow> bytes option \<Rightarrow> device_store \<Rightarrow> client_error + ((key_envelope \<times> string option) \<times> bytes \<times> device_store)" where
  "load_or_create_envelope C H R uuid rnd parse print file store =
     (case file of
        Some content \<Rightarrow>
          (case parse content of
             None \<Rightarrow> Inl Json
           | Some env \<Rightarrow> Inr ((env, None), content, store))
      | None \<Rightarrow>
          (let recovery = generate_recovery_key rnd
           in case create_new_database_keys C H R store uuid (canonical recovery) of
                Inl e \<Rightarrow> Inl e
              | Inr (env, store') \<Rightarrow> Inr ((env, Some recovery), print env, store')))"

datatype prompt_result = Unlocked "32 fixed" | NoKeyEntered | GaveUp

text \<open>The recovery prompt, over the list of what the user types, at most \<open>attempts\<close> of them.\<close>

fun prompt_recovery_key :: "crypto \<Rightarrow> hkdf \<Rightarrow> key_envelope \<Rightarrow> nat \<Rightarrow> string list \<Rightarrow> prompt_result" where
  "prompt_recovery_key C H env 0 inputs = GaveUp"
| "prompt_recovery_key C H env (Suc attempts) [] = NoKeyEntered"
| "prompt_recovery_key C H env (Suc attempts) (s # inputs) =
     (let typed = canonical s in
      if typed = [] then NoKeyEntered
      else (case unlock_with_password C H env typed of
              Inr key \<Rightarrow> Unlocked key
            | Inl _ \<Rightarrow> prompt_recovery_key C H env attempts inputs))"

definition max_attempts :: nat where "max_attempts = 5"

section \<open>What base32 encoding means on bits\<close>

definition bits_of :: "byte \<Rightarrow> bool list" where
  "bits_of b = map (\<lambda>i. bit b (7 - i)) [0..<8]"

function fulls :: "bool list \<Rightarrow> bool list list" where
  "fulls p = (if 5 \<le> length p then take 5 p # fulls (drop 5 p) else [])"
  by pat_completeness auto
termination by (relation "measure length") auto

function rest :: "bool list \<Rightarrow> bool list" where
  "rest p = (if 5 \<le> length p then rest (drop 5 p) else p)"
  by pat_completeness auto
termination by (relation "measure length") auto

declare fulls.simps [simp del] rest.simps [simp del]

definition group_word :: "bool list \<Rightarrow> 32 word" where
  "group_word g = horner_sum of_bool 2 (rev g)"

definition group_char :: "bool list \<Rightarrow> char" where
  "group_char g = crock (group_word g)"

definition pad5 :: "bool list \<Rightarrow> bool list" where
  "pad5 g = g @ replicate (5 - length g) False"

definition b32_spec :: "bool list \<Rightarrow> string" where
  "b32_spec p = map group_char (fulls p) @ (if rest p = [] then [] else [group_char (pad5 (rest p))])"

lemma bit_group_word: "length g = 5 \<Longrightarrow> i < 5 \<Longrightarrow> bit (group_word g) i \<longleftrightarrow> g ! (4 - i)"
  by (simp add: group_word_def bit_horner_sum_bit_word_iff rev_nth)

lemma and31: "(v :: 32 word) AND 0x1f = take_bit 5 v"
  by (simp add: take_bit_eq_mask mask_eq_exp_minus_1)

lemma mask5_eq_iff: "(v :: 32 word) AND 0x1f = w AND 0x1f \<longleftrightarrow> (\<forall>i<5. bit v i \<longleftrightarrow> bit w i)"
proof -
  have "v AND 0x1f = w AND 0x1f \<longleftrightarrow> (\<forall>n<32. (n < 5 \<and> bit v n) = (n < 5 \<and> bit w n))"
    unfolding and31 by (simp add: bit_eq_iff bit_take_bit_iff)
  also have "\<dots> \<longleftrightarrow> (\<forall>i<5. bit v i \<longleftrightarrow> bit w i)"
  proof (rule iffI; intro allI impI)
    fix i :: nat assume h: "\<forall>n<32. (n < 5 \<and> bit v n) = (n < 5 \<and> bit w n)" and i: "i < 5"
    then show "bit v i \<longleftrightarrow> bit w i" using h [rule_format, of i] by simp
  qed auto
  finally show ?thesis .
qed

lemma crock_cong:
  assumes "\<And>i. i < 5 \<Longrightarrow> bit v i \<longleftrightarrow> bit w i"
  shows "crock v = crock w"
proof -
  have "v AND 0x1f = w AND 0x1f" using assms mask5_eq_iff [of v w] by blast
  then show ?thesis unfolding crock_def by (rule arg_cong)
qed

lemma unat_mask5: "unat ((w :: 32 word) AND 0x1f) < 32"
proof -
  have "unat (take_bit 5 w) = take_bit 5 (unat w)" by (simp add: unsigned_take_bit_eq)
  also have "\<dots> < 2 ^ 5" by (rule take_bit_nat_less_exp)
  finally show ?thesis unfolding and31 by simp
qed

lemma crock_inject: "crock v = crock w \<longleftrightarrow> (\<forall>i<5. bit v i \<longleftrightarrow> bit w i)"
proof -
  have "distinct crockford" "length crockford = 32" by (simp_all add: crockford_def)
  then have "crock v = crock w \<longleftrightarrow> unat (v AND 0x1f) = unat (w AND 0x1f)"
    using unat_mask5 [of v] unat_mask5 [of w] by (simp add: crock_def nth_eq_iff_index_eq)
  then show ?thesis by (simp only: word_unat_eq_iff [symmetric] mask5_eq_iff)
qed

lemma group_char_inject:
  assumes "length g = 5" and "length h = 5"
  shows "group_char g = group_char h \<longleftrightarrow> g = h"
proof
  assume "group_char g = group_char h"
  then have eq: "g ! (4 - i) = h ! (4 - i)" if "i < 5" for i
    using assms that by (simp add: group_char_def crock_inject bit_group_word)
  have "g ! i = h ! i" if "i < 5" for i
    using eq [of "4 - i"] that by simp
  then show "g = h" using assms by (simp add: nth_equalityI)
qed simp

definition holds :: "32 word \<Rightarrow> bool list \<Rightarrow> bool" where
  "holds acc p \<longleftrightarrow> (\<forall>i<length p. bit acc (length p - 1 - i) \<longleftrightarrow> p ! i)"

lemma holds_drop:
  assumes "holds acc p"
  shows "holds acc (drop k p)"
  unfolding holds_def
proof (intro allI impI)
  fix i assume "i < length (drop k p)"
  then have "k + i < length p" "length (drop k p) - 1 - i = length p - 1 - (k + i)" by auto
  then show "bit acc (length (drop k p) - 1 - i) \<longleftrightarrow> drop k p ! i"
    using assms by (simp add: holds_def)
qed

lemma bits_of_nth: "i < 8 \<Longrightarrow> bits_of b ! i \<longleftrightarrow> bit b (7 - i)"
  by (simp add: bits_of_def del: upt_Suc)

lemma length_bits_of [simp]: "length (bits_of b) = 8"
  by (simp add: bits_of_def)

lemma holds_push:
  assumes "holds acc p" and "length p < 5"
  shows "holds (push_bit 8 acc OR ucast b) (p @ bits_of b)"
  unfolding holds_def
proof (intro allI impI)
  fix i assume i: "i < length (p @ bits_of b)"
  show "bit (push_bit 8 acc OR ucast b) (length (p @ bits_of b) - 1 - i) \<longleftrightarrow> (p @ bits_of b) ! i"
  proof (cases "i < length p")
    case True
    let ?k = "length p - 1 - i"
    have k: "length (p @ bits_of b) - 1 - i = ?k + 8" using True by simp
    have small: "?k + 8 < 32" using True assms(2) by simp
    have "bit (ucast b :: 32 word) (?k + 8) = False"
      using bit_imp_le_length [of b "?k + 8"] by (auto simp: bit_simps)
    then have "bit (push_bit 8 acc OR ucast b) (?k + 8) \<longleftrightarrow> bit acc ?k"
      using small by (simp add: bit_simps)
    then show ?thesis unfolding k using assms(1) True by (simp add: holds_def nth_append)
  next
    case False
    let ?j = "i - length p"
    have j: "?j < 8" "length (p @ bits_of b) - 1 - i = 7 - ?j" using i False by auto
    have "bit (push_bit 8 acc OR ucast b) (7 - ?j) \<longleftrightarrow> bit b (7 - ?j)"
      using j(1) by (auto simp: bit_simps)
    then show ?thesis unfolding j(2) using False j(1) by (simp add: nth_append bits_of_nth)
  qed
qed

lemma crock_holds:
  assumes "holds acc p" and "5 \<le> length p"
  shows "crock (drop_bit (length p - 5) acc) = group_char (take 5 p)"
  unfolding group_char_def
proof (rule crock_cong)
  fix i :: nat assume i: "i < 5"
  have "bit (drop_bit (length p - 5) acc) i \<longleftrightarrow> bit acc (length p - 5 + i)" by (simp add: bit_simps)
  also have "length p - 5 + i = length p - 1 - (4 - i)" using assms(2) i by linarith
  also have "bit acc (length p - 1 - (4 - i)) \<longleftrightarrow> p ! (4 - i)"
    using assms(1) [unfolded holds_def, rule_format, of "4 - i"] assms(2) i by linarith
  finally show "bit (drop_bit (length p - 5) acc) i \<longleftrightarrow> bit (group_word (take 5 p)) i"
    using assms(2) i by (simp add: bit_group_word)
qed

lemma drain_bits_spec:
  "holds acc p \<Longrightarrow> drain_bits acc (length p) out = (length (rest p), out @ map group_char (fulls p))"
proof (induction p arbitrary: out rule: fulls.induct)
  case (1 p)
  show ?case
  proof (cases "5 \<le> length p")
    case True
    then have "drain_bits acc (length p) out =
        drain_bits acc (length (drop 5 p)) (out @ [group_char (take 5 p)])"
      using 1(2) by (subst drain_bits.simps) (simp add: crock_holds)
    then show ?thesis
      using True 1 by (simp add: holds_drop fulls.simps [of p] rest.simps [of p])
  next
    case False
    then show ?thesis by (subst drain_bits.simps) (simp add: fulls.simps [of p] rest.simps [of p])
  qed
qed

lemma holds_rest: "holds acc p \<Longrightarrow> holds acc (rest p)"
  by (induction p rule: rest.induct) (subst rest.simps, auto simp: holds_drop)

lemma length_rest: "length (rest p) < 5"
  by (induction p rule: rest.induct) (subst rest.simps, auto)

lemma fulls_rest_append: "fulls (p @ q) = fulls p @ fulls (rest p @ q) \<and> rest (p @ q) = rest (rest p @ q)"
proof (induction p rule: fulls.induct)
  case (1 p)
  show ?case
  proof (cases "5 \<le> length p")
    case True
    then have "fulls (p @ q) = take 5 p # fulls (drop 5 p @ q)" "rest (p @ q) = rest (drop 5 p @ q)"
      by (simp_all add: fulls.simps [of "p @ q"] rest.simps [of "p @ q"])
    then show ?thesis using 1 True by (simp add: fulls.simps [of p] rest.simps [of p])
  next
    case False
    then show ?thesis by (simp add: fulls.simps [of p] rest.simps [of p])
  qed
qed

lemma encode_loop_spec:
  assumes "holds acc p" and "length p < 5"
  shows "\<exists>acc'. encode_loop bs acc (length p) out =
      (acc', length (rest (p @ concat (map bits_of bs))), out @ map group_char (fulls (p @ concat (map bits_of bs)))) \<and>
      holds acc' (rest (p @ concat (map bits_of bs)))"
  using assms
proof (induction bs arbitrary: acc p out)
  case Nil
  then have "rest p = p" "fulls p = []" by (simp_all add: rest.simps [of p] fulls.simps [of p])
  then show ?case using Nil by simp
next
  case (Cons b bs)
  let ?acc = "push_bit 8 acc OR ucast b"
  let ?p = "p @ bits_of b"
  have h: "holds ?acc ?p" using Cons.prems by (rule holds_push)
  have drain: "drain_bits ?acc (length p + 8) out = (length (rest ?p), out @ map group_char (fulls ?p))"
    using drain_bits_spec [OF h, of out] by simp
  have "rest (p @ concat (map bits_of (b # bs))) = rest (rest ?p @ concat (map bits_of bs))"
    "fulls (p @ concat (map bits_of (b # bs))) = fulls ?p @ fulls (rest ?p @ concat (map bits_of bs))"
    using fulls_rest_append [of ?p "concat (map bits_of bs)"] by simp_all
  then show ?case
    using Cons.IH [OF holds_rest [OF h] length_rest, of "out @ map group_char (fulls ?p)"]
    by (simp add: Let_def drain)
qed

lemma crock_pad:
  assumes "holds acc p" and "length p < 5" and "p \<noteq> []"
  shows "crock (push_bit (5 - length p) acc) = group_char (pad5 p)"
  unfolding group_char_def
proof (rule crock_cong)
  fix i :: nat assume i: "i < 5"
  have len: "length (pad5 p) = 5" using assms(2) by (simp add: pad5_def)
  have "bit (push_bit (5 - length p) acc) i \<longleftrightarrow> 5 - length p \<le> i \<and> bit acc (i - (5 - length p))"
    using i by (auto simp: bit_simps)
  also have "\<dots> \<longleftrightarrow> pad5 p ! (4 - i)"
  proof (cases "5 - length p \<le> i")
    case True
    then have k: "4 - i < length p" "i - (5 - length p) = length p - 1 - (4 - i)" using i assms(2) by linarith+
    have "bit acc (length p - 1 - (4 - i)) \<longleftrightarrow> p ! (4 - i)"
      using assms(1) k(1) unfolding holds_def by blast
    then show ?thesis unfolding k(2) using True k(1) by (simp add: pad5_def nth_append)
  next
    case False
    then have "length p \<le> 4 - i" "4 - i - length p < 5 - length p" using i by linarith+
    then show ?thesis using False by (simp add: pad5_def nth_append)
  qed
  finally show "bit (push_bit (5 - length p) acc) i \<longleftrightarrow> bit (group_word (pad5 p)) i"
    using i len by (simp add: bit_group_word)
qed

lemma base32_encode_spec: "base32_encode bs = b32_spec (concat (map bits_of bs))"
proof -
  let ?p = "concat (map bits_of bs)"
  obtain acc where enc: "encode_loop bs 0 0 [] = (acc, length (rest ?p), map group_char (fulls ?p))"
    and h: "holds acc (rest ?p)"
    using encode_loop_spec [of 0 "[]" bs "[]"] by (auto simp: holds_def)
  show ?thesis
    by (cases "rest ?p = []")
       (simp_all add: base32_encode_def enc b32_spec_def crock_pad [OF h length_rest])
qed

lemma fulls_len: "g \<in> set (fulls p) \<Longrightarrow> length g = 5"
  by (induction p rule: fulls.induct) (subst (asm) fulls.simps, auto split: if_splits)

lemma fulls_rest_concat: "concat (fulls p) @ rest p = p"
proof (induction p rule: fulls.induct)
  case (1 p)
  then show ?case by (cases "5 \<le> length p") (simp_all add: fulls.simps [of p] rest.simps [of p])
qed

lemma fulls_rest_length: "length (fulls p) = length p div 5 \<and> length (rest p) = length p mod 5"
proof (induction p rule: fulls.induct)
  case (1 p)
  then show ?case
    by (cases "5 \<le> length p") (simp_all add: fulls.simps [of p] rest.simps [of p] le_div_geq le_mod_geq)
qed

lemma map_group_char_inject:
  assumes "length gs = length hs" "\<forall>g\<in>set gs. length g = 5" "\<forall>h\<in>set hs. length h = 5"
  shows "map group_char gs = map group_char hs \<longleftrightarrow> gs = hs"
  using assms by (induction gs hs rule: list_induct2) (auto simp: group_char_inject)

lemma b32_spec_inject:
  assumes "length p = length q" and "b32_spec p = b32_spec q"
  shows "p = q"
proof -
  have len: "length (fulls p) = length (fulls q)" "length (rest p) = length (rest q)"
    using assms(1) by (simp_all add: fulls_rest_length)
  then have emp: "rest p = [] \<longleftrightarrow> rest q = []" by (metis length_0_conv)
  have "map group_char (fulls p) = map group_char (fulls q)" and
    tl: "rest p \<noteq> [] \<Longrightarrow> group_char (pad5 (rest p)) = group_char (pad5 (rest q))"
    using assms(2) len emp by (auto simp: b32_spec_def append_eq_append_conv split: if_splits)
  then have "fulls p = fulls q" using len(1) by (simp add: map_group_char_inject fulls_len)
  moreover have "rest p = rest q"
  proof (cases "rest p = []")
    case False
    have "length (pad5 (rest p)) = 5" "length (pad5 (rest q)) = 5"
      using length_rest [of p] length_rest [of q] by (simp_all add: pad5_def)
    then have "pad5 (rest p) = pad5 (rest q)" using tl [OF False] by (simp add: group_char_inject)
    then show ?thesis using len(2) by (simp add: pad5_def)
  qed (use emp in simp)
  ultimately show ?thesis by (metis fulls_rest_concat)
qed

lemma bits_of_inject: "bits_of a = bits_of b \<longleftrightarrow> a = b"
proof
  assume eq: "bits_of a = bits_of b"
  show "a = b"
  proof (rule bit_word_eqI)
    fix n assume "n < LENGTH(8)"
    then have "n < 8" by simp
    then show "bit a n \<longleftrightarrow> bit b n"
      using bits_of_nth [of "7 - n" a] bits_of_nth [of "7 - n" b] eq by simp
  qed
qed simp

lemma concat_bits_inject:
  assumes "length bs = length cs" and "concat (map bits_of bs) = concat (map bits_of cs)"
  shows "bs = cs"
  using assms by (induction bs cs rule: list_induct2) (auto simp: append_eq_append_conv bits_of_inject)

lemma length_concat_bits: "length (concat (map bits_of bs)) = 8 * length bs"
  by (induction bs) simp_all

lemma base32_encode_inject:
  assumes "length bs = length cs"
  shows "base32_encode bs = base32_encode cs \<longleftrightarrow> bs = cs"
  using assms b32_spec_inject [of "concat (map bits_of bs)" "concat (map bits_of cs)"] concat_bits_inject [OF assms]
  by (auto simp: base32_encode_spec length_concat_bits)

lemma length_base32_encode: "length (base32_encode bs) = (8 * length bs + 4) div 5"
proof -
  let ?p = "concat (map bits_of bs)"
  have "length (b32_spec ?p) = length ?p div 5 + (if length ?p mod 5 = 0 then 0 else 1)"
    using fulls_rest_length [of ?p] by (simp add: b32_spec_def flip: length_0_conv)
  also have "\<dots> = (length ?p + 4) div 5"
  proof -
    have "n div 5 + (if n mod 5 = 0 then 0 else 1) = (n + 4) div 5" for n :: nat by presburger
    then show ?thesis .
  qed
  finally show ?thesis by (simp add: base32_encode_spec length_concat_bits)
qed

section \<open>Canonical recovery keys\<close>

lemma canonical_append: "canonical (s @ t) = canonical s @ canonical t"
  by (simp add: canonical_def)

lemma canonical_join: "canonical sep = [] \<Longrightarrow> canonical (join sep ss) = concat (map canonical ss)"
  by (induction sep ss rule: join.induct) (simp_all add: canonical_append canonical_def)

lemma concat_chunks4: "concat (chunks4 s) = s"
proof (induction s rule: chunks4.induct)
  case (1 s)
  then show ?case by (cases "s = []") (simp_all add: chunks4.simps [of s] chunks4.simps [of "[]"])
qed

lemma concat_canonical: "concat (map canonical ss) = canonical (concat ss)"
  by (induction ss) (simp_all add: canonical_append canonical_def)

lemma crockford_canonical: "c \<in> set crockford \<Longrightarrow> is_alnum c \<and> upper_char c = c"
  by (auto simp: crockford_def is_alnum_def upper_char_def less_eq_char_def)

lemma canonical_id: "set s \<subseteq> set crockford \<Longrightarrow> canonical s = s"
  by (induction s) (auto simp: canonical_def crockford_canonical)

lemma group_char_crockford: "group_char g \<in> set crockford"
proof -
  have "unat (group_word g AND 0x1f) < length crockford"
    using unat_mask5 [of "group_word g"] by (simp add: crockford_def)
  then show ?thesis unfolding group_char_def crock_def by (rule nth_mem)
qed

lemma base32_crockford: "set (base32_encode bs) \<subseteq> set crockford"
  by (auto simp: base32_encode_spec b32_spec_def group_char_crockford split: if_splits)

lemma canonical_recovery_key: "canonical (generate_recovery_key r) = base32_encode (as_slice r)"
proof -
  have "canonical (generate_recovery_key r) = canonical (base32_encode (as_slice r))"
    unfolding generate_recovery_key_def
    by (subst canonical_join) (simp_all add: concat_canonical concat_chunks4, simp add: canonical_def is_alnum_def less_eq_char_def)
  then show ?thesis by (simp add: canonical_id base32_crockford)
qed

section \<open>Properties\<close>

text \<open>C29: the recovery key shown to the user loses nothing of its 128 random bits: whatever the
  grouping, its canonical form is the 26-character base32 encoding, and two keys have the same
  canonical form only if they were made from the same 16 bytes.\<close>

theorem recovery_key_faithful:
  "canonical (generate_recovery_key r) = base32_encode (as_slice r) \<and>
   length (canonical (generate_recovery_key r)) = 26 \<and>
   (canonical (generate_recovery_key r) = canonical (generate_recovery_key t)) = (r = t)"
proof -
  have "base32_encode (as_slice r) = base32_encode (as_slice t) \<longleftrightarrow> as_slice r = as_slice t"
    by (rule base32_encode_inject) simp
  then show ?thesis by (simp add: canonical_recovery_key length_base32_encode as_slice_eq_iff)
qed

lemma hash_password_Inr: "hash_password C pw s m t p = Inr k \<longleftrightarrow> c_argon2 C (ascii pw) (as_slice s) m t p = Some k"
  by (simp add: hash_password_def)

lemma key_of_plaintext_as_slice [simp]: "key_of_plaintext (as_slice k) = Inr k"
  by (simp add: key_of_plaintext_def wire_simps)

text \<open>A new envelope opens both ways to the same database key: with the password it was made
  for, and with the device key that its creation put in the key store.\<close>

lemma envelope_unlocks:
  assumes "crypto_ok C" and "create_new_database_keys C H R store db_id password = Inr (env, store')"
  shows "unlock_with_password C H env password = Inr (er_sqlcipher_key R) \<and>
         unlock_with_device C H store' env = Inr (er_sqlcipher_key R)"
proof -
  obtain ct ss where enc: "c_encapsulate C (c_kem_public C (er_device_sk R)) (er_encap R) = (ct, ss)" by fastforce
  then have dec: "c_decapsulate C (er_device_sk R) ct = ss"
    using kem_okD(3) [OF assms(1), of "er_device_sk R" "er_encap R"] by simp
  obtain k where k: "c_argon2 C (ascii password) (as_slice (er_argon2_salt R)) 65536 3 1 = Some k"
    using assms(2)
    by (cases "c_argon2 C (ascii password) (as_slice (er_argon2_salt R)) 65536 3 1")
       (auto simp: create_new_database_keys_def create_password_recipient_def hash_password_def
         create_device_xwing_recipient_def derive_kek_from_secret_def enc Let_def)
  show ?thesis
    using assms(2)
    by (auto simp: create_new_database_keys_def create_password_recipient_def hash_password_def
        create_device_xwing_recipient_def derive_kek_from_secret_def enc Let_def k [simplified] dec
        unlock_with_password_def unlock_with_device_def aead_encrypt_def aead_decrypt_def
        aead_dec_enc [OF assms(1)])
qed

definition demo_hkdf :: hkdf where
  "demo_hkdf = (\<lambda>salt secret info. fixed_of_slice (take 32 (secret @ info)))"

definition demo_rand :: envelope_rand where
  "demo_rand = \<lparr> er_sqlcipher_key = fixed_repeat 7, er_device_id = ''d'', er_device_sk = fixed_repeat 1,
     er_encap = [], er_device_kek_salt = fixed_repeat 2, er_device_nonce = fixed_repeat 3,
     er_password_id = ''p'', er_argon2_salt = fixed_repeat 4, er_password_kek_salt = fixed_repeat 5,
     er_password_nonce = fixed_repeat 6, er_cipher_salt = fixed_repeat 8 \<rparr>"

definition demo_store :: device_store where
  "demo_store = \<lparr> ds_backend = LinuxSecretService, ds_keys = Map.empty \<rparr>"

lemma demo_creates:
  "\<exists>env store. create_new_database_keys toy_crypto demo_hkdf demo_rand demo_store db_id pw = Inr (env, store)"
  by (simp add: create_new_database_keys_def create_password_recipient_def hash_password_def
      create_device_xwing_recipient_def derive_kek_from_secret_def Let_def toy_crypto_def split: prod.split)

text \<open>Recovery end to end: on the first run the user is shown a recovery key, and later, with the
  device key lost, the prompt opens the database when the user types that key, in any case and with
  any separators, within the five attempts, whatever wrong keys were typed before.\<close>

lemma recovery_unlocks:
  assumes "crypto_ok C"
    and "load_or_create_envelope C H R uuid rnd parse print None store = Inr ((env, shown), file, store')"
    and "length wrong < max_attempts" and "\<forall>w\<in>set wrong. canonical w \<noteq> []"
    and "\<forall>w\<in>set wrong. \<not> is_ok (unlock_with_password C H env (canonical w))"
  shows "\<exists>key. shown = Some key \<and>
           (\<forall>typed later. canonical typed = canonical key \<longrightarrow>
              prompt_recovery_key C H env max_attempts (wrong @ typed # later) = Unlocked (er_sqlcipher_key R))"
proof -
  let ?key = "generate_recovery_key rnd"
  from assms(2) have created: "create_new_database_keys C H R store uuid (canonical ?key) = Inr (env, store')"
    and shown: "shown = Some ?key"
    by (auto simp: load_or_create_envelope_def Let_def split: sum.splits)
  have open_ok: "unlock_with_password C H env (canonical ?key) = Inr (er_sqlcipher_key R)"
    using envelope_unlocks [OF assms(1) created] by blast
  have ne: "canonical ?key \<noteq> []"
    using length_base32_encode [of "as_slice rnd"] by (auto simp: canonical_recovery_key)
  have "prompt_recovery_key C H env n (ws @ typed # later) = Unlocked (er_sqlcipher_key R)"
    if "canonical typed = canonical ?key" "length ws < n" "\<forall>w\<in>set ws. canonical w \<noteq> []"
      "\<forall>w\<in>set ws. \<not> is_ok (unlock_with_password C H env (canonical w))" for n ws typed later
    using that
  proof (induction ws arbitrary: n)
    case Nil
    then show ?case using open_ok ne by (cases n) (simp_all add: Let_def)
  next
    case (Cons w ws)
    then show ?case
      by (cases n; cases "unlock_with_password C H env (canonical w)") (simp_all add: Let_def)
  qed
  then show ?thesis using shown assms(3-5) by blast
qed

end
