(* ===== verification/Startup.thy ===== *)
theory Startup
  imports Envelope
begin

text \<open>
  The first start of the client: what creating the envelope file leaves behind, and how the byte arrays of that file are
  read back (\<open>src/todoers-client/src/sqlcipher.rs\<close>, \<open>device_key/mod.rs\<close>).
\<close>

section \<open>The first start\<close>

lemma first_start:
  assumes "crypto_ok C" and "load_or_create_envelope C H R uuid rnd parse print None store = Inr ((env, recovery), content, store')"
  shows "unlock_with_device C H store' env = Inr (er_sqlcipher_key R)"
    and "recovery = Some (generate_recovery_key rnd)" and "content = print env"
    and "unlock_with_password C H env (canonical (generate_recovery_key rnd)) = Inr (er_sqlcipher_key R)"
proof -
  have c: "create_new_database_keys C H R store uuid (canonical (generate_recovery_key rnd)) = Inr (env, store')"
    and "recovery = Some (generate_recovery_key rnd)" "content = print env"
    using assms(2) by (auto simp: load_or_create_envelope_def Let_def split: sum.splits)
  then show "recovery = Some (generate_recovery_key rnd)" "content = print env" by simp_all
  show "unlock_with_device C H store' env = Inr (er_sqlcipher_key R)"
    "unlock_with_password C H env (canonical (generate_recovery_key rnd)) = Inr (er_sqlcipher_key R)"
    using envelope_unlocks [OF assms(1) c] by simp_all
qed

lemma canonical_recovery_not_empty: "canonical (generate_recovery_key rnd) \<noteq> []"
  using length_base32_encode [of "as_slice rnd"] by (auto simp: canonical_recovery_key)

definition demo_recovery :: string where
  "demo_recovery = generate_recovery_key (fixed_repeat 0)"

definition demo_envelope :: key_envelope where
  "demo_envelope = (case create_new_database_keys toy_crypto demo_hkdf demo_rand demo_store ''db'' (canonical demo_recovery) of
     Inr (env, _) \<Rightarrow> env | Inl _ \<Rightarrow> undefined)"

lemma demo_first_start:
  "\<exists>store'. load_or_create_envelope toy_crypto demo_hkdf demo_rand ''db'' (fixed_repeat 0) (\<lambda>_. Some demo_envelope) (\<lambda>_. [1])
     None demo_store = Inr ((demo_envelope, Some demo_recovery), [1], store')"
proof -
  obtain env store where "create_new_database_keys toy_crypto demo_hkdf demo_rand demo_store ''db'' (canonical demo_recovery) = Inr (env, store)"
    using demo_creates by blast
  then show ?thesis by (auto simp: load_or_create_envelope_def Let_def demo_envelope_def demo_recovery_def)
qed

section \<open>Byte arrays of the envelope file\<close>

datatype 'a decoded = Decoded 'a | BadText | Panicked

text \<open>A byte array is stored as hex text.  The decoded bytes are copied into an array of the expected size, and the copy
  panics when the sizes differ.\<close>

definition hex_array_decode :: "(string \<Rightarrow> bytes option) \<Rightarrow> nat \<Rightarrow> string \<Rightarrow> bytes decoded" where
  "hex_array_decode hex n s = (case hex s of
     None \<Rightarrow> BadText
   | Some bs \<Rightarrow> (if length bs = n then Decoded bs else Panicked))"

lemma hex_array_outcome:
  assumes "\<And>bs. hex (enc bs) = Some bs"
  shows "hex_array_decode hex n (enc bs) = (if length bs = n then Decoded bs else Panicked)"
  using assms by (simp add: hex_array_decode_def)

end
