(* ===== verification/ClientStart.thy ===== *)
theory ClientStart
  imports Locations Startup
begin

text \<open>
  The client from its command line to its event loop (\<open>body\<close> in \<open>src/todoers/src/main.rs\<close>): the log, the
  two subcommands, the configuration, the key of the database, the database (\<open>Db::new\<close> in
  \<open>todoers-client/src/db.rs\<close>) and the application.
\<close>

section \<open>Opening the database\<close>

type_synonym pragmas = "(string \<times> string) list"

definition upper_hex :: "(bytes \<Rightarrow> string) \<Rightarrow> bytes \<Rightarrow> string" where
  "upper_hex hex bs = [CHR 0x22] @ ''x'' @ [CHR 0x27] @ map upper_char (hex bs) @ [CHR 0x27, CHR 0x22]"

definition db_pragmas :: "(bytes \<Rightarrow> string) \<Rightarrow> (nat \<Rightarrow> string) \<Rightarrow> 32 fixed \<Rightarrow> db_cipher \<Rightarrow> pragmas" where
  "db_pragmas hex dec key c =
     [(''key'', upper_hex hex (as_slice key)),
      (''cipher_salt'', upper_hex hex (as_slice (dc_salt c))),
      (''kdf_iter'', dec (dc_kdf_iter c)),
      (''cipher_kdf_algorithm'', kdf_pragma (dc_kdf c)),
      (''cipher_hmac_algorithm'', hmac_pragma (dc_hmac c)),
      (''cipher_page_size'', dec (dc_page_size c)),
      (''cipher_default_kdf_iter'', dec (dc_kdf_iter c)),
      (''cipher_default_kdf_algorithm'', kdf_pragma (dc_kdf c)),
      (''cipher_default_hmac_algorithm'', hmac_pragma (dc_hmac c)),
      (''cipher_default_page_size'', dec (dc_page_size c))]"

text \<open>What the start takes from outside: \<open>se_opens P Q\<close> tells whether SQLCipher opens, with the pragmas \<open>P\<close>, a file
  created with \<open>Q\<close>; \<open>se_dec\<close> writes a number in decimal.\<close>

record start_env =
  se_host :: host
  se_build :: config_builder
  se_checked :: bool
  se_shipped_keys :: key_bindings
  se_shipped_styles :: styles
  se_crypto :: crypto
  se_hkdf :: hkdf
  se_hex :: "bytes \<Rightarrow> string"
  se_dec :: "nat \<Rightarrow> string"
  se_parse :: "bytes \<Rightarrow> key_envelope option"
  se_print :: "key_envelope \<Rightarrow> bytes"
  se_opens :: "pragmas \<Rightarrow> pragmas \<Rightarrow> bool"
  se_version_message :: string
  se_authors :: string
  se_license :: string

definition db_path :: "string \<Rightarrow> string" where
  "db_path data_dir = path_join data_dir ''todoers.db''"

definition db_init :: "start_env \<Rightarrow> string \<Rightarrow> 32 fixed \<Rightarrow> db_cipher \<Rightarrow> disk \<Rightarrow> (client_error + client_db) \<times> disk" where
  "db_init E data_dir key cipher d =
     (case (if disk_exists d data_dir then Some d else create_dir_all (se_host E) data_dir d) of
        None \<Rightarrow> (Inl Io, d)
      | Some d \<Rightarrow>
          (let pragmas = db_pragmas (se_hex E) (se_dec E) key cipher; file = db_path data_dir in
           case dk_dbs d file of
             Some (created, db) \<Rightarrow> (if se_opens E pragmas created then Inr db else Inl Sqlx, d)
           | None \<Rightarrow>
               if disk_exists d file \<or> \<not> ho_writable (se_host E) file then (Inl Sqlx, d)
               else (Inr db_empty, d\<lparr> dk_dbs := (dk_dbs d)(file \<mapsto> (pragmas, db_empty)) \<rparr>)))"

section \<open>The command line\<close>

datatype command = Version | Keygen string

definition version :: "start_env \<Rightarrow> disk \<Rightarrow> string" where
  "version E d = (let nl = [CHR 0x0A] in
     se_version_message E @ nl @ nl @ ''Authors: '' @ se_authors E @ nl @ nl @
     ''Config directory: '' @ get_config_dir (se_host E) d @ nl @
     ''Data directory: '' @ get_data_dir (se_host E) d @ nl @ nl @ se_license E)"

text \<open>One run draws \<open>start_rand\<close> and reads \<open>console\<close>: the subcommand, the texts typed at the recovery prompt, and the
  answer to the question whether the recovery key was saved.\<close>

record start_rand =
  sr_envelope :: envelope_rand
  sr_uuid :: string
  sr_recovery :: "16 fixed"
  sr_secret :: "32 fixed"
  sr_written :: "nat option"

record console =
  co_command :: "command option"
  co_typed :: "string list"
  co_confirm :: bool

datatype shown = ShownVersion string | ShownPublicKey string | ShownRecovery string

datatype 'ta body_end = Finished | BadLog log_error | BadConfig config_error | Failed client_error | NoKey | Unconfirmed
  | Entered "32 fixed" "'ta app"

definition envelope_path :: "start_env \<Rightarrow> disk \<Rightarrow> string" where
  "envelope_path E d = path_join (get_data_dir (se_host E) d) ''db_keys.json''"

text \<open>The envelope file is read, or written together with the directory above it and made private.\<close>

definition envelope_step ::
    "start_env \<Rightarrow> start_rand \<Rightarrow> disk \<Rightarrow> device_store \<Rightarrow> (client_error + key_envelope \<times> string option) \<times> disk \<times> device_store" where
  "envelope_step E R d store =
     (let path = envelope_path E d; Ho = se_host E in
      case load_or_create_envelope (se_crypto E) (se_hkdf E) (sr_envelope R) (sr_uuid R) (sr_recovery R)
             (se_parse E) (se_print E) (dk_files d path) store of
        Inl e \<Rightarrow> (Inl e, d, store)
      | Inr ((env, None), _, store) \<Rightarrow> (Inr (env, None), d, store)
      | Inr ((env, Some recovery), content, store) \<Rightarrow>
          (case create_dir_all Ho (get_data_dir Ho d) d of
             None \<Rightarrow> (Inl Io, d, store)
           | Some d \<Rightarrow>
               if disk_exists d path \<or> \<not> ho_writable Ho path then (Inl Io, d, store)
               else (Inr (env, Some recovery),
                     (let d = write_file path content d in
                      if ho_windows Ho then d else d\<lparr> dk_private := insert path (dk_private d) \<rparr>), store)))"

text \<open>The device key store opens the envelope, or else what is typed at the recovery prompt.\<close>

definition unlock_step :: "start_env \<Rightarrow> console \<Rightarrow> device_store \<Rightarrow> key_envelope \<Rightarrow> prompt_result" where
  "unlock_step E K store env =
     (case unlock_with_device (se_crypto E) (se_hkdf E) store env of
        Inr key \<Rightarrow> Unlocked key
      | Inl _ \<Rightarrow> prompt_recovery_key (se_crypto E) (se_hkdf E) env max_attempts (co_typed K))"

text \<open>The recovery key is printed once, and the start goes on only when the user confirms that it is saved.\<close>

definition show_recovery_key :: "console \<Rightarrow> string \<Rightarrow> bool \<times> shown list" where
  "show_recovery_key K recovery = (co_confirm K, [ShownRecovery recovery])"

definition run_app :: "start_env \<Rightarrow> start_rand \<Rightarrow> console \<Rightarrow> config \<Rightarrow> disk \<Rightarrow> device_store
    \<Rightarrow> 'ta body_end \<times> shown list \<times> disk \<times> device_store" where
  "run_app E R K cfg d store =
     (case envelope_step E R d store of
        (Inl e, d, store) \<Rightarrow> (Failed e, [], d, store)
      | (Inr (env, recovery), d, store) \<Rightarrow>
          (case unlock_step E K store env of
             Unlocked key \<Rightarrow>
               (case db_init E (cg_data_dir cfg) key (ke_cipher env) d of
                  (Inl e, d) \<Rightarrow> (Failed e, [], d, store)
                | (Inr db, d) \<Rightarrow>
                    (let entered = Entered key (app_new (app_config.truncate cfg) (load_account db) None) in
                     case recovery of
                       None \<Rightarrow> (entered, [], d, store)
                     | Some r \<Rightarrow> (let (saved, out) = show_recovery_key K r in (if saved then entered else Unconfirmed, out, d, store))))
           | _ \<Rightarrow> (NoKey, [], d, store)))"

definition body :: "start_env \<Rightarrow> start_rand \<Rightarrow> console \<Rightarrow> disk \<Rightarrow> device_store
    \<Rightarrow> 'ta body_end \<times> shown list \<times> disk \<times> device_store" where
  "body E R K d store =
     (case logging_init (se_host E) d of
        (Inl e, d) \<Rightarrow> (BadLog e, [], d, store)
      | (Inr _, d) \<Rightarrow>
          (case co_command K of
             Some Version \<Rightarrow> (Finished, [ShownVersion (version E d)], d, store)
           | Some (Keygen output) \<Rightarrow>
               (case keygen (se_crypto E) (se_hex E) (se_host E) (sr_secret R) (sr_written R) output (Some key_contents) d of
                  (Inl e, d) \<Rightarrow> (Failed e, [], d, store)
                | (Inr public_key, d) \<Rightarrow> (Finished, [ShownPublicKey public_key], d, store))
           | None \<Rightarrow>
               (case config_new (se_host E) (se_build E) (se_checked E) (se_shipped_keys E) (se_shipped_styles E) d of
                  Inl e \<Rightarrow> (BadConfig e, [], d, store)
                | Inr cfg \<Rightarrow> run_app E R K cfg d store)))"

section \<open>Lemmas: one start after another\<close>

definition log_path :: "host \<Rightarrow> disk \<Rightarrow> string" where
  "log_path Ho d = path_join (get_data_dir Ho d) (pkg_name @ ''.log'')"

lemma logging_init_inv:
  assumes "logging_init Ho d = (Inr lg, d1)"
  obtains d0 f where "create_dir_all Ho (get_data_dir Ho d) d = Some d0" "d1 = write_file (log_path Ho d) [] d0"
    "log_path Ho d \<notin> dk_dirs d0" "ho_writable Ho (log_path Ho d)" "log_filter Ho = Inr f"
  using assms unfolding logging_init_def Let_def log_path_def [symmetric]
  by (auto split: option.splits if_splits sum.splits)

lemma logging_init_ok:
  assumes "logging_init Ho d = (Inr lg, d1)"
  shows "grows d d1" "get_data_dir Ho d \<in> dk_dirs d1" "dk_dbs d1 = dk_dbs d"
    "dk_files d1 = (dk_files d)(log_path Ho d \<mapsto> [])" "log_path Ho d \<notin> dk_dirs d1"
proof -
  obtain d0 f where i: "create_dir_all Ho (get_data_dir Ho d) d = Some d0" "d1 = write_file (log_path Ho d) [] d0"
    "log_path Ho d \<notin> dk_dirs d0" using logging_init_inv [OF assms] by blast
  note c = create_dir_all_ok [OF i(1)]
  show "grows d d1" using c(1) i(2) grows_trans by fastforce
  show "get_data_dir Ho d \<in> dk_dirs d1" "dk_dbs d1 = dk_dbs d" "dk_files d1 = (dk_files d)(log_path Ho d \<mapsto> [])"
    "log_path Ho d \<notin> dk_dirs d1" using c i by simp_all
qed

lemma logging_init_again:
  assumes "logging_init Ho d = (Inr lg, d1)" and "get_data_dir Ho d'' = get_data_dir Ho d"
    and "get_data_dir Ho d \<in> dk_dirs d''" "log_path Ho d \<notin> dk_dirs d''"
  shows "\<exists>lg. logging_init Ho d'' = (Inr lg, write_file (log_path Ho d) [] d'')"
proof -
  obtain f where f: "ho_writable Ho (log_path Ho d)" "log_filter Ho = Inr f" using logging_init_inv [OF assms(1)] by blast
  have p: "log_path Ho d'' = log_path Ho d" by (simp add: log_path_def assms(2))
  show ?thesis using assms f unfolding logging_init_def Let_def log_path_def [symmetric] by (simp add: p)
qed

lemma envelope_step_inv:
  assumes "envelope_step E R d store = (Inr (env, recovery), d2, store')"
  obtains content where "dk_files d (envelope_path E d) = Some content" "se_parse E content = Some env" "recovery = None" "d2 = d" "store' = store"
  | d0 content rk where "dk_files d (envelope_path E d) = None" "recovery = Some rk" "content = se_print E env"
      "load_or_create_envelope (se_crypto E) (se_hkdf E) (sr_envelope R) (sr_uuid R) (sr_recovery R) (se_parse E) (se_print E) None store
         = Inr ((env, Some rk), content, store')"
      "create_dir_all (se_host E) (get_data_dir (se_host E) d) d = Some d0"
      "dk_dirs d2 = dk_dirs d0" "dk_dbs d2 = dk_dbs d" "dk_files d2 = (dk_files d)(envelope_path E d \<mapsto> content)"
      "\<not> disk_exists d0 (envelope_path E d)"
proof (cases "dk_files d (envelope_path E d)")
  case (Some content)
  then have "se_parse E content = Some env" "recovery = None" "d2 = d" "store' = store"
    using assms by (auto simp: envelope_step_def load_or_create_envelope_def Let_def split: option.splits)
  then show thesis using that(1) Some by blast
next
  case None
  obtain env' rec' content s where l: "load_or_create_envelope (se_crypto E) (se_hkdf E) (sr_envelope R) (sr_uuid R) (sr_recovery R) (se_parse E) (se_print E) None store
         = Inr ((env', rec'), content, s)"
    using assms None by (simp add: envelope_step_def Let_def split: sum.splits) (metis prod.collapse)
  then have c: "rec' = Some (generate_recovery_key (sr_recovery R))" "content = se_print E env'"
    by (auto simp: load_or_create_envelope_def Let_def split: sum.splits)
  obtain d0 where d0: "create_dir_all (se_host E) (get_data_dir (se_host E) d) d = Some d0" "\<not> disk_exists d0 (envelope_path E d)"
    "env = env'" "recovery = rec'" "store' = s"
    "d2 = (let d = write_file (envelope_path E d) content d0 in
           if ho_windows (se_host E) then d else d\<lparr> dk_private := insert (envelope_path E d) (dk_private d) \<rparr>)
     \<or> d2 = (let d' = write_file (envelope_path E d) content d0 in
           if ho_windows (se_host E) then d' else d'\<lparr> dk_private := insert (envelope_path E d) (dk_private d') \<rparr>)"
    using assms None l c by (simp add: envelope_step_def Let_def split: option.splits if_splits)
  have "dk_dirs d2 = dk_dirs d0" "dk_dbs d2 = dk_dbs d" "dk_files d2 = (dk_files d)(envelope_path E d \<mapsto> content)"
    using d0(6) create_dir_all_ok [OF d0(1)] by (auto simp: Let_def split: if_splits)
  then show thesis using that(2) None l c d0 by blast
qed

text \<open>The JSON codec reads back the envelope that a run writes.\<close>

definition reads_back :: "start_env \<Rightarrow> start_rand \<Rightarrow> device_store \<Rightarrow> bool" where
  "reads_back E R store \<longleftrightarrow>
     (case load_or_create_envelope (se_crypto E) (se_hkdf E) (sr_envelope R) (sr_uuid R) (sr_recovery R) (se_parse E) (se_print E) None store of
        Inr ((env, _), content, _) \<Rightarrow> se_parse E content = Some env | Inl _ \<Rightarrow> True)"

lemma envelope_step_ok:
  assumes "envelope_step E R d store = (Inr (env, recovery), d2, store')" and "reads_back E R store"
  shows "grows d d2" "dk_dbs d2 = dk_dbs d" "p \<noteq> envelope_path E d \<Longrightarrow> dk_files d2 p = dk_files d p"
    "\<exists>content. dk_files d2 (envelope_path E d) = Some content \<and> se_parse E content = Some env"
    "is_file d q \<Longrightarrow> q \<in> dk_dirs d2 \<Longrightarrow> q \<in> dk_dirs d"
proof -
  have "grows d d2 \<and> dk_dbs d2 = dk_dbs d \<and> (p \<noteq> envelope_path E d \<longrightarrow> dk_files d2 p = dk_files d p) \<and>
    (\<exists>content. dk_files d2 (envelope_path E d) = Some content \<and> se_parse E content = Some env) \<and>
    (is_file d q \<longrightarrow> q \<in> dk_dirs d2 \<longrightarrow> q \<in> dk_dirs d)"
    using assms(1)
  proof (cases rule: envelope_step_inv)
    case (1 content)
    then show ?thesis by simp
  next
    case (2 d0 content rk)
    note c = create_dir_all_ok [OF 2(5)]
    have "grows d d2" using c(1) 2 c(3,4) by (auto simp: grows_def is_file_def)
    then show ?thesis using 2 c assms(2) by (auto simp: reads_back_def)
  qed
  then show "grows d d2" "dk_dbs d2 = dk_dbs d" "p \<noteq> envelope_path E d \<Longrightarrow> dk_files d2 p = dk_files d p"
    "\<exists>content. dk_files d2 (envelope_path E d) = Some content \<and> se_parse E content = Some env"
    "is_file d q \<Longrightarrow> q \<in> dk_dirs d2 \<Longrightarrow> q \<in> dk_dirs d" by blast+
qed


lemma envelope_not_config: "f \<in> set config_files \<Longrightarrow> path_join c (fst f) \<noteq> envelope_path E d"
  unfolding envelope_path_def by (rule path_join_other [where n = 7]) (auto simp: config_files_def)

lemma log_not_envelope: "log_path Ho d' \<noteq> envelope_path E d"
  unfolding envelope_path_def log_path_def by (rule path_join_other [where n = 7]) (auto simp: pkg_name_def)

lemma config_new_cong:
  assumes "get_data_dir Ho d' = get_data_dir Ho d" "get_config_dir Ho d' = get_config_dir Ho d"
    and "\<And>f. f \<in> set config_files \<Longrightarrow> dk_files d' (path_join (get_config_dir Ho d) (fst f)) = dk_files d (path_join (get_config_dir Ho d) (fst f))"
  shows "config_new Ho b ch k s d' = config_new Ho b ch k s d"
proof -
  have same: "map (\<lambda>(file, format). (format, dk_files d' (path_join (get_config_dir Ho d) file))) config_files =
    map (\<lambda>(file, format). (format, dk_files d (path_join (get_config_dir Ho d) file))) config_files"
    using assms(3) by (auto simp: split_def)
  show ?thesis by (simp only: config_new_def assms(1,2) Let_def same)
qed

lemma db_init_ok:
  assumes "db_init E dir key c d = (Inr db, d')" and "\<And>P. se_opens E P P"
  shows "grows d d'" "dk_files d' = dk_files d" "disk_exists d' dir" "is_file d q \<Longrightarrow> q \<in> dk_dirs d' \<Longrightarrow> q \<in> dk_dirs d"
    "\<exists>created. dk_dbs d' (db_path dir) = Some (created, db) \<and> se_opens E (db_pragmas (se_hex E) (se_dec E) key c) created"
proof -
  obtain d0 where d0: "(if disk_exists d dir then Some d else create_dir_all (se_host E) dir d) = Some d0"
    using assms(1) by (auto simp: db_init_def split: option.splits)
  have g: "grows d d0 \<and> dk_files d0 = dk_files d \<and> disk_exists d0 dir \<and> (is_file d q \<longrightarrow> q \<in> dk_dirs d0 \<longrightarrow> q \<in> dk_dirs d)"
  proof (cases "disk_exists d dir")
    case False
    then have "create_dir_all (se_host E) dir d = Some d0" using d0 by simp
    from create_dir_all_ok [OF this] show ?thesis by (auto simp: disk_exists_def)
  qed (use d0 in simp)
  have "grows d0 d' \<and> dk_files d' = dk_files d0 \<and> dk_dirs d' = dk_dirs d0 \<and>
    (\<exists>created. dk_dbs d' (db_path dir) = Some (created, db) \<and> se_opens E (db_pragmas (se_hex E) (se_dec E) key c) created)"
  proof (cases "dk_dbs d0 (db_path dir)")
    case (Some x)
    then show ?thesis using assms(1) d0 by (auto simp: db_init_def Let_def split: if_splits prod.splits)
  next
    case None
    then have "d' = d0\<lparr> dk_dbs := (dk_dbs d0)(db_path dir \<mapsto> (db_pragmas (se_hex E) (se_dec E) key c, db_empty)) \<rparr>" "db = db_empty"
      using assms(1) d0 by (auto simp: db_init_def Let_def split: if_splits)
    then show ?thesis using assms(2) by (auto simp: grows_def is_file_def)
  qed
  then show "grows d d'" "dk_files d' = dk_files d" "disk_exists d' dir" "is_file d q \<Longrightarrow> q \<in> dk_dirs d' \<Longrightarrow> q \<in> dk_dirs d"
    "\<exists>created. dk_dbs d' (db_path dir) = Some (created, db) \<and> se_opens E (db_pragmas (se_hex E) (se_dec E) key c) created"
    using g by (auto intro: grows_trans grows_exists)
qed

lemma db_init_again:
  assumes "disk_exists d dir" and "dk_dbs d (db_path dir) = Some (created, db)" and "se_opens E (db_pragmas (se_hex E) (se_dec E) key c) created"
  shows "db_init E dir key c d = (Inr db, d)"
  using assms by (simp add: db_init_def)

text \<open>The steps of a run that enters the application.\<close>

lemma body_inv:
  assumes "body E R K d store = (Entered key app, out, d', store')" and "co_command K = None" and "co_typed K = []"
  obtains lg d1 cfg env recovery d2 db where "logging_init (se_host E) d = (Inr lg, d1)"
    "config_new (se_host E) (se_build E) (se_checked E) (se_shipped_keys E) (se_shipped_styles E) d1 = Inr cfg"
    "envelope_step E R d1 store = (Inr (env, recovery), d2, store')"
    "unlock_with_device (se_crypto E) (se_hkdf E) store' env = Inr key"
    "db_init E (cg_data_dir cfg) key (ke_cipher env) d2 = (Inr db, d')"
    "app = app_new (app_config.truncate cfg) (load_account db) None"
    "out = (case recovery of None \<Rightarrow> [] | Some r \<Rightarrow> [ShownRecovery r])"
proof -
  obtain lg d1 where lg: "logging_init (se_host E) d = (Inr lg, d1)"
    using assms by (auto simp: body_def split: sum.splits prod.splits)
  obtain cfg where cfg: "config_new (se_host E) (se_build E) (se_checked E) (se_shipped_keys E) (se_shipped_styles E) d1 = Inr cfg"
    and run: "run_app E R K cfg d1 store = (Entered key app, out, d', store')"
    using assms(1,2) lg by (auto simp: body_def split: sum.splits)
  obtain env recovery d2 s where env: "envelope_step E R d1 store = (Inr (env, recovery), d2, s)"
    using run by (auto simp: run_app_def split: sum.splits prod.splits)
  have un: "unlock_with_device (se_crypto E) (se_hkdf E) s env = Inr key"
    using run env assms(3) by (auto simp: run_app_def unlock_step_def max_attempts_def numeral_eq_Suc Let_def split: sum.splits option.splits prod.splits if_splits)
  then have us: "unlock_step E K s env = Unlocked key" by (simp add: unlock_step_def)
  obtain db d3 where db: "db_init E (cg_data_dir cfg) key (ke_cipher env) d2 = (Inr db, d3)"
    using run env us by (auto simp: run_app_def split: sum.splits prod.splits)
  have "s = store' \<and> d3 = d' \<and> app = app_new (app_config.truncate cfg) (load_account db) None \<and>
      out = (case recovery of None \<Rightarrow> [] | Some r \<Rightarrow> [ShownRecovery r])"
    using run env us db by (auto simp: run_app_def show_recovery_key_def Let_def split: option.splits if_splits)
  then show thesis using that lg cfg env un db by blast
qed


text \<open>A second run on the disk the first one left, with the database as the application left it.\<close>

lemma body_again:
  fixes app :: "'ta app"
  assumes "reads_back E R store" and "\<And>P. se_opens E P P"
    and "co_command K = None" "co_typed K = []"
    and "body E R K d store = (Entered key app, out, d', store')"
    and "\<And>p. p \<in> dir_candidates (se_host E) \<Longrightarrow> disk_exists d' p \<Longrightarrow> disk_exists d p"
  shows "\<exists>(cfg :: config) created db env recovery. dk_dbs d' (db_path (cg_data_dir cfg)) = Some (created, db) \<and>
     app = app_new (app_config.truncate cfg) (load_account db) None \<and>
     out = (case recovery of None \<Rightarrow> [] | Some r \<Rightarrow> [ShownRecovery r]) \<and>
     unlock_with_device (se_crypto E) (se_hkdf E) store' env = Inr key \<and>
     (recovery = None \<or> (\<exists>content. load_or_create_envelope (se_crypto E) (se_hkdf E) (sr_envelope R) (sr_uuid R) (sr_recovery R)
         (se_parse E) (se_print E) None store = Inr ((env, recovery), content, store'))) \<and>
     (\<forall>R' K' db' s. co_command K' = None \<longrightarrow> unlock_step E K' s env = Unlocked key \<longrightarrow>
        (\<exists>d''. body E R' K' (d'\<lparr> dk_dbs := (dk_dbs d')(db_path (cg_data_dir cfg) \<mapsto> (created, db')) \<rparr>) s =
           (Entered key (app_new (app_config.truncate cfg) (load_account db') None :: 'ta app), [], d'', s)))"
  using assms(5,3,4)
proof (cases rule: body_inv)
  case (1 lg d1 cfg env recovery d2 db)
  let ?Ho = "se_host E"
  note l = logging_init_ok [OF 1(1)] and e = envelope_step_ok [OF 1(3) assms(1)] and b = db_init_ok [OF 1(5) assms(2)]
  obtain created where created: "dk_dbs d' (db_path (cg_data_dir cfg)) = Some (created, db)"
      "se_opens E (db_pragmas (se_hex E) (se_dec E) key (ke_cipher env)) created" using b(5) by blast
  have dirs: "get_data_dir ?Ho x = get_data_dir ?Ho d" "get_config_dir ?Ho x = get_config_dir ?Ho d"
    if "grows d x" and "\<And>p. disk_exists x p \<Longrightarrow> disk_exists d' p" for x
    by (rule dirs_cong; use that assms(6) grows_exists in blast)+
  have g: "grows d d1" "grows d1 d'" "grows d d'" using l(1) e(1) b(1) grows_trans by blast+
  note dirs1 = dirs [OF g(1) grows_exists [OF g(2)]]
  have path1: "envelope_path E d1 = envelope_path E d" by (simp add: envelope_path_def dirs1)
  have again: "\<exists>d''. body E R' K' (d'\<lparr> dk_dbs := (dk_dbs d')(db_path (cg_data_dir cfg) \<mapsto> (created, db')) \<rparr>) s =
        (Entered key (app_new (app_config.truncate cfg) (load_account db') None :: 'ta app), [], d'', s)"
    if K': "co_command K' = None" "unlock_step E K' s env = Unlocked key" for R' K' db' s
  proof -
    define x where "x = d'\<lparr> dk_dbs := (dk_dbs d')(db_path (cg_data_dir cfg) \<mapsto> (created, db')) \<rparr>"
    have x: "dk_dirs x = dk_dirs d'" "dk_files x = dk_files d'" "is_file x = is_file d'"
      using created(1) by (auto simp: x_def is_file_def fun_eq_iff)
    then have same: "disk_exists x = disk_exists d'" by (simp add: disk_exists_def fun_eq_iff)
    define y where "y = write_file (log_path ?Ho d) [] x"
    have log1: "is_file d1 (log_path ?Ho d)" using l(4) by (simp add: is_file_def)
    then have "is_file d2 (log_path ?Ho d)" using e(1) by (simp add: grows_def)
    then have log: "log_path ?Ho d \<notin> dk_dirs d'" "is_file d' (log_path ?Ho d)"
      using log1 l(5) e(5) b(1,4) by (auto simp: grows_def)
    have y: "disk_exists y p = disk_exists d' p" for p
      using log(2) same x by (auto simp: y_def disk_exists_def is_file_def fun_eq_iff)
    have gy: "grows d y" using g(3) x by (auto simp: grows_def y_def is_file_def fun_eq_iff)
    note dirsx = dirs [of x] dirs [OF gy]
    have "get_data_dir ?Ho x = get_data_dir ?Ho d" by (rule dirsx(1)) (use g(3) x same in \<open>auto simp: grows_def\<close>)
    then obtain lg' where log_again: "logging_init ?Ho x = (Inr lg', y)"
      using logging_init_again [OF 1(1), of x] l(2) log(1) g(2) x unfolding y_def by (auto simp: grows_def)
    have dy: "get_data_dir ?Ho y = get_data_dir ?Ho d" "get_config_dir ?Ho y = get_config_dir ?Ho d"
      by (rule dirsx; simp add: y)+
    have files: "dk_files y p = dk_files d1 p" if "p \<noteq> envelope_path E d1" for p
      using e(3) [OF that] b(2) l(4) x by (simp add: y_def)
    have cfg: "config_new ?Ho (se_build E) (se_checked E) (se_shipped_keys E) (se_shipped_styles E) y = Inr cfg"
      unfolding 1(2) [symmetric]
      by (rule config_new_cong) (simp_all add: dy dirs1 files envelope_not_config)
    obtain content where "dk_files d2 (envelope_path E d1) = Some content" "se_parse E content = Some env" using e(4) by blast
    then have "dk_files y (envelope_path E y) = Some content" "se_parse E content = Some env"
      using b(2) x log_not_envelope [of ?Ho d E d] path1 by (simp_all add: y_def envelope_path_def dy [unfolded y_def])
    then have env: "envelope_step E R' y s = (Inr (env, None), y, s)"
      by (simp add: envelope_step_def load_or_create_envelope_def Let_def)
    have db: "db_init E (cg_data_dir cfg) key (ke_cipher env) y = (Inr db', y)"
      by (rule db_init_again) (use y b(3) created(2) in \<open>simp_all add: y_def x_def\<close>)
    have "body E R' K' x s = (Entered key (app_new (app_config.truncate cfg) (load_account db') None :: 'ta app), [], y, s)"
      by (simp add: body_def log_again K' cfg run_app_def env db)
    then show ?thesis unfolding x_def by blast
  qed
  have rec: "recovery = None \<or> (\<exists>content. load_or_create_envelope (se_crypto E) (se_hkdf E) (sr_envelope R) (sr_uuid R) (sr_recovery R)
         (se_parse E) (se_print E) None store = Inr ((env, recovery), content, store'))"
    using 1(3) by (cases rule: envelope_step_inv) auto
  show ?thesis
    by (intro exI [of _ cfg] exI [of _ created] exI [of _ db] exI [of _ env] exI [of _ recovery] conjI allI impI)
      (rule rec created(1) 1(4,6,7) | erule (1) again)+
qed

lemma first_run_key:
  assumes "crypto_ok (se_crypto E)" and "ho_writable (se_host E) (log_path (se_host E) d)" "ho_writable (se_host E) (path_join dir ''db_keys.json'')"
    and "log_filter (se_host E) = Inr f"
    and "get_data_dir (se_host E) (write_file (log_path (se_host E) d) [] d) = dir" "get_data_dir (se_host E) d = dir"
    and "dir \<in> dk_dirs d" and "\<And>n. n \<in> {pkg_name @ ''.log'', ''db_keys.json'', ''todoers.db''} \<Longrightarrow> \<not> disk_exists d (path_join dir n)"
    and "load_or_create_envelope (se_crypto E) (se_hkdf E) (sr_envelope R) (sr_uuid R) (sr_recovery R) (se_parse E) (se_print E) None store = Inr x"
  obtains lg env content y2 store' where "logging_init (se_host E) d = (Inr lg, write_file (log_path (se_host E) d) [] d)"
    "envelope_step E R (write_file (log_path (se_host E) d) [] d) store = (Inr (env, Some (generate_recovery_key (sr_recovery R))), y2, store')"
    "unlock_with_device (se_crypto E) (se_hkdf E) store' env = Inr (er_sqlcipher_key (sr_envelope R))"
    "dk_dirs y2 = dk_dirs d" "dk_dbs y2 = dk_dbs d" "dk_files y2 = (dk_files d)(log_path (se_host E) d \<mapsto> [], path_join dir ''db_keys.json'' \<mapsto> content)"
    "\<not> disk_exists y2 (db_path dir)"
proof -
  let ?Ho = "se_host E" and ?y = "write_file (log_path (se_host E) d) [] d"
  obtain env rk content store' where x: "load_or_create_envelope (se_crypto E) (se_hkdf E) (sr_envelope R) (sr_uuid R) (sr_recovery R)
      (se_parse E) (se_print E) None store = Inr ((env, rk), content, store')" using assms(9) by (metis prod.collapse)
  note first = first_start [OF assms(1) x]
  have "path_join dir (pkg_name @ ''.log'') = log_path ?Ho d" by (simp add: log_path_def assms(6))
  then have "log_path ?Ho d \<notin> dk_dirs d" using assms(8) [of "pkg_name @ ''.log''"] by (simp add: disk_exists_def)
  then obtain lg where log: "logging_init ?Ho d = (Inr lg, ?y)"
    using assms(2,4,6,7) unfolding logging_init_def Let_def log_path_def [symmetric] by auto
  have path: "envelope_path E ?y = path_join dir ''db_keys.json''" by (simp add: envelope_path_def assms(5))
  have other: "path_join dir ''db_keys.json'' \<noteq> log_path ?Ho d" "path_join dir ''todoers.db'' \<noteq> log_path ?Ho d"
    "path_join dir ''todoers.db'' \<noteq> path_join dir ''db_keys.json''"
    unfolding log_path_def by (rule path_join_other [where n = 7]; simp add: pkg_name_def)+
  have free: "\<not> disk_exists ?y (path_join dir ''db_keys.json'')" "\<not> disk_exists d (path_join dir ''todoers.db'')"
    using assms(8) other by (auto simp: disk_exists_def is_file_def)
  obtain y2 where env: "envelope_step E R ?y store = (Inr (env, Some (generate_recovery_key (sr_recovery R))), y2, store')"
    and y2: "dk_dirs y2 = dk_dirs d" "dk_dbs y2 = dk_dbs d" "dk_files y2 = (dk_files d)(log_path ?Ho d \<mapsto> [], path_join dir ''db_keys.json'' \<mapsto> content)"
    using free x first(2) assms(3,5,7)
    by (simp add: envelope_step_def path Let_def disk_exists_def is_file_def split: if_splits)
  have "\<not> disk_exists y2 (db_path dir)" using y2 free(2) other by (auto simp: db_path_def disk_exists_def is_file_def)
  then show thesis using that log env first(1) y2 by blast
qed

lemma first_run_enters:
  fixes c :: app_config
  assumes "crypto_ok (se_crypto E)" and "\<And>p. ho_writable (se_host E) p" and "log_filter (se_host E) = Inr f"
    and "config_new (se_host E) (se_build E) (se_checked E) (se_shipped_keys E) (se_shipped_styles E)
           (write_file (log_path (se_host E) d) [] d) = Inr cfg"
    and "get_data_dir (se_host E) (write_file (log_path (se_host E) d) [] d) = dir" "get_data_dir (se_host E) d = dir"
    and "cg_data_dir cfg = dir" "dir \<in> dk_dirs d" and "\<And>n. n \<in> {pkg_name @ ''.log'', ''db_keys.json'', ''todoers.db''} \<Longrightarrow> \<not> disk_exists d (path_join dir n)"
    and "load_or_create_envelope (se_crypto E) (se_hkdf E) (sr_envelope R) (sr_uuid R) (sr_recovery R) (se_parse E) (se_print E) None store = Inr x"
    and "co_command K = None" "co_confirm K"
  shows "\<exists>d' store'. body E R K d store = (Entered (er_sqlcipher_key (sr_envelope R)) (app_new (app_config.truncate cfg) None None),
     [ShownRecovery (generate_recovery_key (sr_recovery R))], d', store') \<and>
     (\<forall>p. disk_exists d' p \<longrightarrow> disk_exists d p \<or> p \<in> path_join dir ` {pkg_name @ ''.log'', ''db_keys.json'', ''todoers.db''})"
  using assms(1) assms(2) assms(2) assms(3,5,6,8,9,10)
proof (rule first_run_key)
  fix lg env content y2 store'
  assume k: "logging_init (se_host E) d = (Inr lg, write_file (log_path (se_host E) d) [] d)"
    "envelope_step E R (write_file (log_path (se_host E) d) [] d) store = (Inr (env, Some (generate_recovery_key (sr_recovery R))), y2, store')"
    "unlock_with_device (se_crypto E) (se_hkdf E) store' env = Inr (er_sqlcipher_key (sr_envelope R))"
    "dk_dirs y2 = dk_dirs d" "dk_dbs y2 = dk_dbs d" "dk_files y2 = (dk_files d)(log_path (se_host E) d \<mapsto> [], path_join dir ''db_keys.json'' \<mapsto> content)"
    "\<not> disk_exists y2 (db_path dir)"
  have "dk_dbs y2 (db_path dir) = None" using k(7) unfolding disk_exists_def is_file_def by blast
  then obtain y3 where db: "db_init E dir (er_sqlcipher_key (sr_envelope R)) (ke_cipher env) y2 = (Inr db_empty, y3)"
      "y3 = y2\<lparr> dk_dbs := (dk_dbs y2)(db_path dir \<mapsto> (db_pragmas (se_hex E) (se_dec E) (er_sqlcipher_key (sr_envelope R)) (ke_cipher env), db_empty)) \<rparr>"
    using assms(2,8) k(4,7) by (simp add: db_init_def Let_def disk_exists_def [of y2 dir])
  have "load_account db_empty = None" by (simp add: load_account_def db_empty_def)
  then have "body E R K d store = (Entered (er_sqlcipher_key (sr_envelope R)) (app_new (app_config.truncate cfg) None None),
     [ShownRecovery (generate_recovery_key (sr_recovery R))], y3, store')"
    by (simp add: body_def k assms(4,7,11,12) run_app_def unlock_step_def show_recovery_key_def db(1))
  moreover have "disk_exists d p \<or> p \<in> path_join dir ` {pkg_name @ ''.log'', ''db_keys.json'', ''todoers.db''}" if "disk_exists y3 p" for p
    using that k(4-6) by (auto simp: db(2) disk_exists_def is_file_def db_path_def log_path_def assms(6) split: if_splits)
  ultimately show ?thesis by blast
qed


section \<open>Two starts\<close>

text \<open>C30: The life of a database key.  Once a run has entered the application with the key its device unlocked, the next
  run, on the disk that run left and with the database as the application left it, enters with the same key and with the
  account that is in that database, shows no recovery key and leaves the device key store alone.  And if the first run
  showed a recovery key, a run whose device key store has lost everything enters with the same key and account when that
  recovery key is typed, in any case and with any separators.  This needs that the first run did not itself create
  one of the directories whose existence decides where the files are.\<close>

theorem restart_opens_same_database:
  fixes app :: "'ta app"
  assumes "crypto_ok (se_crypto E)" and "reads_back E R store" and "\<And>P. se_opens E P P"
    and "co_command K = None" "co_typed K = []"
    and "body E R K d store = (Entered key app, out, d', store')"
    and "\<And>p. p \<in> dir_candidates (se_host E) \<Longrightarrow> disk_exists d' p \<Longrightarrow> disk_exists d p"
  shows "\<exists>(cfg :: config) created db. dk_dbs d' (db_path (cg_data_dir cfg)) = Some (created, db) \<and>
     app = app_new (app_config.truncate cfg) (load_account db) None \<and>
     (\<forall>R' K' db' s. co_command K' = None \<longrightarrow>
        s = store' \<or> (\<exists>r again rest. out = [ShownRecovery r] \<and> ds_keys s = Map.empty \<and>
                        co_typed K' = again # rest \<and> canonical again = canonical r) \<longrightarrow>
        (\<exists>d''. body E R' K' (d'\<lparr> dk_dbs := (dk_dbs d')(db_path (cg_data_dir cfg) \<mapsto> (created, db')) \<rparr>) s =
           (Entered key (app_new (app_config.truncate cfg) (load_account db') None :: 'ta app), [], d'', s)))"
proof -
  obtain cfg :: config and created db env recovery where b: "dk_dbs d' (db_path (cg_data_dir cfg)) = Some (created, db)"
      "app = app_new (app_config.truncate cfg) (load_account db) None" "out = (case recovery of None \<Rightarrow> [] | Some r \<Rightarrow> [ShownRecovery r])"
      "unlock_with_device (se_crypto E) (se_hkdf E) store' env = Inr key"
      "recovery = None \<or> (\<exists>content. load_or_create_envelope (se_crypto E) (se_hkdf E) (sr_envelope R) (sr_uuid R) (sr_recovery R)
         (se_parse E) (se_print E) None store = Inr ((env, recovery), content, store'))"
    and again: "\<And>R' K' db' s. co_command K' = None \<Longrightarrow> unlock_step E K' s env = Unlocked key \<Longrightarrow>
        \<exists>d''. body E R' K' (d'\<lparr> dk_dbs := (dk_dbs d')(db_path (cg_data_dir cfg) \<mapsto> (created, db')) \<rparr>) s =
           (Entered key (app_new (app_config.truncate cfg) (load_account db') None :: 'ta app), [], d'', s)"
    using body_again [OF assms(2-7)] by blast
  have "unlock_step E K' s env = Unlocked key"
    if "s = store' \<or> (\<exists>r again rest. out = [ShownRecovery r] \<and> ds_keys s = Map.empty \<and> co_typed K' = again # rest \<and> canonical again = canonical r)" for s K'
    using that
  proof (elim disjE exE conjE)
    assume "s = store'" then show ?thesis by (simp add: unlock_step_def b(4))
  next
    fix r again rest
    assume r: "out = [ShownRecovery r]" "ds_keys s = Map.empty" "co_typed K' = again # rest" "canonical again = canonical r"
    then obtain content where l: "load_or_create_envelope (se_crypto E) (se_hkdf E) (sr_envelope R) (sr_uuid R) (sr_recovery R)
         (se_parse E) (se_print E) None store = Inr ((env, Some r), content, store')"
      using b(3,5) by (auto split: option.splits)
    note f = first_start [OF assms(1) l]
    have "\<exists>e. unlock_with_device (se_crypto E) (se_hkdf E) s env = Inl e"
      using r(2) by (auto simp: unlock_with_device_def split: option.split)
    moreover have "prompt_recovery_key (se_crypto E) (se_hkdf E) env max_attempts (again # rest) = Unlocked key"
      using f b(4) r(4) canonical_recovery_not_empty [of "sr_recovery R"] by (simp add: max_attempts_def numeral_eq_Suc Let_def)
    ultimately show ?thesis using r(3) by (auto simp: unlock_step_def)
  qed
  note unlocked = this
  show ?thesis
    by (intro exI [of _ cfg] exI [of _ created] exI [of _ db] conjI allI impI b(1,2)) (rule again, assumption, erule unlocked)
qed

lemma envelope_step_grows: "envelope_step E R d store = (r, d2, s) \<Longrightarrow> grows d d2"
proof -
  assume e: "envelope_step E R d store = (r, d2, s)"
  consider "d2 = d" | d0 content where "create_dir_all (se_host E) (get_data_dir (se_host E) d) d = Some d0"
      "d2 = d0 \<or> d2 = write_file (envelope_path E d) content d0 \<or>
       d2 = (write_file (envelope_path E d) content d0)\<lparr> dk_private := insert (envelope_path E d) (dk_private d0) \<rparr>"
    using e by (auto simp: envelope_step_def Let_def write_file_def split: sum.splits prod.splits option.splits if_splits)
  then show ?thesis
  proof cases
    case 2
    note c = create_dir_all_ok [OF 2(1)]
    show ?thesis using 2(2) c by (auto simp: grows_def is_file_def)
  qed simp
qed

lemma db_init_grows: "db_init E dir key c d = (r, d') \<Longrightarrow> grows d d' \<and> dk_files d' = dk_files d"
proof -
  assume i: "db_init E dir key c d = (r, d')"
  show ?thesis
  proof (cases "if disk_exists d dir then Some d else create_dir_all (se_host E) dir d")
    case None
    then show ?thesis using i by (simp add: db_init_def)
  next
    case (Some d0)
    then have "grows d d0 \<and> dk_files d0 = dk_files d" using create_dir_all_ok(1,3) by (auto split: if_splits)
    moreover have "grows d0 d' \<and> dk_files d' = dk_files d0"
      using i Some by (auto simp: db_init_def Let_def grows_def is_file_def split: option.splits if_splits)
    ultimately show ?thesis using grows_trans by auto
  qed
qed

lemma run_app_grows: "run_app E R K cfg d store = (r, out, d', s) \<Longrightarrow> grows d d'"
proof -
  assume run: "run_app E R K cfg d store = (r, out, d', s)"
  obtain r2 d2 s2 where e: "envelope_step E R d store = (r2, d2, s2)" by (metis prod_cases3)
  have "d' = d2 \<or> (\<exists>dir key c r3. db_init E dir key c d2 = (r3, d'))"
    using run e unfolding run_app_def Let_def
    by (auto split: sum.splits prod.splits prompt_result.splits option.splits if_splits)
  then show ?thesis using envelope_step_grows [OF e] db_init_grows grows_trans by blast
qed


text \<open>A run that finds an envelope file shows no recovery key.\<close>

lemma envelope_found:
  assumes "dk_files d (envelope_path E d) = Some content"
  shows "\<exists>r. envelope_step E R d store = (r, d, store) \<and> (\<forall>env recovery. r = Inr (env, recovery) \<longrightarrow> recovery = None)"
  using assms by (auto simp: envelope_step_def load_or_create_envelope_def Let_def split: option.split)

lemma run_app_no_recovery:
  assumes "dk_files d (envelope_path E d) = Some content"
  shows "fst (snd (run_app E R K cfg d store)) = []"
proof -
  obtain r where e: "envelope_step E R d store = (r, d, store)" "\<And>env recovery. r = Inr (env, recovery) \<Longrightarrow> recovery = None"
    using envelope_found [OF assms] by blast
  show ?thesis
  proof (cases r)
    case (Inr x)
    then obtain env where "r = Inr (env, None)" using e(2) by (cases x) auto
    then show ?thesis using e(1) by (auto simp: run_app_def Let_def split: prompt_result.split sum.split prod.split)
  qed (simp add: run_app_def e(1))
qed

text \<open>C31: A recovery key nobody sees.  When a first run fails after it has written the envelope file (the
  database does not open, its directory cannot be made), it shows nothing, and no later run on the disk it left shows the
  recovery key either: the key that is the only way back without the device exists nowhere but in the envelope it opens.\<close>

theorem recovery_key_unseen:
  fixes out :: "shown list"
  assumes "co_command K = None" and "body E R K d store = (Failed e :: 'ta body_end, out, d', store')"
    and "dk_files d' (envelope_path E d') \<noteq> None"
    and "\<And>p. p \<in> dir_candidates (se_host E) \<Longrightarrow> disk_exists d' p \<Longrightarrow> disk_exists d p"
  shows "out = [] \<and> (\<forall>R' K' s r. co_command K' = None \<longrightarrow>
    ShownRecovery r \<notin> set (fst (snd (body E R' K' d' s :: 'ta body_end \<times> shown list \<times> disk \<times> device_store))))"
proof -
  let ?Ho = "se_host E"
  obtain lg d1 cfg where run: "logging_init ?Ho d = (Inr lg, d1)" "run_app E R K cfg d1 store = (Failed e :: 'ta body_end, out, d', store')"
    using assms(1,2) by (auto simp: body_def split: sum.splits prod.splits)
  note l = logging_init_ok [OF run(1)] and g1 = run_app_grows [OF run(2)]
  have "out = []" using run(2)
    by (auto simp: run_app_def show_recovery_key_def Let_def split: sum.splits prod.splits prompt_result.splits option.splits if_splits)
  moreover have "ShownRecovery r \<notin> set (fst (snd (body E R' K' d' s :: 'ta body_end \<times> shown list \<times> disk \<times> device_store)))"
    if "co_command K' = None" for R' K' s r
  proof (cases "logging_init ?Ho d'")
    case (Pair q d2)
    show ?thesis
    proof (cases q)
      case (Inr lg2)
      have "get_data_dir ?Ho d' = get_data_dir ?Ho d"
        by (rule dirs_cong(1)) (use assms(4) l(1) g1 grows_exists in blast)
      then have dir: "get_data_dir ?Ho d' \<in> dk_dirs d'" and path: "log_path ?Ho d' = log_path ?Ho d"
        using l(2) g1 by (auto simp: grows_def log_path_def)
      obtain d0 where d0: "create_dir_all ?Ho (get_data_dir ?Ho d') d' = Some d0" "d2 = write_file (log_path ?Ho d') [] d0"
        using logging_init_inv Pair Inr by blast
      then have d2: "d2 = write_file (log_path ?Ho d) [] d'" using dir path by simp
      have "is_file d' (log_path ?Ho d)" using l(4) g1 by (simp add: grows_def is_file_def [of d1])
      then have "disk_exists d2 = disk_exists d'" by (auto simp: d2 disk_exists_def is_file_def fun_eq_iff)
      then have "get_data_dir ?Ho d2 = get_data_dir ?Ho d'" by (auto intro: dirs_cong(1))
      then have "dk_files d2 (envelope_path E d2) \<noteq> None"
        using assms(3) by (auto simp: d2 envelope_path_def log_not_envelope)
      then obtain content where "dk_files d2 (envelope_path E d2) = Some content" by blast
      then show ?thesis using that Pair Inr
        by (simp add: body_def run_app_no_recovery split: sum.split)
    qed (simp add: body_def Pair)
  qed
  ultimately show ?thesis by blast
qed




section \<open>An example\<close>

definition demo_builder :: config_builder where
  "demo_builder defaults _ = Inr \<lparr> rc_data_dir = map_of defaults ''data_dir'', rc_server_url = None, rc_icon_type = None,
     rc_device_unlock = None, rc_editing_mode = None, rc_keybindings = [], rc_styles = [] \<rparr>"

definition demo_start_env :: start_env where
  "demo_start_env = \<lparr> se_host = demo_host, se_build = demo_builder, se_checked = True, se_shipped_keys = Map.empty,
     se_shipped_styles = Map.empty, se_crypto = toy_crypto, se_hkdf = demo_hkdf, se_hex = plain_hex, se_dec = (\<lambda>_. ''1''),
     se_parse = (\<lambda>_. Some demo_envelope), se_print = (\<lambda>_. [1]), se_opens = (=),
     se_version_message = ''1.0'', se_authors = ''ann'', se_license = ''none'' \<rparr>"

definition demo_start_rand :: start_rand where
  "demo_start_rand = \<lparr> sr_envelope = demo_rand, sr_uuid = ''db'', sr_recovery = fixed_repeat 0, sr_secret = fixed_repeat 7, sr_written = None \<rparr>"

definition demo_console :: console where
  "demo_console = \<lparr> co_command = None, co_typed = [], co_confirm = True \<rparr>"

definition demo_data_dir :: string where "demo_data_dir = ''/home/ann/.local/share/todoers''"

definition demo_start_disk :: disk where
  "demo_start_disk = \<lparr> dk_dirs = {''/home/ann'', demo_data_dir}, dk_files = Map.empty, dk_private = {}, dk_dbs = Map.empty \<rparr>"

definition demo_app_config :: app_config where
  "demo_app_config = \<lparr> cf_server_url = default_server_url,
     cf_device_unlock = \<lparr> du_enabled = False, du_recipient = None, du_identity = None \<rparr>, cf_editing = Emacs, cf_bindings = Map.empty \<rparr>"

lemma demo_env_sel:
  "se_host demo_start_env = demo_host" "se_crypto demo_start_env = toy_crypto" "se_hkdf demo_start_env = demo_hkdf"
  "se_parse demo_start_env = (\<lambda>_. Some demo_envelope)" "se_print demo_start_env = (\<lambda>_. [1])" "se_opens demo_start_env = (=)"
  "sr_envelope demo_start_rand = demo_rand" "sr_uuid demo_start_rand = ''db''" "sr_recovery demo_start_rand = fixed_repeat 0"
  "co_command demo_console = None" "co_typed demo_console = []" "co_confirm demo_console"
  "ho_writable demo_host p" "log_filter demo_host = Inr None"
  by (simp_all add: demo_start_env_def demo_start_rand_def demo_console_def demo_host_def log_filter_def level_filter_def)

lemma demo_config_new:
  "\<exists>cfg. config_new demo_host (se_build demo_start_env) (se_checked demo_start_env) (se_shipped_keys demo_start_env)
      (se_shipped_styles demo_start_env) x = Inr cfg \<and> cg_data_dir cfg = get_data_dir demo_host x \<and>
    app_config.truncate cfg = demo_app_config"
  by (simp add: config_new_def demo_start_env_def demo_builder_def config_of_raw_def setting_def bindings_of_raw_def
      styles_of_raw_def unlock_of_raw_def demo_app_config_def app_config.truncate_def merge_bindings_def fun_eq_iff Let_def)


lemma demo_envelope_created:
  "\<exists>x. load_or_create_envelope toy_crypto demo_hkdf demo_rand ''db'' (fixed_repeat 0) (\<lambda>_. Some demo_envelope) (\<lambda>_. [1]) None
     demo_store = Inr x \<and> fst (fst x) = demo_envelope"
  using demo_first_start by force

lemma demo_data_dir_found:
  assumes "\<not> disk_exists x ''/home/ann/.local/state/todoers''" and "\<not> disk_exists x ''/home/ann/.local/state''"
  shows "get_data_dir demo_host x = demo_data_dir"
  using assms by (simp add: get_data_dir_def demo_host_def existing_def data_project_dir_def demo_data_dir_def user_data_dir_def path_join_def)

lemma demo_paths: "path_join demo_data_dir ''todoers.log'' = ''/home/ann/.local/share/todoers/todoers.log''"
  "path_join demo_data_dir ''db_keys.json'' = ''/home/ann/.local/share/todoers/db_keys.json''"
  "path_join demo_data_dir ''todoers.db'' = ''/home/ann/.local/share/todoers/todoers.db''"
  by (simp_all add: path_join_def demo_data_dir_def)

lemma demo_exists: "disk_exists demo_start_disk p \<longleftrightarrow> p \<in> {''/home/ann'', demo_data_dir}"
  "disk_exists (write_file f bs demo_start_disk) p \<longleftrightarrow> p \<in> {''/home/ann'', demo_data_dir, f}"
  by (auto simp: demo_start_disk_def disk_exists_def is_file_def)

lemma demo_dirs:
  "get_data_dir demo_host demo_start_disk = demo_data_dir"
  "log_path demo_host demo_start_disk = ''/home/ann/.local/share/todoers/todoers.log''"
  "get_data_dir demo_host (write_file (log_path demo_host demo_start_disk) [] demo_start_disk) = demo_data_dir"
proof -
  show d: "get_data_dir demo_host demo_start_disk = demo_data_dir"
    by (rule demo_data_dir_found) (simp_all add: demo_exists demo_data_dir_def)
  then show l: "log_path demo_host demo_start_disk = ''/home/ann/.local/share/todoers/todoers.log''"
    by (simp add: log_path_def pkg_name_def demo_paths)
  show "get_data_dir demo_host (write_file (log_path demo_host demo_start_disk) [] demo_start_disk) = demo_data_dir"
    unfolding l by (rule demo_data_dir_found) (simp_all add: demo_exists demo_data_dir_def)
qed

lemma demo_runs:
  "\<exists>d' store'. body demo_start_env demo_start_rand demo_console demo_start_disk demo_store =
     (Entered (er_sqlcipher_key demo_rand) (app_new demo_app_config None None), [ShownRecovery demo_recovery], d', store') \<and>
     (\<forall>p. disk_exists d' p \<longrightarrow> p \<in> {''/home/ann'', demo_data_dir} \<or> p \<in> path_join demo_data_dir ` {''todoers.log'', ''db_keys.json'', ''todoers.db''})"
proof -
  obtain cfg where cfg: "config_new demo_host (se_build demo_start_env) (se_checked demo_start_env) (se_shipped_keys demo_start_env)
      (se_shipped_styles demo_start_env) (write_file (log_path demo_host demo_start_disk) [] demo_start_disk) = Inr cfg"
    "cg_data_dir cfg = demo_data_dir" "app_config.truncate cfg = demo_app_config"
    using demo_config_new demo_dirs(3) by metis
  obtain x where x: "load_or_create_envelope toy_crypto demo_hkdf demo_rand ''db'' (fixed_repeat 0) (\<lambda>_. Some demo_envelope) (\<lambda>_. [1]) None demo_store = Inr x"
    using demo_envelope_created by blast
  have free: "\<not> disk_exists demo_start_disk (path_join demo_data_dir n)" if "n \<in> {pkg_name @ ''.log'', ''db_keys.json'', ''todoers.db''}" for n
    using that by (auto simp: demo_exists path_join_def pkg_name_def demo_data_dir_def)
  have dir: "demo_data_dir \<in> dk_dirs demo_start_disk" by (simp add: demo_start_disk_def)
  have "\<exists>d' store'. body demo_start_env demo_start_rand demo_console demo_start_disk demo_store =
     (Entered (er_sqlcipher_key (sr_envelope demo_start_rand)) (app_new (app_config.truncate cfg) None None),
      [ShownRecovery (generate_recovery_key (sr_recovery demo_start_rand))], d', store') \<and>
     (\<forall>p. disk_exists d' p \<longrightarrow> disk_exists demo_start_disk p \<or> p \<in> path_join demo_data_dir ` {pkg_name @ ''.log'', ''db_keys.json'', ''todoers.db''})"
    by (rule first_run_enters [where f = None and x = x])
      (simp_all only: demo_env_sel toy_crypto_ok cfg demo_dirs(1,3) free x dir not_False_eq_True)
  then show ?thesis by (simp add: demo_env_sel demo_exists(1) cfg demo_recovery_def pkg_name_def)
qed

lemma demo_reads_back: "reads_back demo_start_env demo_start_rand demo_store"
  using demo_first_start by (auto simp: reads_back_def demo_env_sel)

definition demo_typing :: console where
  "demo_typing = demo_console\<lparr> co_typed := [demo_recovery] \<rparr>"

lemma demo_typing: "co_command demo_typing = None" "co_typed demo_typing = [demo_recovery]" "ds_keys demo_store = Map.empty"
  by (simp_all add: demo_typing_def demo_console_def demo_store_def)

lemma restart_opens_same_database_witness:
  "\<exists>d' store' (cfg :: config) created db d'' d3. body demo_start_env demo_start_rand demo_console demo_start_disk demo_store =
       (Entered (er_sqlcipher_key demo_rand) (app_new demo_app_config None None :: unit app), [ShownRecovery demo_recovery], d', store') \<and>
     dk_dbs d' (db_path (cg_data_dir cfg)) = Some (created, db) \<and>
     body demo_start_env demo_start_rand demo_console (d'\<lparr> dk_dbs := (dk_dbs d')(db_path (cg_data_dir cfg) \<mapsto> (created, db_empty)) \<rparr>) store' =
       (Entered (er_sqlcipher_key demo_rand) (app_new (app_config.truncate cfg) (load_account db_empty) None :: unit app), [], d'', store') \<and>
     body demo_start_env demo_start_rand demo_typing (d'\<lparr> dk_dbs := (dk_dbs d')(db_path (cg_data_dir cfg) \<mapsto> (created, db_empty)) \<rparr>) demo_store =
       (Entered (er_sqlcipher_key demo_rand) (app_new (app_config.truncate cfg) (load_account db_empty) None :: unit app), [], d3, demo_store)"
proof -
  obtain d' store' where run: "body demo_start_env demo_start_rand demo_console demo_start_disk demo_store =
       (Entered (er_sqlcipher_key demo_rand) (app_new demo_app_config None None :: unit app), [ShownRecovery demo_recovery], d', store')"
    and ex: "\<And>p. disk_exists d' p \<Longrightarrow> p \<in> {''/home/ann'', demo_data_dir} \<or> p \<in> path_join demo_data_dir ` {''todoers.log'', ''db_keys.json'', ''todoers.db''}"
    using demo_runs by blast
  have c: "disk_exists demo_start_disk p" if "p \<in> dir_candidates (se_host demo_start_env)" "disk_exists d' p" for p
    using ex [OF that(2)] that(1)
    by (auto simp: dir_candidates_def demo_env_sel demo_host_def demo_exists(1) demo_paths user_data_dir_def path_join_def [of "''/home/ann''"]
        path_join_def [of "''/home/ann/.local''"] path_join_def [of "''/home/ann/.local/state''"] path_join_def [of "''/home/ann/.config''"] pkg_name_def)
  have refl: "se_opens demo_start_env P P" for P by (simp add: demo_env_sel)
  have ok: "crypto_ok (se_crypto demo_start_env)" by (simp add: demo_env_sel toy_crypto_ok)
  obtain cfg :: config and created db where r: "dk_dbs d' (db_path (cg_data_dir cfg)) = Some (created, db)"
    "\<And>R' K' db' s. co_command K' = None \<Longrightarrow> s = store' \<or> (\<exists>r again rest. [ShownRecovery demo_recovery] = [ShownRecovery r] \<and>
        ds_keys s = Map.empty \<and> co_typed K' = again # rest \<and> canonical again = canonical r) \<Longrightarrow>
        \<exists>d''. body demo_start_env R' K' (d'\<lparr> dk_dbs := (dk_dbs d')(db_path (cg_data_dir cfg) \<mapsto> (created, db')) \<rparr>) s =
           (Entered (er_sqlcipher_key demo_rand) (app_new (app_config.truncate cfg) (load_account db') None :: unit app), [], d'', s)"
    using restart_opens_same_database [OF ok demo_reads_back refl demo_env_sel(10,11) run c] by blast
  obtain d'' where "body demo_start_env demo_start_rand demo_console (d'\<lparr> dk_dbs := (dk_dbs d')(db_path (cg_data_dir cfg) \<mapsto> (created, db_empty)) \<rparr>) store' =
       (Entered (er_sqlcipher_key demo_rand) (app_new (app_config.truncate cfg) (load_account db_empty) None :: unit app), [], d'', store')"
    using r(2) [OF demo_env_sel(10), of store'] by (metis (no_types))
  moreover obtain d3 where "body demo_start_env demo_start_rand demo_typing (d'\<lparr> dk_dbs := (dk_dbs d')(db_path (cg_data_dir cfg) \<mapsto> (created, db_empty)) \<rparr>) demo_store =
       (Entered (er_sqlcipher_key demo_rand) (app_new (app_config.truncate cfg) (load_account db_empty) None :: unit app), [], d3, demo_store)"
    using r(2) [OF demo_typing(1), of demo_store] demo_typing(2,3) by (metis (no_types))
  ultimately show ?thesis using run r(1) by (intro exI conjI)
qed

lemma creation_any_store:
  "load_or_create_envelope C H R uuid rnd parse print None s = Inr x \<Longrightarrow> \<exists>y. load_or_create_envelope C H R uuid rnd parse print None s' = Inr y"
  by (auto simp: load_or_create_envelope_def create_new_database_keys_def create_password_recipient_def Let_def split: sum.splits prod.splits)



text \<open>A host that cannot create the database file.\<close>

definition locked_host :: host where
  "locked_host = demo_host\<lparr> ho_writable := (\<lambda>p. p \<noteq> ''/home/ann/.local/share/todoers/todoers.db'') \<rparr>"

definition locked_env :: start_env where
  "locked_env = demo_start_env\<lparr> se_host := locked_host \<rparr>"

lemma writable_irrelevant:
  "get_data_dir (Ho\<lparr> ho_writable := w \<rparr>) = get_data_dir Ho" "get_config_dir (Ho\<lparr> ho_writable := w \<rparr>) = get_config_dir Ho"
  "icon_type_default (Ho\<lparr> ho_writable := w \<rparr>) = icon_type_default Ho" "expand_home (Ho\<lparr> ho_writable := w \<rparr>) = expand_home Ho"
  by (simp_all add: fun_eq_iff get_data_dir_def get_config_dir_def data_project_dir_def config_project_dir_def config_folder_def
      icon_type_default_def expand_home_def cong: option.case_cong)

lemma locked_same: "get_data_dir locked_host = get_data_dir demo_host" "log_path locked_host = log_path demo_host"
  "config_new locked_host = config_new demo_host" "log_filter locked_host = Inr None"
  unfolding locked_host_def
  by (simp_all add: fun_eq_iff writable_irrelevant log_path_def config_new_def config_of_raw_def cong: sum.case_cong)
    (simp add: log_filter_def level_filter_def demo_host_def)

lemma locked_sel: "se_host locked_env = locked_host" "se_crypto locked_env = toy_crypto" "se_hkdf locked_env = demo_hkdf"
  "se_parse locked_env = (\<lambda>_. Some demo_envelope)" "se_print locked_env = (\<lambda>_. [1])" "se_build locked_env = se_build demo_start_env"
  "se_checked locked_env = se_checked demo_start_env" "se_shipped_keys locked_env = se_shipped_keys demo_start_env"
  "se_shipped_styles locked_env = se_shipped_styles demo_start_env"
  by (simp_all add: locked_env_def demo_env_sel)

lemma locked_fails:
  "\<exists>d' store'. body locked_env demo_start_rand demo_console demo_start_disk demo_store = (Failed Sqlx :: unit body_end, [], d', store') \<and>
     dk_files d' (path_join demo_data_dir ''db_keys.json'') \<noteq> None \<and>
     (\<forall>p. disk_exists d' p \<longrightarrow> p \<in> {''/home/ann'', demo_data_dir} \<or> p \<in> path_join demo_data_dir ` {''todoers.log'', ''db_keys.json''})"
proof -
  obtain cfg where cfg: "config_new demo_host (se_build demo_start_env) (se_checked demo_start_env) (se_shipped_keys demo_start_env)
      (se_shipped_styles demo_start_env) (write_file (log_path demo_host demo_start_disk) [] demo_start_disk) = Inr cfg"
    "cg_data_dir cfg = demo_data_dir"
    using demo_config_new demo_dirs(3) by metis
  have free: "\<not> disk_exists demo_start_disk (path_join demo_data_dir n)" if "n \<in> {pkg_name @ ''.log'', ''db_keys.json'', ''todoers.db''}" for n
    using that by (auto simp: demo_exists path_join_def pkg_name_def demo_data_dir_def)
  obtain x where x: "load_or_create_envelope (se_crypto locked_env) (se_hkdf locked_env) (sr_envelope demo_start_rand) (sr_uuid demo_start_rand)
      (sr_recovery demo_start_rand) (se_parse locked_env) (se_print locked_env) None demo_store = Inr x"
    using demo_envelope_created by (auto simp: locked_sel demo_env_sel)
  have "crypto_ok (se_crypto locked_env)" "ho_writable (se_host locked_env) (log_path (se_host locked_env) demo_start_disk)"
    "ho_writable (se_host locked_env) (path_join demo_data_dir ''db_keys.json'')" "log_filter (se_host locked_env) = Inr None"
    "get_data_dir (se_host locked_env) (write_file (log_path (se_host locked_env) demo_start_disk) [] demo_start_disk) = demo_data_dir"
    "get_data_dir (se_host locked_env) demo_start_disk = demo_data_dir" "demo_data_dir \<in> dk_dirs demo_start_disk"
    using demo_dirs by (simp_all add: locked_sel locked_same toy_crypto_ok) (simp_all add: locked_host_def demo_paths demo_start_disk_def)
  then show ?thesis using free x
  proof (rule first_run_key)
    fix lg env content y2 store'
    assume k: "logging_init (se_host locked_env) demo_start_disk = (Inr lg, write_file (log_path (se_host locked_env) demo_start_disk) [] demo_start_disk)"
      "envelope_step locked_env demo_start_rand (write_file (log_path (se_host locked_env) demo_start_disk) [] demo_start_disk) demo_store =
         (Inr (env, Some (generate_recovery_key (sr_recovery demo_start_rand))), y2, store')"
      "unlock_with_device (se_crypto locked_env) (se_hkdf locked_env) store' env = Inr (er_sqlcipher_key (sr_envelope demo_start_rand))"
      "dk_dirs y2 = dk_dirs demo_start_disk" "dk_dbs y2 = dk_dbs demo_start_disk"
      "dk_files y2 = (dk_files demo_start_disk)(log_path (se_host locked_env) demo_start_disk \<mapsto> [], path_join demo_data_dir ''db_keys.json'' \<mapsto> content)"
      "\<not> disk_exists y2 (db_path demo_data_dir)"
    have "disk_exists y2 demo_data_dir" using k(4) by (simp add: demo_start_disk_def disk_exists_def)
    then have "db_init locked_env demo_data_dir key c y2 = (Inl Sqlx, y2)" for key c
      using k(5) by (simp add: db_init_def Let_def locked_sel locked_host_def db_path_def demo_paths demo_start_disk_def)
    then have "body locked_env demo_start_rand demo_console demo_start_disk demo_store = (Failed Sqlx :: unit body_end, [], y2, store')"
      using cfg k(1-3) by (simp add: body_def run_app_def unlock_step_def demo_env_sel locked_sel locked_same)
    moreover have "p \<in> {''/home/ann'', demo_data_dir} \<or> p \<in> path_join demo_data_dir ` {''todoers.log'', ''db_keys.json''}" if "disk_exists y2 p" for p
      using that k(4-6) demo_dirs(2) by (auto simp: disk_exists_def is_file_def demo_start_disk_def locked_sel locked_same demo_paths split: if_splits)
    moreover have "dk_files y2 (path_join demo_data_dir ''db_keys.json'') \<noteq> None" by (simp add: k(6))
    ultimately show ?thesis by blast
  qed
qed

lemma recovery_key_unseen_witness:
  "\<exists>d' store'. body locked_env demo_start_rand demo_console demo_start_disk demo_store = (Failed Sqlx :: unit body_end, [], d', store') \<and>
     ShownRecovery demo_recovery \<notin> set (fst (snd (body locked_env demo_start_rand demo_console d' store' :: unit body_end \<times> shown list \<times> disk \<times> device_store)))"
proof -
  obtain d' store' where run: "body locked_env demo_start_rand demo_console demo_start_disk demo_store = (Failed Sqlx :: unit body_end, [], d', store')"
    and env: "dk_files d' (path_join demo_data_dir ''db_keys.json'') \<noteq> None"
    and ex: "\<And>p. disk_exists d' p \<Longrightarrow> p \<in> {''/home/ann'', demo_data_dir} \<or> p \<in> path_join demo_data_dir ` {''todoers.log'', ''db_keys.json''}"
    using locked_fails by blast
  have c: "disk_exists demo_start_disk p" if "p \<in> dir_candidates (se_host locked_env)" "disk_exists d' p" for p
    using ex [OF that(2)] that(1)
    by (auto simp: dir_candidates_def locked_sel locked_host_def demo_host_def demo_exists(1) demo_paths user_data_dir_def path_join_def [of "''/home/ann''"]
        path_join_def [of "''/home/ann/.local''"] path_join_def [of "''/home/ann/.local/state''"] path_join_def [of "''/home/ann/.config''"] pkg_name_def)
  have "\<not> disk_exists d' ''/home/ann/.local/state/todoers''" "\<not> disk_exists d' ''/home/ann/.local/state''"
    using ex [of "''/home/ann/.local/state/todoers''"] ex [of "''/home/ann/.local/state''"] by (auto simp: demo_paths demo_data_dir_def path_join_def)
  then have "envelope_path locked_env d' = path_join demo_data_dir ''db_keys.json''"
    by (simp add: envelope_path_def locked_sel locked_same demo_data_dir_found)
  then show ?thesis
    using recovery_key_unseen [OF demo_env_sel(10) run _ c] env run demo_env_sel(10) by auto
qed

end
