(* ===== verification/Tpm.thy ===== *)
theory Tpm
  imports Wire "HOL-Library.AList"
begin

text \<open>
  Sealing a key in the TPM (\<open>src/todoers-client/src/device_key/linux/tpm/tpm.rs\<close>): the storage key, the
  object that holds the secret, the policy that guards it, and the chain of calls that opens it.  The TPM itself is the
  record \<open>esapi\<close> of the ESAPI calls the code makes, each a step of an unknown device state that may fail;
  \<open>tpm_ok\<close> states the documented behaviour of those calls through a view of that state.
\<close>

section \<open>Values\<close>

type_synonym handle = nat
type_synonym digest = bytes

datatype session_kind = TrialSession | PolicySession
datatype auth_session = HmacAuth handle | PolicyAuth handle
datatype hierarchy = HierarchyOwner | HierarchyNull
datatype hash_algorithm = Sha256

record pcr_selection =
  ps_hash :: hash_algorithm
  ps_slots :: "nat list"

record object_attributes =
  oa_fixed_tpm :: bool
  oa_fixed_parent :: bool
  oa_sensitive_data_origin :: bool
  oa_user_with_auth :: bool
  oa_restricted :: bool
  oa_decrypt :: bool
  oa_sign_encrypt :: bool
  oa_no_da :: bool

definition no_attributes :: object_attributes where
  "no_attributes = \<lparr> oa_fixed_tpm = False, oa_fixed_parent = False, oa_sensitive_data_origin = False,
     oa_user_with_auth = False, oa_restricted = False, oa_decrypt = False, oa_sign_encrypt = False, oa_no_da = False \<rparr>"

datatype public_parameters = EccStorageP256Aes128Cfb | KeyedHashNull

record template =
  tp_name_hash :: hash_algorithm
  tp_attributes :: object_attributes
  tp_auth_policy :: digest
  tp_parameters :: public_parameters

record verified_ticket =
  vt_tag :: "16 word"
  vt_hierarchy :: "32 word"
  vt_digest :: bytes

datatype tpm_store_error = Tss string | NoSession | SecretTooLarge "32 word" | Convert string

datatype keyring_error = TooLong string "32 word" | PlatformFailure tpm_store_error | NoEntry

definition keyring_of_tpm :: "tpm_store_error \<Rightarrow> keyring_error" where
  "keyring_of_tpm e = (case e of SecretTooLarge n \<Rightarrow> TooLong ''sealed secret too large'' n | _ \<Rightarrow> PlatformFailure e)"

text \<open>The calls, and the sizes the buffer types of the library admit.\<close>

type_synonym ('d, 'a) tpm = "'d \<Rightarrow> (tpm_store_error + 'a) \<times> 'd"

record ('d, 'p) esapi =
  es_digest_max :: nat
  es_nonce_max :: nat
  es_buffer_max :: nat
  es_sensitive_max :: nat
  es_build :: "template \<Rightarrow> tpm_store_error + 'p"
  es_from_public :: "32 word \<Rightarrow> ('d, handle) tpm"
  es_create_primary :: "hierarchy \<Rightarrow> 'p \<Rightarrow> ('d, handle) tpm"
  es_evict :: "handle \<Rightarrow> 32 word \<Rightarrow> ('d, handle) tpm"
  es_flush :: "handle \<Rightarrow> ('d, unit) tpm"
  es_load_external :: "'p \<Rightarrow> hierarchy \<Rightarrow> ('d, handle) tpm"
  es_name :: "handle \<Rightarrow> ('d, bytes) tpm"
  es_start_session :: "session_kind \<Rightarrow> hash_algorithm \<Rightarrow> ('d, auth_session option) tpm"
  es_policy_pcr :: "handle \<Rightarrow> digest \<Rightarrow> pcr_selection \<Rightarrow> ('d, unit) tpm"
  es_policy_authorize :: "handle \<Rightarrow> digest \<Rightarrow> bytes \<Rightarrow> bytes \<Rightarrow> verified_ticket \<Rightarrow> ('d, unit) tpm"
  es_policy_digest :: "handle \<Rightarrow> ('d, digest) tpm"
  es_create :: "handle \<Rightarrow> 'p \<Rightarrow> bytes \<Rightarrow> ('d, bytes \<times> 'p) tpm"
  es_load :: "handle \<Rightarrow> bytes \<Rightarrow> 'p \<Rightarrow> ('d, handle) tpm"
  es_hash :: "bytes \<Rightarrow> hash_algorithm \<Rightarrow> hierarchy \<Rightarrow> ('d, digest) tpm"
  es_verify :: "handle \<Rightarrow> digest \<Rightarrow> bytes \<Rightarrow> ('d, verified_ticket) tpm"
  es_unseal :: "handle option \<Rightarrow> handle \<Rightarrow> ('d, bytes) tpm"

definition fail :: "tpm_store_error \<Rightarrow> ('d, 'a) tpm" where "fail e d = (Inl e, d)"

definition lift_result :: "tpm_store_error + 'a \<Rightarrow> ('d, 'a) tpm" where "lift_result r d = (r, d)"

text \<open>\<open>.ok()\<close>, and the result of a call that is dropped.\<close>

definition ignore_errors :: "('d, 'a) tpm \<Rightarrow> ('d, unit) tpm" where
  "ignore_errors m d = (Inr (), snd (m d))"

definition buffer_of :: "nat \<Rightarrow> string \<Rightarrow> bytes \<Rightarrow> ('d, bytes) tpm" where
  "buffer_of limit what bs = (if length bs \<le> limit then sreturn bs else fail (Convert what))"

text \<open>The transport: the one named in the environment, else the device of the kernel's resource manager.\<close>

definition open_context :: "'c option \<Rightarrow> (string \<Rightarrow> 'c option) \<Rightarrow> ('c \<Rightarrow> tpm_store_error + 'd) \<Rightarrow> tpm_store_error + 'd" where
  "open_context from_environment device connect =
     (case (case from_environment of Some c \<Rightarrow> Some c | None \<Rightarrow> device ''/dev/tpmrm0'') of
        None \<Rightarrow> Inl (Convert ''tcti'')
      | Some tcti \<Rightarrow> connect tcti)"

section \<open>The storage key\<close>

definition srk_persistent_handle :: "32 word" where "srk_persistent_handle = 0x81000001"

definition policy_ref :: bytes where "policy_ref = ascii ''tui-secret-store/v1''"

definition srk_template :: "('d, 'p) esapi \<Rightarrow> tpm_store_error + 'p" where
  "srk_template T = es_build T \<lparr> tp_name_hash = Sha256,
     tp_attributes = no_attributes\<lparr> oa_fixed_tpm := True, oa_fixed_parent := True, oa_sensitive_data_origin := True,
       oa_user_with_auth := True, oa_restricted := True, oa_decrypt := True, oa_sign_encrypt := False \<rparr>,
     tp_auth_policy = [], tp_parameters = EccStorageP256Aes128Cfb \<rparr>"

definition provision_srk :: "('d, 'p) esapi \<Rightarrow> ('d, handle) tpm" where
  "provision_srk T d =
     (case es_from_public T srk_persistent_handle d of
        (Inr obj, d) \<Rightarrow> (Inr obj, d)
      | (Inl _, d) \<Rightarrow>
          sbind (sbind (lift_result (srk_template T)) (es_create_primary T HierarchyOwner)) (\<lambda>primary.
          sbind (es_evict T primary srk_persistent_handle) (\<lambda>persisted.
          sbind (ignore_errors (es_flush T primary)) (\<lambda>_.
            sreturn persisted))) d)"

section \<open>The policy\<close>

definition load_authorizing_key :: "('d, 'p) esapi \<Rightarrow> 'p \<Rightarrow> ('d, handle \<times> bytes) tpm" where
  "load_authorizing_key T signing_pub =
     sbind (es_load_external T signing_pub HierarchyOwner) (\<lambda>handle.
     sbind (es_name T handle) (\<lambda>name. sreturn (handle, name)))"

definition start_policy_session :: "('d, 'p) esapi \<Rightarrow> session_kind \<Rightarrow> ('d, handle) tpm" where
  "start_policy_session T kind =
     sbind (es_start_session T kind Sha256) (\<lambda>session. case session of
       None \<Rightarrow> fail NoSession
     | Some (PolicyAuth s) \<Rightarrow> sreturn s
     | Some (HmacAuth _) \<Rightarrow> fail (Convert ''policy session''))"

definition pcr_selection :: pcr_selection where
  "pcr_selection = \<lparr> ps_hash = Sha256, ps_slots = [7] \<rparr>"

definition null_ticket :: verified_ticket where
  "null_ticket = \<lparr> vt_tag = 0x8022, vt_hierarchy = 0x40000007, vt_digest = [] \<rparr>"

definition authorized_policy_digest :: "('d, 'p) esapi \<Rightarrow> bytes \<Rightarrow> ('d, digest) tpm" where
  "authorized_policy_digest T key_name =
     sbind (start_policy_session T TrialSession) (\<lambda>trial.
     sbind (buffer_of (es_digest_max T) ''empty digest'' []) (\<lambda>empty_policy.
     sbind (buffer_of (es_nonce_max T) ''policy ref'' policy_ref) (\<lambda>ref.
     sbind (es_policy_authorize T trial empty_policy ref key_name null_ticket) (\<lambda>_.
     sbind (es_policy_digest T trial) (\<lambda>digest.
     sbind (ignore_errors (es_flush T trial)) (\<lambda>_.
       sreturn digest))))))"

definition pcr_policy_digest :: "('d, 'p) esapi \<Rightarrow> digest \<Rightarrow> ('d, digest) tpm" where
  "pcr_policy_digest T expected_pcr_digest =
     sbind (start_policy_session T TrialSession) (\<lambda>trial.
     sbind (es_policy_pcr T trial expected_pcr_digest pcr_selection) (\<lambda>_.
     sbind (es_policy_digest T trial) (\<lambda>digest.
     sbind (ignore_errors (es_flush T trial)) (\<lambda>_.
       sreturn digest))))"

definition authorization_ahash :: "('d, 'p) esapi \<Rightarrow> digest \<Rightarrow> ('d, digest) tpm" where
  "authorization_ahash T approved_policy =
     sbind (buffer_of (es_buffer_max T) ''max buffer'' (approved_policy @ policy_ref)) (\<lambda>buf.
       es_hash T buf Sha256 HierarchyNull)"

section \<open>Sealing and unsealing\<close>

definition sealed_template :: "('d, 'p) esapi \<Rightarrow> digest \<Rightarrow> tpm_store_error + 'p" where
  "sealed_template T auth_policy = es_build T \<lparr> tp_name_hash = Sha256,
     tp_attributes = no_attributes\<lparr> oa_fixed_tpm := True, oa_fixed_parent := True, oa_sensitive_data_origin := False,
       oa_user_with_auth := False, oa_no_da := True \<rparr>,
     tp_auth_policy = auth_policy, tp_parameters = KeyedHashNull \<rparr>"

definition seal :: "('d, 'p) esapi \<Rightarrow> handle \<Rightarrow> digest \<Rightarrow> bytes \<Rightarrow> ('d, bytes \<times> 'p) tpm" where
  "seal T srk auth_policy dek =
     (if length dek > 128
      then fail (SecretTooLarge (if length dek < 2 ^ 32 then of_nat (length dek) else - 1))
      else sbind (buffer_of (es_sensitive_max T) ''sensitive data'' dek) (\<lambda>sensitive.
           sbind (lift_result (sealed_template T auth_policy)) (\<lambda>public.
             es_create T srk public sensitive)))"

text \<open>The second half of the chain: the signature becomes a ticket, the ticket authorizes the session, and the session opens
  the item; then the handles are dropped.\<close>

definition authorize_and_open :: "('d, 'p) esapi \<Rightarrow> handle \<Rightarrow> handle \<Rightarrow> bytes \<Rightarrow> handle \<Rightarrow> digest \<Rightarrow> digest \<Rightarrow> bytes \<Rightarrow> ('d, bytes) tpm" where
  "authorize_and_open T item sig_key key_name session approved_policy ahash signature =
     sbind (es_verify T sig_key ahash signature) (\<lambda>ticket.
     sbind (buffer_of (es_nonce_max T) ''ref'' policy_ref) (\<lambda>ref.
     sbind (es_policy_authorize T session approved_policy ref key_name ticket) (\<lambda>_.
     sbind (es_unseal T (Some session) item) (\<lambda>secret.
     sbind (ignore_errors (es_flush T item)) (\<lambda>_.
     sbind (ignore_errors (es_flush T sig_key)) (\<lambda>_.
     sbind (ignore_errors (es_flush T session)) (\<lambda>_.
       sreturn secret)))))))"

definition unseal :: "('d, 'p) esapi \<Rightarrow> handle \<Rightarrow> bytes \<Rightarrow> 'p \<Rightarrow> 'p \<Rightarrow> digest \<Rightarrow> bytes \<Rightarrow> ('d, bytes) tpm" where
  "unseal T srk sealed_private sealed_public signing_pub approved_policy signature =
     sbind (es_load T srk sealed_private sealed_public) (\<lambda>item.
     sbind (load_authorizing_key T signing_pub) (\<lambda>(sig_key, key_name).
     sbind (start_policy_session T PolicySession) (\<lambda>session.
     sbind (buffer_of (es_digest_max T) ''empty'' []) (\<lambda>empty.
     sbind (es_policy_pcr T session empty pcr_selection) (\<lambda>_.
     sbind (authorization_ahash T approved_policy) (\<lambda>ahash.
       authorize_and_open T item sig_key key_name session approved_policy ahash signature))))))"

section \<open>What a TPM promises\<close>

datatype 'p tpm_object = Sealed object_attributes digest bytes | VerifyingKey 'p

record 'p tpm_state =
  ts_sessions :: "handle \<rightharpoonup> session_kind \<times> digest"
  ts_objects :: "handle \<rightharpoonup> 'p tpm_object"
  ts_pcr :: "pcr_selection \<Rightarrow> digest"

text \<open>A view of a device: its state, what a pair of blobs is under a parent, and the functions the standard fixes: the
  Name of a public area, the policy digests after \<open>PolicyPCR\<close> and \<open>PolicyAuthorize\<close>, the hash, which signatures
  are valid, and the ticket of a verified one.\<close>

record ('d, 'p) tpm_view =
  vw_state :: "'d \<Rightarrow> 'p tpm_state"
  vw_blob :: "handle \<Rightarrow> bytes \<Rightarrow> 'p \<Rightarrow> 'p tpm_object option"
  vw_template :: "'p \<Rightarrow> template"
  vw_name :: "'p \<Rightarrow> bytes"
  vw_zero :: digest
  vw_extend :: "digest \<Rightarrow> pcr_selection \<Rightarrow> digest \<Rightarrow> digest"
  vw_authorize :: "bytes \<Rightarrow> bytes \<Rightarrow> digest"
  vw_hash :: "bytes \<Rightarrow> digest"
  vw_signed :: "'p \<Rightarrow> digest \<Rightarrow> bytes \<Rightarrow> bool"
  vw_ticket :: "bytes \<Rightarrow> digest \<Rightarrow> verified_ticket"

text \<open>A call either has the effect of the standard or fails and changes nothing; a call whose conditions hold succeeds.\<close>

definition meets :: "('d, 'p) tpm_view \<Rightarrow> ('d, 'a) tpm \<Rightarrow> ('p tpm_state \<Rightarrow> 'a \<Rightarrow> 'p tpm_state \<Rightarrow> bool) \<Rightarrow> ('p tpm_state \<Rightarrow> bool) \<Rightarrow> bool" where
  "meets V m effect possible \<longleftrightarrow> (\<forall>d. case m d of
       (Inr x, d') \<Rightarrow> possible (vw_state V d) \<and> effect (vw_state V d) x (vw_state V d')
     | (Inl _, d') \<Rightarrow> \<not> possible (vw_state V d) \<and> vw_state V d' = vw_state V d)"

definition new_object :: "'p tpm_object \<Rightarrow> 'p tpm_state \<Rightarrow> handle \<Rightarrow> 'p tpm_state \<Rightarrow> bool" where
  "new_object obj s h s' \<longleftrightarrow> ts_objects s h = None \<and> ts_sessions s h = None \<and> s' = s\<lparr> ts_objects := (ts_objects s)(h \<mapsto> obj) \<rparr>"

definition new_session :: "session_kind \<Rightarrow> digest \<Rightarrow> 'p tpm_state \<Rightarrow> auth_session option \<Rightarrow> 'p tpm_state \<Rightarrow> bool" where
  "new_session kind zero s r s' \<longleftrightarrow> (\<exists>h. r = Some (PolicyAuth h) \<and> ts_objects s h = None \<and> ts_sessions s h = None \<and>
     s' = s\<lparr> ts_sessions := (ts_sessions s)(h \<mapsto> (kind, zero)) \<rparr>)"

definition session_policy :: "handle \<Rightarrow> ('p tpm_state \<Rightarrow> session_kind \<Rightarrow> digest \<Rightarrow> digest) \<Rightarrow> 'p tpm_state \<Rightarrow> unit \<Rightarrow> 'p tpm_state \<Rightarrow> bool" where
  "session_policy h f s _ s' \<longleftrightarrow> (\<exists>k pol. ts_sessions s h = Some (k, pol) \<and>
     s' = s\<lparr> ts_sessions := (ts_sessions s)(h \<mapsto> (k, f s k pol)) \<rparr>)"

definition may_unseal :: "handle option \<Rightarrow> handle \<Rightarrow> 'p tpm_state \<Rightarrow> bool" where
  "may_unseal session item s = (case ts_objects s item of
     Some (Sealed attrs pol secret) \<Rightarrow> (case session of
         Some h \<Rightarrow> ts_sessions s h = Some (PolicySession, pol)
       | None \<Rightarrow> oa_user_with_auth attrs)
   | _ \<Rightarrow> False)"

definition tpm_ok :: "('d, 'p) esapi \<Rightarrow> ('d, 'p) tpm_view \<Rightarrow> bool" where
  "tpm_ok T V \<longleftrightarrow>
     es_nonce_max T \<ge> 64 \<and> es_sensitive_max T \<ge> 128 \<and>
     (\<forall>t p. es_build T t = Inr p \<longrightarrow> vw_template V p = t) \<and>
     (\<forall>srk p secret. \<forall>d. case es_create T srk p secret d of
        (Inr (priv, pub), d') \<Rightarrow> vw_state V d' = vw_state V d \<and>
           vw_blob V srk priv pub = Some (Sealed (tp_attributes (vw_template V p)) (tp_auth_policy (vw_template V p)) secret)
      | (Inl _, d') \<Rightarrow> vw_state V d' = vw_state V d) \<and>
     (\<forall>srk priv pub. meets V (es_load T srk priv pub)
        (\<lambda>s h s'. \<exists>obj. vw_blob V srk priv pub = Some obj \<and> new_object obj s h s') (\<lambda>_. vw_blob V srk priv pub \<noteq> None)) \<and>
     (\<forall>p h. meets V (es_load_external T p h) (new_object (VerifyingKey p)) (\<lambda>_. True)) \<and>
     (\<forall>h. meets V (es_name T h) (\<lambda>s n s'. \<forall>p. ts_objects s h = Some (VerifyingKey p) \<longrightarrow> n = vw_name V p \<and> s' = s)
        (\<lambda>s. ts_objects s h \<noteq> None)) \<and>
     (\<forall>k a. meets V (es_start_session T k a) (new_session k (vw_zero V)) (\<lambda>_. True)) \<and>
     (\<forall>h expected sel. meets V (es_policy_pcr T h expected sel)
        (session_policy h (\<lambda>s k pol. vw_extend V pol sel (if k = TrialSession \<and> expected \<noteq> [] then expected else ts_pcr s sel)))
        (\<lambda>s. \<exists>k pol. ts_sessions s h = Some (k, pol) \<and> (k = PolicySession \<and> expected \<noteq> [] \<longrightarrow> expected = ts_pcr s sel))) \<and>
     (\<forall>h approved ref n ticket. meets V (es_policy_authorize T h approved ref n ticket)
        (session_policy h (\<lambda>_ _ _. vw_authorize V n ref))
        (\<lambda>s. \<exists>k pol. ts_sessions s h = Some (k, pol) \<and>
           (k = PolicySession \<longrightarrow> pol = approved \<and> ticket = vw_ticket V n (vw_hash V (approved @ ref))))) \<and>
     (\<forall>h. meets V (es_policy_digest T h) (\<lambda>s g s'. (\<exists>k. ts_sessions s h = Some (k, g)) \<and> s' = s) (\<lambda>s. ts_sessions s h \<noteq> None)) \<and>
     (\<forall>b a h. meets V (es_hash T b a h) (\<lambda>s g s'. g = vw_hash V b \<and> s' = s) (\<lambda>_. True)) \<and>
     (\<forall>h g sig. meets V (es_verify T h g sig)
        (\<lambda>s ticket s'. s' = s \<and> (\<forall>p. ts_objects s h = Some (VerifyingKey p) \<longrightarrow> ticket = vw_ticket V (vw_name V p) g))
        (\<lambda>s. \<exists>p. ts_objects s h = Some (VerifyingKey p) \<and> vw_signed V p g sig)) \<and>
     (\<forall>session item. meets V (es_unseal T session item)
        (\<lambda>s x s'. s' = s \<and> (\<exists>attrs pol. ts_objects s item = Some (Sealed attrs pol x))) (may_unseal session item)) \<and>
     (\<forall>h. meets V (es_flush T h)
        (\<lambda>s _ s'. s' = s\<lparr> ts_objects := (ts_objects s)(h := None), ts_sessions := (ts_sessions s)(h := None) \<rparr>)
        (\<lambda>s. ts_objects s h \<noteq> None \<or> ts_sessions s h \<noteq> None))"


section \<open>Lemmas\<close>

lemma meets_run: "meets V m effect possible \<Longrightarrow> possible (vw_state V d) \<Longrightarrow> \<exists>x d'. m d = (Inr x, d') \<and> effect (vw_state V d) x (vw_state V d')"
  by (auto simp: meets_def split: prod.splits sum.splits) (metis old.sum.exhaust surj_pair)

lemma meets_stop: "meets V m effect possible \<Longrightarrow> \<not> possible (vw_state V d) \<Longrightarrow> \<exists>e d'. m d = (Inl e, d') \<and> vw_state V d' = vw_state V d"
  by (auto simp: meets_def split: prod.splits sum.splits) (metis old.sum.exhaust surj_pair)

lemma sbind_ok: "m d = (Inr x, d') \<Longrightarrow> sbind m f d = f x d'"
  by (simp add: sbind_def)

lemma sbind_err: "m d = (Inl e, d') \<Longrightarrow> sbind m f d = (Inl e, d')"
  by (simp add: sbind_def)

lemma tpm_okD:
  assumes "tpm_ok T V"
  shows "es_nonce_max T \<ge> 64" "es_sensitive_max T \<ge> 128" "es_build T t = Inr p \<Longrightarrow> vw_template V p = t"
    and "es_create T srk q secret d = (Inr (priv, pub), d') \<Longrightarrow>
       vw_state V d' = vw_state V d \<and> vw_blob V srk priv pub = Some (Sealed (tp_attributes (vw_template V q)) (tp_auth_policy (vw_template V q)) secret)"
    and "meets V (es_load T srk priv pub) (\<lambda>s h s'. \<exists>obj. vw_blob V srk priv pub = Some obj \<and> new_object obj s h s') (\<lambda>_. vw_blob V srk priv pub \<noteq> None)"
    and "meets V (es_load_external T p hier) (new_object (VerifyingKey p)) (\<lambda>_. True)"
    and "meets V (es_name T h) (\<lambda>s n s'. \<forall>p. ts_objects s h = Some (VerifyingKey p) \<longrightarrow> n = vw_name V p \<and> s' = s) (\<lambda>s. ts_objects s h \<noteq> None)"
    and "meets V (es_start_session T k a) (new_session k (vw_zero V)) (\<lambda>_. True)"
    and "meets V (es_policy_pcr T h expected sel)
        (session_policy h (\<lambda>s k pol. vw_extend V pol sel (if k = TrialSession \<and> expected \<noteq> [] then expected else ts_pcr s sel)))
        (\<lambda>s. \<exists>k pol. ts_sessions s h = Some (k, pol) \<and> (k = PolicySession \<and> expected \<noteq> [] \<longrightarrow> expected = ts_pcr s sel))"
    and "meets V (es_policy_authorize T h approved ref n ticket) (session_policy h (\<lambda>_ _ _. vw_authorize V n ref))
        (\<lambda>s. \<exists>k pol. ts_sessions s h = Some (k, pol) \<and>
           (k = PolicySession \<longrightarrow> pol = approved \<and> ticket = vw_ticket V n (vw_hash V (approved @ ref))))"
    and "meets V (es_policy_digest T h) (\<lambda>s g s'. (\<exists>k. ts_sessions s h = Some (k, g)) \<and> s' = s) (\<lambda>s. ts_sessions s h \<noteq> None)"
    and "meets V (es_hash T b a hier) (\<lambda>s g s'. g = vw_hash V b \<and> s' = s) (\<lambda>_. True)"
    and "meets V (es_verify T h g sig)
        (\<lambda>s ticket s'. s' = s \<and> (\<forall>p. ts_objects s h = Some (VerifyingKey p) \<longrightarrow> ticket = vw_ticket V (vw_name V p) g))
        (\<lambda>s. \<exists>p. ts_objects s h = Some (VerifyingKey p) \<and> vw_signed V p g sig)"
    and "meets V (es_unseal T session item)
        (\<lambda>s x s'. s' = s \<and> (\<exists>attrs pol. ts_objects s item = Some (Sealed attrs pol x))) (may_unseal session item)"
    and "meets V (es_flush T h)
        (\<lambda>s _ s'. s' = s\<lparr> ts_objects := (ts_objects s)(h := None), ts_sessions := (ts_sessions s)(h := None) \<rparr>)
        (\<lambda>s. ts_objects s h \<noteq> None \<or> ts_sessions s h \<noteq> None)"
proof -
  note ok = assms [unfolded tpm_ok_def]
  have "\<forall>t p. es_build T t = Inr p \<longrightarrow> vw_template V p = t"
    "\<forall>srk p secret. \<forall>d. case es_create T srk p secret d of
        (Inr (priv, pub), d') \<Rightarrow> vw_state V d' = vw_state V d \<and>
           vw_blob V srk priv pub = Some (Sealed (tp_attributes (vw_template V p)) (tp_auth_policy (vw_template V p)) secret)
      | (Inl _, d') \<Rightarrow> vw_state V d' = vw_state V d"
    by (insert ok, elim conjE, assumption)+
  note laws = this
  show "es_build T t = Inr p \<Longrightarrow> vw_template V p = t" using laws(1) by blast
  show "es_create T srk q secret d = (Inr (priv, pub), d') \<Longrightarrow>
       vw_state V d' = vw_state V d \<and> vw_blob V srk priv pub = Some (Sealed (tp_attributes (vw_template V q)) (tp_auth_policy (vw_template V q)) secret)"
  proof -
    have "case es_create T srk q secret d of
        (Inr (priv, pub), d') \<Rightarrow> vw_state V d' = vw_state V d \<and>
           vw_blob V srk priv pub = Some (Sealed (tp_attributes (vw_template V q)) (tp_auth_policy (vw_template V q)) secret)
      | (Inl _, d') \<Rightarrow> vw_state V d' = vw_state V d" using laws(2) by (elim allE) assumption
    then show "es_create T srk q secret d = (Inr (priv, pub), d') \<Longrightarrow>
       vw_state V d' = vw_state V d \<and> vw_blob V srk priv pub = Some (Sealed (tp_attributes (vw_template V q)) (tp_auth_policy (vw_template V q)) secret)"
      by simp
  qed
qed (insert assms [unfolded tpm_ok_def], (elim conjE allE, assumption)+)

lemma load_key_runs:
  assumes "tpm_ok T V"
  shows "\<exists>h d'. load_authorizing_key T p d = (Inr (h, vw_name V p), d') \<and> new_object (VerifyingKey p) (vw_state V d) h (vw_state V d')"
proof -
  obtain h d1 where l: "es_load_external T p HierarchyOwner d = (Inr h, d1)" "new_object (VerifyingKey p) (vw_state V d) h (vw_state V d1)"
    using meets_run [OF tpm_okD(6) [OF assms]] by blast
  then have o: "ts_objects (vw_state V d1) h = Some (VerifyingKey p)" by (simp add: new_object_def)
  then obtain n d2 where "es_name T h d1 = (Inr n, d2)" "n = vw_name V p" "vw_state V d2 = vw_state V d1"
    using meets_run [OF tpm_okD(7) [OF assms], of d1 h] by auto
  then show ?thesis using l by (auto simp: load_authorizing_key_def sbind_def sreturn_def)
qed

lemma start_session_runs:
  assumes "tpm_ok T V"
  shows "\<exists>h d'. start_policy_session T k d = (Inr h, d') \<and> new_session k (vw_zero V) (vw_state V d) (Some (PolicyAuth h)) (vw_state V d')"
proof -
  obtain r d1 where l: "es_start_session T k Sha256 d = (Inr r, d1)" "new_session k (vw_zero V) (vw_state V d) r (vw_state V d1)"
    using meets_run [OF tpm_okD(8) [OF assms]] by blast
  then obtain h where "r = Some (PolicyAuth h)" by (auto simp: new_session_def)
  then show ?thesis using l by (auto simp: start_policy_session_def sbind_def sreturn_def)
qed

lemma buffer_ok: "length bs \<le> n \<Longrightarrow> buffer_of n what bs d = (Inr bs, d)"
  by (simp add: buffer_of_def sreturn_def)

lemma length_policy_ref: "length policy_ref = 19" by (simp add: policy_ref_def)

lemma flush_runs:
  assumes "tpm_ok T V"
  shows "\<exists>d'. ignore_errors (es_flush T h) d = (Inr (), d') \<and>
     vw_state V d' = (vw_state V d)\<lparr> ts_objects := (ts_objects (vw_state V d))(h := None), ts_sessions := (ts_sessions (vw_state V d))(h := None) \<rparr>"
proof (cases "ts_objects (vw_state V d) h \<noteq> None \<or> ts_sessions (vw_state V d) h \<noteq> None")
  case True
  then obtain x d' where "es_flush T h d = (Inr x, d')" "vw_state V d' = (vw_state V d)\<lparr> ts_objects := (ts_objects (vw_state V d))(h := None), ts_sessions := (ts_sessions (vw_state V d))(h := None) \<rparr>"
    using meets_run [OF tpm_okD(15) [OF assms]] by blast
  then show ?thesis by (auto simp: ignore_errors_def)
next
  case False
  then obtain e d' where "es_flush T h d = (Inl e, d')" "vw_state V d' = vw_state V d"
    using meets_stop [OF tpm_okD(15) [OF assms]] by blast
  moreover have "(vw_state V d)\<lparr> ts_objects := (ts_objects (vw_state V d))(h := None), ts_sessions := (ts_sessions (vw_state V d))(h := None) \<rparr> = vw_state V d"
  proof -
    have "ts_objects (vw_state V d) h = None" "ts_sessions (vw_state V d) h = None" using False by blast+
    then show ?thesis by (simp add: fun_upd_idem)
  qed
  ultimately show ?thesis by (auto simp: ignore_errors_def)
qed


text \<open>The outcome of the chain, when the blobs are a sealed secret: it opens under three conditions and then leaves
  nothing behind; otherwise it fails and leaves two objects and a session in the device.\<close>

definition opens :: "('d, 'p) tpm_view \<Rightarrow> 'p tpm_state \<Rightarrow> digest \<Rightarrow> 'p \<Rightarrow> digest \<Rightarrow> bytes \<Rightarrow> bool" where
  "opens V s pol signing_pub approved sig \<longleftrightarrow>
     approved = vw_extend V (vw_zero V) pcr_selection (ts_pcr s pcr_selection) \<and>
     vw_signed V signing_pub (vw_hash V (approved @ policy_ref)) sig \<and>
     pol = vw_authorize V (vw_name V signing_pub) policy_ref"

definition leftover :: "'p tpm_state \<Rightarrow> 'p tpm_state \<Rightarrow> bool" where
  "leftover s s' \<longleftrightarrow> (\<exists>item key session. distinct [item, key, session] \<and>
     ts_objects s item = None \<and> ts_objects s key = None \<and> ts_sessions s session = None \<and>
     dom (ts_objects s') = insert item (insert key (dom (ts_objects s))) \<and>
     dom (ts_sessions s') = insert session (dom (ts_sessions s)) \<and> ts_pcr s' = ts_pcr s)"

text \<open>The state in which the session holds the policy of the current registers, beside the item and the key.\<close>

definition prepared :: "'p tpm_state \<Rightarrow> handle \<Rightarrow> 'p tpm_object \<Rightarrow> handle \<Rightarrow> 'p \<Rightarrow> handle \<Rightarrow> digest \<Rightarrow> 'p tpm_state" where
  "prepared s item obj key p session pol = s\<lparr> ts_objects := (ts_objects s)(item \<mapsto> obj, key \<mapsto> VerifyingKey p),
     ts_sessions := (ts_sessions s)(session \<mapsto> (PolicySession, pol)) \<rparr>"

definition free_handles :: "'p tpm_state \<Rightarrow> handle list \<Rightarrow> bool" where
  "free_handles s hs \<longleftrightarrow> distinct hs \<and> (\<forall>h\<in>set hs. ts_objects s h = None \<and> ts_sessions s h = None)"

lemma prepared_left: "free_handles s [item, key, session] \<Longrightarrow> leftover s (prepared s item obj key p session pol)"
  unfolding leftover_def by (intro exI [of _ item] exI [of _ key] exI [of _ session]) (auto simp: prepared_def free_handles_def)

lemma unseal_first_half:
  assumes ok: "tpm_ok T V" and blob: "vw_blob V srk priv pub = Some obj" and len: "length approved + length policy_ref \<le> es_buffer_max T"
  obtains item key session d' where "free_handles (vw_state V d) [item, key, session]"
    "vw_state V d' = prepared (vw_state V d) item obj key signing_pub session (vw_extend V (vw_zero V) pcr_selection (ts_pcr (vw_state V d) pcr_selection))"
    "unseal T srk priv pub signing_pub approved sig d =
       authorize_and_open T item key (vw_name V signing_pub) session approved (vw_hash V (approved @ policy_ref)) sig d'"
proof -
  let ?s = "vw_state V d"
  obtain item d1 where item: "es_load T srk priv pub d = (Inr item, d1)" "new_object obj ?s item (vw_state V d1)"
    using meets_run [OF tpm_okD(5) [OF ok], of srk priv pub d] blob by auto
  obtain key d2 where key: "load_authorizing_key T signing_pub d1 = (Inr (key, vw_name V signing_pub), d2)"
      "new_object (VerifyingKey signing_pub) (vw_state V d1) key (vw_state V d2)"
    using load_key_runs [OF ok] by blast
  obtain session d3 where session: "start_policy_session T PolicySession d2 = (Inr session, d3)"
      "new_session PolicySession (vw_zero V) (vw_state V d2) (Some (PolicyAuth session)) (vw_state V d3)"
    using start_session_runs [OF ok] by blast
  have s3: "vw_state V d3 = prepared ?s item obj key signing_pub session (vw_zero V)"
    and free: "free_handles ?s [item, key, session]"
    using item(2) key(2) session(2) by (auto simp: new_object_def new_session_def prepared_def free_handles_def split: if_splits)
  let ?policy = "vw_extend V (vw_zero V) pcr_selection (ts_pcr ?s pcr_selection)"
  obtain d4 where pcr: "es_policy_pcr T session [] pcr_selection d3 = (Inr (), d4)" "vw_state V d4 = prepared ?s item obj key signing_pub session ?policy"
    using meets_run [OF tpm_okD(9) [OF ok], of d3 session "[]" pcr_selection] by (auto simp: s3 session_policy_def prepared_def)
  let ?ahash = "vw_hash V (approved @ policy_ref)"
  obtain d5 where h: "es_hash T (approved @ policy_ref) Sha256 HierarchyNull d4 = (Inr ?ahash, d5)" "vw_state V d5 = vw_state V d4"
    using meets_run [OF tpm_okD(12) [OF ok]] by blast
  then have hash: "authorization_ahash T approved d4 = (Inr ?ahash, d5)"
    using len by (simp add: authorization_ahash_def sbind_ok [where m = "buffer_of n what bs" for n what bs, OF buffer_ok])
  have "unseal T srk priv pub signing_pub approved sig d = authorize_and_open T item key (vw_name V signing_pub) session approved ?ahash sig d5"
    unfolding unseal_def
    by (simp add: sbind_ok [where m = "es_load T srk priv pub", OF item(1)] sbind_ok [where m = "load_authorizing_key T signing_pub", OF key(1)]
        sbind_ok [where m = "start_policy_session T PolicySession", OF session(1)] sbind_ok [where m = "buffer_of n what bs" for n what bs, OF buffer_ok]
        sbind_ok [where m = "es_policy_pcr T session [] pcr_selection", OF pcr(1)] sbind_ok [where m = "authorization_ahash T approved", OF hash])
  then show thesis using that [OF free, of d5] pcr(2) h(2) by simp
qed

lemma authorize_fails:
  assumes ok: "tpm_ok T V" and free: "free_handles s [item, key, session]"
    and st: "vw_state V d = prepared s item (Sealed attrs pol secret) key p session current"
    and no: "\<not> (vw_signed V p (vw_hash V (approved @ policy_ref)) sig \<and> approved = current \<and> pol = vw_authorize V (vw_name V p) policy_ref)"
  shows "\<exists>e d'. authorize_and_open T item key (vw_name V p) session approved (vw_hash V (approved @ policy_ref)) sig d = (Inl e, d') \<and>
     leftover s (vw_state V d')"
proof (cases "vw_signed V p (vw_hash V (approved @ policy_ref)) sig")
  case False
  then obtain e d1 where "es_verify T key (vw_hash V (approved @ policy_ref)) sig d = (Inl e, d1)" "vw_state V d1 = vw_state V d"
    using meets_stop [OF tpm_okD(13) [OF ok], of d key "vw_hash V (approved @ policy_ref)" sig] st by (auto simp: prepared_def)
  then show ?thesis using prepared_left [OF free] st by (simp add: authorize_and_open_def sbind_def)
next
  case True
  then obtain ticket d1 where verify: "es_verify T key (vw_hash V (approved @ policy_ref)) sig d = (Inr ticket, d1)" "vw_state V d1 = vw_state V d"
      "ticket = vw_ticket V (vw_name V p) (vw_hash V (approved @ policy_ref))"
    using meets_run [OF tpm_okD(13) [OF ok], of d key "vw_hash V (approved @ policy_ref)" sig] st by (auto simp: prepared_def)
  have ref: "buffer_of (es_nonce_max T) ''ref'' policy_ref d1 = (Inr policy_ref, d1)"
    using tpm_okD(1) [OF ok] by (simp add: buffer_ok length_policy_ref)
  note law = tpm_okD(10) [where h = session and approved = approved and ref = policy_ref and n = "vw_name V p" and ticket = ticket, OF ok]
  show ?thesis
  proof (cases "approved = current")
    case False
    then obtain e d2 where "es_policy_authorize T session approved policy_ref (vw_name V p) ticket d1 = (Inl e, d2)" "vw_state V d2 = vw_state V d1"
      using meets_stop [OF law, of d1] st verify(2) by (auto simp: prepared_def)
    then show ?thesis using prepared_left [OF free] st verify(1,2) ref by (simp add: authorize_and_open_def sbind_def)
  next
    case cur: True
    then obtain d2 where authorize: "es_policy_authorize T session approved policy_ref (vw_name V p) ticket d1 = (Inr (), d2)"
        "vw_state V d2 = prepared s item (Sealed attrs pol secret) key p session (vw_authorize V (vw_name V p) policy_ref)"
      using meets_run [OF law, of d1] st verify(2,3) by (auto simp: session_policy_def prepared_def)
    have "\<not> may_unseal (Some session) item (vw_state V d2)"
      using no True cur free by (auto simp: may_unseal_def authorize(2) prepared_def free_handles_def)
    then obtain e d3 where "es_unseal T (Some session) item d2 = (Inl e, d3)" "vw_state V d3 = vw_state V d2"
      using meets_stop [OF tpm_okD(14) [OF ok]] by blast
    then show ?thesis using prepared_left [OF free] verify(1) ref authorize by (simp add: authorize_and_open_def sbind_def)
  qed
qed

lemma authorize_opens:
  assumes ok: "tpm_ok T V" and free: "free_handles s [item, key, session]"
    and st: "vw_state V d = prepared s item (Sealed attrs (vw_authorize V (vw_name V p) policy_ref) secret) key p session approved"
    and sig: "vw_signed V p (vw_hash V (approved @ policy_ref)) sig"
  shows "\<exists>d'. authorize_and_open T item key (vw_name V p) session approved (vw_hash V (approved @ policy_ref)) sig d = (Inr secret, d') \<and>
     vw_state V d' = s"
proof -
  obtain ticket d1 where verify: "es_verify T key (vw_hash V (approved @ policy_ref)) sig d = (Inr ticket, d1)" "vw_state V d1 = vw_state V d"
      "ticket = vw_ticket V (vw_name V p) (vw_hash V (approved @ policy_ref))"
    using meets_run [OF tpm_okD(13) [OF ok], of d key "vw_hash V (approved @ policy_ref)" sig] st sig by (auto simp: prepared_def)
  have ref: "buffer_of (es_nonce_max T) ''ref'' policy_ref d1 = (Inr policy_ref, d1)"
    using tpm_okD(1) [OF ok] by (simp add: buffer_ok length_policy_ref)
  note law = tpm_okD(10) [where h = session and approved = approved and ref = policy_ref and n = "vw_name V p" and ticket = ticket, OF ok]
  obtain d2 where authorize: "es_policy_authorize T session approved policy_ref (vw_name V p) ticket d1 = (Inr (), d2)"
      "vw_state V d2 = prepared s item (Sealed attrs (vw_authorize V (vw_name V p) policy_ref) secret) key p session (vw_authorize V (vw_name V p) policy_ref)"
    using meets_run [OF law, of d1] st verify(2,3) by (auto simp: session_policy_def prepared_def)
  have "may_unseal (Some session) item (vw_state V d2)"
    using free by (auto simp: may_unseal_def authorize(2) prepared_def free_handles_def)
  then obtain d3 where opened: "es_unseal T (Some session) item d2 = (Inr secret, d3)" "vw_state V d3 = vw_state V d2"
    using meets_run [OF tpm_okD(14) [OF ok], of "Some session" item d2] free by (auto simp: authorize(2) prepared_def free_handles_def)
  obtain d4 where f1: "ignore_errors (es_flush T item) d3 = (Inr (), d4)" "vw_state V d4 = (vw_state V d3)\<lparr> ts_objects := (ts_objects (vw_state V d3))(item := None), ts_sessions := (ts_sessions (vw_state V d3))(item := None) \<rparr>"
    using flush_runs [OF ok] by blast
  obtain d5 where f2: "ignore_errors (es_flush T key) d4 = (Inr (), d5)" "vw_state V d5 = (vw_state V d4)\<lparr> ts_objects := (ts_objects (vw_state V d4))(key := None), ts_sessions := (ts_sessions (vw_state V d4))(key := None) \<rparr>"
    using flush_runs [OF ok] by blast
  obtain d6 where f3: "ignore_errors (es_flush T session) d5 = (Inr (), d6)" "vw_state V d6 = (vw_state V d5)\<lparr> ts_objects := (ts_objects (vw_state V d5))(session := None), ts_sessions := (ts_sessions (vw_state V d5))(session := None) \<rparr>"
    using flush_runs [OF ok] by blast
  have "ts_objects (vw_state V d6) = ts_objects s" "ts_sessions (vw_state V d6) = ts_sessions s" "ts_pcr (vw_state V d6) = ts_pcr s"
    using free by (auto simp: f3(2) f2(2) f1(2) opened(2) authorize(2) prepared_def free_handles_def fun_eq_iff)
  then have "vw_state V d6 = s" by simp
  then show ?thesis
    using verify(1) ref authorize(1) opened(1) f1(1) f2(1) f3(1) by (simp add: authorize_and_open_def sbind_def sreturn_def)
qed

lemma unseal_outcome:
  assumes ok: "tpm_ok T V" and blob: "vw_blob V srk priv pub = Some (Sealed attrs pol secret)"
    and len: "length approved + length policy_ref \<le> es_buffer_max T"
  shows "if opens V (vw_state V d) pol signing_pub approved sig
    then \<exists>d'. unseal T srk priv pub signing_pub approved sig d = (Inr secret, d') \<and> vw_state V d' = vw_state V d
    else \<exists>e d'. unseal T srk priv pub signing_pub approved sig d = (Inl e, d') \<and> leftover (vw_state V d) (vw_state V d')"
proof (rule unseal_first_half [OF assms])
  fix item key session d'
  assume h: "free_handles (vw_state V d) [item, key, session]"
    "vw_state V d' = prepared (vw_state V d) item (Sealed attrs pol secret) key signing_pub session
       (vw_extend V (vw_zero V) pcr_selection (ts_pcr (vw_state V d) pcr_selection))"
    "unseal T srk priv pub signing_pub approved sig d =
       authorize_and_open T item key (vw_name V signing_pub) session approved (vw_hash V (approved @ policy_ref)) sig d'"
  show ?thesis
    using authorize_fails [OF ok h(1,2)] authorize_opens [OF ok h(1)] h(2,3) by (auto simp: opens_def)
qed


lemma authorized_digest:
  assumes "tpm_ok T V" and "authorized_policy_digest T n d = (Inr pol, d')"
  shows "pol = vw_authorize V n policy_ref"
proof -
  obtain trial d1 where trial: "start_policy_session T TrialSession d = (Inr trial, d1)"
      "new_session TrialSession (vw_zero V) (vw_state V d) (Some (PolicyAuth trial)) (vw_state V d1)"
    using start_session_runs [OF assms(1)] by blast
  have ref: "buffer_of (es_nonce_max T) ''policy ref'' policy_ref d1 = (Inr policy_ref, d1)"
    using tpm_okD(1) [OF assms(1)] by (simp add: buffer_ok length_policy_ref)
  note law = tpm_okD(10) [where h = trial and approved = "[]" and ref = policy_ref and n = n and ticket = null_ticket, OF assms(1)]
  obtain d2 where authorize: "es_policy_authorize T trial [] policy_ref n null_ticket d1 = (Inr (), d2)"
      "ts_sessions (vw_state V d2) trial = Some (TrialSession, vw_authorize V n policy_ref)"
    using meets_run [OF law, of d1] trial(2) by (auto simp: new_session_def session_policy_def)
  obtain g d3 where digest: "es_policy_digest T trial d2 = (Inr g, d3)" "g = vw_authorize V n policy_ref"
    using meets_run [OF tpm_okD(11) [OF assms(1)], of d2 trial] authorize(2) by auto
  obtain d4 where "ignore_errors (es_flush T trial) d3 = (Inr (), d4)" using flush_runs [OF assms(1)] by blast
  then show ?thesis
    using assms(2) digest trial(1) authorize(1) ref
    by (simp add: authorized_policy_digest_def sbind_def sreturn_def buffer_ok)
qed

lemma sealed_blob:
  assumes "tpm_ok T V" and "seal T srk pol dek d = (Inr (priv, pub), d')"
  shows "\<exists>attrs. vw_blob V srk priv pub = Some (Sealed attrs pol dek) \<and> \<not> oa_user_with_auth attrs"
proof -
  have len: "length dek \<le> 128" using assms(2) by (auto simp: seal_def fail_def split: if_splits)
  then have "buffer_of (es_sensitive_max T) ''sensitive data'' dek d = (Inr dek, d)"
    using tpm_okD(2) [OF assms(1)] by (simp add: buffer_ok)
  then have "\<exists>p. sealed_template T pol = Inr p \<and> es_create T srk p dek d = (Inr (priv, pub), d')"
    using assms(2) len by (auto simp: seal_def sbind_def lift_result_def split: sum.splits)
  then obtain p where p: "sealed_template T pol = Inr p" "es_create T srk p dek d = (Inr (priv, pub), d')" by blast
  have "vw_template V p = \<lparr> tp_name_hash = Sha256,
     tp_attributes = no_attributes\<lparr> oa_fixed_tpm := True, oa_fixed_parent := True, oa_sensitive_data_origin := False,
       oa_user_with_auth := False, oa_no_da := True \<rparr>, tp_auth_policy = pol, tp_parameters = KeyedHashNull \<rparr>"
    by (rule tpm_okD(3) [OF assms(1) p(1) [unfolded sealed_template_def]])
  then show ?thesis using tpm_okD(4) [OF assms(1) p(2)] by (simp add: no_attributes_def)
qed

text \<open>A secret sealed the way the store seals it: under the policy digest computed for an authorizing key.\<close>

definition sealed_for :: "('d, 'p) esapi \<Rightarrow> handle \<Rightarrow> 'p \<Rightarrow> bytes \<Rightarrow> 'd \<Rightarrow> (tpm_store_error + bytes \<times> 'p) \<times> 'd" where
  "sealed_for T srk signing_pub dek =
     sbind (load_authorizing_key T signing_pub) (\<lambda>(_, key_name).
     sbind (authorized_policy_digest T key_name) (\<lambda>auth_policy.
       seal T srk auth_policy dek))"

lemma sealed_for_blob:
  assumes "tpm_ok T V" and "sealed_for T srk K dek d = (Inr (priv, pub), d')"
  shows "\<exists>attrs. vw_blob V srk priv pub = Some (Sealed attrs (vw_authorize V (vw_name V K) policy_ref) dek) \<and> \<not> oa_user_with_auth attrs"
proof -
  obtain h d1 where k: "load_authorizing_key T K d = (Inr (h, vw_name V K), d1)" using load_key_runs [OF assms(1)] by blast
  obtain pol d2 where p: "authorized_policy_digest T (vw_name V K) d1 = (Inr pol, d2)" "seal T srk pol dek d2 = (Inr (priv, pub), d')"
    using assms(2) k by (auto simp: sealed_for_def sbind_def split: prod.splits sum.splits)
  show ?thesis using sealed_blob [OF assms(1) p(2)] authorized_digest [OF assms(1) p(1)] by simp
qed

section \<open>Properties\<close>

text \<open>C34: The sealed secret opens exactly in an approved state.  What was sealed under the policy of an authorizing key
  is later unsealed with an approved policy and a signature if and only if the approved policy is that of the current
  platform registers, the presented key signed that policy together with the policy reference, and the presented key has
  the authorize digest of the key it was sealed for; what comes out is then the secret.  A password session never opens
  it, in whatever state it is loaded.\<close>

theorem unseal_exactly_when_approved:
  assumes "tpm_ok T V" and "sealed_for T srk K dek d0 = (Inr (priv, pub), d1)"
    and "length approved + length policy_ref \<le> es_buffer_max T"
  shows "((\<exists>d'. unseal T srk priv pub P approved sig d = (Inr x, d')) \<longleftrightarrow>
     x = dek \<and> approved = vw_extend V (vw_zero V) pcr_selection (ts_pcr (vw_state V d) pcr_selection) \<and>
     vw_signed V P (vw_hash V (approved @ policy_ref)) sig \<and>
     vw_authorize V (vw_name V P) policy_ref = vw_authorize V (vw_name V K) policy_ref) \<and>
   (\<forall>item d'. ts_objects (vw_state V d') item = vw_blob V srk priv pub \<longrightarrow> (\<exists>e d''. es_unseal T None item d' = (Inl e, d'')))"
proof -
  obtain attrs where blob: "vw_blob V srk priv pub = Some (Sealed attrs (vw_authorize V (vw_name V K) policy_ref) dek)" "\<not> oa_user_with_auth attrs"
    using sealed_for_blob [OF assms(1,2)] by blast
  have "\<exists>e d''. es_unseal T None item d' = (Inl e, d'')" if "ts_objects (vw_state V d') item = vw_blob V srk priv pub" for item d'
  proof -
    have "\<not> may_unseal None item (vw_state V d')" using that blob by (simp add: may_unseal_def)
    then show ?thesis using meets_stop [OF tpm_okD(14) [OF assms(1)]] by blast
  qed
  then show ?thesis
    using unseal_outcome [OF assms(1) blob(1) assms(3), of d P sig] by (auto simp: opens_def split: if_splits)
qed



section \<open>An instance\<close>

text \<open>A device whose tables are association lists.\<close>

type_synonym toy_device = "(handle \<times> (session_kind \<times> digest)) list \<times> (handle \<times> template tpm_object) list \<times> digest"

fun toy_state :: "toy_device \<Rightarrow> template tpm_state" where
  "toy_state (ss, os, g) = \<lparr> ts_sessions = map_of ss, ts_objects = map_of os, ts_pcr = (\<lambda>_. g) \<rparr>"

definition toy_view :: "(toy_device, template) tpm_view" where
  "toy_view = \<lparr> vw_state = toy_state, vw_blob = (\<lambda>_ priv pub. Some (Sealed (tp_attributes pub) (tp_auth_policy pub) priv)),
     vw_template = (\<lambda>p. p), vw_name = tp_auth_policy, vw_zero = [], vw_extend = (\<lambda>pol _ g. pol @ g),
     vw_authorize = (\<lambda>n r. n @ r), vw_hash = (\<lambda>b. b), vw_signed = (\<lambda>_ g sig. sig = g),
     vw_ticket = (\<lambda>n g. \<lparr> vt_tag = 0, vt_hierarchy = 0, vt_digest = n @ g \<rparr>) \<rparr>"

fun fresh_handle :: "toy_device \<Rightarrow> handle" where
  "fresh_handle (ss, os, _) = Suc (sum_list (map fst ss) + sum_list (map fst os))"

fun add_object :: "template tpm_object \<Rightarrow> toy_device \<Rightarrow> (tpm_store_error + handle) \<times> toy_device" where
  "add_object obj (ss, os, g) = (Inr (fresh_handle (ss, os, g)), (ss, (fresh_handle (ss, os, g), obj) # os, g))"

fun set_policy :: "handle \<Rightarrow> digest \<Rightarrow> toy_device \<Rightarrow> toy_device" where
  "set_policy h pol (ss, os, g) = (AList.map_entry h (\<lambda>(k, _). (k, pol)) ss, os, g)"

definition guarded :: "bool \<Rightarrow> 'a \<Rightarrow> 'd \<Rightarrow> 'd \<Rightarrow> (tpm_store_error + 'a) \<times> 'd" where
  "guarded ok x d' d = (if ok then (Inr x, d') else (Inl (Tss ''refused''), d))"

definition toy_tpm :: "(toy_device, template) esapi" where
  "toy_tpm = \<lparr> es_digest_max = 64, es_nonce_max = 64, es_buffer_max = 1024, es_sensitive_max = 256, es_build = Inr,
     es_from_public = (\<lambda>_ d. (Inl (Tss ''no object''), d)),
     es_create_primary = (\<lambda>_ p. add_object (VerifyingKey p)),
     es_evict = (\<lambda>h _ d. (Inr h, d)),
     es_flush = (\<lambda>h d. guarded (ts_objects (toy_state d) h \<noteq> None \<or> ts_sessions (toy_state d) h \<noteq> None) ()
        (case d of (ss, os, g) \<Rightarrow> (AList.delete h ss, AList.delete h os, g)) d),
     es_load_external = (\<lambda>p _. add_object (VerifyingKey p)),
     es_name = (\<lambda>h d. case ts_objects (toy_state d) h of Some (VerifyingKey p) \<Rightarrow> (Inr (tp_auth_policy p), d)
        | Some _ \<Rightarrow> (Inr [], d) | None \<Rightarrow> (Inl (Tss ''refused''), d)),
     es_start_session = (\<lambda>k _ d. case d of (ss, os, g) \<Rightarrow> (Inr (Some (PolicyAuth (fresh_handle d))), ((fresh_handle d, (k, [])) # ss, os, g))),
     es_policy_pcr = (\<lambda>h expected sel d. case ts_sessions (toy_state d) h of
        Some (k, pol) \<Rightarrow> guarded (k = PolicySession \<and> expected \<noteq> [] \<longrightarrow> expected = ts_pcr (toy_state d) sel) ()
          (set_policy h (pol @ (if k = TrialSession \<and> expected \<noteq> [] then expected else ts_pcr (toy_state d) sel)) d) d
      | None \<Rightarrow> (Inl (Tss ''refused''), d)),
     es_policy_authorize = (\<lambda>h approved ref n ticket d. case ts_sessions (toy_state d) h of
        Some (k, pol) \<Rightarrow> guarded (k = PolicySession \<longrightarrow> pol = approved \<and> ticket = \<lparr> vt_tag = 0, vt_hierarchy = 0, vt_digest = n @ approved @ ref \<rparr>) ()
          (set_policy h (n @ ref) d) d
      | None \<Rightarrow> (Inl (Tss ''refused''), d)),
     es_policy_digest = (\<lambda>h d. case ts_sessions (toy_state d) h of Some (k, g) \<Rightarrow> (Inr g, d) | None \<Rightarrow> (Inl (Tss ''refused''), d)),
     es_create = (\<lambda>_ p secret d. (Inr (secret, p), d)),
     es_load = (\<lambda>_ priv pub. add_object (Sealed (tp_attributes pub) (tp_auth_policy pub) priv)),
     es_hash = (\<lambda>b _ _ d. (Inr b, d)),
     es_verify = (\<lambda>h g sig d. case ts_objects (toy_state d) h of
        Some (VerifyingKey p) \<Rightarrow> guarded (sig = g) \<lparr> vt_tag = 0, vt_hierarchy = 0, vt_digest = tp_auth_policy p @ g \<rparr> d d
      | _ \<Rightarrow> (Inl (Tss ''refused''), d)),
     es_unseal = (\<lambda>session item d. case ts_objects (toy_state d) item of
        Some (Sealed attrs pol x) \<Rightarrow> guarded (may_unseal session item (toy_state d)) x d d
      | _ \<Rightarrow> (Inl (Tss ''refused''), d)) \<rparr>"

lemma map_of_big: "sum_list (map fst xs) < h \<Longrightarrow> map_of xs (h :: nat) = None"
  by (induction xs) auto

lemma fresh_handle_free: "map_of ss (fresh_handle (ss, os, g)) = None" "map_of os (fresh_handle (ss, os, g)) = None"
  by (rule map_of_big; simp)+

lemma add_object_meets: "meets toy_view (add_object obj) (new_object obj) (\<lambda>_. True)"
  by (auto simp: meets_def toy_view_def new_object_def fresh_handle_free simp del: fresh_handle.simps split: prod.splits)

lemma map_of_set_policy: "map_of ss h = Some (k, pol') \<Longrightarrow> map_of (AList.map_entry h (\<lambda>(k, _). (k, pol)) ss) = (map_of ss)(h \<mapsto> (k, pol))"
  by (simp add: map_of_map_entry)

lemma toy_tpm_ok: "tpm_ok toy_tpm toy_view"
proof -
  note sel = toy_tpm_def esapi.select_convs
  have a: "meets toy_view (es_load toy_tpm srk priv pub)
      (\<lambda>s h s'. \<exists>obj. vw_blob toy_view srk priv pub = Some obj \<and> new_object obj s h s') (\<lambda>_. vw_blob toy_view srk priv pub \<noteq> None)" for srk priv pub
    using add_object_meets [of "Sealed (tp_attributes pub) (tp_auth_policy pub) priv"] by (simp add: sel toy_view_def)
  have b: "meets toy_view (es_load_external toy_tpm p h) (new_object (VerifyingKey p)) (\<lambda>_. True)" for p h
    using add_object_meets by (simp add: sel)
  have c: "meets toy_view (es_start_session toy_tpm k a) (new_session k (vw_zero toy_view)) (\<lambda>_. True)" for k a
    by (auto simp: sel meets_def toy_view_def new_session_def fresh_handle_free simp del: fresh_handle.simps split: prod.splits)
  have e: "meets toy_view (es_policy_pcr toy_tpm h expected sel)
        (session_policy h (\<lambda>s k pol. vw_extend toy_view pol sel (if k = TrialSession \<and> expected \<noteq> [] then expected else ts_pcr s sel)))
        (\<lambda>s. \<exists>k pol. ts_sessions s h = Some (k, pol) \<and> (k = PolicySession \<and> expected \<noteq> [] \<longrightarrow> expected = ts_pcr s sel))" for h expected sel
    by (auto simp: sel meets_def toy_view_def session_policy_def guarded_def map_of_set_policy split: prod.splits option.splits sum.splits if_splits)
  have f: "meets toy_view (es_policy_authorize toy_tpm h approved ref n ticket)
        (session_policy h (\<lambda>_ _ _. vw_authorize toy_view n ref))
        (\<lambda>s. \<exists>k pol. ts_sessions s h = Some (k, pol) \<and>
           (k = PolicySession \<longrightarrow> pol = approved \<and> ticket = vw_ticket toy_view n (vw_hash toy_view (approved @ ref))))" for h approved ref n ticket
    by (auto simp: sel meets_def toy_view_def session_policy_def guarded_def map_of_set_policy split: prod.splits option.splits sum.splits if_splits)
  have g: "meets toy_view (es_flush toy_tpm h)
        (\<lambda>s _ s'. s' = s\<lparr> ts_objects := (ts_objects s)(h := None), ts_sessions := (ts_sessions s)(h := None) \<rparr>)
        (\<lambda>s. ts_objects s h \<noteq> None \<or> ts_sessions s h \<noteq> None)" for h
    by (auto simp: sel meets_def toy_view_def guarded_def delete_conv split: prod.splits sum.splits if_splits)
  show ?thesis
    unfolding tpm_ok_def
    by (intro conjI allI a b c e f g)
      (auto simp: sel toy_view_def meets_def guarded_def may_unseal_def split: prod.splits option.splits sum.splits if_splits tpm_object.splits)
qed


definition demo_signer :: template where
  "demo_signer = \<lparr> tp_name_hash = Sha256, tp_attributes = no_attributes, tp_auth_policy = [3], tp_parameters = EccStorageP256Aes128Cfb \<rparr>"

lemma demo_sealed: "\<exists>pub d1. sealed_for toy_tpm 1 demo_signer [7] ([], [], [9]) = (Inr ([7], pub), d1)"
proof -
  have "(case sealed_for toy_tpm 1 demo_signer [7] ([], [], [9]) of (Inr (priv, _), _) \<Rightarrow> priv = [7] | (Inl _, _) \<Rightarrow> False)"
    by code_simp
  then show ?thesis by (auto split: prod.splits sum.splits)
qed

lemma unseal_exactly_when_approved_witness:
  "\<exists>pub d1 d'. sealed_for toy_tpm 1 demo_signer [7] ([], [], [9]) = (Inr ([7], pub), d1) \<and>
     unseal toy_tpm 1 [7] pub demo_signer [9] ([9] @ policy_ref) ([], [], [9]) = (Inr [7], d')"
proof -
  obtain pub d1 where s: "sealed_for toy_tpm 1 demo_signer [7] ([], [], [9]) = (Inr ([7], pub), d1)" using demo_sealed by blast
  have "length [9 :: byte] + length policy_ref \<le> es_buffer_max toy_tpm" by (simp add: length_policy_ref toy_tpm_def)
  from unseal_exactly_when_approved [OF toy_tpm_ok s this, of demo_signer "[9] @ policy_ref" "([], [], [9])" "[7]"]
  have "\<exists>d'. unseal toy_tpm 1 [7] pub demo_signer [9] ([9] @ policy_ref) ([], [], [9]) = (Inr [7], d')"
    by (simp add: toy_view_def)
  then show ?thesis using s by blast
qed


end
