(* ===== verification/TpmStore.thy ===== *)
theory TpmStore
  imports Tpm Locations
begin

text \<open>
  The credential store over the sealed key (\<open>src/todoers-client/src/device_key/linux/tpm/store.rs\<close>): one data key for
  the whole store, sealed by \<open>Tpm\<close> and cached once unsealed, under which every entry is wrapped.  The functions the
  file leaves to be written are the record \<open>glue\<close>, in which \<open>None\<close> is a panic; \<open>code_glue\<close> is what the file has.
  The key stores of the other platforms (\<open>device_key/mod.rs\<close>, \<open>linux/mod.rs\<close>) go through one process-wide store.
\<close>

section \<open>State, locks and panics\<close>

datatype lock = TpmLock | SealedLock | CacheLock

datatype failure = Panics | Fails tpm_store_error

record store_config =
  sc_data_dir :: string
  sc_approved_policy :: digest
  sc_policy_signature :: bytes

record ('d, 'p) store_inner =
  si_tpm :: 'd
  si_srk :: handle
  si_signing_pub :: 'p
  si_sealed_dek :: "(bytes \<times> 'p) option"
  si_dek_cache :: "(32 fixed) option"
  si_cfg :: store_config
  si_poisoned :: "lock set"
  si_files :: "string \<rightharpoonup> bytes"
  si_persisted :: "(bytes \<times> 'p) option"

type_synonym ('d, 'p, 'a) op = "('d, 'p) store_inner \<Rightarrow> (failure + 'a) \<times> ('d, 'p) store_inner"

text \<open>The error of an operation reaches the caller as a platform failure, whichever it is.\<close>

definition to_keyring_err :: "tpm_store_error \<Rightarrow> keyring_error" where
  "to_keyring_err e = PlatformFailure e"

text \<open>\<open>lock().unwrap()\<close> panics on a poisoned lock, and a panic while a lock is held poisons it.\<close>

definition with_lock :: "lock \<Rightarrow> ('d, 'p, 'a) op \<Rightarrow> ('d, 'p, 'a) op" where
  "with_lock l m s =
     (if l \<in> si_poisoned s then (Inl Panics, s)
      else (case m s of
              (Inl Panics, s) \<Rightarrow> (Inl Panics, s\<lparr> si_poisoned := insert l (si_poisoned s) \<rparr>)
            | r \<Rightarrow> r))"

definition raise_failure :: "failure \<Rightarrow> ('d, 'p, 'a) op" where "raise_failure e s = (Inl e, s)"

definition tpm_op :: "('d, 'a) tpm \<Rightarrow> ('d, 'p, 'a) op" where
  "tpm_op m s = (case m (si_tpm s) of (r, d) \<Rightarrow> (map_sum Fails id r, s\<lparr> si_tpm := d \<rparr>))"

section \<open>The functions left open\<close>

record 'p glue =
  gl_random_dek :: "(32 fixed) option"
  gl_aead_wrap :: "32 fixed \<Rightarrow> bytes \<Rightarrow> (tpm_store_error + bytes) option"
  gl_aead_unwrap :: "32 fixed \<Rightarrow> bytes \<Rightarrow> (tpm_store_error + bytes) option"
  gl_write :: "(string \<Rightarrow> bytes \<Rightarrow> (string \<rightharpoonup> bytes) \<Rightarrow> (string \<rightharpoonup> bytes)) option"
  gl_read :: "(string \<Rightarrow> (string \<rightharpoonup> bytes) \<Rightarrow> bytes option) option"
  gl_delete :: "(string \<Rightarrow> (string \<rightharpoonup> bytes) \<Rightarrow> (string \<rightharpoonup> bytes) option) option"
  gl_persist :: "(bytes \<times> 'p \<Rightarrow> string option) option"

definition code_glue :: "'p glue" where
  "code_glue = \<lparr> gl_random_dek = None, gl_aead_wrap = (\<lambda>_ _. None), gl_aead_unwrap = (\<lambda>_ _. None),
     gl_write = None, gl_read = None, gl_delete = None, gl_persist = None \<rparr>"

definition or_panic :: "'a option \<Rightarrow> ('d, 'p, 'a) op" where
  "or_panic r = (case r of Some x \<Rightarrow> sreturn x | None \<Rightarrow> raise_failure Panics)"

definition lift_fails :: "tpm_store_error + 'a \<Rightarrow> ('d, 'p, 'a) op" where
  "lift_fails r s = (map_sum Fails id r, s)"

text \<open>The place of an entry does not depend on the entry, and nothing is loaded from an earlier run.\<close>

definition entry_path :: "string \<Rightarrow> string \<Rightarrow> string \<Rightarrow> string" where
  "entry_path dir service user = path_join dir ''entry.bin''"

definition load_sealed_dek :: "string \<Rightarrow> (bytes \<times> 'p) option" where
  "load_sealed_dek dir = None"

definition persist_sealed_dek :: "'p glue \<Rightarrow> bytes \<times> 'p \<Rightarrow> ('d, 'p, unit) op" where
  "persist_sealed_dek G blobs =
     sbind (or_panic (gl_persist G)) (\<lambda>persist. case persist blobs of
       Some e \<Rightarrow> raise_failure (Fails (Convert e))
     | None \<Rightarrow> (\<lambda>s. (Inr (), s\<lparr> si_persisted := Some blobs \<rparr>)))"

section \<open>The data key\<close>

definition cached_dek :: "('d, 'p, (32 fixed) option) op" where
  "cached_dek = with_lock CacheLock (\<lambda>s. (Inr (si_dek_cache s), s))"

definition cache_dek :: "32 fixed \<Rightarrow> ('d, 'p, unit) op" where
  "cache_dek dek = with_lock CacheLock (\<lambda>s. (Inr (), s\<lparr> si_dek_cache := Some dek \<rparr>))"

definition dek_plaintext :: "('d, 'p) esapi \<Rightarrow> ('d, 'p, 32 fixed) op" where
  "dek_plaintext T =
     sbind cached_dek (\<lambda>cached. case cached of
       Some dek \<Rightarrow> sreturn dek
     | None \<Rightarrow>
         sbind (with_lock SealedLock (\<lambda>s. (Inr (si_sealed_dek s), s))) (\<lambda>sealed. case sealed of
           None \<Rightarrow> raise_failure (Fails (Convert ''no sealed DEK on disk''))
         | Some (private, public) \<Rightarrow>
             with_lock TpmLock
               (sbind (\<lambda>s. tpm_op (unseal T (si_srk s) private public (si_signing_pub s) (sc_approved_policy (si_cfg s))
                                     (sc_policy_signature (si_cfg s))) s) (\<lambda>bytes.
                case fixed_try_from bytes of
                  Inl _ \<Rightarrow> raise_failure (Fails (Convert ''unsealed DEK wrong length''))
                | Inr dek \<Rightarrow> sbind (cache_dek dek) (\<lambda>_. sreturn dek)))))"

definition create_dek :: "('d, 'p) esapi \<Rightarrow> 'p glue \<Rightarrow> ('d, 'p, 32 fixed) op" where
  "create_dek T G =
     sbind (or_panic (gl_random_dek G)) (\<lambda>dek.
     with_lock TpmLock
       (sbind (\<lambda>s. tpm_op (sealed_for T (si_srk s) (si_signing_pub s) (as_slice dek)) s) (\<lambda>blobs.
        sbind (persist_sealed_dek G blobs) (\<lambda>_.
        sbind (\<lambda>s. (Inr (), s\<lparr> si_sealed_dek := Some blobs \<rparr>)) (\<lambda>_.
        sbind (cache_dek dek) (\<lambda>_. sreturn dek))))))"

text \<open>The lock of the sealed key is released before the key is unsealed.\<close>

definition ensure_dek :: "('d, 'p) esapi \<Rightarrow> 'p glue \<Rightarrow> ('d, 'p, 32 fixed) op" where
  "ensure_dek T G =
     sbind cached_dek (\<lambda>cached. case cached of
       Some dek \<Rightarrow> sreturn dek
     | None \<Rightarrow>
         sbind (with_lock SealedLock (\<lambda>s. if si_sealed_dek s = None
                  then (case create_dek T G s of (r, s) \<Rightarrow> (map_sum id Some r, s))
                  else (Inr None, s))) (\<lambda>created. case created of
           Some dek \<Rightarrow> sreturn dek
         | None \<Rightarrow> dek_plaintext T))"

section \<open>Credentials\<close>

record credential =
  cr_service :: string
  cr_user :: string

definition store_new :: "('d, 'p) esapi \<Rightarrow> store_config \<Rightarrow> 'p \<Rightarrow> (string \<rightharpoonup> bytes) \<Rightarrow> (bytes \<times> 'p) option \<Rightarrow> (tpm_store_error + 'd) \<Rightarrow>
    keyring_error + ('d, 'p) store_inner" where
  "store_new T cfg signing_pub files persisted opened =
     (case opened of
        Inl e \<Rightarrow> Inl (to_keyring_err e)
      | Inr d \<Rightarrow> (case provision_srk T d of
          (Inl e, _) \<Rightarrow> Inl (to_keyring_err e)
        | (Inr srk, d) \<Rightarrow> Inr \<lparr> si_tpm = d, si_srk = srk, si_signing_pub = signing_pub,
            si_sealed_dek = load_sealed_dek (sc_data_dir cfg), si_dek_cache = None, si_cfg = cfg, si_poisoned = {},
            si_files = files, si_persisted = persisted \<rparr>))"

definition vendor :: string where "vendor = ''tpm2-sealed-store (PolicyAuthorize/signed-PCR)''"

definition store_id :: "('d, 'p) store_inner \<Rightarrow> string" where
  "store_id s = ''tpm2-sealed-store@'' @ sc_data_dir (si_cfg s)"

definition build :: "string \<Rightarrow> string \<Rightarrow> credential" where
  "build service user = \<lparr> cr_service = service, cr_user = user \<rparr>"

definition credential_path :: "credential \<Rightarrow> ('d, 'p) store_inner \<Rightarrow> string" where
  "credential_path c s = entry_path (sc_data_dir (si_cfg s)) (cr_service c) (cr_user c)"

definition set_secret :: "('d, 'p) esapi \<Rightarrow> 'p glue \<Rightarrow> credential \<Rightarrow> bytes \<Rightarrow> ('d, 'p, unit) op" where
  "set_secret T G c secret =
     sbind (ensure_dek T G) (\<lambda>dek.
     sbind (or_panic (gl_aead_wrap G dek secret)) (\<lambda>wrapped.
     sbind (lift_fails wrapped) (\<lambda>blob.
     sbind (or_panic (gl_write G)) (\<lambda>write s.
       (Inr (), s\<lparr> si_files := write (credential_path c s) blob (si_files s) \<rparr>)))))"

text \<open>The operations fail with \<open>Fails e\<close>, which \<open>to_keyring_err\<close> turns into the caller's error; in a read, \<open>None\<close> is \<open>NoEntry\<close>.\<close>

definition get_secret :: "('d, 'p) esapi \<Rightarrow> 'p glue \<Rightarrow> credential \<Rightarrow> ('d, 'p, bytes option) op" where
  "get_secret T G c =
     sbind (or_panic (gl_read G)) (\<lambda>read.
     sbind (\<lambda>s. (Inr (read (credential_path c s) (si_files s)), s)) (\<lambda>entry. case entry of
       None \<Rightarrow> sreturn None
     | Some blob \<Rightarrow>
         sbind (dek_plaintext T) (\<lambda>dek.
         sbind (or_panic (gl_aead_unwrap G dek blob)) (\<lambda>plain.
         sbind (lift_fails plain) (\<lambda>x. sreturn (Some x))))))"

definition delete_credential :: "'p glue \<Rightarrow> credential \<Rightarrow> ('d, 'p, bool) op" where
  "delete_credential G c =
     sbind (or_panic (gl_delete G)) (\<lambda>delete s. case delete (credential_path c s) (si_files s) of
       None \<Rightarrow> (Inr False, s)
     | Some files \<Rightarrow> (Inr True, s\<lparr> si_files := files \<rparr>))"


section \<open>What a process can rely on\<close>

text \<open>With the functions the file has, every operation panics, and a write leaves the lock of the sealed key poisoned.\<close>

lemma code_glue_panics:
  assumes "si_sealed_dek s = None" and "si_dek_cache s = None" and "si_poisoned s = {}"
  shows "set_secret T code_glue c x s = (Inl Panics, s\<lparr> si_poisoned := {SealedLock} \<rparr>)"
    and "get_secret T code_glue c s = (Inl Panics, s)" and "delete_credential code_glue c s = (Inl Panics, s)"
  using assms by (simp_all add: set_secret_def get_secret_def delete_credential_def ensure_dek_def cached_dek_def create_dek_def
      code_glue_def or_panic_def raise_failure_def with_lock_def sbind_def)

text \<open>Functions that do what their comments say: wrapping under the key, and a file per path.\<close>

definition working_glue :: "'p glue \<Rightarrow> 32 fixed \<Rightarrow> bool" where
  "working_glue G dek \<longleftrightarrow> gl_random_dek G = Some dek \<and>
     (\<forall>x. \<exists>b. gl_aead_wrap G dek x = Some (Inr b) \<and> gl_aead_unwrap G dek b = Some (Inr x)) \<and>
     gl_write G = Some (\<lambda>p b files. files(p \<mapsto> b)) \<and> gl_read G = Some (\<lambda>p files. files p) \<and>
     gl_persist G = Some (\<lambda>_. None)"

lemma first_dek:
  assumes "si_sealed_dek s = None" "si_dek_cache s = None" "si_poisoned s = {}" and "working_glue G dek"
    and "sealed_for T (si_srk s) (si_signing_pub s) (as_slice dek) (si_tpm s) = (Inr blobs, d)"
  shows "ensure_dek T G s = (Inr dek, s\<lparr> si_tpm := d, si_persisted := Some blobs, si_sealed_dek := Some blobs, si_dek_cache := Some dek \<rparr>)"
  using assms by (simp add: ensure_dek_def cached_dek_def create_dek_def cache_dek_def or_panic_def with_lock_def sbind_def sreturn_def
      tpm_op_def persist_sealed_dek_def working_glue_def)

text \<open>The first write of a process makes a new key, and every entry has the same file, so any credential then reads the
  last secret written, whatever its service and user; and after a restart nothing can be read, although the sealed key
  was persisted, since it is never loaded.\<close>

lemma entries_share_a_file:
  assumes "si_sealed_dek s = None" "si_dek_cache s = None" "si_poisoned s = {}" and "working_glue G dek"
    and "sealed_for T (si_srk s) (si_signing_pub s) (as_slice dek) (si_tpm s) = (Inr blobs, d)"
  shows "\<exists>s'. set_secret T G c x s = (Inr (), s') \<and> si_persisted s' = Some blobs \<and>
    (\<forall>c'. fst (get_secret T G c' s') = Inr (Some x)) \<and>
    (\<forall>opened s2 c'. store_new T (si_cfg s) (si_signing_pub s) (si_files s') (si_persisted s') opened = Inr s2 \<longrightarrow>
       fst (get_secret T G c' s2) = Inl (Fails (Convert ''no sealed DEK on disk'')))"
proof -
  obtain b where b: "gl_aead_wrap G dek x = Some (Inr b)" "gl_aead_unwrap G dek b = Some (Inr x)"
    using assms(4) by (auto simp: working_glue_def)
  have g: "gl_write G = Some (\<lambda>p b files. files(p \<mapsto> b))" "gl_read G = Some (\<lambda>p files. files p)"
    using assms(4) by (simp_all add: working_glue_def)
  define s' where "s' = s\<lparr> si_tpm := d, si_persisted := Some blobs, si_sealed_dek := Some blobs, si_dek_cache := Some dek,
      si_files := (si_files s)(credential_path c s \<mapsto> b) \<rparr>"
  have "set_secret T G c x s = (Inr (), s')"
    using first_dek [OF assms] b g by (simp add: set_secret_def or_panic_def sbind_def sreturn_def lift_fails_def s'_def credential_path_def)
  moreover have "fst (get_secret T G c' s') = Inr (Some x)" for c'
    using assms(3) b g by (simp add: get_secret_def or_panic_def sbind_def sreturn_def lift_fails_def dek_plaintext_def cached_dek_def
        with_lock_def s'_def credential_path_def entry_path_def)
  moreover have "fst (get_secret T G c' s2) = Inl (Fails (Convert ''no sealed DEK on disk''))"
    if "store_new T (si_cfg s) (si_signing_pub s) (si_files s') (si_persisted s') opened = Inr s2" for opened s2 c'
  proof -
    have "si_sealed_dek s2 = None" "si_dek_cache s2 = None" "si_poisoned s2 = {}" "si_files s2 = si_files s'" "si_cfg s2 = si_cfg s"
      using that by (auto simp: store_new_def load_sealed_dek_def split: sum.splits prod.splits)
    then show ?thesis
      by (simp add: get_secret_def or_panic_def g sbind_def sreturn_def dek_plaintext_def cached_dek_def with_lock_def raise_failure_def
          s'_def credential_path_def entry_path_def)
  qed
  ultimately show ?thesis by (auto simp: s'_def)
qed

text \<open>A process that has lost its cache, but holds the sealed key, opens it again exactly in an approved state.\<close>

lemma cold_dek:
  assumes "tpm_ok T V" and "sealed_for T (si_srk s) K (as_slice dek) d0 = (Inr (priv, pub), d1)"
    and "si_sealed_dek s = Some (priv, pub)" "si_dek_cache s = None" "si_poisoned s = {}"
    and "length (sc_approved_policy (si_cfg s)) + length policy_ref \<le> es_buffer_max T"
  shows "(\<exists>s'. dek_plaintext T s = (Inr key, s')) \<longleftrightarrow>
    key = dek \<and> opens V (vw_state V (si_tpm s)) (vw_authorize V (vw_name V K) policy_ref) (si_signing_pub s)
      (sc_approved_policy (si_cfg s)) (sc_policy_signature (si_cfg s))"
proof -
  obtain attrs where blob: "vw_blob V (si_srk s) priv pub = Some (Sealed attrs (vw_authorize V (vw_name V K) policy_ref) (as_slice dek))"
    using sealed_for_blob [OF assms(1,2)] by blast
  let ?u = "unseal T (si_srk s) priv pub (si_signing_pub s) (sc_approved_policy (si_cfg s)) (sc_policy_signature (si_cfg s)) (si_tpm s)"
  have conv: "fixed_try_from (as_slice dek) = (Inr dek :: type_error + 32 fixed)" by (simp add: fixed_try_from_Inr)
  show ?thesis
  proof (cases "opens V (vw_state V (si_tpm s)) (vw_authorize V (vw_name V K) policy_ref) (si_signing_pub s)
      (sc_approved_policy (si_cfg s)) (sc_policy_signature (si_cfg s))")
    case True
    then obtain d' where "?u = (Inr (as_slice dek), d')" using unseal_outcome [OF assms(1) blob assms(6), of "si_tpm s" "si_signing_pub s" "sc_policy_signature (si_cfg s)"] by auto
    then show ?thesis using True assms(3-5)
      by (auto simp: dek_plaintext_def cached_dek_def cache_dek_def with_lock_def sbind_def sreturn_def tpm_op_def conv)
  next
    case False
    then obtain e d' where "?u = (Inl e, d')" using unseal_outcome [OF assms(1) blob assms(6), of "si_tpm s" "si_signing_pub s" "sc_policy_signature (si_cfg s)"] by auto
    then show ?thesis using False assms(3-5)
      by (auto simp: dek_plaintext_def cached_dek_def with_lock_def sbind_def sreturn_def tpm_op_def)
  qed
qed

section \<open>The process-wide key store\<close>

text \<open>\<open>keyring_core\<close> keeps one default store for the process; a platform store registers itself when it is made and
  unregisters when it is dropped, and an entry is named by the package and a name.\<close>

record keyring =
  kr_available :: bool
  kr_default :: bool
  kr_entries :: "string \<times> string \<rightharpoonup> bytes"

definition secret_service_new :: "keyring \<Rightarrow> (unit + unit) \<times> keyring" where
  "secret_service_new k = (if kr_available k then (Inr (), k\<lparr> kr_default := True \<rparr>) else (Inl (), k))"

definition secret_service_drop :: "keyring \<Rightarrow> keyring" where
  "secret_service_drop k = k\<lparr> kr_default := False \<rparr>"

definition store_key :: "string \<Rightarrow> bytes \<Rightarrow> keyring \<Rightarrow> (unit + unit) \<times> keyring" where
  "store_key name key k =
     (if kr_default k then (Inr (), k\<lparr> kr_entries := (kr_entries k)((''todoers-client'', name) \<mapsto> key) \<rparr>) else (Inl (), k))"

definition get_key :: "string \<Rightarrow> keyring \<Rightarrow> (unit + bytes) \<times> keyring" where
  "get_key name k =
     (if kr_default k then (case kr_entries k (''todoers-client'', name) of Some b \<Rightarrow> (Inr b, k) | None \<Rightarrow> (Inl (), k)) else (Inl (), k))"

text \<open>One use of \<open>select_device_store\<close>: the store is made, used, and dropped.\<close>

definition with_device_store :: "(keyring \<Rightarrow> (unit + 'a) \<times> keyring) \<Rightarrow> keyring \<Rightarrow> (unit + 'a) \<times> keyring" where
  "with_device_store f k =
     (case secret_service_new k of
        (Inl e, k) \<Rightarrow> (Inl e, k)
      | (Inr _, k) \<Rightarrow> (case f k of (r, k) \<Rightarrow> (r, secret_service_drop k)))"

text \<open>A key written during one use is read in a later one; a use in between does not see the default store of another,
  and outside of a use nothing is read.\<close>

lemma key_survives_uses:
  assumes "with_device_store (store_key name key) k = (Inr (), k')"
  shows "with_device_store (get_key name) k' = (Inr key, k')" and "get_key name k' = (Inl (), k')"
  using assms by (auto simp: with_device_store_def secret_service_new_def secret_service_drop_def store_key_def get_key_def split: if_splits)

end
