(* ===== verification/ServerStart.thy ===== *)
theory ServerStart
  imports ServerDb
begin

text \<open>
  Start-up of the server: its OPAQUE setup (\<open>src/todoers-server/src/crypto.rs\<close>) and its
  configuration (\<open>config.rs\<close>).  Generating, serializing and deserializing a setup are parameters.
\<close>

section \<open>The OPAQUE setup\<close>

datatype 'e setup_error = CorruptSetup | NoDirectory 'e | NotADirectory | InvalidPath | NotPersisted 'e

definition setup_load :: "(bytes \<Rightarrow> 's option) \<Rightarrow> bytes \<Rightarrow> 'e setup_error + 's" where
  "setup_load de bs = ok_or CorruptSetup (de bs)"

text \<open>What the parent of the path is; for a missing one, how creating it ends.\<close>

datatype 'e parent_path = NoParent | MissingParent "'e option" | ParentDirectory | ParentFile

text \<open>The result, and what the file holds afterwards when it was written.  \<open>read\<close> is the outcome of reading
  the file, \<open>g\<close> the setup that is generated when one is needed, \<open>wr\<close> the error of the write.\<close>

definition load_or_init ::
    "('s \<Rightarrow> bytes) \<Rightarrow> (bytes \<Rightarrow> 's option) \<Rightarrow> 's \<Rightarrow> 'e + bytes \<Rightarrow> 'e parent_path \<Rightarrow> 'e option
      \<Rightarrow> ('e setup_error + 's) \<times> bytes option" where
  "load_or_init ser de g read parent wr =
     (case read of
        Inr bs \<Rightarrow> (setup_load de bs, None)
      | Inl _ \<Rightarrow>
          (case (case parent of
                   NoParent \<Rightarrow> Some InvalidPath
                 | MissingParent (Some e) \<Rightarrow> Some (NoDirectory e)
                 | MissingParent None \<Rightarrow> None
                 | ParentDirectory \<Rightarrow> None
                 | ParentFile \<Rightarrow> Some NotADirectory) of
             Some e \<Rightarrow> (Inl e, None)
           | None \<Rightarrow> (case wr of Some e \<Rightarrow> (Inl (NotPersisted e), None) | None \<Rightarrow> (Inr g, Some (ser g)))))"

text \<open>Starts one after the other: each is given its generated setup and the error of its read of
  the file, if there is one; \<open>missing\<close> is the error of reading a file that is not there.\<close>

fun server_starts ::
    "'e \<Rightarrow> ('s \<Rightarrow> bytes) \<Rightarrow> (bytes \<Rightarrow> 's option) \<Rightarrow> ('s \<times> 'e option) list \<Rightarrow> bytes option \<Rightarrow> ('e setup_error + 's) list" where
  "server_starts missing ser de [] file = []"
| "server_starts missing ser de ((g, rd) # starts) file =
     (let read = (case (rd, file) of (None, Some bs) \<Rightarrow> Inr bs | (Some e, _) \<Rightarrow> Inl e | (None, None) \<Rightarrow> Inl missing);
          (r, written) = load_or_init ser de g read ParentDirectory None
      in r # server_starts missing ser de starts (case written of Some bs \<Rightarrow> Some bs | None \<Rightarrow> file))"



section \<open>Configuration\<close>

text \<open>A source maps dotted keys to values, and an optional file that is missing is the empty map; of several
  sources the one added last decides.\<close>

type_synonym config_source = "string \<rightharpoonup> string"

definition build_config :: "config_source list \<Rightarrow> config_source" where
  "build_config srcs = foldl (++) Map.empty srcs"

record config_files =
  cs_local :: config_source
  cs_nested :: config_source
  cs_etc :: config_source
  cs_etc_dir :: config_source
  cs_base :: "config_source option"
  cs_project :: "config_source option"

definition opt_source :: "config_source option \<Rightarrow> config_source list" where
  "opt_source s = (case s of Some m \<Rightarrow> [m] | None \<Rightarrow> [])"

definition server_sources :: "bool \<Rightarrow> config_source \<Rightarrow> config_files \<Rightarrow> config_source list" where
  "server_sources unix env f =
     [cs_local f, cs_nested f, env] @ (if unix then [cs_etc f, cs_etc_dir f] else [])
       @ opt_source (cs_base f) @ opt_source (cs_project f)"

record general_config =
  gc_verify_signatures :: bool
  gc_key_file :: string

definition default_key_file :: "string option \<Rightarrow> string option \<Rightarrow> string" where
  "default_key_file project base = (case project of
     Some d \<Rightarrow> d @ ''/server_state.bin''
   | None \<Rightarrow> (case base of Some d \<Rightarrow> d @ ''/todoers/server_state.bin'' | None \<Rightarrow> ''server_state.bin''))"

definition general_default :: "string option \<Rightarrow> string option \<Rightarrow> general_config" where
  "general_default project base = \<lparr> gc_verify_signatures = True, gc_key_file = default_key_file project base \<rparr>"

record db_config =
  dc_host :: "string option"
  dc_port :: "16 word option"
  dc_database :: string
  dc_username :: "string option"
  dc_password :: "string option"
  dc_ca_path :: "string option"
  dc_cert_path :: "string option"
  dc_key_path :: "string option"
  dc_cleanup_interval :: nat

definition default_cleanup_interval :: nat where "default_cleanup_interval = 3600"

definition db_default :: db_config where
  "db_default = \<lparr> dc_host = None, dc_port = None, dc_database = ''postgres'', dc_username = None, dc_password = None,
     dc_ca_path = None, dc_cert_path = None, dc_key_path = None, dc_cleanup_interval = default_cleanup_interval \<rparr>"

record server_config =
  vc_address :: string
  vc_port :: "16 word"

definition server_default :: server_config where
  "server_default = \<lparr> vc_address = ''127.0.0.1'', vc_port = 8192 \<rparr>"

definition bind_addr :: "server_config \<Rightarrow> string" where
  "bind_addr c = vc_address c @ '':'' @ decimal (unat (vc_port c))"

lemma bind_addr_default: "bind_addr server_default = ''127.0.0.1:8192''"
  by (simp add: bind_addr_def server_default_def decimal.simps) code_simp

lemma foldl_map_add: "foldl (++) m ms k = (case foldl (++) Map.empty ms k of Some v \<Rightarrow> Some v | None \<Rightarrow> m k)"
proof (induction ms rule: rev_induct)
  case (snoc x xs)
  then show ?case by (simp add: map_add_def split: option.splits)
qed simp

text \<open>Files after the environment decide.  A key that a file under \<open>/etc\<close> or in a configuration directory
  sets has the value of that file whatever the environment says, and an environment variable only
  outranks the files of the working directory.\<close>

lemma environment_outranked:
  "build_config (server_sources unix env f) k =
     (case build_config ((if unix then [cs_etc f, cs_etc_dir f] else []) @ opt_source (cs_base f) @ opt_source (cs_project f)) k of
        Some v \<Rightarrow> Some v
      | None \<Rightarrow> (case env k of Some v \<Rightarrow> Some v | None \<Rightarrow> build_config [cs_local f, cs_nested f] k))"
proof -
  let ?late = "(if unix then [cs_etc f, cs_etc_dir f] else []) @ opt_source (cs_base f) @ opt_source (cs_project f)"
  have "build_config (server_sources unix env f) k = foldl (++) ((Map.empty ++ cs_local f ++ cs_nested f) ++ env) ?late k"
    by (simp add: build_config_def server_sources_def)
  then show ?thesis
    by (subst (asm) foldl_map_add) (simp add: build_config_def map_add_def split: option.splits)
qed

end
