(* ===== verification/ServerWorker.thy ===== *)
theory ServerWorker
  imports ServerRouter ServerProps
begin

text \<open>
  The cleanup worker beside the request handlers (\<open>todoers-server/src/workers.rs\<close>, \<open>main.rs\<close>).  The server reacts
  to requests, sockets and the worker's ticks one after the other; the worker deletes the sessions and the stashed
  logins that have expired.  The theory shows that no caller can tell whether it ran.
\<close>

section \<open>The worker\<close>

datatype worker_wakeup = IntervalTick int | ShutDown

text \<open>The loop of the worker: a tick cleans up, the token of the process ends it.\<close>

fun worker_loop :: "worker_wakeup list \<Rightarrow> app_state \<Rightarrow> app_state" where
  "worker_loop [] s = s"
| "worker_loop (IntervalTick now # ws) s = worker_loop ws (cleanup now s)"
| "worker_loop (ShutDown # ws) s = s"

section \<open>Events\<close>

datatype server_event =
    Request tick http_method string "string option" "request_body option"
  | Attach nat "list_id option" member_id
  | Forward nat list_id
  | Detach nat list_id
  | CleanupTick int

datatype server_reply = Responded http_response | Attached bool | Forwarded recv | Silent

fun react :: "server_env \<Rightarrow> server_event \<Rightarrow> app_state \<Rightarrow> server_reply \<times> app_state" where
  "react E (Request t m p auth b) s = apfst Responded (build_router E t m p auth b s)"
| "react E (Attach rid frame m) s = apfst Attached (ws_attach rid frame m s)"
| "react E (Forward rid l) s = apfst Forwarded (ws_forward rid l s)"
| "react E (Detach rid l) s = (Silent, s\<lparr> ap_hub := hub_unsubscribe rid l (ap_hub s) \<rparr>)"
| "react E (CleanupTick now) s = (Silent, cleanup now s)"

fun run_events :: "server_env \<Rightarrow> server_event list \<Rightarrow> app_state \<Rightarrow> server_reply list \<times> app_state" where
  "run_events E [] s = ([], s)"
| "run_events E (e # es) s = (case react E e s of (r, s') \<Rightarrow> apfst ((#) r) (run_events E es s'))"

fun is_cleanup :: "server_event \<Rightarrow> bool" where
  "is_cleanup (CleanupTick _) = True"
| "is_cleanup _ = False"

fun event_times :: "server_event \<Rightarrow> int list" where
  "event_times (Request t _ _ _ _) = [tk_now t]"
| "event_times (CleanupTick now) = [now]"
| "event_times _ = []"

text \<open>The hash of the session token and the login id a request would use.\<close>

fun event_hash :: "server_env \<Rightarrow> server_event \<Rightarrow> token_hash list" where
  "event_hash E (Request t _ _ _ _) = [en_sha512 E (as_slice (tk_token_rnd t))]"
| "event_hash E _ = []"

fun event_uuid :: "server_event \<Rightarrow> uuid list" where
  "event_uuid (Request t _ _ _ _) = [tk_uuid t]"
| "event_uuid _ = []"

section \<open>Operations that do not look at sessions and logins\<close>

definition with_auth :: "session_row list \<Rightarrow> login_row list \<Rightarrow> server_db \<Rightarrow> server_db" where
  "with_auth xs ls db = db\<lparr> sv_sessions := xs, sv_logins := ls \<rparr>"

lemma with_auth_simps [simp]:
  "sv_sessions (with_auth xs ls db) = xs" "sv_logins (with_auth xs ls db) = ls"
  "with_auth xs ls (with_auth ys ks db) = with_auth xs ls db" "with_auth (sv_sessions db) (sv_logins db) db = db"
  by (simp_all add: with_auth_def)

lemma with_auth_other [simp]:
  "sv_users (with_auth xs ls db) = sv_users db" "sv_lists (with_auth xs ls db) = sv_lists db"
  "sv_members (with_auth xs ls db) = sv_members db" "sv_slots (with_auth xs ls db) = sv_slots db"
  "sv_updates (with_auth xs ls db) = sv_updates db" "sv_snapshots (with_auth xs ls db) = sv_snapshots db"
  "sv_devices (with_auth xs ls db) = sv_devices db" "sv_next_seq (with_auth xs ls db) = sv_next_seq db"
  by (simp_all add: with_auth_def)

definition blind_read :: "(server_db \<Rightarrow> 'a) \<Rightarrow> bool" where
  "blind_read f \<longleftrightarrow> (\<forall>xs ls db. f (with_auth xs ls db) = f db)"

definition blind :: "'a sv_action \<Rightarrow> bool" where
  "blind f \<longleftrightarrow> (\<forall>xs ls db. f (with_auth xs ls db) = apsnd (with_auth xs ls) (f db))"

lemma member_dto_auth [simp]: "member_dto (with_auth xs ls db) = member_dto db"
  by (rule ext) (simp add: member_dto_def)

lemma blind_reads [simp]:
  "blind_read (sv_has_list l)" "blind_read (sv_has_user m)" "blind_read (fetch_updates_after l a n)"
  "blind_read (fetch_snapshot l)" "blind_read (member_role l m)" "blind_read (fetch_author_signing_pub l m)"
  "blind_read (fetch_members l)" "blind_read (fetch_my_key_slots l m)" "blind_read (fetch_user_pubkeys name)"
  "blind_read (fetch_user_lists m)" "blind_read (fetch_login_user name)" "blind_read (fetch_active_device_pub m d)"
  "blind_read (fetch_user_keys m)" "blind_read (list_trusted_device_keys m)" "blind_read (\<lambda>_. x)"
  by (simp_all add: blind_read_def sv_has_list_def sv_has_user_def fetch_updates_after_def fetch_snapshot_def member_role_def
      fetch_author_signing_pub_def fetch_members_def fetch_my_key_slots_def fetch_user_pubkeys_def fetch_user_lists_def
      fetch_login_user_def fetch_active_device_pub_def fetch_user_keys_def list_trusted_device_keys_def
      cong: option.case_cong)

lemma blind_readD: "blind_read f \<Longrightarrow> f (with_auth xs ls db) = f db"
  by (simp add: blind_read_def)

named_theorems blind_intros

lemma blind_query [blind_intros]: "blind_read f \<Longrightarrow> blind (query f)"
  by (simp add: blind_def blind_read_def query_def)

lemma blind_sbind [blind_intros]: "blind m \<Longrightarrow> (\<And>x. blind (f x)) \<Longrightarrow> blind (sbind m f)"
  by (auto simp: blind_def sbind_def split: prod.splits sum.splits)

lemma blind_simple [blind_intros]: "blind (sreturn x)" "blind (sfail e)" "blind (require e p)"
  by (auto simp: blind_def sreturn_def sfail_def require_def split: option.splits)

lemma blind_for_each [blind_intros]: "(\<And>x. blind (f x)) \<Longrightarrow> blind (for_each f xs)"
  by (induction xs) (auto intro: blind_intros)

lemma blind_transaction [blind_intros]: "blind f \<Longrightarrow> blind (safe_transaction f)"
  by (auto simp: blind_def safe_transaction_def split: prod.splits sum.splits)

lemma blind_statement:
  "(\<And>xs ls db. ok (with_auth xs ls db) = ok db) \<Longrightarrow> (\<And>xs ls db. u (with_auth xs ls db) = with_auth xs ls (u db)) \<Longrightarrow>
     blind (statement ok u)"
  by (simp add: blind_def statement_def)

lemma blind_if [blind_intros]: "blind f \<Longrightarrow> blind g \<Longrightarrow> blind (if c then f else g)"
  by simp

lemma blind_statements [blind_intros]:
  "blind (insert_member r)" "blind (add_slot k)" "blind (upsert_member r)" "blind (create_user u)"
  "blind (delete_list_sv l)" "blind (enroll_trusted_device_key now m dev pub label)"
  "blind (insert_update l ep a n c sig)" "blind (list_current_epoch l)"
proof -
  note reads = blind_reads [THEN blind_readD]
  show "blind (insert_member r)" "blind (add_slot k)" "blind (upsert_member r)" "blind (create_user u)"
    "blind (delete_list_sv l)" "blind (enroll_trusted_device_key now m dev pub label)"
    unfolding insert_member_def add_slot_def upsert_member_def create_user_def delete_list_sv_def enroll_trusted_device_key_def
    by (rule blind_statement; simp add: reads; simp add: with_auth_def)+
  show "blind (insert_update l ep a n c sig)"
    by (auto simp: blind_def insert_update_def Let_def reads [unfolded with_auth_def] with_auth_def
        split: option.splits)
  show "blind (list_current_epoch l)"
    by (auto simp: blind_def list_current_epoch_def require_def split: option.splits)
qed

lemma blind_actions [blind_intros]:
  "blind (upsert_snapshot l snap)" "blind (create_list_sv l m w)" "blind (add_member_sv l m r ep w)" "blind (rotate_slot l m ep k)"
  "blind (remove_member_sv l m ep ks)"
proof -
  note reads = blind_reads [THEN blind_readD]
  have stmt: "blind (statement ok u)"
    if "\<And>xs ls db. ok (with_auth xs ls db) = ok db" "\<And>xs ls db. u (with_auth xs ls db) = with_auth xs ls (u db)" for ok u
    using that by (rule blind_statement)
  show "blind (upsert_snapshot l snap)" "blind (create_list_sv l m w)"
    unfolding upsert_snapshot_def create_list_sv_def
    by (intro blind_intros stmt; simp add: reads; simp add: with_auth_def)+
  show "blind (add_member_sv l m r ep w)" unfolding add_member_sv_def by (intro blind_intros)
  show rot: "blind (rotate_slot l m ep k)" for ep k unfolding rotate_slot_def by (intro blind_intros)
  show "blind (remove_member_sv l m ep ks)"
    unfolding remove_member_sv_def Let_def
    by (intro blind_intros rot stmt; simp add: reads; simp add: with_auth_def)
qed

section \<open>A trimmed server behaves like the full one\<close>

text \<open>The database on the left is the one on the right without some rows that have expired by \<open>now\<close>; the keys of the
  right one are among those given out so far.\<close>

definition trimmed :: "token_hash set \<Rightarrow> uuid set \<Rightarrow> int \<Rightarrow> server_db \<Rightarrow> server_db \<Rightarrow> bool" where
  "trimmed K L now db db' \<longleftrightarrow>
     keyed sx_token_hash (sv_sessions db') \<and> keyed lc_login_id (sv_logins db') \<and>
     sx_token_hash ` set (sv_sessions db') \<subseteq> K \<and> lc_login_id ` set (sv_logins db') \<subseteq> L \<and>
     (\<exists>P Q. db = with_auth (filter P (sv_sessions db')) (filter Q (sv_logins db')) db' \<and>
        (\<forall>r\<in>set (sv_sessions db'). P r \<or> sx_expires_at r \<le> now) \<and> (\<forall>r\<in>set (sv_logins db'). Q r \<or> lc_expires_at r \<le> now))"

lemma trimmedI:
  assumes "keyed sx_token_hash (sv_sessions db')" and "keyed lc_login_id (sv_logins db')"
    and "sx_token_hash ` set (sv_sessions db') \<subseteq> K" and "lc_login_id ` set (sv_logins db') \<subseteq> L"
    and "db = with_auth (filter P (sv_sessions db')) (filter Q (sv_logins db')) db'"
    and "\<forall>r\<in>set (sv_sessions db'). P r \<or> sx_expires_at r \<le> now"
    and "\<forall>r\<in>set (sv_logins db'). Q r \<or> lc_expires_at r \<le> now"
  shows "trimmed K L now db db'"
  using assms unfolding trimmed_def by blast

lemma trimmedE:
  assumes "trimmed K L now db db'"
  obtains P Q where "keyed sx_token_hash (sv_sessions db')" and "keyed lc_login_id (sv_logins db')"
    and "sx_token_hash ` set (sv_sessions db') \<subseteq> K" and "lc_login_id ` set (sv_logins db') \<subseteq> L"
    and "db = with_auth (filter P (sv_sessions db')) (filter Q (sv_logins db')) db'"
    and "\<forall>r\<in>set (sv_sessions db'). P r \<or> sx_expires_at r \<le> now"
    and "\<forall>r\<in>set (sv_logins db'). Q r \<or> lc_expires_at r \<le> now"
  using assms unfolding trimmed_def by blast

lemma trimmed_mono:
  assumes "trimmed K L now db db'" and "K \<subseteq> K'" and "L \<subseteq> L'" and "now \<le> now'"
  shows "trimmed K' L' now' db db'"
  using assms(1)
proof (rule trimmedE)
  fix P Q
  assume t: "keyed sx_token_hash (sv_sessions db')" "keyed lc_login_id (sv_logins db')"
    "sx_token_hash ` set (sv_sessions db') \<subseteq> K" "lc_login_id ` set (sv_logins db') \<subseteq> L"
    "db = with_auth (filter P (sv_sessions db')) (filter Q (sv_logins db')) db'"
    "\<forall>r\<in>set (sv_sessions db'). P r \<or> sx_expires_at r \<le> now"
    "\<forall>r\<in>set (sv_logins db'). Q r \<or> lc_expires_at r \<le> now"
  have "P r \<or> sx_expires_at r \<le> now'" if "r \<in> set (sv_sessions db')" for r using t(6) that assms(4) by fastforce
  moreover have "Q r \<or> lc_expires_at r \<le> now'" if "r \<in> set (sv_logins db')" for r using t(7) that assms(4) by fastforce
  ultimately show ?thesis using t(1-5) assms(2,3) by (intro trimmedI [where P = P and Q = Q]) auto
qed

lemma trimmed_blind:
  assumes "trimmed K L now db db'" and "blind f"
  shows "fst (f db) = fst (f db') \<and> trimmed K L now (snd (f db)) (snd (f db'))"
proof -
  from assms(1) obtain P Q where t: "keyed sx_token_hash (sv_sessions db')" "keyed lc_login_id (sv_logins db')"
    "sx_token_hash ` set (sv_sessions db') \<subseteq> K" "lc_login_id ` set (sv_logins db') \<subseteq> L"
    "db = with_auth (filter P (sv_sessions db')) (filter Q (sv_logins db')) db'"
    "\<forall>r\<in>set (sv_sessions db'). P r \<or> sx_expires_at r \<le> now"
    "\<forall>r\<in>set (sv_logins db'). Q r \<or> lc_expires_at r \<le> now" by (rule trimmedE) blast
  have f: "f (with_auth xs ls d) = apsnd (with_auth xs ls) (f d)" for xs ls d using assms(2) by (simp add: blind_def)
  have "f db' = apsnd (with_auth (sv_sessions db') (sv_logins db')) (f db')"
    using f [of "sv_sessions db'" "sv_logins db'" db'] by simp
  then have keep: "sv_sessions (snd (f db')) = sv_sessions db'" "sv_logins (snd (f db')) = sv_logins db'"
    by (metis with_auth_simps(1,2) snd_apsnd)+
  show ?thesis
  proof
    show "fst (f db) = fst (f db')" using f by (simp add: t(5))
    show "trimmed K L now (snd (f db)) (snd (f db'))"
      by (rule trimmedI [where P = P and Q = Q]) (use t f in \<open>simp_all add: keep\<close>)
  qed
qed

lemma trimmed_lookup:
  assumes "trimmed K L now db db'"
  shows "lookup_session now th db = lookup_session now th db'"
  using assms
proof (rule trimmedE)
  fix P Q
  assume t: "keyed sx_token_hash (sv_sessions db')" "db = with_auth (filter P (sv_sessions db')) (filter Q (sv_logins db')) db'"
    "\<forall>r\<in>set (sv_sessions db'). P r \<or> sx_expires_at r \<le> now"
  show ?thesis
  proof (cases "row_get sx_token_hash th (sv_sessions db')")
    case (Some r)
    then have "r \<in> set (sv_sessions db')" by (auto dest: row_get_Some_key)
    then show ?thesis using t(3) Some by (auto simp: lookup_session_def t(2) row_get_filter [OF t(1)])
  qed (simp add: lookup_session_def t(2) row_get_filter [OF t(1)])
qed

text \<open>Statements on the two tables themselves: deleting by a predicate, and adding a row with a key not used before.\<close>

lemma trimmed_filter:
  assumes "trimmed K L now db db'"
  shows "trimmed K L now (with_auth (filter A (sv_sessions db)) (filter B (sv_logins db)) db)
    (with_auth (filter A (sv_sessions db')) (filter B (sv_logins db')) db')"
  using assms
proof (rule trimmedE)
  fix P Q
  assume t: "keyed sx_token_hash (sv_sessions db')" "keyed lc_login_id (sv_logins db')"
    "sx_token_hash ` set (sv_sessions db') \<subseteq> K" "lc_login_id ` set (sv_logins db') \<subseteq> L"
    "db = with_auth (filter P (sv_sessions db')) (filter Q (sv_logins db')) db'"
    "\<forall>r\<in>set (sv_sessions db'). P r \<or> sx_expires_at r \<le> now"
    "\<forall>r\<in>set (sv_logins db'). Q r \<or> lc_expires_at r \<le> now"
  show ?thesis
    by (rule trimmedI [where P = P and Q = Q]) (use t(1-4,6,7) in \<open>auto simp: t(5) conj_commute\<close>)
qed

lemma filter_keeps_all: "filter (\<lambda>_. True) xs = xs"
  by simp

lemma trimmed_statement:
  assumes "trimmed K L now db db'"
    and "\<And>db. u db = with_auth (filter A (sv_sessions db)) (filter B (sv_logins db)) db"
  shows "fst (statement (\<lambda>_. True) u db) = fst (statement (\<lambda>_. True) u db') \<and>
     trimmed K L now (snd (statement (\<lambda>_. True) u db)) (snd (statement (\<lambda>_. True) u db'))"
  using trimmed_filter [OF assms(1), of A B] by (simp add: statement_def assms(2))

lemma trimmed_create_session:
  assumes "trimmed K L now db db'" and "th \<notin> K"
  shows "fst (create_session t m th ex dev db) = fst (create_session t m th ex dev db') \<and>
     trimmed (insert th K) L now (snd (create_session t m th ex dev db)) (snd (create_session t m th ex dev db'))"
  using assms(1)
proof (rule trimmedE)
  fix P Q
  assume t: "keyed sx_token_hash (sv_sessions db')" "keyed lc_login_id (sv_logins db')"
    "sx_token_hash ` set (sv_sessions db') \<subseteq> K" "lc_login_id ` set (sv_logins db') \<subseteq> L"
    "db = with_auth (filter P (sv_sessions db')) (filter Q (sv_logins db')) db'"
    "\<forall>r\<in>set (sv_sessions db'). P r \<or> sx_expires_at r \<le> now"
    "\<forall>r\<in>set (sv_logins db'). Q r \<or> lc_expires_at r \<le> now"
  have new: "row_get sx_token_hash th (sv_sessions db') = None" "row_get sx_token_hash th (filter P (sv_sessions db')) = None"
    using t(3) assms(2) by (auto simp: row_get_None)
  have old: "filter (\<lambda>r. P r \<or> sx_token_hash r = th) (sv_sessions db') = filter P (sv_sessions db')"
    using new(1) by (intro filter_cong) (auto simp: row_get_None)
  let ?row = "\<lparr> sx_token_hash = th, sx_member_id = m, sx_device_id = dev, sx_expires_at = ex, sx_created_at = t \<rparr>"
  have user: "sv_has_user m db = sv_has_user m db'" by (simp add: t(5) blind_reads [THEN blind_readD])
  have mono: "trimmed (insert th K) L now db db'" by (rule trimmed_mono [OF assms(1)]) auto
  have "trimmed (insert th K) L now (db\<lparr> sv_sessions := sv_sessions db @ [?row] \<rparr>) (db'\<lparr> sv_sessions := sv_sessions db' @ [?row] \<rparr>)"
    by (rule trimmedI [where P = "\<lambda>r. P r \<or> sx_token_hash r = th" and Q = Q])
      (use t(1-4,6,7) new in \<open>auto simp: t(5) old keyed_def with_auth_def row_get_None\<close>)
  then show ?thesis using new user mono by (simp add: create_session_def statement_def t(5))
qed

lemma trimmed_login_start:
  assumes "trimmed K L now db db'" and "i \<notin> L"
  shows "fst (login_start t i d m db) = fst (login_start t i d m db') \<and>
     trimmed K (insert i L) now (snd (login_start t i d m db)) (snd (login_start t i d m db'))"
  using assms(1)
proof (rule trimmedE)
  fix P Q
  assume t: "keyed sx_token_hash (sv_sessions db')" "keyed lc_login_id (sv_logins db')"
    "sx_token_hash ` set (sv_sessions db') \<subseteq> K" "lc_login_id ` set (sv_logins db') \<subseteq> L"
    "db = with_auth (filter P (sv_sessions db')) (filter Q (sv_logins db')) db'"
    "\<forall>r\<in>set (sv_sessions db'). P r \<or> sx_expires_at r \<le> now"
    "\<forall>r\<in>set (sv_logins db'). Q r \<or> lc_expires_at r \<le> now"
  have new: "row_get lc_login_id i (sv_logins db') = None" "row_get lc_login_id i (filter Q (sv_logins db')) = None"
    using t(4) assms(2) by (auto simp: row_get_None)
  have old: "filter (\<lambda>r. Q r \<or> lc_login_id r = i) (sv_logins db') = filter Q (sv_logins db')"
    using new(1) by (intro filter_cong) (auto simp: row_get_None)
  let ?row = "\<lparr> lc_login_id = i, lc_member_id = m, lc_state = d, lc_expires_at = t + login_ttl \<rparr>"
  have user: "sv_has_user k db = sv_has_user k db'" for k by (simp add: t(5) blind_reads [THEN blind_readD])
  have mono: "trimmed K (insert i L) now db db'" by (rule trimmed_mono [OF assms(1)]) auto
  have "trimmed K (insert i L) now (db\<lparr> sv_logins := sv_logins db @ [?row] \<rparr>) (db'\<lparr> sv_logins := sv_logins db' @ [?row] \<rparr>)"
    by (rule trimmedI [where P = P and Q = "\<lambda>r. Q r \<or> lc_login_id r = i"])
      (use t(1-4,6,7) new in \<open>auto simp: t(5) old keyed_def with_auth_def row_get_None\<close>)
  then show ?thesis using new user mono
    by (simp add: login_start_def safe_transaction_def sbind_def sreturn_def statement_def t(5) split: option.split)
qed

lemma trimmed_login_finish:
  assumes "trimmed K L now db db'"
  shows "fst (login_finish now i db) = fst (login_finish now i db') \<and>
     trimmed K L now (snd (login_finish now i db)) (snd (login_finish now i db'))"
proof -
  let ?q = "\<lambda>db. case row_get lc_login_id i (sv_logins db) of
     None \<Rightarrow> None | Some r \<Rightarrow> if now < lc_expires_at r then Some (lc_state r, lc_member_id r) else None"
  have "?q db = ?q db'"
    using assms
  proof (rule trimmedE)
    fix P Q
    assume t: "keyed lc_login_id (sv_logins db')" "db = with_auth (filter P (sv_sessions db')) (filter Q (sv_logins db')) db'"
      "\<forall>r\<in>set (sv_logins db'). Q r \<or> lc_expires_at r \<le> now"
    show ?thesis
    proof (cases "row_get lc_login_id i (sv_logins db')")
      case (Some r)
      then have "r \<in> set (sv_logins db')" by (auto dest: row_get_Some_key)
      then show ?thesis using t(3) Some by (auto simp: t(2) row_get_filter [OF t(1)])
    qed (simp add: t(2) row_get_filter [OF t(1)])
  qed
  moreover have "trimmed K L now (db\<lparr> sv_logins := row_del lc_login_id i (sv_logins db) \<rparr>)
      (db'\<lparr> sv_logins := row_del lc_login_id i (sv_logins db') \<rparr>)"
    using trimmed_filter [OF assms, of "\<lambda>_. True" "\<lambda>r. lc_login_id r \<noteq> i"] by (simp add: with_auth_def row_del_def)
  ultimately show ?thesis
    by (simp add: login_finish_def safe_transaction_def sbind_def sreturn_def statement_def query_def)
qed

lemma trimmed_cleanup:
  assumes "trimmed K L now db db'" and "now \<le> now'"
  shows "trimmed K L now' (cleanup_expired_logins now' (cleanup_expired_sessions now' db)) db'"
  using trimmed_mono [OF assms(1) order_refl order_refl assms(2)]
proof (rule trimmedE)
  fix P Q
  assume t: "keyed sx_token_hash (sv_sessions db')" "keyed lc_login_id (sv_logins db')"
    "sx_token_hash ` set (sv_sessions db') \<subseteq> K" "lc_login_id ` set (sv_logins db') \<subseteq> L"
    "db = with_auth (filter P (sv_sessions db')) (filter Q (sv_logins db')) db'"
    "\<forall>r\<in>set (sv_sessions db'). P r \<or> sx_expires_at r \<le> now'"
    "\<forall>r\<in>set (sv_logins db'). Q r \<or> lc_expires_at r \<le> now'"
  show ?thesis
    by (rule trimmedI [where P = "\<lambda>r. P r \<and> \<not> sx_expires_at r \<le> now'" and Q = "\<lambda>r. Q r \<and> \<not> lc_expires_at r \<le> now'"])
      (use t in \<open>auto simp: with_auth_def cleanup_expired_logins_def cleanup_expired_sessions_def conj_commute\<close>)
qed

section \<open>Handlers under the relation\<close>

definition paired :: "(server_db \<Rightarrow> server_db \<Rightarrow> bool) \<Rightarrow> app_state \<Rightarrow> app_state \<Rightarrow> bool" where
  "paired R s s' \<longleftrightarrow> R (ap_db s) (ap_db s') \<and> ap_hub s = ap_hub s' \<and> ap_verify_signatures s = ap_verify_signatures s'"

definition simulates ::
    "(server_db \<Rightarrow> server_db \<Rightarrow> bool) \<Rightarrow> (server_db \<Rightarrow> server_db \<Rightarrow> bool) \<Rightarrow> (app_state \<Rightarrow> 'r \<times> app_state) \<Rightarrow> bool" where
  "simulates A B h \<longleftrightarrow>
     (\<forall>s s'. paired A s s' \<longrightarrow> fst (h s) = fst (h s') \<and> paired B (snd (h s)) (snd (h s')))"

lemma simulates_weaken: "simulates A B h \<Longrightarrow> B \<le> C \<Longrightarrow> simulates A C h"
  by (auto simp: simulates_def paired_def le_fun_def)

lemma simulates_sbind:
  assumes m: "simulates A B m" and f: "\<And>x. simulates B C (f x)" and le: "B \<le> C"
  shows "simulates A C (sbind m f)"
  unfolding simulates_def
proof (intro allI impI)
  fix s s' assume p: "paired A s s'"
  from m p have m': "fst (m s) = fst (m s')" "paired B (snd (m s)) (snd (m s'))" by (auto simp: simulates_def)
  show "fst (sbind m f s) = fst (sbind m f s') \<and> paired C (snd (sbind m f s)) (snd (sbind m f s'))"
  proof (cases "fst (m s)")
    case (Inl e)
    then have "m s = (Inl e, snd (m s))" "m s' = (Inl e, snd (m s'))" using m'(1) by (metis prod.collapse)+
    then have "sbind m f s = (Inl e, snd (m s))" "sbind m f s' = (Inl e, snd (m s'))"
      by (simp_all add: sbind_def) (metis (lifting) old.prod.case old.sum.simps(5))+
    then show ?thesis using m'(2) le by (auto simp: paired_def le_fun_def)
  next
    case (Inr x)
    then have "m s = (Inr x, snd (m s))" "m s' = (Inr x, snd (m s'))" using m'(1) by (metis prod.collapse)+
    then have "sbind m f s = f x (snd (m s))" "sbind m f s' = f x (snd (m s'))"
      by (simp_all add: sbind_def) (metis (lifting) old.prod.case old.sum.simps(6))+
    then show ?thesis using f [of x] m'(2) by (simp add: simulates_def)
  qed
qed

named_theorems sim_intros

lemma sim_bind [sim_intros]: "simulates A A m \<Longrightarrow> (\<And>x. simulates A A (f x)) \<Longrightarrow> simulates A A (sbind m f)"
  by (rule simulates_sbind) auto

lemma sim_on_db:
  assumes "\<And>db db'. A db db' \<Longrightarrow> fst (f db) = fst (f db') \<and> B (snd (f db)) (snd (f db'))"
  shows "simulates A B (on_db f)"
  using assms by (auto simp: simulates_def paired_def on_db_def split: prod.split) (metis fst_conv snd_conv)+

lemma sim_blind [sim_intros]: "blind f \<Longrightarrow> simulates (trimmed K L now) (trimmed K L now) (on_db f)"
  by (rule sim_on_db) (rule trimmed_blind)

lemma sim_ask [sim_intros]:
  assumes "blind_read f"
  shows "simulates (trimmed K L now) (trimmed K L now) (ask e f)"
proof -
  have "f db = f db'" if "trimmed K L now db db'" for db db'
    using that by (rule trimmedE) (use blind_readD [OF assms] in simp)
  then show ?thesis by (auto simp: simulates_def paired_def ask_def split: option.split)
qed

lemma sim_pure [sim_intros]:
  "simulates A A (ensure e b)" "simulates A A (body_or body)" "simulates A A (sreturn x)" "simulates A A (step_up now a)"
  by (auto simp: simulates_def ensure_def body_or_def sreturn_def step_up_def split: option.split)

lemma sim_verify [sim_intros]:
  "simulates A A (\<lambda>s. ensure e (ap_verify_signatures s \<longrightarrow> q) s)"
  "simulates A A f \<Longrightarrow> simulates A A (\<lambda>s. if ap_verify_signatures s then f s else (Inr (), s))"
  by (auto simp: simulates_def paired_def ensure_def)

lemma sim_publish [sim_intros]: "simulates A A (\<lambda>s. (r, s\<lparr> ap_hub := h (ap_hub s) \<rparr>))"
  by (auto simp: simulates_def paired_def)

lemma sim_case_prod [sim_intros]: "(\<And>a b. simulates A B (f a b)) \<Longrightarrow> simulates A B (case p of (a, b) \<Rightarrow> f a b)"
  by (cases p) simp

lemma sim_case_option [sim_intros]:
  "simulates A B f \<Longrightarrow> (\<And>x. simulates A B (g x)) \<Longrightarrow> simulates A B (case p of None \<Rightarrow> f | Some x \<Rightarrow> g x)"
  by (cases p) simp_all

lemma sim_owner [sim_intros]: "simulates (trimmed K L now) (trimmed K L now) (require_owner l m)"
proof -
  have "member_role l m db = member_role l m db'" if "trimmed K L now db db'" for db db'
    using that by (rule trimmedE) (simp add: blind_reads [THEN blind_readD])
  then show ?thesis by (auto simp: simulates_def paired_def require_owner_def ensure_def)
qed

lemma sim_auth [sim_intros]: "simulates (trimmed K L now) (trimmed K L now) (auth_extractor E now header)"
  using trimmed_lookup [of K L now]
  by (auto simp: simulates_def paired_def auth_extractor_def split: option.split sum.split)

lemma sim_session_tables [sim_intros]:
  "simulates (trimmed K L now) (trimmed K L now) (on_db (delete_session th))"
  "simulates (trimmed K L now) (trimmed K L now) (on_db (login_finish now i))"
  "simulates (trimmed K L now) (trimmed K L now) (on_db (revoke_trusted_device_key now m dev))"
proof -
  show "simulates (trimmed K L now) (trimmed K L now) (on_db (delete_session th))"
    unfolding delete_session_def
    by (rule sim_on_db, rule trimmed_statement [where A = "\<lambda>r. sx_token_hash r \<noteq> th" and B = "\<lambda>_. True"])
      (simp_all add: with_auth_def row_del_def)
  show "simulates (trimmed K L now) (trimmed K L now) (on_db (login_finish now i))"
    by (rule sim_on_db) (rule trimmed_login_finish)
  let ?dev = "statement (\<lambda>_. True) (\<lambda>db. db\<lparr> sv_devices :=
     row_update (\<lambda>r. device_key r = (m, dev) \<and> dv_revoked_at r = None) (dv_revoked_at_update (\<lambda>_. Some now)) (sv_devices db) \<rparr>)"
  let ?sess = "\<lambda>db. db\<lparr> sv_sessions := filter (\<lambda>r. \<not> (sx_member_id r = m \<and> sx_device_id r = Some dev)) (sv_sessions db) \<rparr>"
  have eq: "revoke_trusted_device_key now m dev db = statement (\<lambda>_. True) ?sess (snd (?dev db))" for db
    by (simp add: revoke_trusted_device_key_def safe_transaction_def sbind_def statement_def)
  have "blind ?dev" by (rule blind_statement) (simp_all add: with_auth_def)
  then have "trimmed K L now (snd (?dev db)) (snd (?dev db'))" if "trimmed K L now db db'" for db db'
    using trimmed_blind [OF that] by blast
  then show "simulates (trimmed K L now) (trimmed K L now) (on_db (revoke_trusted_device_key now m dev))"
    by (intro sim_on_db)
      (simp only: eq, rule trimmed_statement [where A = "\<lambda>r. \<not> (sx_member_id r = m \<and> sx_device_id r = Some dev)" and B = "\<lambda>_. True"],
       simp_all add: with_auth_def)
qed

lemma sim_list_routes:
  "simulates (trimmed K L now) (trimmed K L now) (append_update_route E now header b1)"
  "simulates (trimmed K L now) (trimmed K L now) (pull_updates_route E now header b2)"
  "simulates (trimmed K L now) (trimmed K L now) (get_snapshot_route E now header b3)"
  "simulates (trimmed K L now) (trimmed K L now) (put_snapshot_route E now header b4)"
  "simulates (trimmed K L now) (trimmed K L now) (create_list_route E now header b5)"
  "simulates (trimmed K L now) (trimmed K L now) (fetch_lists_route E now header)"
  "simulates (trimmed K L now) (trimmed K L now) (delete_list_route E now header b6)"
  "simulates (trimmed K L now) (trimmed K L now) (add_member_route E now header b7)"
  "simulates (trimmed K L now) (trimmed K L now) (remove_member_route E now header b8)"
  "simulates (trimmed K L now) (trimmed K L now) (get_metadata_route E now header b9)"
  "simulates (trimmed K L now) (trimmed K L now) (get_my_keys_route E now header b10)"
  "simulates (trimmed K L now) (trimmed K L now) (get_user_pubkeys_route E now header b11)"
  unfolding append_update_route_def pull_updates_route_def get_snapshot_route_def put_snapshot_route_def create_list_route_def
    fetch_lists_route_def delete_list_route_def add_member_route_def remove_member_route_def get_metadata_route_def
    get_my_keys_route_def get_user_pubkeys_route_def
  by (intro sim_intros blind_intros blind_reads)+

lemma sim_auth_routes:
  "simulates A A (registration_start E b12)"
  "simulates (trimmed K L now) (trimmed K L now) (registration_finish E b13)"
  "simulates (trimmed K L now) (trimmed K L now) (logout_route E now header)"
  "simulates (trimmed K L now) (trimmed K L now) (enroll_route E now header b16)"
  "simulates (trimmed K L now) (trimmed K L now) (list_devices_route E now header)"
  "simulates (trimmed K L now) (trimmed K L now) (revoke_route E now header b17)"
proof -
  have const: "simulates A A (ask e (\<lambda>_. x))" for A e and x :: "'x option"
    by (auto simp: simulates_def ask_def split: option.split)
  show "simulates A A (registration_start E b12)"
    unfolding registration_start_def by (intro sim_intros const)
  show "simulates (trimmed K L now) (trimmed K L now) (registration_finish E b13)"
    "simulates (trimmed K L now) (trimmed K L now) (logout_route E now header)"
    "simulates (trimmed K L now) (trimmed K L now) (enroll_route E now header b16)"
    "simulates (trimmed K L now) (trimmed K L now) (list_devices_route E now header)"
    "simulates (trimmed K L now) (trimmed K L now) (revoke_route E now header b17)"
    unfolding registration_finish_def logout_route_def enroll_route_def list_devices_route_def revoke_route_def Let_def
    by (intro sim_intros blind_intros blind_reads)+
qed

text \<open>A handler that stores a new row runs with the relation of before up to that point, and of after from there.\<close>

lemma grown: "trimmed K L now \<le> trimmed (insert th K) L now" "trimmed K L now \<le> trimmed K (insert i L) now"
  by (auto simp: le_fun_def elim: trimmed_mono)

lemma sim_store_session:
  assumes "th \<notin> K" and "\<And>x. simulates (trimmed (insert th K) L now) (trimmed (insert th K) L now) (f x)"
  shows "simulates (trimmed K L now) (trimmed (insert th K) L now) (sbind (on_db (create_session t m th ex dev)) f)"
proof (rule simulates_sbind)
  show "simulates (trimmed K L now) (trimmed (insert th K) L now) (on_db (create_session t m th ex dev))"
    by (rule sim_on_db, rule trimmed_create_session) (use assms(1) in auto)
qed (use assms(2) in auto)

lemma sim_store_login:
  assumes "i \<notin> L" and "\<And>x. simulates (trimmed K (insert i L) now) (trimmed K (insert i L) now) (f x)"
  shows "simulates (trimmed K L now) (trimmed K (insert i L) now) (sbind (on_db (login_start t i d m)) f)"
proof (rule simulates_sbind)
  show "simulates (trimmed K L now) (trimmed K (insert i L) now) (on_db (login_start t i d m))"
    by (rule sim_on_db, rule trimmed_login_start) (use assms(1) in auto)
qed (use assms(2) in auto)

lemma sim_before:
  assumes "simulates (trimmed K L now) (trimmed K L now) m" and "\<And>x. simulates (trimmed K L now) B (f x)" and "trimmed K L now \<le> B"
  shows "simulates (trimmed K L now) B (sbind m f)"
  using assms by (rule simulates_sbind)

lemma sim_login_routes:
  assumes "th = en_sha512 E (as_slice rnd)"
  shows "th \<notin> K \<Longrightarrow> simulates (trimmed K L now) (trimmed (insert th K) L now) (login_finish_route E now rnd b1)"
    and "th \<notin> K \<Longrightarrow> simulates (trimmed K L now) (trimmed (insert th K) L now) (device_login_finish_route E now rnd b2)"
    and "i \<notin> L \<Longrightarrow> simulates (trimmed K L now) (trimmed K (insert i L) now) (login_start_route E now i rn b3)"
    and "i \<notin> L \<Longrightarrow> simulates (trimmed K L now) (trimmed K (insert i L) now) (device_login_start_route now i nonce b4)"
  unfolding login_finish_route_def device_login_finish_route_def login_start_route_def device_login_start_route_def
    mint_session_token_def Let_def prod.case assms
  by (rule sim_store_session sim_store_login sim_before sim_intros blind_intros blind_reads grown | assumption)+

lemma sim_respond: "simulates A B h \<Longrightarrow> simulates A B (respond st f h)"
  by (auto simp: simulates_def respond_def split: prod.split sum.split) (metis fst_conv snd_conv Inl_inject Inr_inject sum.distinct)+

lemma sim_plain: "simulates A A (plain st)"
  by (simp add: simulates_def plain_def)

lemma sim_if: "(c \<Longrightarrow> simulates A B f) \<Longrightarrow> (\<not> c \<Longrightarrow> simulates A B g) \<Longrightarrow> simulates A B (if c then f else g)"
  by simp

lemma sim_method:
  "simulates A B g \<Longrightarrow> simulates A B p \<Longrightarrow> simulates A B u \<Longrightarrow> simulates A B d \<Longrightarrow>
     simulates A B (case m of GET \<Rightarrow> g | POST \<Rightarrow> p | PUT \<Rightarrow> u | DELETE \<Rightarrow> d)"
  by (cases m) simp_all

text \<open>One request: its token hash and its login id may have been given out afterwards.\<close>

lemma sim_router:
  assumes "en_sha512 E (as_slice (tk_token_rnd t)) \<notin> K" and "tk_uuid t \<notin> L"
  shows "simulates (trimmed K L (tk_now t)) (trimmed (insert (en_sha512 E (as_slice (tk_token_rnd t))) K) (insert (tk_uuid t) L) (tk_now t))
    (build_router E t m p auth b)"
    (is "simulates ?A ?B _")
proof -
  let ?K = "insert (en_sha512 E (as_slice (tk_token_rnd t))) K" and ?L = "insert (tk_uuid t) L"
  have le: "?A \<le> ?B" "trimmed ?K L (tk_now t) \<le> ?B" "trimmed K ?L (tk_now t) \<le> ?B"
    by (auto simp: le_fun_def elim: trimmed_mono)
  note same = sim_list_routes [THEN simulates_weaken, OF le(1)] sim_auth_routes [THEN simulates_weaken, OF le(1)]
  note logins = sim_login_routes(1,2) [OF refl assms(1), THEN simulates_weaken, OF le(2)]
    sim_login_routes(3,4) [OF refl assms(2), THEN simulates_weaken, OF le(3)]
  have plain: "simulates ?A ?B (plain st)" for st by (rule simulates_weaken [OF sim_plain le(1)])
  have health: "simulates ?A ?B (\<lambda>s. (r, s))" for r :: http_response
    using le(1) by (auto simp: simulates_def paired_def le_fun_def)
  show ?thesis
    unfolding build_router_def route_lists_def route_members_def route_updates_def route_snapshot_def route_devices_def route_auth_def
    by (rule sim_if sim_method sim_respond same logins plain health)+
qed

section \<open>No caller sees the worker\<close>

lemma sim_sockets:
  "simulates (trimmed K L now) (trimmed K L now) (ws_attach rid frame m)"
  "simulates A A (ws_forward rid l)"
proof -
  have "member_role l m db = member_role l m db'" if "trimmed K L now db db'" for l db db'
    using that by (rule trimmedE) (simp add: blind_reads [THEN blind_readD])
  then show "simulates (trimmed K L now) (trimmed K L now) (ws_attach rid frame m)"
    by (auto simp: simulates_def paired_def ws_attach_def split: option.split)
  show "simulates A A (ws_forward rid l)"
    by (auto simp: simulates_def paired_def ws_forward_def split: prod.split recv.split)
qed

lemma run_trimmed:
  assumes "paired (trimmed K L now) s s'" and "sorted (now # concat (map event_times evs))"
    and "distinct (concat (map (event_hash E) evs))" and "set (concat (map (event_hash E) evs)) \<inter> K = {}"
    and "distinct (concat (map event_uuid evs))" and "set (concat (map event_uuid evs)) \<inter> L = {}"
  shows "\<exists>K' L' now'. 
    filter (\<lambda>r. r \<noteq> Silent) (fst (run_events E evs s)) =
      filter (\<lambda>r. r \<noteq> Silent) (fst (run_events E (filter (\<lambda>e. \<not> is_cleanup e) evs) s')) \<and>
    paired (trimmed K' L' now') (snd (run_events E evs s)) (snd (run_events E (filter (\<lambda>e. \<not> is_cleanup e) evs) s'))"
  using assms
proof (induction evs arbitrary: K L now s s')
  case Nil
  then show ?case by auto
next
  case (Cons e evs)
  have same: ?case if sim: "simulates (trimmed K L now) (trimmed K' L' now') (react E e)" and "\<not> is_cleanup e"
      and "sorted (now' # concat (map event_times evs))"
      and "set (concat (map (event_hash E) evs)) \<inter> K' = {}" "set (concat (map event_uuid evs)) \<inter> L' = {}" for K' L' now'
  proof -
    let ?r = "fst (react E e s)"
    have r: "fst (react E e s') = ?r" and p: "paired (trimmed K' L' now') (snd (react E e s)) (snd (react E e s'))"
      using sim Cons.prems(1) by (auto simp: simulates_def)
    have "distinct (concat (map (event_hash E) evs))" "distinct (concat (map event_uuid evs))"
      using Cons.prems(3,5) by simp_all
    from Cons.IH [OF p that(3) this(1) that(4) this(2) that(5)] show ?thesis
      using r that(2) by (auto simp: prod.case_eq_if)
  qed
  show ?case
  proof (cases e)
    case (Request t m p auth b)
    have now: "now \<le> tk_now t" "sorted (tk_now t # concat (map event_times evs))" using Cons.prems(2) by (auto simp: Request)
    have new: "en_sha512 E (as_slice (tk_token_rnd t)) \<notin> K" "tk_uuid t \<notin> L" using Cons.prems(4,6) by (auto simp: Request)
    have "trimmed K L now \<le> trimmed K L (tk_now t)" using now(1) by (auto simp: le_fun_def elim: trimmed_mono)
    then have "simulates (trimmed K L now) (trimmed (insert (en_sha512 E (as_slice (tk_token_rnd t))) K) (insert (tk_uuid t) L) (tk_now t))
        (react E e)"
      using sim_router [OF new, of m p auth b] by (auto simp: simulates_def paired_def le_fun_def Request)
    then show ?thesis using now(2) Cons.prems(3-6) by (intro same) (auto simp: Request)
  next
    case (CleanupTick t)
    have now: "now \<le> t" "sorted (t # concat (map event_times evs))" using Cons.prems(2) by (auto simp: CleanupTick)
    have "paired (trimmed K L t) (cleanup t s) s'"
      using Cons.prems(1) now(1) trimmed_cleanup by (auto simp: paired_def cleanup_def)
    from Cons.IH [OF this now(2)] Cons.prems(3-6) show ?thesis by (auto simp: CleanupTick prod.case_eq_if)
  next
    case (Attach rid frame m)
    have "simulates (trimmed K L now) (trimmed K L now) (react E e)"
      using sim_sockets(1) [of K L now rid frame m] by (simp add: Attach simulates_def)
    then show ?thesis using Cons.prems(2,4,6) by (intro same) (auto simp: Attach)
  next
    case (Forward rid l)
    have "simulates (trimmed K L now) (trimmed K L now) (react E e)"
      using sim_sockets(2) [of "trimmed K L now" rid l] by (simp add: Forward simulates_def)
    then show ?thesis using Cons.prems(2,4,6) by (intro same) (auto simp: Forward)
  next
    case (Detach rid l)
    have "simulates (trimmed K L now) (trimmed K L now) (react E e)"
      by (auto simp: Detach simulates_def paired_def)
    then show ?thesis using Cons.prems(2,4,6) by (intro same) (auto simp: Detach)
  qed
qed

text \<open>C22: Nobody can tell whether the cleanup worker runs.  Take any sequence of requests, socket events and ticks of the
  worker on a server, with a clock that does not go back, where the random login ids and token hashes of the
  requests are new.  Without the ticks every request and every socket gets the same reply, the
  hub ends the same, and so does every table but the sessions and the stashed logins.\<close>

theorem cleanup_unobservable:
  assumes "sorted (concat (map event_times evs))"
    and "distinct (map sx_token_hash (sv_sessions (ap_db s)) @ concat (map (event_hash E) evs))"
    and "distinct (map lc_login_id (sv_logins (ap_db s)) @ concat (map event_uuid evs))"
  shows "let (replies, t) = run_events E evs s; (replies', t') = run_events E (filter (\<lambda>e. \<not> is_cleanup e) evs) s in
     filter (\<lambda>r. r \<noteq> Silent) replies = filter (\<lambda>r. r \<noteq> Silent) replies' \<and> ap_hub t = ap_hub t' \<and>
     with_auth [] [] (ap_db t) = with_auth [] [] (ap_db t')"
proof -
  let ?now = "case concat (map event_times evs) of [] \<Rightarrow> 0 | t # _ \<Rightarrow> t"
  let ?K = "sx_token_hash ` set (sv_sessions (ap_db s))" and ?L = "lc_login_id ` set (sv_logins (ap_db s))"
  have "trimmed ?K ?L ?now (ap_db s) (ap_db s)"
    by (rule trimmedI [where P = "\<lambda>_. True" and Q = "\<lambda>_. True"]) (use assms(2,3) in \<open>auto simp: keyed_def\<close>)
  then have start: "paired (trimmed ?K ?L ?now) s s" by (simp add: paired_def)
  have "sorted ts \<Longrightarrow> sorted ((case ts of [] \<Rightarrow> 0 | t # _ \<Rightarrow> t) # ts)" for ts :: "int list" by (cases ts) auto
  then have times: "sorted (?now # concat (map event_times evs))" using assms(1) by blast
  have dist: "distinct (concat (map (event_hash E) evs))" "distinct (concat (map event_uuid evs))" using assms(2,3) by simp_all
  have new: "set (concat (map (event_hash E) evs)) \<inter> ?K = {}" "set (concat (map event_uuid evs)) \<inter> ?L = {}"
    using assms(2,3) by auto
  obtain K' L' now' where run:
    "filter (\<lambda>r. r \<noteq> Silent) (fst (run_events E evs s)) =
       filter (\<lambda>r. r \<noteq> Silent) (fst (run_events E (filter (\<lambda>e. \<not> is_cleanup e) evs) s))"
    "paired (trimmed K' L' now') (snd (run_events E evs s)) (snd (run_events E (filter (\<lambda>e. \<not> is_cleanup e) evs) s))"
    using run_trimmed [OF start times dist(1) new(1) dist(2) new(2)] by blast
  then have "with_auth [] [] (ap_db (snd (run_events E evs s))) =
      with_auth [] [] (ap_db (snd (run_events E (filter (\<lambda>e. \<not> is_cleanup e) evs) s)))"
    by (auto simp: paired_def elim!: trimmedE)
  then show ?thesis using run by (auto simp: Let_def paired_def split: prod.split)
qed

definition demo_tick :: "int \<Rightarrow> byte \<Rightarrow> tick" where
  "demo_tick now n = \<lparr> tk_now = now, tk_uuid = fixed_repeat n, tk_token_rnd = fixed_repeat n, tk_nonce = fixed_repeat 0, tk_opaque_rnd = [] \<rparr>"

definition demo_events :: "server_event list" where
  "demo_events = [Request (demo_tick 0 1) GET ''/v1/lists'' demo_header None, CleanupTick session_ttl,
     Request (demo_tick session_ttl 2) GET ''/v1/lists'' demo_header None]"

lemma demo_events_run:
  "run_events toy_senv demo_events demo_app =
     ([Responded (200, RespLists [fixed_repeat 1]), Silent, Responded (401, RespError ''unauthorized'')],
      demo_app\<lparr> ap_db := demo_sdb\<lparr> sv_sessions := [] \<rparr> \<rparr>)"
proof -
  have opened: "auth_extractor toy_senv 0 demo_header demo_app =
      (Inr \<lparr> at_member_id = fixed_repeat 1, at_token_hash = demo_hash, at_device_id = None, at_created_at = 0 \<rparr>, demo_app)"
    by (rule demo_extract) (simp_all add: demo_app_def demo_sdb_def demo_session_row_def session_ttl_def)
  have clean: "cleanup session_ttl demo_app = demo_app\<lparr> ap_db := demo_sdb\<lparr> sv_sessions := [] \<rparr> \<rparr>"
    by (simp add: cleanup_def cleanup_expired_logins_def cleanup_expired_sessions_def demo_app_def demo_sdb_def server_empty_def
        demo_session_row_def)
  have closed: "auth_extractor toy_senv now demo_header (demo_app\<lparr> ap_db := demo_sdb\<lparr> sv_sessions := [] \<rparr> \<rparr>) =
      (Inl Unauthorized, demo_app\<lparr> ap_db := demo_sdb\<lparr> sv_sessions := [] \<rparr> \<rparr>)" for now
    unfolding auth_extractor_def demo_header_def option.case demo_strip demo_trim demo_hash_token sum.case lookup_session_def
    by simp
  show ?thesis
    by (simp add: demo_events_def build_router_def route_lists_def respond_def fetch_lists_route_def handler_simps demo_tick_def
        opened clean closed fetch_user_lists_def) (simp add: demo_app_def demo_sdb_def)
qed

lemma cleanup_unobservable_witness:
  "filter (\<lambda>r. r \<noteq> Silent) (fst (run_events toy_senv (filter (\<lambda>e. \<not> is_cleanup e) demo_events) demo_app)) =
     [Responded (200, RespLists [fixed_repeat 1]), Responded (401, RespError ''unauthorized'')]"
proof -
  have "en_sha512 toy_senv (as_slice (fixed_repeat n :: 32 fixed)) \<noteq> demo_hash" if "n = 1 \<or> n = 2" for n
    using that by (auto simp: demo_hash_def demo_token_def toy_senv_def as_slice_eq_iff [symmetric] ascii_def)
  then have "demo_hash \<noteq> en_sha512 toy_senv (replicate 32 1)" "demo_hash \<noteq> en_sha512 toy_senv (replicate 32 2)"
    by force+
  moreover have "en_sha512 toy_senv (as_slice (fixed_repeat 1 :: 32 fixed)) \<noteq> en_sha512 toy_senv (as_slice (fixed_repeat 2 :: 32 fixed))"
    by (simp add: toy_senv_def as_slice_eq_iff [symmetric])
  ultimately have "distinct (map sx_token_hash (sv_sessions (ap_db demo_app)) @ concat (map (event_hash toy_senv) demo_events))"
    by (auto simp: demo_events_def demo_tick_def demo_app_def demo_sdb_def demo_session_row_def)
  moreover have "distinct (map lc_login_id (sv_logins (ap_db demo_app)) @ concat (map event_uuid demo_events))"
    by (simp add: demo_events_def demo_tick_def demo_app_def demo_sdb_def server_empty_def)
  moreover have "sorted (concat (map event_times demo_events))" by (simp add: demo_events_def demo_tick_def session_ttl_def)
  ultimately show ?thesis
    using cleanup_unobservable [of demo_events demo_app toy_senv] by (simp add: demo_events_run Let_def split: prod.splits)
qed

end
