(* ===== verification/ServerProcess.thy ===== *)
theory ServerProcess
  imports ServerStart ServerWorker
begin

text \<open>
  The server process from its start to its shutdown (\<open>todoers-server/src/main.rs\<close>), with the options of the
  database connection (\<open>db.rs\<close>).  The configuration that was loaded, connecting and migrating, the setup file and the
  listener are the record \<open>server_host\<close>; \<open>env\<close> makes the environment of the handlers from the OPAQUE setup.
\<close>

section \<open>Connecting\<close>

datatype pg_ssl = SslDisable | SslAllow | SslPrefer | SslRequire | SslVerifyCa | SslVerifyFull

text \<open>The options that are set; the driver has defaults for the others.\<close>

record pg_options =
  pg_ssl :: pg_ssl
  pg_database :: string
  pg_statement_cache :: nat
  pg_application :: string
  pg_host :: "string option"
  pg_username :: "string option"
  pg_password :: "string option"
  pg_port :: "16 word option"
  pg_root_cert :: "string option"
  pg_client_cert :: "string option"
  pg_client_key :: "string option"

definition connect_options :: "db_config \<Rightarrow> pg_options" where
  "connect_options c = \<lparr> pg_ssl = SslPrefer, pg_database = dc_database c, pg_statement_cache = 10,
     pg_application = ''todoers-server'', pg_host = dc_host c, pg_username = dc_username c, pg_password = dc_password c,
     pg_port = dc_port c, pg_root_cert = dc_ca_path c, pg_client_cert = dc_cert_path c, pg_client_key = dc_key_path c \<rparr>"

record settings =
  st_database :: db_config
  st_server :: server_config
  st_general :: general_config

record ('s, 'e) server_host =
  sh_config :: "'e + settings"
  sh_connect :: "pg_options \<Rightarrow> 'e + server_db"
  sh_migrate :: "server_db \<Rightarrow> 'e + server_db"
  sh_ser :: "'s \<Rightarrow> bytes"
  sh_de :: "bytes \<Rightarrow> 's option"
  sh_generate :: 's
  sh_read :: "string \<Rightarrow> 'e + bytes"
  sh_parent :: "string \<Rightarrow> 'e parent_path"
  sh_write :: "string \<Rightarrow> 'e option"
  sh_bind :: "string \<Rightarrow> 'e option"
  sh_serve :: "'e option"

definition db_init :: "('s, 'e) server_host \<Rightarrow> db_config \<Rightarrow> 'e + server_db" where
  "db_init H c = (case sh_connect H (connect_options c) of Inl e \<Rightarrow> Inl e | Inr db \<Rightarrow> sh_migrate H db)"

section \<open>The process\<close>

datatype 'e stop = ConfigFailed 'e | DatabaseFailed 'e | SetupFailed "'e setup_error" | BindFailed string 'e | ServeFailed 'e

text \<open>What the process ends with, the replies it gave, its last state if it served, and what it wrote to the setup
  file.  The events are what arrives until the shutdown signal, with the worker's ticks among them; the worker is
  stopped after the last one, so it changes nothing any more.\<close>

record 'e process_end =
  pe_result :: "'e stop + unit"
  pe_replies :: "server_reply list"
  pe_state :: "app_state option"
  pe_setup_file :: "(string \<times> bytes) option"

definition stopped :: "'e stop \<Rightarrow> (string \<times> bytes) option \<Rightarrow> 'e process_end" where
  "stopped e file = \<lparr> pe_result = Inl e, pe_replies = [], pe_state = None, pe_setup_file = file \<rparr>"

definition app_of :: "bool \<Rightarrow> server_db \<Rightarrow> app_state" where
  "app_of verify db = \<lparr> ap_db = db, ap_hub = Map.empty, ap_verify_signatures = verify \<rparr>"

definition server_body :: "('s \<Rightarrow> server_env) \<Rightarrow> ('s, 'e) server_host \<Rightarrow> server_event list \<Rightarrow> 'e process_end" where
  "server_body env H evs =
     (case sh_config H of Inl e \<Rightarrow> stopped (ConfigFailed e) None
      | Inr c \<Rightarrow>
     (case db_init H (st_database c) of Inl e \<Rightarrow> stopped (DatabaseFailed e) None
      | Inr db \<Rightarrow>
     (let path = gc_key_file (st_general c);
          (setup, written) = load_or_init (sh_ser H) (sh_de H) (sh_generate H) (sh_read H path) (sh_parent H path) (sh_write H path);
          file = map_option (Pair path) written in
      case setup of Inl e \<Rightarrow> stopped (SetupFailed e) file
      | Inr s \<Rightarrow>
     (let addr = bind_addr (st_server c) in
      case sh_bind H addr of Some e \<Rightarrow> stopped (BindFailed addr e) file
      | None \<Rightarrow>
          (case run_events (env s) evs (app_of (gc_verify_signatures (st_general c)) db) of
             (replies, st) \<Rightarrow>
               \<lparr> pe_result = (case sh_serve H of Some e \<Rightarrow> Inl (ServeFailed e) | None \<Rightarrow> Inr ()),
                 pe_replies = replies, pe_state = Some st, pe_setup_file = file \<rparr>)))))"

text \<open>The signal: whichever of the two comes first; without Unix signals only the first can come.\<close>

datatype os_signal = CtrlC | Terminate

definition shutdown_signal :: "bool \<Rightarrow> os_signal list \<Rightarrow> os_signal option" where
  "shutdown_signal unix sigs = find (\<lambda>s. s = CtrlC \<or> unix) sigs"

section \<open>What a served database becomes\<close>

text \<open>Every event is at most one step of the server.\<close>

lemma react_step: "snd (react E e s) = s \<or> server_step E s (snd (react E e s))"
proof (cases e)
  case (Request t m p auth b)
  then show ?thesis using build_router_step [of E t m p auth b] by (auto simp: at_most_a_step_def)
qed (auto intro: server_step.intros)

lemma run_reachable:
  "server_reachable E v s \<Longrightarrow> server_reachable E v (snd (run_events E evs s))"
proof (induction evs arbitrary: s)
  case (Cons e evs)
  have "server_reachable E v (snd (react E e s))"
    using react_step [of E e s] Cons.prems server_reachable.step by metis
  from Cons.IH [OF this] show ?case by (simp add: prod.case_eq_if)
qed simp

lemma app_of_new: "app_of v server_empty = app_new v"
  by (simp add: app_of_def app_new_def)

lemma process_reachable:
  assumes "sh_config H = Inr c" and "db_init H (st_database c) = Inr server_empty" and "pe_state (server_body env H evs) = Some st"
  shows "\<exists>s. server_reachable (env s) (gc_verify_signatures (st_general c)) st"
proof -
  have "\<exists>s. st = snd (run_events (env s) evs (app_new (gc_verify_signatures (st_general c))))"
    using assms
    by (auto simp: server_body_def stopped_def Let_def app_of_new split: prod.splits sum.splits option.splits) (metis snd_conv)
  then show ?thesis using run_reachable [OF server_reachable.start] by blast
qed

text \<open>A failed start serves nothing; a failed bind comes after the setup file was written.\<close>

lemma failed_start:
  "pe_state (server_body env H evs) = None \<Longrightarrow> pe_replies (server_body env H evs) = [] \<and> (\<exists>e. pe_result (server_body env H evs) = Inl e)"
  by (auto simp: server_body_def stopped_def Let_def split: prod.splits sum.splits option.splits)

end
