(* ===== verification/Sidebar.thy ===== *)
theory Sidebar
  imports Screens
begin

text \<open>
  The sidebar as a component of its own (\<open>src/todoers/src/components/sidebar.rs\<close>).  The program still draws the sidebar
  of the workspace; the theory shows that the component would show the same rows and answer the same commands, and what
  differs: its width follows the texts, where the workspace reserves 35 columns.
\<close>

section \<open>The component\<close>

record sidebar =
  sb_icon :: icon_type
  sb_focus :: panel
  sb_visible :: bool
  sb_idx :: nat
  sb_keymap :: "home_cmd keymap"
  sb_layout_hint :: string

definition sidebar_new :: sidebar where
  "sidebar_new = \<lparr> sb_icon = NerdFonts, sb_focus = FocusSidebar, sb_visible = True, sb_idx = 0, sb_keymap = [],
     sb_layout_hint = [] \<rparr>"

definition sb_len :: "view_model \<Rightarrow> nat" where
  "sb_len v = length meta_list_all + length (vm_lists v)"

definition sb_target_at :: "view_model \<Rightarrow> nat \<Rightarrow> view_target option" where
  "sb_target_at v idx =
     (if idx < length meta_list_all then Some (TargetMeta (meta_list_all ! idx))
      else if idx - length meta_list_all < length (vm_lists v)
        then Some (TargetList (ls_id (vm_lists v ! (idx - length meta_list_all))))
      else None)"

definition sb_move :: "view_model \<Rightarrow> int \<Rightarrow> sidebar \<Rightarrow> sidebar" where
  "sb_move v delta s =
     (if sb_focus s = FocusSidebar \<and> sb_len v \<noteq> 0
      then s\<lparr> sb_idx := nat ((int (min (sb_idx s) (sb_len v - 1)) + delta) mod int (sb_len v)) \<rparr> else s)"

definition sb_selected :: "view_model \<Rightarrow> sidebar \<Rightarrow> (list_id \<times> string) option" where
  "sb_selected v s =
     (let metas = length meta_list_all; i = sb_idx s in
      if i < metas then None
      else if i - metas < length (vm_lists v) then Some (ls_id (vm_lists v ! (i - metas)), ls_name (vm_lists v ! (i - metas)))
      else None)"

definition sb_command_list :: "view_model \<Rightarrow> sidebar \<Rightarrow> list_id option" where
  "sb_command_list v s = (if sb_focus s = FocusSidebar then map_option fst (sb_selected v s) else None)"

text \<open>The commands; whatever is not listed belongs to the pane.\<close>

definition sb_execute :: "home_cmd \<Rightarrow> view_model \<Rightarrow> sidebar \<Rightarrow> sidebar \<times> app_action option" where
  "sb_execute cmd v s = (case cmd of
     HcFocusSidebar \<Rightarrow> (s\<lparr> sb_focus := FocusSidebar \<rparr>, None)
   | HcFocusPane \<Rightarrow> (s\<lparr> sb_focus := FocusPane \<rparr>, None)
   | HcSelectNext \<Rightarrow> (sb_move v 1 s, None)
   | HcSelectPrev \<Rightarrow> (sb_move v (- 1) s, None)
   | HcShare \<Rightarrow> (s, map_option AcShareModal (sb_command_list v s))
   | HcMembers \<Rightarrow> (s, map_option AcMembersModal (sb_command_list v s))
   | HcRename \<Rightarrow> (s, map_option (\<lambda>(l, n). AcRenameListModal l n) (sb_selected v s))
   | HcDelete \<Rightarrow> (s, if sb_focus s = FocusSidebar then map_option (\<lambda>(l, _). AcConfirmDelete (DelList l)) (sb_selected v s) else None)
   | _ \<Rightarrow> (s, None))"

definition sb_hint :: "home_cmd keymap \<Rightarrow> (home_cmd \<times> string) list \<Rightarrow> string" where
  "sb_hint km its = '' '' @ join_with '' '' (List.map_filter
      (\<lambda>(verb, label). map_option (\<lambda>k. k @ '':'' @ label) (first_key_for km verb)) its) @ '' ''"

definition sb_rebuild_hints :: "sidebar \<Rightarrow> sidebar" where
  "sb_rebuild_hints s = s\<lparr> sb_layout_hint := sb_hint (sb_keymap s)
     [(HcSplitHorizontal, ''split''), (HcSplitVertical, ''stack''), (HcCyclePane, ''pane''), (HcClosePane, ''close'')] \<rparr>"

definition sb_configure :: "icon_type \<Rightarrow> key_bindings \<Rightarrow> sidebar \<Rightarrow> sidebar" where
  "sb_configure icons kb s =
     sb_rebuild_hints (s\<lparr> sb_icon := icons, sb_keymap := compile_keymap (kb CHome) parse_home_cmd \<rparr>)"

definition sb_update :: "app_action \<Rightarrow> sidebar \<Rightarrow> sidebar" where
  "sb_update a s =
     (if a = AcToggleSidebar
      then (let s = s\<lparr> sb_visible := \<not> sb_visible s \<rparr> in if sb_visible s then s else s\<lparr> sb_focus := FocusPane \<rparr>)
      else s)"

text \<open>The width in columns of a text is the terminal library's (\<open>width\<close>); a width that does not fit sixteen bits counts
  as the largest.\<close>

definition padded :: "nat \<Rightarrow> nat \<Rightarrow> nat" where
  "padded extra w = (if w < 65536 then min (w + extra) 65535 else 65535)"

definition sb_placement :: "(string \<Rightarrow> nat) \<Rightarrow> view_model \<Rightarrow> sidebar \<Rightarrow> extent" where
  "sb_placement width v s = Length
     (if sb_visible s
      then min 50 (max (padded 2 (width (sb_layout_hint s)))
        (fold max (map (\<lambda>l. padded 4 (width (ls_name l))) (vm_lists v)) 0))
      else 0)"

definition sb_list_row :: "icon_type \<Rightarrow> list_summary \<Rightarrow> span" where
  "sb_list_row icons l = ('' '' @ list_icon icons @ '' '' @ ls_name l @
     (if ls_open_count l > 0 then '' ('' @ decimal (ls_open_count l) @ '')'' else []), default_look)"

definition sb_rows :: "icon_type \<Rightarrow> view_model \<Rightarrow> span list" where
  "sb_rows icons v =
     map (\<lambda>m. ('' '' @ glyph_star @ '' '' @ meta_list_label m, (fg Cyan)\<lparr> lk_attrs := [Italic] \<rparr>)) meta_list_all @
     map (sb_list_row icons) (vm_lists v)"

definition sb_draw :: "view_model \<Rightarrow> sidebar \<Rightarrow> 'ta widget option" where
  "sb_draw v s =
     (if sb_visible s
      then (let focused = sb_focus s = FocusSidebar in Some (
        ListBox \<lparr> bk_title = ''Lists'', bk_bottom = sb_layout_hint s, bk_border = border_style focused \<rparr> (sb_rows (sb_icon s) v)
          \<lparr> mk_look = highlight_style focused, mk_symbol = glyph_bar, mk_row = Some (min (sb_idx s) (sb_len v - 1)) \<rparr>))
      else None)"

section \<open>The workspace's sidebar is the same\<close>

definition sidebar_of :: "icon_type \<Rightarrow> home \<Rightarrow> sidebar" where
  "sidebar_of icons h = \<lparr> sb_icon = icons, sb_focus = hm_focus h, sb_visible = hm_sidebar_visible h, sb_idx = hm_sidebar_idx h,
     sb_keymap = hm_keymap h, sb_layout_hint = hm_layout_hint h \<rparr>"

lemma sidebar_of_new: "sidebar_of NerdFonts home_new = sidebar_new"
  by (simp add: sidebar_of_def home_new_def sidebar_new_def)

lemma sidebar_of_configure: "sidebar_of icons (home_configure kb h) = sb_configure icons kb (sidebar_of i h)"
  by (simp add: sidebar_of_def home_configure_def sb_configure_def sb_rebuild_hints_def rebuild_hints_def hint_def sb_hint_def)

lemma sidebar_of_update: "sidebar_of icons (home_update a h) = sb_update a (sidebar_of icons h)"
  by (cases a) (auto simp: sidebar_of_def home_update_def sb_update_def Let_def)

lemma sidebar_reads:
  "sb_len v = sidebar_len v" "sb_target_at v i = target_at v i" "sb_selected v (sidebar_of icons h) = selected_user_list v h"
  by (simp_all add: sb_len_def sidebar_len_def sb_target_at_def target_at_def sb_selected_def selected_user_list_def sidebar_of_def Let_def)

text \<open>The commands that are the sidebar's own.\<close>

definition is_sidebar_cmd :: "home_cmd \<Rightarrow> bool" where
  "is_sidebar_cmd c \<longleftrightarrow> c \<in> {HcFocusSidebar, HcFocusPane, HcSelectNext, HcSelectPrev, HcShare, HcMembers, HcRename, HcDelete}"

lemma sidebar_executes:
  assumes "hm_focus h = FocusSidebar" and "is_sidebar_cmd c" and "execute c v h = (h', v', sent)"
  shows "sb_execute c v (sidebar_of icons h) = (sidebar_of icons h', find (\<lambda>_. True) sent) \<and> v' = v \<and> length sent \<le> 1"
  using assms
  by (auto simp: is_sidebar_cmd_def sb_execute_def send_opt_def sidebar_reads sb_command_list_def command_list_def sb_move_def
      move_selection_def step_in_def Let_def sidebar_of_def sb_selected_def selected_user_list_def sidebar_len_def sb_len_def
      split: option.splits if_splits)

lemma sidebar_draws:
  "sb_draw v (sidebar_of icons h) = (if hm_sidebar_visible h then Some (draw_sidebar icons v h) else None)"
  by (simp add: sb_draw_def draw_sidebar_def sidebar_of_def sb_rows_def sidebar_rows_def sb_list_row_def [abs_def]
      list_row_def [abs_def] sidebar_highlight_def sidebar_reads Let_def)

interpretation sidebar_rows_ring: ring_selector sb_idx "sb_len v" "sb_move v 1" "sb_move v (- 1)"
  "\<lambda>s. sb_focus s = FocusSidebar \<and> sb_idx s < sb_len v" for v
  using step_in_mod [of _ "sb_len v"] by unfold_locales (auto simp: sb_move_def step_in_def)

section \<open>The width\<close>

lemma fold_max_ge: "(b :: nat) \<le> fold max xs b" "x \<in> set xs \<Longrightarrow> x \<le> fold max xs b"
proof -
  have ge: "(b :: nat) \<le> fold max ys b" for ys b
    by (induction ys arbitrary: b) (auto intro: order_trans [OF max.cobounded2])
  show "b \<le> fold max xs b" by (rule ge)
  show "x \<le> fold max xs b" if "x \<in> set xs"
    using that by (induction xs arbitrary: b) (auto intro: order_trans [OF max.cobounded1 ge])
qed

text \<open>A visible sidebar has room for its hint and every name with their borders, up to fifty columns, and is never wider.\<close>

lemma placement_fits:
  assumes "sb_visible s"
  shows "\<exists>n. sb_placement width v s = Length n \<and> n \<le> 50 \<and> min 50 (width (sb_layout_hint s) + 2) \<le> n \<and>
     (\<forall>l\<in>set (vm_lists v). min 50 (width (ls_name l) + 4) \<le> n)"
proof -
  let ?xs = "map (\<lambda>l. padded 4 (width (ls_name l))) (vm_lists v)"
  have pad: "min 50 (w + k) \<le> padded k w" for w k by (auto simp: padded_def min_def)
  have "min 50 (width (ls_name l) + 4) \<le> fold max ?xs 0" if "l \<in> set (vm_lists v)" for l
    using fold_max_ge(2) [of "padded 4 (width (ls_name l))" ?xs 0] pad [of "width (ls_name l)" 4] that by fastforce
  then show ?thesis using assms pad [of "width (sb_layout_hint s)" 2] by (fastforce simp: sb_placement_def)
qed

section \<open>The hints\<close>

text \<open>The bindings of the shipped file that the hint reads, and that of \<open>a\<close>.\<close>

definition shipped_home :: "command_spec keymap" where
  "shipped_home = map (\<lambda>(k, c). (case parse_key_sequence k of Inr ks \<Rightarrow> ks | Inl _ \<Rightarrow> [], Bare c))
     [(''|'', ''split_horizontal''), (''-'', ''split_vertical''), (''w'', ''cycle_pane''), (''shift-x'', ''close_pane''),
      (''a'', ''add_todo'')]"

definition rebound_home :: "command_spec keymap" where
  "rebound_home = AList.update (case parse_key_sequence ''a'' of Inr ks \<Rightarrow> ks | Inl _ \<Rightarrow> []) (Bare ''split'') shipped_home"

definition configured :: "command_spec keymap \<Rightarrow> sidebar" where
  "configured km = sb_configure NerdFonts ((\<lambda>_. None)(CHome := Some km)) sidebar_new"

text \<open>The keys those texts stand for.\<close>

lemma no_prefix: "\<not> starts_with [c] ''ctrl-''" "\<not> starts_with [c] ''alt-''" "\<not> starts_with [c] ''opt-''" "\<not> starts_with [c] ''shift-''"
  by (simp_all add: starts_with_def)

lemma extract_single: "extract_modifiers_from [c] m = ([c], m)"
  by (subst extract_modifiers_from.simps) (simp add: no_prefix)

lemma extract_shift_char: "extract_modifiers_from (''shift-'' @ [c]) m = ([c], m\<lparr> m_shift := True \<rparr>)"
  by (subst extract_modifiers_from.simps) (simp add: starts_with_def extract_single)

lemmas key_parsing = parse_key_sequence_def parse_key_event_def extract_modifiers_def extract_single
  extract_shift_char [simplified] parse_key_code_with_modifiers_def key_names_def normalize_key_def key_new_def no_mods_def ascii_upper_def

lemma shipped_keys:
  "parse_key_sequence ''|'' = Inr [key_new (KChar 124) no_mods]" "parse_key_sequence ''-'' = Inr [key_new (KChar 45) no_mods]"
  "parse_key_sequence ''w'' = Inr [key_new (KChar 119) no_mods]" "parse_key_sequence ''shift-x'' = Inr [key_new (KChar 88) no_mods]"
  "parse_key_sequence ''a'' = Inr [key_new (KChar 97) no_mods]"
  by (simp_all add: key_parsing to_lowercase_def lower_char_def less_eq_char_def)

lemma char_key_text: "32 < c \<Longrightarrow> c < 128 \<Longrightarrow> key_sequence_to_string [key_new (KChar c) no_mods] = [char_of c]"
  by (simp add: key_sequence_to_string_def key_event_to_string_def key_new_def no_mods_def join_with_def Keymap.utf8_def)

lemma key_chars: "char_of (124 :: nat) = CHR ''|''" "char_of (45 :: nat) = CHR ''-''" "char_of (119 :: nat) = CHR ''w''"
  "char_of (88 :: nat) = CHR ''X''" "char_of (97 :: nat) = CHR ''a''"
  by code_simp+

lemma key_new_eq: "key_new c m = key_new c' m' \<longleftrightarrow> c = c' \<and> m = m'"
  by (simp add: key_new_def)

lemmas hinting = configured_def sb_configure_def sb_rebuild_hints_def sb_hint_def sidebar_new_def compile_keymap_def
  shipped_home_def shipped_keys parse_home_cmd_def first_key_for_def char_key_text map_filter_simps join_with_def key_new_eq key_chars

lemma shipped_hint: "sb_layout_hint (configured shipped_home) = '' |:split -:stack w:pane X:close ''"
  by (simp add: hinting)

text \<open>The hint of the shipped bindings asks for 34 columns, one less than the workspace reserves.\<close>

lemma shipped_width: "sb_placement length view_default (configured shipped_home) = Length 34"
proof -
  have "sb_visible (configured shipped_home)" by (simp add: configured_def sb_configure_def sb_rebuild_hints_def sidebar_new_def)
  then show ?thesis by (simp add: sb_placement_def shipped_hint padded_def view_default_def)
qed

text \<open>Rebinding \<open>a\<close> to \<open>split\<close>, which is not a command, drops the binding of \<open>a\<close>, and the hint stays.  The component's own
  test expects \<open>a:split\<close> instead.\<close>

lemma unknown_command_keeps_hint:
  "sb_layout_hint (configured rebound_home) = sb_layout_hint (configured shipped_home)"
  "first_key_for (sb_keymap (configured shipped_home)) HcAddTodo = Some ''a''"
  "first_key_for (sb_keymap (configured rebound_home)) HcAddTodo = None"
  by (simp_all add: hinting rebound_home_def)

end
