(* ===== verification/EnvelopeFile.thy ===== *)
theory EnvelopeFile
  imports Startup TpmStore
begin

text \<open>
  The recipients of the envelope file as they are stored (\<open>src/todoers-client/src/device_key/mod.rs\<close>): byte arrays as
  hexadecimal text, which \<open>hex\<close> writes and \<open>unhex\<close> reads; and which key store a platform has (\<open>device_key/macos.rs\<close>,
  \<open>device_key/linux/mod.rs\<close>).  Fields are read in the order in which the program writes them.
\<close>

section \<open>Stored recipients\<close>

definition ENCAPSULATION_KEY_SIZE :: nat where "ENCAPSULATION_KEY_SIZE = 1216"

record stored_device =
  sd_id :: string
  sd_label :: string
  sd_backend :: device_backend
  sd_encapsulation_key :: string
  sd_kem_ciphertext :: string
  sd_wrapped_key :: bytes
  sd_nonce :: string
  sd_kek_salt :: string

record stored_password =
  sp_id :: string
  sp_label :: string
  sp_argon2_salt :: string
  sp_memory_kib :: nat
  sp_time_cost :: nat
  sp_parallelism :: nat
  sp_wrapped_key :: bytes
  sp_nonce :: string
  sp_kek_salt :: string

datatype stored_recipient = StoredDevice stored_device | StoredPassword stored_password

fun dbind :: "'a decoded \<Rightarrow> ('a \<Rightarrow> 'b decoded) \<Rightarrow> 'b decoded" where
  "dbind (Decoded x) f = f x"
| "dbind BadText f = BadText"
| "dbind Panicked f = Panicked"

text \<open>The four modules of the array types.\<close>

definition hex_ciphertext_serialize :: "(bytes \<Rightarrow> string) \<Rightarrow> bytes \<Rightarrow> string" where
  "hex_ciphertext_serialize hex bs = hex bs"
definition hex_enc_key_serialize :: "(bytes \<Rightarrow> string) \<Rightarrow> bytes \<Rightarrow> string" where
  "hex_enc_key_serialize hex bs = hex bs"
definition hex16_serialize :: "(bytes \<Rightarrow> string) \<Rightarrow> 16 fixed \<Rightarrow> string" where
  "hex16_serialize hex bs = hex (as_slice bs)"
definition hex24_serialize :: "(bytes \<Rightarrow> string) \<Rightarrow> nonce \<Rightarrow> string" where
  "hex24_serialize hex bs = hex (as_slice bs)"

definition hex_ciphertext_deserialize :: "(string \<Rightarrow> bytes option) \<Rightarrow> string \<Rightarrow> bytes decoded" where
  "hex_ciphertext_deserialize unhex s = hex_array_decode unhex kem_ciphertext_size s"
definition hex_enc_key_deserialize :: "(string \<Rightarrow> bytes option) \<Rightarrow> string \<Rightarrow> bytes decoded" where
  "hex_enc_key_deserialize unhex s = hex_array_decode unhex ENCAPSULATION_KEY_SIZE s"
definition hex16_deserialize :: "(string \<Rightarrow> bytes option) \<Rightarrow> string \<Rightarrow> (16 fixed) decoded" where
  "hex16_deserialize unhex s = dbind (hex_array_decode unhex 16 s) (\<lambda>bs. Decoded (fixed_of_slice bs))"
definition hex24_deserialize :: "(string \<Rightarrow> bytes option) \<Rightarrow> string \<Rightarrow> nonce decoded" where
  "hex24_deserialize unhex s = dbind (hex_array_decode unhex 24 s) (\<lambda>bs. Decoded (fixed_of_slice bs))"

lemmas hex_modules = hex_ciphertext_serialize_def hex_enc_key_serialize_def hex16_serialize_def hex24_serialize_def
  hex_ciphertext_deserialize_def hex_enc_key_deserialize_def hex16_deserialize_def hex24_deserialize_def

text \<open>The derived reader and writer of a recipient.\<close>

fun recipient_serialize :: "(bytes \<Rightarrow> string) \<Rightarrow> recipient_envelope \<Rightarrow> stored_recipient" where
  "recipient_serialize hex (DeviceXWing r) = StoredDevice \<lparr> sd_id = dr_id r, sd_label = dr_label r, sd_backend = dr_backend r,
     sd_encapsulation_key = hex_enc_key_serialize hex (dr_encapsulation_key r), sd_kem_ciphertext = hex_ciphertext_serialize hex (dr_kem_ciphertext r),
     sd_wrapped_key = dr_wrapped_key r, sd_nonce = hex24_serialize hex (dr_nonce r), sd_kek_salt = hex16_serialize hex (dr_kek_salt r) \<rparr>"
| "recipient_serialize hex (Password r) = StoredPassword \<lparr> sp_id = pr_id r, sp_label = pr_label r,
     sp_argon2_salt = hex16_serialize hex (pr_argon2_salt r), sp_memory_kib = pr_memory_kib r, sp_time_cost = pr_time_cost r,
     sp_parallelism = pr_parallelism r, sp_wrapped_key = pr_wrapped_key r, sp_nonce = hex24_serialize hex (pr_nonce r),
     sp_kek_salt = hex16_serialize hex (pr_kek_salt r) \<rparr>"

fun recipient_deserialize :: "(string \<Rightarrow> bytes option) \<Rightarrow> stored_recipient \<Rightarrow> recipient_envelope decoded" where
  "recipient_deserialize unhex (StoredDevice d) =
     dbind (hex_enc_key_deserialize unhex (sd_encapsulation_key d)) (\<lambda>ek.
     dbind (hex_ciphertext_deserialize unhex (sd_kem_ciphertext d)) (\<lambda>ct.
     dbind (hex24_deserialize unhex (sd_nonce d)) (\<lambda>nonce.
     dbind (hex16_deserialize unhex (sd_kek_salt d)) (\<lambda>salt.
       Decoded (DeviceXWing \<lparr> dr_id = sd_id d, dr_label = sd_label d, dr_backend = sd_backend d, dr_encapsulation_key = ek,
         dr_kem_ciphertext = ct, dr_wrapped_key = sd_wrapped_key d, dr_nonce = nonce, dr_kek_salt = salt \<rparr>)))))"
| "recipient_deserialize unhex (StoredPassword p) =
     dbind (hex16_deserialize unhex (sp_argon2_salt p)) (\<lambda>asalt.
     dbind (hex24_deserialize unhex (sp_nonce p)) (\<lambda>nonce.
     dbind (hex16_deserialize unhex (sp_kek_salt p)) (\<lambda>salt.
       Decoded (Password \<lparr> pr_id = sp_id p, pr_label = sp_label p, pr_argon2_salt = asalt, pr_memory_kib = sp_memory_kib p,
         pr_time_cost = sp_time_cost p, pr_parallelism = sp_parallelism p, pr_wrapped_key = sp_wrapped_key p,
         pr_nonce = nonce, pr_kek_salt = salt \<rparr>))))"

fun recipients_deserialize :: "(string \<Rightarrow> bytes option) \<Rightarrow> stored_recipient list \<Rightarrow> recipient_envelope list decoded" where
  "recipients_deserialize unhex [] = Decoded []"
| "recipients_deserialize unhex (r # rs) =
     dbind (recipient_deserialize unhex r) (\<lambda>x. dbind (recipients_deserialize unhex rs) (\<lambda>xs. Decoded (x # xs)))"

text \<open>The sizes that the array types of the code enforce.\<close>

fun recipient_sized :: "recipient_envelope \<Rightarrow> bool" where
  "recipient_sized (DeviceXWing r) \<longleftrightarrow>
     length (dr_encapsulation_key r) = ENCAPSULATION_KEY_SIZE \<and> length (dr_kem_ciphertext r) = kem_ciphertext_size"
| "recipient_sized (Password r) \<longleftrightarrow> True"

section \<open>What was written is read back\<close>

lemma hex_array_decode_hex [simp]:
  assumes "\<And>bs. unhex (hex bs) = Some bs"
  shows "hex_array_decode unhex n (hex bs) = (if length bs = n then Decoded bs else Panicked)"
  using hex_array_outcome [of unhex hex n bs] assms by simp

lemma recipient_read_back:
  assumes "\<And>bs. unhex (hex bs) = Some bs" and "recipient_sized r"
  shows "recipient_deserialize unhex (recipient_serialize hex r) = Decoded r"
  using assms(2) by (cases r) (simp_all add: hex_modules hex_array_decode_hex [OF assms(1)])

lemma recipients_read_back:
  assumes "\<And>bs. unhex (hex bs) = Some bs" and "list_all recipient_sized rs"
  shows "recipients_deserialize unhex (map (recipient_serialize hex) rs) = Decoded rs"
  using assms(2) by (induction rs) (simp_all add: recipient_read_back [OF assms(1)])

text \<open>The envelope of the first start has those sizes as far as the KEM has its own, so its recipients are read back.\<close>

lemma created_recipients_read_back:
  assumes "create_new_database_keys C H R store uuid password = Inr (env, store')"
    and "\<And>bs. unhex (hex bs) = Some bs"
    and "\<And>sk. length (c_kem_public C sk) = ENCAPSULATION_KEY_SIZE"
    and "\<And>pk rnd. length (fst (c_encapsulate C pk rnd)) = kem_ciphertext_size"
  shows "recipients_deserialize unhex (map (recipient_serialize hex) (ke_recipients env)) = Decoded (ke_recipients env)"
proof (rule recipients_read_back)
  show "list_all recipient_sized (ke_recipients env)"
    using assms(1,3) assms(4) [of "c_kem_public C (er_device_sk R)" "er_encap R"]
    by (auto simp: create_new_database_keys_def create_device_xwing_recipient_def create_password_recipient_def Let_def
        split: sum.splits prod.splits)
qed (fact assms(2))

text \<open>One array of another size makes reading the whole file panic, whatever the recipients after it are.\<close>

lemma short_salt_panics:
  assumes "unhex (sp_argon2_salt p) = Some bs" and "length bs \<noteq> 16"
  shows "recipients_deserialize unhex (StoredPassword p # rs) = Panicked"
  using assms by (simp add: hex_modules hex_array_decode_def)

section \<open>Platforms\<close>

datatype platform = Linux | MacOs | Windows

text \<open>Making and dropping the macOS store registers and unregisters the default store as on Linux.\<close>

definition macos_keychain_new :: "keyring \<Rightarrow> (unit + unit) \<times> keyring" where
  "macos_keychain_new k = (if kr_available k then (Inr (), k\<lparr> kr_default := True \<rparr>) else (Inl (), k))"

definition macos_keychain_drop :: "keyring \<Rightarrow> keyring" where
  "macos_keychain_drop k = k\<lparr> kr_default := False \<rparr>"

text \<open>The selected store; on Windows the function has no branch that defines one, and does not compile.\<close>

fun select_device_store :: "platform \<Rightarrow> (keyring \<Rightarrow> (unit + device_backend) \<times> keyring) option" where
  "select_device_store Linux = Some (\<lambda>k. apfst (map_sum id (\<lambda>_. LinuxSecretService)) (secret_service_new k))"
| "select_device_store MacOs = Some (\<lambda>k. apfst (map_sum id (\<lambda>_. MacosKeychain)) (macos_keychain_new k))"
| "select_device_store Windows = None"

text \<open>On another platform than that of its device recipient, an envelope is opened with the recovery key only.\<close>

lemma find_device_backend: "find_device b rs = Some d \<Longrightarrow> dr_backend d = b"
  by (induction b rs rule: find_device.induct) (auto split: if_splits)

lemma other_platform:
  assumes "create_new_database_keys C H R store uuid password = Inr (env, store')" and "ds_backend other \<noteq> ds_backend store"
  shows "unlock_with_device C H other env = Inl NoDevRecipient"
  using assms
  by (auto simp: create_new_database_keys_def create_device_xwing_recipient_def create_password_recipient_def
      unlock_with_device_def Let_def split: sum.splits prod.splits)

end
