(* ===== verification/ActionLog.thy ===== *)
theory ActionLog
  imports Display
begin

text \<open>
  What the program tells of its actions (\<open>Display\<close> in \<open>action.rs\<close>, the \<open>debug!\<close> at the head of \<open>dispatch_action\<close> in
  \<open>app.rs\<close>).  Some actions carry a password or keys; the theory shows where those are kept out and where they are not.
\<close>

section \<open>The text of an action\<close>

fun mode_text :: "app_mode \<Rightarrow> string" where
  "mode_text MHome = ''Home''"
| "mode_text MRegister = ''Register''"
| "mode_text MLogin = ''Login''"

text \<open>The derived debug texts of the two types that are printed so.\<close>

record debug_texts =
  dt_target :: "view_target \<Rightarrow> string"
  dt_delete :: "delete_target \<Rightarrow> string"

fun action_text :: "debug_texts \<Rightarrow> app_action \<Rightarrow> string" where
  "action_text D AcTick = ''Tick''"
| "action_text D AcRender = ''Render''"
| "action_text D (AcResize w h) = ''Resize to '' @ decimal w @ '' x '' @ decimal h"
| "action_text D AcSuspend = ''Suspend''"
| "action_text D AcResume = ''Resume''"
| "action_text D AcQuit = ''Quit''"
| "action_text D AcClearScreen = ''Clear screen''"
| "action_text D (AcError msg) = ''Error '' @ msg"
| "action_text D AcHelpModal = ''Help''"
| "action_text D AcAuthChooser = ''Auth chooser''"
| "action_text D AcRegisterModal = ''Register''"
| "action_text D AcLoginModal = ''Login''"
| "action_text D AcCloseModal = ''Close modal''"
| "action_text D AcFocusButtons = ''Focus buttons''"
| "action_text D AcSubmitForm = ''Submit form''"
| "action_text D (AcSetMode m) = ''Go '' @ mode_text m"
| "action_text D AcStartCapture = ''Start key capture''"
| "action_text D AcStopCapture = ''Stop key capture''"
| "action_text D AcUnlockModal = ''Unlock todoers''"
| "action_text D AcDeviceUnlock = ''Device unlock''"
| "action_text D (AcUnlock _) = ''Unlock keys''"
| "action_text D AcToggleSidebar = ''Toggle sidebar''"
| "action_text D (AcRegister u _) = ''Register '' @ u"
| "action_text D (AcLogin u _) = ''Login '' @ u"
| "action_text D (AcKeys _) = ''Cryptographic keys''"
| "action_text D (AcOpenView t i) = ''Open view '' @ dt_target D t @ '' in pane '' @ decimal i"
| "action_text D AcRefreshLists = ''Refresh lists''"
| "action_text D AcNewListModal = ''New list''"
| "action_text D (AcCreateList name) = ''Create list '' @ name"
| "action_text D (AcRenameListModal _ name) = ''Rename list '' @ name"
| "action_text D (AcRenameList _ name) = ''Rename list '' @ name"
| "action_text D (AcAddTodoModal _) = ''Add todo''"
| "action_text D (AcEditTodoModal _ i) = ''Edit todo '' @ i"
| "action_text D (AcSaveTodo _ _ input) = ''Save todo '' @ in_title input"
| "action_text D (AcToggleDone _ i) = ''Toggle done '' @ i"
| "action_text D (AcConfirmDelete t) = ''Confirm delete '' @ dt_delete D t"
| "action_text D (AcDeleteList _) = ''Delete list''"
| "action_text D (AcDeleteTodo _ i) = ''Delete todo '' @ i"
| "action_text D (AcShareModal _) = ''Share list''"
| "action_text D (AcShareList _ u) = ''Share with '' @ u"
| "action_text D (AcAddResolvedMember _ _) = ''Add resolved member''"
| "action_text D (AcMembersModal _) = ''List members''"
| "action_text D (AcUnshare _ _) = ''Unshare''"
| "action_text D AcCycleSort = ''Cycle sort''"
| "action_text D AcOpenEditReady = ''Open edit (ready)''"
| "action_text D AcOpenMembersReady = ''Open members (ready)''"

section \<open>The log\<close>

text \<open>The actions whose derived debug text, with all their fields, is written to the log at the debug level.\<close>

fun debug_logged :: "app_action \<Rightarrow> bool" where
  "debug_logged AcTick = False"
| "debug_logged AcRender = False"
| "debug_logged (AcRegister _ _) = False"
| "debug_logged (AcLogin _ _) = False"
| "debug_logged (AcKeys _) = False"
| "debug_logged _ = True"

definition turn_log :: "'ta app \<Rightarrow> app_action list" where
  "turn_log a = filter debug_logged (ap_queue a)"

text \<open>The same action with its secrets blanked.\<close>

fun censor :: "app_action \<Rightarrow> app_action" where
  "censor (AcRegister u _) = AcRegister u []"
| "censor (AcLogin u _) = AcLogin u []"
| "censor (AcUnlock _) = AcUnlock []"
| "censor (AcKeys k) = AcKeys (k\<lparr> ul_identity_secret := fixed_repeat 0, ul_signing_seed := fixed_repeat 0, ul_token := [] \<rparr>)"
| "censor a = a"

lemma censored_text: "action_text D (censor a) = action_text D a"
  by (cases a) simp_all

lemma censored_logged: "debug_logged (censor a) = debug_logged a"
  by (cases a) simp_all

lemma censored_same: "debug_logged a \<Longrightarrow> censor a = a \<longleftrightarrow> (\<forall>p. a = AcUnlock p \<longrightarrow> p = [])"
  by (cases a) auto

lemma censored_log:
  "filter debug_logged (map censor acts) = filter debug_logged acts \<longleftrightarrow> (\<forall>p. AcUnlock p \<in> set acts \<longrightarrow> p = [])"
proof (induction acts)
  case (Cons a acts)
  show ?case
  proof (cases "debug_logged a")
    case True
    then show ?thesis using Cons censored_same [OF True] by (auto simp: censored_logged)
  next
    case False
    then have "a \<noteq> AcUnlock p" for p by auto
    then show ?thesis using Cons False by (auto simp: censored_logged)
  qed
qed simp


definition demo_unlocking :: "string list app" where
  "demo_unlocking = demo_app\<lparr> ap_modal := Some (modal_form ''Unlock''
       (BUnlock ((unlock_new demo_widget)\<lparr> uf_password := demo_field ''pw'' \<rparr>)) AcAuthChooser),
     ap_queue := [AcSubmitForm] \<rparr>"


end
